(* ===== verification/Rsu_Prelude.thy ===== *)
theory Rsu_Prelude
  imports Main "HOL-Library.Word" "HOL-Library.Monad_Syntax"
begin

unbundle bit_operations_syntax

text \<open>
  The base of the development: the C types of \<^verbatim>\<open>RSU_OSAL_types.h\<close>, the error codes, C strings,
  byte buffers and the little-endian layout of integers in memory, with the lemmas every
  component shares.

  Conventions of the model.
  \<^item> A byte is an \<^verbatim>\<open>8 word\<close>, \<^verbatim>\<open>RSU_OSAL_U32\<close> and \<^verbatim>\<open>RSU_OSAL_U64\<close> are words of their width, so
    their arithmetic wraps as in C.
  \<^item> \<^verbatim>\<open>RSU_OSAL_INT\<close> (return codes, slot and partition numbers) and \<^verbatim>\<open>RSU_OSAL_OFFSET\<close> are
    \<^typ>\<open>int\<close>; every conversion from a word is written out with \<^const>\<open>sint\<close> or \<^const>\<open>uint\<close>.
  \<^item> The result type of a function that the C standard may leave undefined on some input (a
    read or write outside an object, a use of a NULL or freed pointer, signed overflow) is an
    \<^typ>\<open>'a option\<close>: \<^const>\<open>None\<close> is undefined behaviour, never an error code. Error codes
    are ordinary results, the negative integers the code returns.
  \<^item> The target is little-endian with unsigned \<^verbatim>\<open>char\<close> (linux-aarch64).
\<close>

section \<open>C types\<close>

type_synonym byte = "8 word"
type_synonym u32 = "32 word"
type_synonym u64 = "64 word"

section \<open>Error codes\<close>

text \<open>The codes of the library, \<^verbatim>\<open>include/libRSU.h\<close>.\<close>

abbreviation (input) ELIB :: int where "ELIB \<equiv> 1"
abbreviation (input) ECFG :: int where "ECFG \<equiv> 2"
abbreviation (input) ESLOTNUM :: int where "ESLOTNUM \<equiv> 3"
abbreviation (input) EFORMAT :: int where "EFORMAT \<equiv> 4"
abbreviation (input) EERASE :: int where "EERASE \<equiv> 5"
abbreviation (input) EPROGRAM :: int where "EPROGRAM \<equiv> 6"
abbreviation (input) ECMP :: int where "ECMP \<equiv> 7"
abbreviation (input) ESIZE :: int where "ESIZE \<equiv> 8"
abbreviation (input) ENAME :: int where "ENAME \<equiv> 9"
abbreviation (input) EFILEIO :: int where "EFILEIO \<equiv> 10"
abbreviation (input) ECALLBACK :: int where "ECALLBACK \<equiv> 11"
abbreviation (input) ELOWLEVEL :: int where "ELOWLEVEL \<equiv> 12"
abbreviation (input) EWRPROT :: int where "EWRPROT \<equiv> 13"
abbreviation (input) EARGS :: int where "EARGS \<equiv> 14"
abbreviation (input) ECORRUPTED_CPB :: int where "ECORRUPTED_CPB \<equiv> 15"
abbreviation (input) ECORRUPTED_SPT :: int where "ECORRUPTED_SPT \<equiv> 16"

text \<open>The \<^verbatim>\<open>errno\<close> values of the C library that the lower layers return.\<close>

abbreviation (input) EPERM :: int where "EPERM \<equiv> 1"
abbreviation (input) ENOENT :: int where "ENOENT \<equiv> 2"
abbreviation (input) EIO :: int where "EIO \<equiv> 5"
abbreviation (input) ENXIO :: int where "ENXIO \<equiv> 6"
abbreviation (input) ENOEXEC :: int where "ENOEXEC \<equiv> 8"
abbreviation (input) EBADF :: int where "EBADF \<equiv> 9"
abbreviation (input) ENOMEM :: int where "ENOMEM \<equiv> 12"
abbreviation (input) EACCES :: int where "EACCES \<equiv> 13"
abbreviation (input) EFAULT :: int where "EFAULT \<equiv> 14"
abbreviation (input) EEXIST :: int where "EEXIST \<equiv> 17"
abbreviation (input) ENODEV :: int where "ENODEV \<equiv> 19"
abbreviation (input) EINVAL :: int where "EINVAL \<equiv> 22"
abbreviation (input) ENFILE :: int where "ENFILE \<equiv> 23"
abbreviation (input) EFBIG :: int where "EFBIG \<equiv> 27"
abbreviation (input) ESPIPE :: int where "ESPIPE \<equiv> 29"
abbreviation (input) EADDRINUSE :: int where "EADDRINUSE \<equiv> 98"
abbreviation (input) EADDRNOTAVAIL :: int where "EADDRNOTAVAIL \<equiv> 99"

section \<open>Proof support for option-valued code\<close>

text \<open>
  \<open>bind_splits\<close> turns a statement \<open>do { ... } = Some r\<close> about a run of the code into the
  equations of its steps.
\<close>

lemmas bind_splits = Option.bind_eq_Some_conv split_paired_Ex

lemma case_prod_eq_Some_conv:
  "(case p of (a, b) \<Rightarrow> f a b) = Some r \<longleftrightarrow> (\<exists>a b. p = (a, b) \<and> f a b = Some r)"
  by (cases p) simp

text \<open>An ordering condition that holds as soon as the later element is in the tail.\<close>

lemma sorted_wrt_later:
  assumes "\<And>y z. z \<in> set Q \<Longrightarrow> R y z" shows "sorted_wrt R (x # Q)"
  using assms by (induction Q arbitrary: x) auto

section \<open>Byte buffers\<close>

text \<open>\<^verbatim>\<open>memcpy\<close> into a buffer at an offset.\<close>

definition overlay :: "'a list \<Rightarrow> nat \<Rightarrow> 'a list \<Rightarrow> 'a list" where
  "overlay buf off xs = take off buf @ xs @ drop (off + length xs) buf"

definition chunk :: "'a list \<Rightarrow> nat \<Rightarrow> nat \<Rightarrow> 'a list" where
  "chunk buf off n = take n (drop off buf)"

lemma length_overlay [simp]:
  "off + length xs \<le> length buf \<Longrightarrow> length (overlay buf off xs) = length buf"
  by (simp add: overlay_def)

lemma length_chunk [simp]:
  "off + n \<le> length buf \<Longrightarrow> length (chunk buf off n) = n"
  by (simp add: chunk_def)

lemma nth_overlay:
  assumes "off + length xs \<le> length buf" "i < length buf"
  shows "overlay buf off xs ! i =
    (if off \<le> i \<and> i < off + length xs then xs ! (i - off) else buf ! i)"
  using assms by (auto simp: overlay_def nth_append)

lemma nth_chunk [simp]:
  "off + n \<le> length buf \<Longrightarrow> i < n \<Longrightarrow> chunk buf off n ! i = buf ! (off + i)"
  by (simp add: chunk_def)

lemma chunk_overlay_same:
  "off + length xs \<le> length buf \<Longrightarrow> n = length xs \<Longrightarrow> chunk (overlay buf off xs) off n = xs"
  by (simp add: chunk_def overlay_def)

lemma chunk_overlay_other:
  assumes "off + length xs \<le> length buf" "o2 + n \<le> length buf"
    and "o2 + n \<le> off \<or> off + length xs \<le> o2"
  shows "chunk (overlay buf off xs) o2 n = chunk buf o2 n"
  using assms by (intro nth_equalityI) (auto simp: nth_overlay)

lemma overlay_chunk_same: "off + n \<le> length buf \<Longrightarrow> overlay buf off (chunk buf off n) = buf"
  by (intro nth_equalityI) (auto simp: nth_overlay)

lemma overlay_overlay_same:
  "off + length xs \<le> length buf \<Longrightarrow> length ys = length xs \<Longrightarrow>
   overlay (overlay buf off xs) off ys = overlay buf off ys"
  by (intro nth_equalityI) (auto simp: nth_overlay)

lemma chunk_0_all [simp]: "n = length buf \<Longrightarrow> chunk buf 0 n = buf"
  by (simp add: chunk_def)

lemma chunk_append_left: "off + n \<le> length xs \<Longrightarrow> chunk (xs @ ys) off n = chunk xs off n"
  by (simp add: chunk_def)

lemma chunk_append_right:
  "length xs \<le> off \<Longrightarrow> chunk (xs @ ys) off n = chunk ys (off - length xs) n"
  by (simp add: chunk_def)

text \<open>Arrays of fixed-width elements: the element at an index is the chunk at its offset.\<close>

lemma length_concat_fixed:
  "(\<And>x. x \<in> set xs \<Longrightarrow> length (f x) = w) \<Longrightarrow> length (concat (map f xs)) = w * length xs"
  by (induction xs) auto

lemma chunk_concat_fixed:
  assumes "\<And>x. x \<in> set xs \<Longrightarrow> length (f x) = w" and "i < length xs"
  shows "chunk (concat (map f xs)) (w * i) w = f (xs ! i)"
  using assms
proof (induction xs arbitrary: i)
  case Nil
  then show ?case by simp
next
  case (Cons x xs)
  show ?case
  proof (cases i)
    case 0
    with Cons.prems show ?thesis by (simp add: chunk_def)
  next
    case (Suc j)
    have "chunk (concat (map f (x # xs))) (w * i) w = chunk (concat (map f xs)) (w * j) w"
      using Cons.prems(1) [of x] Suc by (simp add: chunk_append_right)
    with Cons.IH [of j] Cons.prems Suc show ?thesis by simp
  qed
qed

lemma concat_chunks:
  "length buf = w * n \<Longrightarrow> concat (map (\<lambda>i. chunk buf (w * i) w) [0..<n]) = buf"
proof (induction n arbitrary: buf)
  case 0
  then show ?case by simp
next
  case (Suc n)
  let ?b = "take (w * n) buf"
  have "concat (map (\<lambda>i. chunk buf (w * i) w) [0..<n]) = concat (map (\<lambda>i. chunk ?b (w * i) w) [0..<n])"
  proof (intro arg_cong [where f = concat] map_cong refl)
    fix i assume "i \<in> set [0..<n]"
    then have "Suc i \<le> n" by simp
    then have "w * Suc i \<le> w * n" by (rule mult_le_mono2)
    then show "chunk buf (w * i) w = chunk ?b (w * i) w"
      by (simp add: chunk_def drop_take)
  qed
  also have "\<dots> = ?b" using Suc.prems by (intro Suc.IH) simp
  finally show ?case using Suc.prems by (simp add: chunk_def)
qed

lemma chunk_chunk: "i + n \<le> m \<Longrightarrow> chunk (chunk buf off m) i n = chunk buf (off + i) n"
  by (simp add: chunk_def drop_take add.commute min_def)

section \<open>Integers in memory\<close>

text \<open>
  \<open>le_bytes n w\<close> is the \<open>n\<close>-byte little-endian image of \<open>w\<close> in memory, \<open>le_word\<close> reads it
  back. Reading a \<^verbatim>\<open>RSU_OSAL_U32\<close> or \<^verbatim>\<open>RSU_OSAL_U64\<close> through a pointer into a byte buffer is
  \<open>u32_at\<close> and \<open>u64_at\<close>.
\<close>

definition le_bytes :: "nat \<Rightarrow> 'a::len word \<Rightarrow> byte list" where
  "le_bytes n w = map (\<lambda>i. ucast (drop_bit (8 * i) w)) [0..<n]"

fun le_word :: "byte list \<Rightarrow> 'a::len word" where
  "le_word [] = 0"
| "le_word (b # bs) = ucast b OR push_bit 8 (le_word bs)"

definition u32_at :: "byte list \<Rightarrow> nat \<Rightarrow> u32" where
  "u32_at buf off = le_word (chunk buf off 4)"

definition u64_at :: "byte list \<Rightarrow> nat \<Rightarrow> u64" where
  "u64_at buf off = le_word (chunk buf off 8)"

lemma length_le_bytes [simp]: "length (le_bytes n w) = n"
  by (simp add: le_bytes_def)

lemma nth_le_bytes: "i < n \<Longrightarrow> le_bytes n w ! i = ucast (drop_bit (8 * i) w)"
  by (simp add: le_bytes_def)

lemma bit_le_bytes:
  "i < n \<Longrightarrow> bit (le_bytes n (w :: 'a::len word) ! i) k \<longleftrightarrow> k < 8 \<and> bit w (8 * i + k)"
  by (auto simp: nth_le_bytes bit_ucast_iff bit_drop_bit_eq)

lemma bit_le_word:
  "bit (le_word bs :: 'a::len word) k \<longleftrightarrow>
   k < LENGTH('a) \<and> k div 8 < length bs \<and> bit (bs ! (k div 8)) (k mod 8)"
proof (induction bs arbitrary: k)
  case Nil
  then show ?case by simp
next
  case (Cons b bs)
  show ?case
  proof (cases "k < 8")
    case True
    then show ?thesis
      by (auto simp: bit_or_iff bit_ucast_iff bit_push_bit_iff)
  next
    case False
    then have *: "k div 8 = Suc ((k - 8) div 8)" "k mod 8 = (k - 8) mod 8"
      by (auto simp: le_div_geq le_mod_geq)
    have nb: "\<not> bit b k" using False bit_imp_le_length [of b k] by auto
    have "bit (le_word (b # bs) :: 'a word) k \<longleftrightarrow>
        k < LENGTH('a) \<and> bit (le_word bs :: 'a word) (k - 8)"
      using False nb by (auto simp: bit_or_iff bit_ucast_iff bit_push_bit_iff)
    then show ?thesis
      unfolding Cons.IH * by auto
  qed
qed

lemma le_word_le_bytes:
  assumes "LENGTH('a) \<le> 8 * n"
  shows "le_word (le_bytes n w) = (w :: 'a::len word)"
proof (rule bit_word_eqI)
  fix k assume "k < LENGTH('a)"
  with assms have "k div 8 < n" by (simp add: less_mult_imp_div_less mult.commute)
  then show "bit (le_word (le_bytes n w) :: 'a word) k \<longleftrightarrow> bit w k"
    using \<open>k < LENGTH('a)\<close> by (simp add: bit_le_word bit_le_bytes)
qed

lemma le_bytes_le_word:
  assumes "8 * length bs \<le> LENGTH('a)"
  shows "le_bytes (length bs) (le_word bs :: 'a::len word) = bs"
proof (rule nth_equalityI)
  fix i assume i: "i < length (le_bytes (length bs) (le_word bs :: 'a word))"
  show "le_bytes (length bs) (le_word bs :: 'a word) ! i = bs ! i"
  proof (rule bit_word_eqI)
    fix k assume "k < LENGTH(8)"
    with i assms show "bit (le_bytes (length bs) (le_word bs :: 'a word) ! i) k \<longleftrightarrow> bit (bs ! i) k"
      by (simp add: bit_le_bytes bit_le_word)
  qed
qed simp

lemma le_bytes_4_u32_at: "off + 4 \<le> length buf \<Longrightarrow> le_bytes 4 (u32_at buf off) = chunk buf off 4"
  using le_bytes_le_word [of "chunk buf off 4", where 'a = 32] by (simp add: u32_at_def)

lemma le_bytes_8_u64_at: "off + 8 \<le> length buf \<Longrightarrow> le_bytes 8 (u64_at buf off) = chunk buf off 8"
  using le_bytes_le_word [of "chunk buf off 8", where 'a = 64] by (simp add: u64_at_def)

lemma u32_at_overlay_same:
  "off + 4 \<le> length buf \<Longrightarrow> u32_at (overlay buf off (le_bytes 4 w)) off = w"
  by (simp add: u32_at_def chunk_overlay_same le_word_le_bytes)

lemma u64_at_overlay_same:
  "off + 8 \<le> length buf \<Longrightarrow> u64_at (overlay buf off (le_bytes 8 w)) off = w"
  by (simp add: u64_at_def chunk_overlay_same le_word_le_bytes)

lemma u32_at_overlay_other:
  "off + length xs \<le> length buf \<Longrightarrow> o2 + 4 \<le> length buf \<Longrightarrow> o2 + 4 \<le> off \<or> off + length xs \<le> o2 \<Longrightarrow>
   u32_at (overlay buf off xs) o2 = u32_at buf o2"
  by (simp add: u32_at_def chunk_overlay_other)

lemma u64_at_overlay_other:
  "off + length xs \<le> length buf \<Longrightarrow> o2 + 8 \<le> length buf \<Longrightarrow> o2 + 8 \<le> off \<or> off + length xs \<le> o2 \<Longrightarrow>
   u64_at (overlay buf off xs) o2 = u64_at buf o2"
  by (simp add: u64_at_def chunk_overlay_other)

text \<open>A small \<^verbatim>\<open>RSU_OSAL_INT\<close> compared as a \<^verbatim>\<open>RSU_OSAL_U32\<close>.\<close>

lemma uint_of_int_small: "0 \<le> p \<Longrightarrow> p < 2 ^ 31 \<Longrightarrow> uint (word_of_int p :: u32) = p"
  by (simp add: uint_word_of_int take_bit_int_eq_self)

text \<open>Clearing bits of a word clears bits of its image: the byte-wise form of \<open>v AND w = w\<close>.\<close>

lemma le_bytes_and: "map2 (AND) (le_bytes n v) (le_bytes n w) = le_bytes n (v AND w)"
  by (rule nth_equalityI) (auto intro!: bit_word_eqI simp: bit_le_bytes bit_and_iff)

lemma le_bytes_erased:
  assumes "8 * n \<le> LENGTH('a)" shows "set (le_bytes n (- 1 :: 'a::len word)) \<subseteq> {0xFF}"
proof -
  have "le_bytes n (- 1 :: 'a word) ! i = - 1" if "i < n" for i
    using that assms by (intro bit_word_eqI) (simp add: bit_le_bytes)
  then show ?thesis by (auto simp: set_conv_nth)
qed

section \<open>C strings\<close>

text \<open>
  \<open>chars\<close> is a string literal (without its terminating NUL) as bytes. \<open>c_str\<close> is the C string
  in a character array: \<^const>\<open>None\<close> when the array holds no NUL, where \<^verbatim>\<open>strcmp\<close> would read past
  its end.
\<close>

definition chars :: "string \<Rightarrow> byte list" where
  "chars = map of_char"

definition c_str :: "byte list \<Rightarrow> byte list option" where
  "c_str a = (if 0 \<in> set a then Some (takeWhile (\<lambda>c. c \<noteq> 0) a) else None)"

definition strnlen :: "byte list \<Rightarrow> nat \<Rightarrow> nat" where
  "strnlen a n = length (takeWhile (\<lambda>c. c \<noteq> 0) (take n a))"

text \<open>
  \<^verbatim>\<open>strncmp\<close> on arrays of at least \<open>n\<close> characters or on literals: what follows a literal is
  its NUL.
\<close>

fun strncmp :: "byte list \<Rightarrow> byte list \<Rightarrow> nat \<Rightarrow> int" where
  "strncmp a b 0 = 0"
| "strncmp [] [] (Suc n) = 0"
| "strncmp [] (d # b) (Suc n) = - uint d"
| "strncmp (c # a) [] (Suc n) = uint c"
| "strncmp (c # a) (d # b) (Suc n) =
     (if c = d then (if c = 0 then 0 else strncmp a b n) else uint c - uint d)"

lemma strncmp_eq_0_iff:
  "strncmp a b n = 0 \<longleftrightarrow>
   takeWhile (\<lambda>c. c \<noteq> 0) (take n a) = takeWhile (\<lambda>c. c \<noteq> 0) (take n b)"
  by (induction a b n rule: strncmp.induct) (auto simp: word_uint_eq_iff)

lemma strncmp_refl [simp]: "strncmp a a n = 0"
  by (simp add: strncmp_eq_0_iff)

lemma strncmp_sym: "strncmp a b n = 0 \<longleftrightarrow> strncmp b a n = 0"
  by (auto simp: strncmp_eq_0_iff)

lemma strnlen_le: "strnlen a n \<le> n"
  by (metis strnlen_def length_take length_takeWhile_le min.cobounded2 order_trans)

text \<open>\<^verbatim>\<open>memcmp\<close>: zero, or the difference of the first two bytes that differ.\<close>

fun memcmp :: "byte list \<Rightarrow> byte list \<Rightarrow> int" where
  "memcmp (c # a) (d # b) = (if c = d then memcmp a b else uint c - uint d)"
| "memcmp _ _ = 0"

lemma memcmp_eq_0_iff: "length a = length b \<Longrightarrow> memcmp a b = 0 \<longleftrightarrow> a = b"
  by (induction a b rule: memcmp.induct) (auto simp: word_uint_eq_iff)

end
