(* ===== verification/Rsu_Misc.thy ===== *)
theory Rsu_Misc
  imports Rsu_Prelude
begin

text \<open>
  \<^verbatim>\<open>src/libRSU_misc.c\<close>: bit and byte swapping, reserved partition names, the slot numbering of
  partitions and the bounded string copy.

  The slot functions call the partition table through the function pointers of
  \<^verbatim>\<open>struct partition\<close> (\<^verbatim>\<open>libRSU_hl_intf.h\<close>). They are parameterised here over that interface, a
  record of the operations they call on a state \<open>'t\<close>; the locale \<open>slot_view\<close> states what they
  rely on, and the component that provides the operations (\<^verbatim>\<open>libRSU_ops.c\<close>) interprets it.
\<close>

section \<open>Bit and byte order\<close>

text \<open>
  One byte of \<^verbatim>\<open>swap_bits\<close>: eight rounds of shifting \<open>tmp\<close> left and the lowest bit of the data
  into it.
\<close>

fun swap_byte_loop :: "nat \<Rightarrow> byte \<Rightarrow> byte \<Rightarrow> byte" where
  "swap_byte_loop 0 tmp d = tmp"
| "swap_byte_loop (Suc y) tmp d =
     swap_byte_loop y (if d AND 1 \<noteq> 0 then push_bit 1 tmp OR 1 else push_bit 1 tmp) (drop_bit 1 d)"

definition swap_byte :: "byte \<Rightarrow> byte" where
  "swap_byte d = swap_byte_loop 8 0 d"

definition swap_bits :: "byte list \<Rightarrow> nat \<Rightarrow> byte list" where
  "swap_bits data len = map swap_byte (take len data) @ drop len data"

definition swap_endian32 :: "u32 \<Rightarrow> u32" where
  "swap_endian32 val = le_word (map (\<lambda>x. le_bytes 4 val ! (3 - x)) [0..<4])"

lemma bit_swap_byte_loop:
  "y \<le> 8 \<Longrightarrow> k < 8 \<Longrightarrow>
   bit (swap_byte_loop y tmp d) k \<longleftrightarrow> (if k < y then bit d (y - 1 - k) else bit tmp (k - y))"
proof (induction y arbitrary: tmp d)
  case 0
  then show ?case by simp
next
  case (Suc y)
  let ?t = "if d AND 1 \<noteq> 0 then push_bit 1 tmp OR 1 else push_bit 1 tmp"
  have d1: "d AND 1 \<noteq> 0 \<longleftrightarrow> bit d 0"
    by (simp add: and_one_eq mod_2_eq_odd bit_0)
  have t: "bit ?t j \<longleftrightarrow> (if j = 0 then bit d 0 else j < 8 \<and> bit tmp (j - 1))" if "j < 8" for j
    using that d1 by (auto simp: bit_or_iff bit_push_bit_iff bit_1_iff simp del: push_bit_Suc
        simp flip: One_nat_def)
  have "bit (swap_byte_loop (Suc y) tmp d) k \<longleftrightarrow>
      (if k < y then bit (drop_bit 1 d) (y - 1 - k) else bit ?t (k - y))"
    using Suc by simp
  also have "\<dots> \<longleftrightarrow> (if k < Suc y then bit d (Suc y - 1 - k) else bit tmp (k - Suc y))"
  proof (cases "k < y")
    case True
    then show ?thesis by (simp add: bit_drop_bit_eq Suc_diff_Suc)
  next
    case False
    then show ?thesis using t [of "k - y"] Suc.prems by auto
  qed
  finally show ?case .
qed

lemma bit_swap_byte: "bit (swap_byte b) k \<longleftrightarrow> k < 8 \<and> bit b (7 - k)"
proof (cases "k < 8")
  case True
  then show ?thesis by (simp add: swap_byte_def bit_swap_byte_loop)
next
  case False
  then show ?thesis using bit_imp_le_length [of "swap_byte b" k] by auto
qed

lemma swap_byte_swap_byte [simp]: "swap_byte (swap_byte b) = b"
  by (rule bit_word_eqI) (auto simp: bit_swap_byte)

lemma length_swap_bits [simp]: "length (swap_bits bs n) = length bs"
  by (simp add: swap_bits_def)

lemma swap_bits_swap_bits [simp]: "swap_bits (swap_bits bs n) n = bs"
  by (simp add: swap_bits_def comp_def min_def)

lemma swap_bits_all: "length bs = n \<Longrightarrow> swap_bits bs n = map swap_byte bs"
  by (simp add: swap_bits_def)

lemma take_swap_bits:
  "length bs \<le> n \<Longrightarrow> take k (swap_bits bs n) = swap_bits (take k bs) n"
  by (cases "k \<le> n") (auto simp: swap_bits_def take_map min_def)

lemma swap_endian32_rev: "swap_endian32 v = le_word (rev (le_bytes 4 v))"
proof -
  have "map (\<lambda>x. le_bytes 4 v ! (3 - x)) [0..<4] = rev (le_bytes 4 v)"
    by (intro nth_equalityI) (auto simp: rev_nth)
  then show ?thesis by (simp add: swap_endian32_def)
qed

lemma swap_endian32_swap_endian32 [simp]: "swap_endian32 (swap_endian32 v) = v"
proof -
  have "le_bytes 4 (swap_endian32 v) = rev (le_bytes 4 v)"
    using le_bytes_le_word [of "rev (le_bytes 4 v)", where 'a = 32] by (simp add: swap_endian32_rev)
  then show ?thesis by (subst swap_endian32_rev) (simp add: le_word_le_bytes)
qed

section \<open>Reserved names\<close>

definition reserved_names :: "byte list list" where
  "reserved_names = map chars
     [''BOOT_INFO'', ''FACTORY_IMAGE'', ''SPT'', ''SPT0'', ''SPT1'', ''CPB'', ''CPB0'', ''CPB1'']"

definition librsu_misc_is_rsvd_name :: "byte list \<Rightarrow> bool" where
  "librsu_misc_is_rsvd_name name = list_ex (\<lambda>r. name = r) reserved_names"

section \<open>Slots: the partitions a user may use\<close>

text \<open>The operations of \<^verbatim>\<open>struct partition\<close> that the slot functions call.\<close>

record 't partition_intf =
  intf_count :: "'t \<Rightarrow> int"
  intf_name :: "'t \<Rightarrow> int \<Rightarrow> byte list"
  intf_reserved :: "'t \<Rightarrow> int \<Rightarrow> int"
  intf_readonly :: "'t \<Rightarrow> int \<Rightarrow> int"

definition librsu_misc_is_slot :: "'t partition_intf \<Rightarrow> 't \<Rightarrow> int \<Rightarrow> bool option" where
  "librsu_misc_is_slot intf t part_num =
     (if intf_readonly intf t part_num \<noteq> 0 \<or> intf_reserved intf t part_num \<noteq> 0 then Some False
      else do {
        name \<leftarrow> c_str (intf_name intf t part_num);
        Some (\<not> librsu_misc_is_rsvd_name name)
      })"

text \<open>The loop over \<open>x\<close>, with the list of the values that \<open>x\<close> still takes.\<close>

fun slot2part_loop :: "'t partition_intf \<Rightarrow> 't \<Rightarrow> int \<Rightarrow> int list \<Rightarrow> int \<Rightarrow> int option" where
  "slot2part_loop intf t slot [] cnt = Some (- EINVAL)"
| "slot2part_loop intf t slot (x # xs) cnt = do {
     b \<leftarrow> librsu_misc_is_slot intf t x;
     if b then (if slot = cnt then Some x else slot2part_loop intf t slot xs (cnt + 1))
     else slot2part_loop intf t slot xs cnt
   }"

definition librsu_misc_slot2part :: "'t partition_intf \<Rightarrow> 't \<Rightarrow> int \<Rightarrow> int option" where
  "librsu_misc_slot2part intf t slot = slot2part_loop intf t slot [0..intf_count intf t - 1] 0"

text \<open>The specification: the slots of a table, in partition order.\<close>

definition slots_of :: "'t partition_intf \<Rightarrow> 't \<Rightarrow> int list" where
  "slots_of intf t = filter (\<lambda>x. librsu_misc_is_slot intf t x = Some True) [0..intf_count intf t - 1]"

locale slot_view =
  fixes intf :: "'t partition_intf" and inv :: "'t \<Rightarrow> bool"
  assumes name_terminated:
    "inv t \<Longrightarrow> 0 \<le> x \<Longrightarrow> x < intf_count intf t \<Longrightarrow> c_str (intf_name intf t x) \<noteq> None"
begin

lemma is_slot_defined:
  "inv t \<Longrightarrow> 0 \<le> x \<Longrightarrow> x < intf_count intf t \<Longrightarrow> librsu_misc_is_slot intf t x \<noteq> None"
  using name_terminated [of t x] by (auto simp: librsu_misc_is_slot_def)

lemma slot2part_loop_nth:
  assumes "inv t" and "\<And>x. x \<in> set xs \<Longrightarrow> 0 \<le> x \<and> x < intf_count intf t"
  shows "slot2part_loop intf t slot xs cnt =
    (let ys = filter (\<lambda>x. librsu_misc_is_slot intf t x = Some True) xs
     in Some (if cnt \<le> slot \<and> nat (slot - cnt) < length ys then ys ! nat (slot - cnt) else - EINVAL))"
  using assms(2)
proof (induction xs arbitrary: cnt)
  case Nil
  then show ?case by simp
next
  case (Cons x xs)
  obtain b where b: "librsu_misc_is_slot intf t x = Some b"
    using is_slot_defined [OF assms(1)] Cons.prems [of x] by fastforce
  have IH: "slot2part_loop intf t slot xs c =
    (let ys = filter (\<lambda>x. librsu_misc_is_slot intf t x = Some True) xs
     in Some (if c \<le> slot \<and> nat (slot - c) < length ys then ys ! nat (slot - c) else - EINVAL))" for c
    using Cons.IH [of c] Cons.prems by simp
  show ?case
  proof (cases "b \<and> cnt < slot")
    case True
    then have "nat (slot - cnt) = Suc (nat (slot - (cnt + 1)))" by linarith
    with True b show ?thesis by (simp add: IH Let_def)
  next
    case False
    with b show ?thesis by (auto simp: IH Let_def)
  qed
qed

text \<open>Slot numbers are the indices of \<^const>\<open>slots_of\<close>.\<close>

lemma slot2part_nth:
  "inv t \<Longrightarrow> librsu_misc_slot2part intf t slot =
     Some (if 0 \<le> slot \<and> nat slot < length (slots_of intf t) then slots_of intf t ! nat slot else - EINVAL)"
  unfolding librsu_misc_slot2part_def slots_of_def
  by (subst slot2part_loop_nth) (auto simp: Let_def)

lemma slot2part_is_slot:
  assumes "inv t" and "librsu_misc_slot2part intf t slot = Some p" and "0 \<le> p"
  shows "p < intf_count intf t \<and> librsu_misc_is_slot intf t p = Some True"
proof -
  from assms have "p \<in> set (slots_of intf t)"
    by (auto simp: slot2part_nth split: if_splits)
  then show ?thesis by (simp add: slots_of_def)
qed

lemma slot2part_inj:
  assumes "inv t" "librsu_misc_slot2part intf t a = Some p" "librsu_misc_slot2part intf t b = Some p"
    and "0 \<le> p"
  shows "a = b"
proof -
  have d: "distinct (slots_of intf t)" by (simp add: slots_of_def)
  show ?thesis
    using assms nth_eq_iff_index_eq [OF d, of "nat a" "nat b"]
    by (auto simp: slot2part_nth split: if_splits)
qed

lemma slot2part_surj:
  assumes "inv t" "0 \<le> p" "p < intf_count intf t" "librsu_misc_is_slot intf t p = Some True"
  shows "\<exists>slot \<ge> 0. librsu_misc_slot2part intf t slot = Some p"
proof -
  from assms have "p \<in> set (slots_of intf t)" by (simp add: slots_of_def)
  then obtain i where i: "i < length (slots_of intf t)" "slots_of intf t ! i = p"
    by (auto simp: in_set_conv_nth)
  then have "librsu_misc_slot2part intf t (int i) = Some p"
    using assms(1) by (simp add: slot2part_nth)
  then show ?thesis by (intro exI [of _ "int i"]) simp
qed

end

section \<open>The bounded string copy\<close>

text \<open>
  \<^verbatim>\<open>SAFE_STRCPY(dst, dsz, src, ssz)\<close> on a destination array and an optional source (NULL), and
  its result array. \<^const>\<open>None\<close>: the copy or its terminator would leave the destination.
\<close>

definition SAFE_STRCPY :: "byte list \<Rightarrow> int \<Rightarrow> byte list option \<Rightarrow> int \<Rightarrow> byte list option" where
  "SAFE_STRCPY dst dsz src ssz =
     (if dsz \<le> 0 then Some dst
      else if src = None \<or> ssz \<le> 0 then
        (if dst = [] then None else Some (dst[0 := 0]))
      else
        (let len0 = strnlen (the src) (nat ssz);
             len = (if int len0 \<ge> dsz then nat (dsz - 1) else len0)
         in if len + 1 \<le> length dst then Some (overlay dst 0 (take len (the src) @ [0])) else None))"

lemma strnlen_le_length: "strnlen a n \<le> length a"
  unfolding strnlen_def by (metis length_take length_takeWhile_le min.cobounded1 order_trans)

lemma SAFE_STRCPY_terminated:
  assumes "0 < dsz" "int (length dst) = dsz"
  shows "\<exists>out. SAFE_STRCPY dst dsz src ssz = Some out \<and> length out = length dst \<and> 0 \<in> set out"
proof (cases "src = None \<or> ssz \<le> 0")
  case True
  with assms show ?thesis by (auto simp: SAFE_STRCPY_def set_update_memI)
next
  case False
  then obtain b where b: "src = Some b" by auto
  let ?l0 = "strnlen b (nat ssz)"
  let ?len = "if int ?l0 \<ge> dsz then nat (dsz - 1) else ?l0"
  have len: "?len + 1 \<le> length dst" "?len \<le> length b"
    using assms strnlen_le_length [of b "nat ssz"] by (auto simp: nat_diff_distrib)
  then have "SAFE_STRCPY dst dsz src ssz = Some (overlay dst 0 (take ?len b @ [0]))"
    using assms False b by (simp add: SAFE_STRCPY_def Let_def)
  then show ?thesis using len by (simp add: overlay_def)
qed

end
