(* ===== verification/Rsu_Platform.thy ===== *)
theory Rsu_Platform
  imports Rsu_Prelude
begin

text \<open>
  The interface between the library and the platform it runs on: the function tables that each
  platform fills in (\<^verbatim>\<open>platform/platform_include/hal/*.h\<close>, gathered in
  \<^verbatim>\<open>struct librsu_ll_intf\<close>) and the OS services of \<^verbatim>\<open>include/libRSU_OSAL.h\<close>.

  The platform is a parameter: a type \<open>'w\<close> of everything it changes (the flash, the mailbox, the
  files, the heap) and a record of its functions, each from the state before the call to its
  result and the state after. \<^const>\<open>None\<close> is a call that does not return or whose behaviour is
  undefined. The locale \<open>nor_flash\<close> states what the headers document of the flash: the library's
  theorems about stored data rest on it, and \<open>Rsu_Mock_Qspi\<close> interprets it on the flash of the
  unit tests.
\<close>

section \<open>The function tables\<close>

datatype RSU_filesys_flags_t = RSU_FILE_READ | RSU_FILE_WRITE | RSU_FILE_APPEND

datatype RSU_filesys_whence_t = RSU_SEEK_SET | RSU_SEEK_CUR | RSU_SEEK_END

record mbox_data_rsu_spt_address =
  spt0_address :: u64
  spt1_address :: u64

record mbox_status_info =
  st_version :: u64
  st_state :: u64
  st_current_image :: u64
  st_fail_image :: u64
  st_error_location :: u64
  st_error_details :: u64
  st_retry_counter :: u64

text \<open>The states of the firmware that concern the CPB.\<close>

abbreviation (input) STATE_CPB0_CORRUPTED :: u64 where "STATE_CPB0_CORRUPTED \<equiv> 0xF004D010"
abbreviation (input) STATE_CPB0_CPB1_CORRUPTED :: u64 where "STATE_CPB0_CPB1_CORRUPTED \<equiv> 0xF004D011"

text \<open>
  \<^verbatim>\<open>struct librsu_ll_intf\<close>, with the OS services \<^verbatim>\<open>rsu_malloc\<close> and \<^verbatim>\<open>rsu_crc32\<close> beside it. A
  function that fills a buffer takes the buffer it is given (its length is the length asked for)
  and returns it with its new content. A file handle is a number, NULL is \<^const>\<open>None\<close>; \<^verbatim>\<open>rsu_malloc\<close>
  returns NULL or a block with its indeterminate initial content.
\<close>

record 'w librsu_ll_intf =
  rsu_malloc :: "'w \<Rightarrow> nat \<Rightarrow> byte list option \<times> 'w"
  rsu_crc32 :: "u32 \<Rightarrow> byte list \<Rightarrow> u32"
  qspi_read :: "'w \<Rightarrow> int \<Rightarrow> byte list \<Rightarrow> (int \<times> byte list \<times> 'w) option"
  qspi_write :: "'w \<Rightarrow> int \<Rightarrow> byte list \<Rightarrow> (int \<times> 'w) option"
  qspi_erase :: "'w \<Rightarrow> int \<Rightarrow> int \<Rightarrow> (int \<times> 'w) option"
  mbox_get_rsu_status :: "'w \<Rightarrow> int \<times> mbox_status_info \<times> 'w"
  mbox_send_rsu_update :: "'w \<Rightarrow> u64 \<Rightarrow> int \<times> 'w"
  mbox_get_spt_addresses :: "'w \<Rightarrow> int \<times> mbox_data_rsu_spt_address \<times> 'w"
  mbox_rsu_notify :: "'w \<Rightarrow> u32 \<Rightarrow> int \<times> 'w"
  file_open :: "'w \<Rightarrow> byte list \<Rightarrow> RSU_filesys_flags_t \<Rightarrow> nat option \<times> 'w"
  file_read :: "'w \<Rightarrow> byte list \<Rightarrow> nat \<Rightarrow> int \<times> byte list \<times> 'w"
  file_write :: "'w \<Rightarrow> byte list \<Rightarrow> nat \<Rightarrow> int \<times> 'w"
  file_fgets :: "'w \<Rightarrow> byte list \<Rightarrow> nat \<Rightarrow> int \<times> byte list \<times> 'w"
  file_fseek :: "'w \<Rightarrow> int \<Rightarrow> RSU_filesys_whence_t \<Rightarrow> nat \<Rightarrow> int \<times> 'w"
  file_ftruncate :: "'w \<Rightarrow> int \<Rightarrow> nat \<Rightarrow> int \<times> 'w"
  file_close :: "'w \<Rightarrow> nat \<Rightarrow> int \<times> 'w"
  misc_get_dcmf_status :: "'w \<Rightarrow> int \<times> u32 list \<times> 'w"
  misc_get_max_retry_count :: "'w \<Rightarrow> int \<times> byte \<times> 'w"
  misc_get_dcmf_version :: "'w \<Rightarrow> int \<times> int list \<times> 'w"
  writeprotect :: u32
  spt_checksum_enabled :: u32

section \<open>What the headers promise of the flash\<close>

text \<open>The content of \<open>n\<close> bytes of a device from an address on.\<close>

definition region :: "(int \<Rightarrow> byte) \<Rightarrow> int \<Rightarrow> nat \<Rightarrow> byte list" where
  "region m a n = map (\<lambda>i. m (a + int i)) [0..<n]"

lemma length_region [simp]: "length (region m a n) = n"
  by (simp add: region_def)

lemma nth_region [simp]: "i < n \<Longrightarrow> region m a n ! i = m (a + int i)"
  by (simp add: region_def)

lemma region_0 [simp]: "region m a 0 = []"
  by (simp add: region_def)

lemma region_cong:
  "(\<And>x. a \<le> x \<Longrightarrow> x < a + int n \<Longrightarrow> m x = m' x) \<Longrightarrow> region m a n = region m' a n"
  by (auto simp: region_def)

lemma chunk_region: "i + k \<le> n \<Longrightarrow> chunk (region m a n) i k = region m (a + int i) k"
  by (rule nth_equalityI) (auto simp: add.assoc)

lemma region_append: "region m a (i + k) = region m a i @ region m (a + int i) k"
  by (rule nth_equalityI) (auto simp: nth_append)

text \<open>
  Programming flash can only clear bits: data can be written over old content where it clears
  bits only, in particular over erased bytes.
\<close>

definition programmable :: "byte list \<Rightarrow> byte list \<Rightarrow> bool" where
  "programmable old new \<longleftrightarrow> list_all2 (\<lambda>o' n. o' AND n = n) old new"

lemma programmable_erased: "length old = length new \<Longrightarrow> set old \<subseteq> {0xFF} \<Longrightarrow> programmable old new"
proof -
  assume l: "length old = length new" and s: "set old \<subseteq> {0xFF}"
  have ff: "(0xFF :: byte) = - 1" by simp
  have "old ! i = - 1" if "i < length old" for i using s nth_mem [OF that] ff by auto
  then show ?thesis using l by (auto simp: programmable_def list_all2_conv_all_nth)
qed

locale nor_flash =
  fixes hal :: "'w librsu_ll_intf" and mem :: "'w \<Rightarrow> int \<Rightarrow> byte"
  assumes read_mem: "qspi_read hal w off buf = Some (r, buf', w') \<Longrightarrow> mem w' = mem w"
    and read_len: "qspi_read hal w off buf = Some (r, buf', w') \<Longrightarrow> length buf' = length buf"
    and read_data: "qspi_read hal w off buf = Some (0, buf', w') \<Longrightarrow>
      buf' = region (mem w) off (length buf)"
    and read_ret: "qspi_read hal w off buf = Some (r, buf', w') \<Longrightarrow> r \<le> 0"
    and write_frame: "qspi_write hal w off bs = Some (r, w') \<Longrightarrow>
      a < off \<or> off + int (length bs) \<le> a \<Longrightarrow> mem w' a = mem w a"
    and write_data: "qspi_write hal w off bs = Some (0, w') \<Longrightarrow>
      programmable (region (mem w) off (length bs)) bs \<Longrightarrow> region (mem w') off (length bs) = bs"
    and erase_frame: "qspi_erase hal w off len = Some (r, w') \<Longrightarrow>
      a < off \<or> off + len \<le> a \<Longrightarrow> mem w' a = mem w a"
    and erase_data: "qspi_erase hal w off len = Some (0, w') \<Longrightarrow>
      off \<le> a \<Longrightarrow> a < off + len \<Longrightarrow> mem w' a = 0xFF"
    and erase_ret: "qspi_erase hal w off len = Some (r, w') \<Longrightarrow> r \<le> 0"
    and malloc_mem: "rsu_malloc hal w n = (p, w') \<Longrightarrow> mem w' = mem w"
    and malloc_len: "rsu_malloc hal w n = (Some b, w') \<Longrightarrow> length b = n"
    and status_mem: "mbox_get_rsu_status hal w = (r, info, w') \<Longrightarrow> mem w' = mem w"
begin

lemma write_region_frame:
  assumes "qspi_write hal w off bs = Some (r, w')"
    and "a + int n \<le> off \<or> off + int (length bs) \<le> a"
  shows "region (mem w') a n = region (mem w) a n"
  using assms by (intro region_cong) (auto intro!: write_frame [OF assms(1)])

lemma erase_region_frame:
  assumes "qspi_erase hal w off len = Some (r, w')"
    and "a + int n \<le> off \<or> off + len \<le> a"
  shows "region (mem w') a n = region (mem w) a n"
  using assms by (intro region_cong) (auto intro!: erase_frame [OF assms(1)])

lemma erase_region:
  assumes "qspi_erase hal w off len = Some (0, w')" and "off \<le> a" "a + int n \<le> off + len"
  shows "set (region (mem w') a n) \<subseteq> {0xFF}"
  using assms by (auto simp: region_def intro!: erase_data [OF assms(1)])

text \<open>A block that was erased takes any data.\<close>

lemma write_after_erase:
  assumes "qspi_write hal w off bs = Some (0, w')"
    and "set (region (mem w) off (length bs)) \<subseteq> {0xFF}"
  shows "region (mem w') off (length bs) = bs"
  using assms by (intro write_data programmable_erased) auto

end

text \<open>
  The device has a size, and inside it every access returns: what the absence of undefined
  behaviour rests on.
\<close>

locale sized_flash = nor_flash +
  fixes dsize :: "'a \<Rightarrow> int"
  assumes read_returns: "0 \<le> off \<Longrightarrow> off + int (length buf) \<le> dsize w \<Longrightarrow>
      \<exists>r buf' w'. qspi_read hal w off buf = Some (r, buf', w')"
    and write_returns: "0 \<le> off \<Longrightarrow> off + int (length bs) \<le> dsize w \<Longrightarrow>
      \<exists>r w'. qspi_write hal w off bs = Some (r, w')"
    and erase_returns: "0 \<le> off \<Longrightarrow> 0 \<le> len \<Longrightarrow> off + len \<le> dsize w \<Longrightarrow>
      \<exists>r w'. qspi_erase hal w off len = Some (r, w')"
    and read_dsize: "qspi_read hal w off buf = Some (r, buf', w') \<Longrightarrow> dsize w' = dsize w"
    and write_dsize: "qspi_write hal w off bs = Some (r, w') \<Longrightarrow> dsize w' = dsize w"
    and erase_dsize: "qspi_erase hal w off len = Some (r, w') \<Longrightarrow> dsize w' = dsize w"
    and malloc_dsize: "rsu_malloc hal w n = (p, w') \<Longrightarrow> dsize w' = dsize w"
    and status_dsize: "mbox_get_rsu_status hal w = (r, info, w') \<Longrightarrow> dsize w' = dsize w"

text \<open>
  A device that works: while \<open>ok\<close> holds of the platform, no access fails, the heap is not
  exhausted and the firmware reports no corrupted CPB (the two states that \<^verbatim>\<open>load_cpb\<close> asks for). What the library achieves, as opposed to what it never breaks, rests on this.
\<close>

locale reliable_flash = sized_flash +
  fixes ok :: "'a \<Rightarrow> bool"
  assumes ok_malloc: "ok w \<Longrightarrow> rsu_malloc hal w n = (p, w') \<Longrightarrow> p \<noteq> None \<and> ok w'"
    and ok_read: "ok w \<Longrightarrow> qspi_read hal w off buf = Some (r, buf', w') \<Longrightarrow> r = 0 \<and> ok w'"
    and ok_write: "ok w \<Longrightarrow> qspi_write hal w off bs = Some (r, w') \<Longrightarrow> r = 0 \<and> ok w'"
    and ok_erase: "ok w \<Longrightarrow> qspi_erase hal w off len = Some (r, w') \<Longrightarrow> r = 0 \<and> ok w'"
    and ok_status: "ok w \<Longrightarrow> mbox_get_rsu_status hal w = (r, info, w') \<Longrightarrow>
      r = 0 \<and> ok w' \<and> st_state info \<noteq> STATE_CPB0_CORRUPTED \<and> st_state info \<noteq> STATE_CPB0_CPB1_CORRUPTED"

end
