(* ===== verification/Rsu_Tables.thy ===== *)
theory Rsu_Tables
  imports Rsu_Misc Rsu_Platform
begin

text \<open>
  The data of \<^verbatim>\<open>libRSU_hl_intf.h\<close>: the sub-partition table (SPT), the configuration pointer
  block (CPB), the \<^verbatim>\<open>struct database\<close> that the library keeps of them, and their layout in flash.
  The SPT is a packed struct of exactly 4096 bytes, so its image in memory and the struct are in
  bijection; the CPB is a union of a header with raw bytes and is kept as its bytes.
\<close>

section \<open>The sub-partition table\<close>

abbreviation (input) SPT_MAGIC_NUMBER :: u32 where "SPT_MAGIC_NUMBER \<equiv> 0x57713427"
abbreviation (input) SPT_VERSION :: u32 where "SPT_VERSION \<equiv> 0"
abbreviation (input) SPT_FLAG_RESERVED :: u32 where "SPT_FLAG_RESERVED \<equiv> 1"
abbreviation (input) SPT_FLAG_READONLY :: u32 where "SPT_FLAG_READONLY \<equiv> 2"
abbreviation (input) SPT_MAX_PARTITIONS :: nat where "SPT_MAX_PARTITIONS \<equiv> 127"
abbreviation (input) SPT_PARTITION_NAME_LENGTH :: nat where "SPT_PARTITION_NAME_LENGTH \<equiv> 16"
abbreviation (input) SPT_SIZE :: nat where "SPT_SIZE \<equiv> 4096"
abbreviation (input) SPT_CHECKSUM_OFFSET :: nat where "SPT_CHECKSUM_OFFSET \<equiv> 12"

record spt_partition =
  p_name :: "byte list"
  p_offset :: u64
  p_length :: u32
  p_flags :: u32

record SUB_PARTITION_TABLE =
  magic_number :: u32
  version :: u32
  partitions :: u32
  checksum :: u32
  RSVD :: "u32 list"
  partition :: "spt_partition list"

text \<open>The test for a partition of a given name, as it occurs throughout \<^verbatim>\<open>src/libRSU_ops.c\<close>.\<close>

definition name_is :: "spt_partition \<Rightarrow> string \<Rightarrow> bool" where
  "name_is p nm \<longleftrightarrow> strncmp (p_name p) (chars nm) SPT_PARTITION_NAME_LENGTH = 0"

text \<open>The sizes of the arrays of the struct, an invariant of every value of the C type.\<close>

definition wf_spt :: "SUB_PARTITION_TABLE \<Rightarrow> bool" where
  "wf_spt t \<longleftrightarrow> length (RSVD t) = 4 \<and> length (partition t) = SPT_MAX_PARTITIONS \<and>
     (\<forall>p \<in> set (partition t). length (p_name p) = SPT_PARTITION_NAME_LENGTH)"

text \<open>The struct seen as bytes (\<^verbatim>\<open>rsu_memcpy\<close> from it, a device write of it) and back.\<close>

definition partition_bytes :: "spt_partition \<Rightarrow> byte list" where
  "partition_bytes p =
     p_name p @ le_bytes 8 (p_offset p) @ le_bytes 4 (p_length p) @ le_bytes 4 (p_flags p)"

definition partition_of_bytes :: "byte list \<Rightarrow> spt_partition" where
  "partition_of_bytes bs =
     \<lparr>p_name = chunk bs 0 16, p_offset = u64_at bs 16, p_length = u32_at bs 24, p_flags = u32_at bs 28\<rparr>"

definition spt_header_bytes :: "SUB_PARTITION_TABLE \<Rightarrow> byte list" where
  "spt_header_bytes t =
     le_bytes 4 (magic_number t) @ le_bytes 4 (version t) @ le_bytes 4 (partitions t) @
     le_bytes 4 (checksum t)"

definition spt_bytes :: "SUB_PARTITION_TABLE \<Rightarrow> byte list" where
  "spt_bytes t =
     spt_header_bytes t @ concat (map (le_bytes 4) (RSVD t)) @ concat (map partition_bytes (partition t))"

definition spt_of_bytes :: "byte list \<Rightarrow> SUB_PARTITION_TABLE" where
  "spt_of_bytes bs =
     \<lparr>magic_number = u32_at bs 0, version = u32_at bs 4, partitions = u32_at bs 8,
      checksum = u32_at bs 12, RSVD = map (\<lambda>i. u32_at bs (16 + 4 * i)) [0..<4],
      partition = map (\<lambda>i. partition_of_bytes (chunk bs (32 + 32 * i) 32)) [0..<127]\<rparr>"

lemma length_partition_bytes: "length (p_name p) = 16 \<Longrightarrow> length (partition_bytes p) = 32"
  by (simp add: partition_bytes_def)

lemma length_spt_header_bytes [simp]: "length (spt_header_bytes t) = 16"
  by (simp add: spt_header_bytes_def)

lemma length_spt_bytes:
  assumes "wf_spt t" shows "length (spt_bytes t) = SPT_SIZE"
proof -
  have "length (concat (map (le_bytes 4) (RSVD t))) = 4 * length (RSVD t)"
    by (rule length_concat_fixed) simp
  moreover have "length (concat (map partition_bytes (partition t))) = 32 * length (partition t)"
    by (rule length_concat_fixed) (use assms in \<open>simp add: wf_spt_def length_partition_bytes\<close>)
  ultimately show ?thesis using assms by (simp add: spt_bytes_def wf_spt_def)
qed

lemma wf_spt_of_bytes: "length bs = SPT_SIZE \<Longrightarrow> wf_spt (spt_of_bytes bs)"
  by (auto simp: wf_spt_def spt_of_bytes_def partition_of_bytes_def)

lemma partition_roundtrip:
  assumes "length (p_name p) = 16" shows "partition_of_bytes (partition_bytes p) = p"
  using assms
  by (simp add: partition_of_bytes_def partition_bytes_def u32_at_def u64_at_def
      chunk_append_left chunk_append_right le_word_le_bytes)

lemma partition_bytes_roundtrip:
  assumes "length bs = 32" shows "partition_bytes (partition_of_bytes bs) = bs"
proof -
  have "partition_bytes (partition_of_bytes bs) = chunk bs 0 16 @ chunk bs 16 8 @ chunk bs 24 4 @ chunk bs 28 4"
    using assms by (simp add: partition_bytes_def partition_of_bytes_def le_bytes_4_u32_at le_bytes_8_u64_at)
  also have "\<dots> = bs"
    using assms by (intro nth_equalityI) (auto simp: nth_append)
  finally show ?thesis .
qed

text \<open>The first four words of the image are the header fields.\<close>

lemma header_at:
  assumes "wf_spt t"
  shows "u32_at (spt_bytes t) 0 = magic_number t" "u32_at (spt_bytes t) 4 = version t"
    "u32_at (spt_bytes t) 8 = partitions t" "u32_at (spt_bytes t) 12 = checksum t"
  by (simp_all add: spt_bytes_def spt_header_bytes_def u32_at_def chunk_append_left
      chunk_append_right le_word_le_bytes)

lemma rsvd_at:
  assumes "wf_spt t" "i < 4"
  shows "u32_at (spt_bytes t) (16 + 4 * i) = RSVD t ! i"
proof -
  let ?c = "concat (map (le_bytes 4) (RSVD t))"
  have l: "length ?c = 4 * length (RSVD t)" by (rule length_concat_fixed) simp
  have "chunk (spt_bytes t) (16 + 4 * i) 4 = chunk ?c (4 * i) 4"
    using assms l by (simp add: spt_bytes_def chunk_append_right chunk_append_left wf_spt_def)
  also have "\<dots> = le_bytes 4 (RSVD t ! i)"
    using assms by (intro chunk_concat_fixed) (auto simp: wf_spt_def)
  finally show ?thesis by (simp add: u32_at_def le_word_le_bytes)
qed

lemma partition_at:
  assumes "wf_spt t" "i < 127"
  shows "chunk (spt_bytes t) (32 + 32 * i) 32 = partition_bytes (partition t ! i)"
proof -
  let ?c = "concat (map (le_bytes 4) (RSVD t))" and ?d = "concat (map partition_bytes (partition t))"
  have l: "length ?c = 4 * length (RSVD t)" by (rule length_concat_fixed) simp
  have "chunk (spt_bytes t) (32 + 32 * i) 32 = chunk ?d (32 * i) 32"
    using assms l by (simp add: spt_bytes_def chunk_append_right wf_spt_def)
  also have "\<dots> = partition_bytes (partition t ! i)"
    using assms by (intro chunk_concat_fixed) (auto simp: wf_spt_def length_partition_bytes)
  finally show ?thesis .
qed

lemma spt_of_bytes_spt_bytes:
  assumes "wf_spt t" shows "spt_of_bytes (spt_bytes t) = t"
proof -
  have "map (\<lambda>i. u32_at (spt_bytes t) (16 + 4 * i)) [0..<4] = RSVD t"
    using assms by (intro nth_equalityI) (auto simp: rsvd_at wf_spt_def)
  moreover have "map (\<lambda>i. partition_of_bytes (chunk (spt_bytes t) (32 + 32 * i) 32)) [0..<127] = partition t"
    using assms by (intro nth_equalityI) (auto simp: partition_at partition_roundtrip wf_spt_def)
  ultimately show ?thesis using assms by (simp add: spt_of_bytes_def header_at)
qed

lemma spt_bytes_spt_of_bytes:
  assumes "length bs = SPT_SIZE" shows "spt_bytes (spt_of_bytes bs) = bs"
proof -
  have r: "concat (map (le_bytes 4) (RSVD (spt_of_bytes bs))) = chunk bs 16 16"
  proof -
    have "map (le_bytes 4) (RSVD (spt_of_bytes bs)) = map (\<lambda>i. chunk (chunk bs 16 16) (4 * i) 4) [0..<4]"
      using assms by (simp add: spt_of_bytes_def comp_def le_bytes_4_u32_at chunk_chunk)
    then show ?thesis using assms by (simp only: concat_chunks length_chunk)
  qed
  have p: "concat (map partition_bytes (partition (spt_of_bytes bs))) = chunk bs 32 4064"
  proof -
    have "map partition_bytes (partition (spt_of_bytes bs)) =
        map (\<lambda>i. chunk (chunk bs 32 4064) (32 * i) 32) [0..<127]"
      using assms by (simp add: spt_of_bytes_def comp_def partition_bytes_roundtrip chunk_chunk)
    then show ?thesis using assms by (simp only: concat_chunks length_chunk)
  qed
  have "spt_bytes (spt_of_bytes bs) =
      chunk bs 0 4 @ chunk bs 4 4 @ chunk bs 8 4 @ chunk bs 12 4 @ chunk bs 16 16 @ chunk bs 32 4064"
    using assms unfolding spt_bytes_def r p
    by (simp add: spt_header_bytes_def spt_of_bytes_def le_bytes_4_u32_at)
  also have "\<dots> = bs"
    using assms by (intro nth_equalityI) (auto simp: nth_append)
  finally show ?thesis .
qed

lemma spt_bytes_inj: "wf_spt t \<Longrightarrow> wf_spt u \<Longrightarrow> spt_bytes t = spt_bytes u \<longleftrightarrow> t = u"
  by (metis spt_of_bytes_spt_bytes)

text \<open>
  The struct with another magic number or checksum differs in the bytes of that field only.
\<close>

lemma spt_bytes_magic:
  "wf_spt t \<Longrightarrow> spt_bytes (t\<lparr>magic_number := m\<rparr>) = overlay (spt_bytes t) 0 (le_bytes 4 m)"
  by (simp add: spt_bytes_def spt_header_bytes_def overlay_def)

lemma spt_bytes_checksum:
  "wf_spt t \<Longrightarrow> spt_bytes (t\<lparr>checksum := c\<rparr>) = overlay (spt_bytes t) 12 (le_bytes 4 c)"
  by (simp add: spt_bytes_def spt_header_bytes_def overlay_def)

section \<open>The configuration pointer block\<close>

abbreviation (input) CPB_MAGIC_NUMBER :: u32 where "CPB_MAGIC_NUMBER \<equiv> 0x57789609"
abbreviation (input) CPB_HEADER_SIZE :: u32 where "CPB_HEADER_SIZE \<equiv> 24"
abbreviation (input) CPB_BLOCK_SIZE :: nat where "CPB_BLOCK_SIZE \<equiv> 4096"
abbreviation (input) CPB_SIZE :: nat where "CPB_SIZE \<equiv> 4096"
abbreviation (input) CPB_IMAGE_PTR_OFFSET :: u32 where "CPB_IMAGE_PTR_OFFSET \<equiv> 32"
abbreviation (input) CPB_IMAGE_PTR_NSLOTS :: u32 where "CPB_IMAGE_PTR_NSLOTS \<equiv> 508"
abbreviation (input) ERASED_ENTRY :: u64 where "ERASED_ENTRY \<equiv> - 1"
abbreviation (input) SPENT_ENTRY :: u64 where "SPENT_ENTRY \<equiv> 0"

text \<open>The header members of \<^verbatim>\<open>union CMF_POINTER_BLOCK\<close>, read from its bytes.\<close>

definition cpb_magic_number :: "byte list \<Rightarrow> u32" where "cpb_magic_number b = u32_at b 0"
definition cpb_header_size :: "byte list \<Rightarrow> u32" where "cpb_header_size b = u32_at b 4"
definition cpb_image_ptr_offset :: "byte list \<Rightarrow> u32" where "cpb_image_ptr_offset b = u32_at b 16"
definition cpb_image_ptr_slots :: "byte list \<Rightarrow> u32" where "cpb_image_ptr_slots b = u32_at b 20"

definition set_cpb_magic_number :: "byte list \<Rightarrow> u32 \<Rightarrow> byte list" where
  "set_cpb_magic_number b m = overlay b 0 (le_bytes 4 m)"

section \<open>The database\<close>

text \<open>
  \<^verbatim>\<open>struct database\<close>. \<open>cpb_slots\<close> points into the CPB buffer: NULL, or the offset of its target
  in the buffer. The \<^verbatim>\<open>hal\<close> member, which no operation changes, is a parameter of the operations.
\<close>

record database =
  spt_corrupted :: bool
  cpb_corrupted :: bool
  cpb_fixed :: bool
  cpb0_part :: u32
  cpb1_part :: u32
  mtd_part_offset :: u64
  spt_addr :: mbox_data_rsu_spt_address
  spt :: SUB_PARTITION_TABLE
  cpb :: "byte list"
  cpb_slots :: "nat option"

text \<open>The state of the operations: \<^verbatim>\<open>*plat_database\<close> and what the platform changes.\<close>

record 'w ops = database +
  world :: 'w

lemma world_update_inj [simp]: "s\<lparr>world := v\<rparr> = s\<lparr>world := w\<rparr> \<longleftrightarrow> v = w"
  by (cases s) simp

definition wf_ops :: "('w, 'z) ops_scheme \<Rightarrow> bool" where
  "wf_ops s \<longleftrightarrow> wf_spt (spt s) \<and> length (cpb s) = CPB_BLOCK_SIZE"

text \<open>
  An element of the partition array, and of the array that \<open>cpb_slots\<close> points to: \<^const>\<open>None\<close>
  outside the array (of the buffer the pointer points into).
\<close>

definition part_at :: "SUB_PARTITION_TABLE \<Rightarrow> nat \<Rightarrow> spt_partition option" where
  "part_at t x = (if x < length (partition t) then Some (partition t ! x) else None)"

definition get_cpb_slot :: "('w, 'z) ops_scheme \<Rightarrow> nat \<Rightarrow> u64 option" where
  "get_cpb_slot s x =
     (case cpb_slots s of None \<Rightarrow> None
      | Some p \<Rightarrow> if p + 8 * x + 8 \<le> length (cpb s) then Some (u64_at (cpb s) (p + 8 * x)) else None)"

definition set_cpb_slot :: "('w, 'z) ops_scheme \<Rightarrow> nat \<Rightarrow> u64 \<Rightarrow> ('w, 'z) ops_scheme option" where
  "set_cpb_slot s x v =
     (case cpb_slots s of None \<Rightarrow> None
      | Some p \<Rightarrow> if p + 8 * x + 8 \<le> length (cpb s)
                  then Some (s\<lparr>cpb := overlay (cpb s) (p + 8 * x) (le_bytes 8 v)\<rparr>) else None)"

text \<open>The test on the partition number that most operations start with.\<close>

definition bad_part :: "int \<Rightarrow> 'w ops \<Rightarrow> bool" where
  "bad_part part_num s \<longleftrightarrow> part_num < 0 \<or> uint (word_of_int part_num :: u32) \<ge> uint (partitions (spt s)) \<or>
     unat (partitions (spt s)) > SPT_MAX_PARTITIONS"

end
