(* ===== verification/Rsu_Dev.thy ===== *)
theory Rsu_Dev
  imports Rsu_Tables
begin

text \<open>
  Access to the flash from \<^verbatim>\<open>src/libRSU_ops.c\<close>: whole-device accesses (\<^verbatim>\<open>read_dev\<close>, \<^verbatim>\<open>write_dev\<close>,
  \<^verbatim>\<open>erase_dev\<close>), the address of a partition in the device file and the accesses relative to a
  partition (\<^verbatim>\<open>read_part\<close>, \<^verbatim>\<open>write_part\<close>, \<^verbatim>\<open>erase_part\<close>).

  A buffer argument is an optional byte list (NULL is \<^const>\<open>None\<close>); its length is the capacity of
  the object it points to, and an access of more bytes is undefined. The lemmas are proved in the
  context of the flash contract: what a read returns, and that a write or an erase changes
  nothing outside the partition it is given.
\<close>

section \<open>The device\<close>

text \<open>The conversion of an \<^verbatim>\<open>RSU_OSAL_INT\<close> length to \<^verbatim>\<open>RSU_OSAL_SIZE\<close>.\<close>

definition size_of_int :: "int \<Rightarrow> nat" where
  "size_of_int len = unat (word_of_int len :: u64)"

definition read_dev ::
    "'w librsu_ll_intf \<Rightarrow> int \<Rightarrow> byte list option \<Rightarrow> int \<Rightarrow> 'w ops \<Rightarrow> (int \<times> byte list \<times> 'w ops) option" where
  "read_dev hal offset buf len s =
     (case buf of None \<Rightarrow> Some (- EINVAL, [], s)
      | Some b \<Rightarrow>
          if len = 0 then Some (- EINVAL, b, s)
          else if length b < size_of_int len then None
          else do {
            (r, d, w') \<leftarrow> qspi_read hal (world s) offset (take (size_of_int len) b);
            Some (r, d @ drop (size_of_int len) b, s\<lparr>world := w'\<rparr>)
          })"

definition write_dev ::
    "'w librsu_ll_intf \<Rightarrow> int \<Rightarrow> byte list option \<Rightarrow> int \<Rightarrow> 'w ops \<Rightarrow> (int \<times> 'w ops) option" where
  "write_dev hal offset buf len s =
     (case buf of None \<Rightarrow> Some (- EINVAL, s)
      | Some b \<Rightarrow>
          if len = 0 then Some (- EINVAL, s)
          else if length b < size_of_int len then None
          else do {
            (r, w') \<leftarrow> qspi_write hal (world s) offset (take (size_of_int len) b);
            Some (r, s\<lparr>world := w'\<rparr>)
          })"

definition erase_dev ::
    "'w librsu_ll_intf \<Rightarrow> int \<Rightarrow> int \<Rightarrow> 'w ops \<Rightarrow> (int \<times> 'w ops) option" where
  "erase_dev hal offset len s =
     (if len = 0 then Some (- EINVAL, s)
      else do {
        (ret, w') \<leftarrow> qspi_erase hal (world s) offset (int (size_of_int len));
        Some (if ret < 0 then ret else 0, s\<lparr>world := w'\<rparr>)
      })"

section \<open>Partitions\<close>

text \<open>
  The result is the return code with \<^verbatim>\<open>*offset\<close> (0 where the code leaves it unset). The
  conversion of the 64-bit difference to \<^verbatim>\<open>RSU_OSAL_OFFSET\<close> is \<^const>\<open>sint\<close>.
\<close>

definition get_part_offset :: "int \<Rightarrow> 'w ops \<Rightarrow> (int \<times> int) option" where
  "get_part_offset part_num s =
     (if part_num < 0 \<or> sint (partitions (spt s)) \<le> part_num then Some (- EINVAL, 0)
      else do {
        p \<leftarrow> part_at (spt s) (nat part_num);
        if sint (p_offset p) < sint (mtd_part_offset s) then Some (- EFAULT, 0)
        else Some (0, sint (p_offset p - mtd_part_offset s))
      })"

text \<open>Addition of two \<^verbatim>\<open>RSU_OSAL_OFFSET\<close>: signed overflow is undefined.\<close>

definition off_add :: "int \<Rightarrow> int \<Rightarrow> int option" where
  "off_add a b = (if - (2 ^ 63) \<le> a + b \<and> a + b < 2 ^ 63 then Some (a + b) else None)"

definition read_part ::
    "'w librsu_ll_intf \<Rightarrow> int \<Rightarrow> int \<Rightarrow> byte list option \<Rightarrow> int \<Rightarrow> 'w ops \<Rightarrow>
     (int \<times> byte list \<times> 'w ops) option" where
  "read_part hal part_num offset buf len s =
     (case buf of None \<Rightarrow> Some (- EINVAL, [], s)
      | Some b \<Rightarrow>
          if len = 0 then Some (- EINVAL, b, s)
          else do {
            (ret, part_offset) \<leftarrow> get_part_offset part_num s;
            if ret \<noteq> 0 then Some (ret, b, s)
            else do {
              p \<leftarrow> part_at (spt s) (nat part_num);
              if offset < 0 \<or> len < 0 then Some (- ESPIPE, b, s)
              else do {
                e \<leftarrow> off_add offset len;
                if e > uint (p_length p) then Some (- ESPIPE, b, s)
                else do {
                  a \<leftarrow> off_add part_offset offset;
                  read_dev hal a buf len s
                }
              }
            }
          })"

definition write_part ::
    "'w librsu_ll_intf \<Rightarrow> int \<Rightarrow> int \<Rightarrow> byte list option \<Rightarrow> int \<Rightarrow> 'w ops \<Rightarrow> (int \<times> 'w ops) option" where
  "write_part hal part_num offset buf len s =
     (case buf of None \<Rightarrow> Some (- EINVAL, s)
      | Some b \<Rightarrow>
          if len = 0 then Some (- EINVAL, s)
          else do {
            (ret, part_offset) \<leftarrow> get_part_offset part_num s;
            if ret \<noteq> 0 then Some (ret, s)
            else do {
              p \<leftarrow> part_at (spt s) (nat part_num);
              if offset < 0 \<or> len < 0 then Some (- ESPIPE, s)
              else do {
                e \<leftarrow> off_add offset len;
                if e > uint (p_length p) then Some (- ESPIPE, s)
                else do {
                  a \<leftarrow> off_add part_offset offset;
                  write_dev hal a buf len s
                }
              }
            }
          })"

text \<open>The partition length, a \<^verbatim>\<open>RSU_OSAL_U32\<close>, is passed as \<^verbatim>\<open>RSU_OSAL_INT\<close>.\<close>

definition erase_part :: "'w librsu_ll_intf \<Rightarrow> int \<Rightarrow> 'w ops \<Rightarrow> (int \<times> 'w ops) option" where
  "erase_part hal part_num s = do {
     (ret, part_offset) \<leftarrow> get_part_offset part_num s;
     if ret \<noteq> 0 then Some (ret, s)
     else do {
       p \<leftarrow> part_at (spt s) (nat part_num);
       erase_dev hal part_offset (sint (p_length p)) s
     }
   }"

section \<open>Where a partition lies\<close>

text \<open>
  The address of partition \<open>x\<close> in the device and its length; \<open>part_fits\<close> is what the code
  checks of it on every access, plus that the length is a non-negative \<^verbatim>\<open>RSU_OSAL_INT\<close> (every
  flash part is smaller than 2 GiB).
\<close>

definition part_addr :: "('w, 'z) ops_scheme \<Rightarrow> nat \<Rightarrow> int" where
  "part_addr s x = sint (p_offset (partition (spt s) ! x) - mtd_part_offset s)"

definition part_len :: "('w, 'z) ops_scheme \<Rightarrow> nat \<Rightarrow> int" where
  "part_len s x = uint (p_length (partition (spt s) ! x))"

definition part_fits :: "('w, 'z) ops_scheme \<Rightarrow> nat \<Rightarrow> bool" where
  "part_fits s x \<longleftrightarrow> x < unat (partitions (spt s)) \<and> unat (partitions (spt s)) \<le> 127 \<and>
     sint (mtd_part_offset s) \<le> sint (p_offset (partition (spt s) ! x)) \<and>
     0 \<le> part_addr s x \<and> part_addr s x < 2 ^ 62 \<and> part_len s x < 2 ^ 31"

text \<open>The addresses of a partition; partitions that do not share any.\<close>

definition part_range :: "('w, 'z) ops_scheme \<Rightarrow> nat \<Rightarrow> int set" where
  "part_range s x = {part_addr s x ..< part_addr s x + part_len s x}"

definition ranges_disjoint :: "('w, 'z) ops_scheme \<Rightarrow> nat set \<Rightarrow> bool" where
  "ranges_disjoint s X \<longleftrightarrow> (\<forall>x \<in> X. \<forall>y \<in> X. x \<noteq> y \<longrightarrow> part_range s x \<inter> part_range s y = {})"

lemma region_frame:
  "(\<And>a. a \<in> {b..<b + int n} \<Longrightarrow> m' a = m a) \<Longrightarrow> region m' b n = region m b n"
  by (rule region_cong) simp

lemma part_addr_world [simp]: "part_addr (s\<lparr>world := w\<rparr>) x = part_addr s x"
  by (simp add: part_addr_def)

lemma part_len_world [simp]: "part_len (s\<lparr>world := w\<rparr>) x = part_len s x"
  by (simp add: part_len_def)

lemma part_fits_world [simp]: "part_fits (s\<lparr>world := w\<rparr>) x = part_fits s x"
  by (simp add: part_fits_def)

lemma wf_ops_world [simp]: "wf_ops (s\<lparr>world := w\<rparr>) = wf_ops s"
  by (simp add: wf_ops_def)

lemma size_of_int_nonneg: "0 \<le> len \<Longrightarrow> len < 2 ^ 64 \<Longrightarrow> size_of_int len = nat len"
  by (simp add: size_of_int_def unat_eq_nat_uint uint_word_of_int take_bit_int_eq_self)

lemma sint_uint_small: "uint (w :: 32 word) < 2 ^ 31 \<Longrightarrow> sint w = uint w"
  unfolding sint_uint by (intro signed_take_bit_int_eq_self order_trans [OF _ uint_ge_0]) auto

lemma sint_eq_uint:
  assumes "unat (w :: 32 word) < 2 ^ 31" shows "sint w = uint w"
proof -
  have "int (unat w) < int (2 ^ 31)" using assms by (simp only: of_nat_less_iff)
  then have "uint w < 2 ^ 31" by (simp only: uint_nat of_nat_power of_nat_numeral)
  then show ?thesis by (rule sint_uint_small)
qed

lemma get_part_offset_0:
  "get_part_offset p s = Some (0, a) \<Longrightarrow>
   0 \<le> p \<and> p < sint (partitions (spt s)) \<and> nat p < length (partition (spt s)) \<and>
   sint (mtd_part_offset s) \<le> sint (p_offset (partition (spt s) ! nat p)) \<and> a = part_addr s (nat p)"
  by (auto simp: get_part_offset_def part_at_def part_addr_def split: if_splits)

lemma get_part_offset_fits:
  assumes "part_fits s x" "wf_spt (spt s)"
  shows "get_part_offset (int x) s = Some (0, part_addr s x)"
proof -
  have x: "x < unat (partitions (spt s))" "unat (partitions (spt s)) \<le> 127"
    using assms by (auto simp: part_fits_def)
  then have p: "sint (partitions (spt s)) = int (unat (partitions (spt s)))"
    by (subst sint_eq_uint) auto
  have "int x < uint (partitions (spt s))" using x(1) uint_nat [of "partitions (spt s)"] by linarith
  then show ?thesis
    using assms x unfolding get_part_offset_def p
    by (auto simp: part_fits_def part_at_def part_addr_def wf_spt_def)
qed

lemma off_add_eq: "off_add a b = Some c \<Longrightarrow> c = a + b"
  by (simp add: off_add_def split: if_splits)

text \<open>Inversion of a read and a write that reach the device.\<close>

lemma read_dev_cases:
  assumes "read_dev hal a (Some b) len s = Some (r, d, s')" "0 \<le> len" "len < 2 ^ 64"
  obtains (empty) "len = 0" "r \<noteq> 0" "s' = s" "d = b"
  | (dev) w' d' where "qspi_read hal (world s) a (take (nat len) b) = Some (r, d', w')"
      "d = d' @ drop (nat len) b" "nat len \<le> length b" "s' = s\<lparr>world := w'\<rparr>" "len \<noteq> 0"
proof (cases "len = 0")
  case True
  with assms empty show thesis by (simp add: read_dev_def)
next
  case False
  with assms(1) show thesis
    by (auto simp: read_dev_def size_of_int_nonneg [OF assms(2,3)] Option.bind_eq_Some_conv
        intro: dev split: if_splits)
qed

lemma write_dev_cases:
  assumes "write_dev hal a (Some b) len s = Some (r, s')" "0 \<le> len" "len < 2 ^ 64"
  obtains (empty) "len = 0" "r \<noteq> 0" "s' = s"
  | (dev) w' where "qspi_write hal (world s) a (take (nat len) b) = Some (r, w')"
      "nat len \<le> length b" "s' = s\<lparr>world := w'\<rparr>" "len \<noteq> 0"
proof (cases "len = 0")
  case True
  with assms empty show thesis by (simp add: write_dev_def)
next
  case False
  with assms(1) show thesis
    by (auto simp: write_dev_def size_of_int_nonneg [OF assms(2,3)] Option.bind_eq_Some_conv
        intro: dev split: if_splits)
qed

lemma erase_dev_cases:
  assumes "erase_dev hal a len s = Some (r, s')" "0 \<le> len" "len < 2 ^ 64"
  obtains (empty) "len = 0" "r = - EINVAL" "s' = s"
  | (dev) w' q where "qspi_erase hal (world s) a len = Some (q, w')"
      "r = min q 0" "s' = s\<lparr>world := w'\<rparr>" "len \<noteq> 0"
proof (cases "len = 0")
  case True
  with assms empty show thesis by (simp add: erase_dev_def)
next
  case False
  with assms show thesis
    by (auto simp: erase_dev_def size_of_int_nonneg [OF assms(2,3)] Option.bind_eq_Some_conv
        min_def intro: dev split: if_splits)
qed

text \<open>Inversion of the accesses to a partition: refused before the device, or in its bounds.\<close>

lemma read_part_cases:
  assumes "read_part hal p off (Some b) len s = Some (r, d, s')"
  obtains (refused) "r \<noteq> 0" "s' = s" "d = b"
  | (dev) "0 \<le> p" "nat p < length (partition (spt s))" "p < sint (partitions (spt s))"
      "0 \<le> off" "0 < len" "off + len \<le> part_len s (nat p)"
      "read_dev hal (part_addr s (nat p) + off) (Some b) len s = Some (r, d, s')"
  using assms
  by (fastforce simp: read_part_def Option.bind_eq_Some_conv part_at_def part_len_def
      split: if_splits dest!: get_part_offset_0 off_add_eq)

lemma write_part_cases:
  assumes "write_part hal p off (Some b) len s = Some (r, s')"
  obtains (refused) "r \<noteq> 0" "s' = s"
  | (dev) "0 \<le> p" "nat p < length (partition (spt s))" "p < sint (partitions (spt s))"
      "0 \<le> off" "0 < len" "off + len \<le> part_len s (nat p)"
      "write_dev hal (part_addr s (nat p) + off) (Some b) len s = Some (r, s')"
  using assms
  by (fastforce simp: write_part_def Option.bind_eq_Some_conv part_at_def part_len_def
      split: if_splits dest!: get_part_offset_0 off_add_eq)

lemma erase_part_cases:
  assumes "erase_part hal p s = Some (r, s')"
  obtains (refused) "r \<noteq> 0" "s' = s"
  | (dev) "0 \<le> p" "nat p < length (partition (spt s))" "p < sint (partitions (spt s))"
      "erase_dev hal (part_addr s (nat p)) (sint (p_length (partition (spt s) ! nat p))) s = Some (r, s')"
  using assms
  by (fastforce simp: erase_part_def Option.bind_eq_Some_conv part_at_def
      split: if_splits dest!: get_part_offset_0)

section \<open>The magic number last\<close>

text \<open>
  Every table is written in two steps: the whole of it with an erased magic number, then the magic
  number over its erased bytes. After both the flash holds the table.
\<close>

lemma write_magic_last:
  fixes magic :: u32
  assumes b: "length b = n" "4 \<le> n" "take 4 b = le_bytes 4 magic"
    and r: "region m a n = overlay b 0 (le_bytes 4 (0xFFFFFFFF :: u32))"
    and fr: "\<And>x. x < a \<or> a + 4 \<le> x \<Longrightarrow> m' x = m x"
    and wr: "programmable (region m a 4) (le_bytes 4 magic) \<Longrightarrow> region m' a 4 = le_bytes 4 magic"
  shows "region m' a n = b"
proof -
  have n: "n = 4 + (n - 4)" using b(2) by simp
  have ff: "(0xFFFFFFFF :: u32) = - 1" by simp
  have "region m a 4 = chunk (region m a n) 0 4" using b(2) by (simp add: chunk_region)
  also have "\<dots> = le_bytes 4 (- 1 :: u32)"
    unfolding r ff using b by (intro chunk_overlay_same) auto
  finally have "region m a 4 = le_bytes 4 (- 1 :: u32)" .
  moreover have "set (le_bytes 4 (- 1 :: u32)) \<subseteq> {0xFF}" by (rule le_bytes_erased) simp
  ultimately have hd: "region m' a 4 = le_bytes 4 magic"
    using wr programmable_erased [of "region m a 4"] by simp
  have "region m' (a + 4) (n - 4) = region m (a + 4) (n - 4)" by (intro region_cong fr) auto
  also have "\<dots> = drop 4 (region m a n)"
    by (subst (2) n, subst region_append) simp
  also have "\<dots> = drop 4 b"
    unfolding r by (simp add: overlay_def)
  finally have tl: "region m' (a + 4) (n - 4) = drop 4 b" .
  have "region m' a n = region m' a 4 @ region m' (a + 4) (n - 4)"
    by (subst n, subst region_append) simp
  also have "\<dots> = take 4 b @ drop 4 b" by (simp only: hd tl b(3))
  finally show ?thesis by simp
qed

section \<open>What the accesses do, under the flash contract\<close>

context nor_flash begin

lemma read_dev_spec:
  assumes "read_dev hal a (Some b) len s = Some (r, d, s')" "0 \<le> len" "len < 2 ^ 64"
  obtains w' where "s' = s\<lparr>world := w'\<rparr>" "mem w' = mem (world s)" "length d = length b"
    "r = 0 \<Longrightarrow> 0 < len \<and> nat len \<le> length b \<and> d = region (mem (world s)) a (nat len) @ drop (nat len) b"
  using assms
proof (cases rule: read_dev_cases)
  case empty
  then show thesis by (intro that [of "world s"]) auto
next
  case (dev w' d')
  have l: "length d' = nat len" using read_len [OF dev(1)] dev(3) by simp
  have "d' = region (mem (world s)) a (nat len)" if "r = 0"
    using read_data [of "world s" a "take (nat len) b" d' w'] dev(1,3) that by (simp add: min_def)
  then show thesis
    using dev l assms(2) read_mem [OF dev(1)] by (intro that [of w']) auto
qed

lemma write_dev_spec:
  assumes "write_dev hal a (Some b) len s = Some (r, s')" "0 \<le> len" "len < 2 ^ 64"
  obtains w' where "s' = s\<lparr>world := w'\<rparr>"
    "\<And>x. x < a \<or> a + len \<le> x \<Longrightarrow> mem w' x = mem (world s) x"
    "r = 0 \<Longrightarrow> 0 < len \<and> nat len \<le> length b \<and>
       (programmable (region (mem (world s)) a (nat len)) (take (nat len) b) \<longrightarrow>
        region (mem w') a (nat len) = take (nat len) b)"
  using assms
proof (cases rule: write_dev_cases)
  case empty
  then show thesis by (intro that [of "world s"]) auto
next
  case (dev w')
  have l: "length (take (nat len) b) = nat len" using dev(2) by simp
  have f: "mem w' x = mem (world s) x" if "x < a \<or> a + len \<le> x" for x
    using write_frame [OF dev(1), of x] that dev(2) assms(2) by simp
  have "region (mem w') a (nat len) = take (nat len) b"
    if "r = 0" "programmable (region (mem (world s)) a (nat len)) (take (nat len) b)"
    using write_data [of "world s" a "take (nat len) b" w'] dev(1,2) that l by simp
  then show thesis using dev f assms(2) by (intro that [of w']) auto
qed

lemma erase_dev_spec:
  assumes "erase_dev hal a len s = Some (r, s')" "0 \<le> len" "len < 2 ^ 64"
  obtains w' where "s' = s\<lparr>world := w'\<rparr>" "r \<le> 0"
    "\<And>x. x < a \<or> a + len \<le> x \<Longrightarrow> mem w' x = mem (world s) x"
    "r = 0 \<Longrightarrow> 0 < len \<and> (\<forall>x. a \<le> x \<and> x < a + len \<longrightarrow> mem w' x = 0xFF)"
  using assms
proof (cases rule: erase_dev_cases)
  case empty
  then show thesis by (intro that [of "world s"]) auto
next
  case (dev w' q)
  have "r = q" using dev(2) erase_ret [OF dev(1)] by simp
  then show thesis
    using dev erase_frame [OF dev(1)] erase_data [of "world s" a len w'] erase_ret [OF dev(1)] assms(2)
    by (intro that [of w']) auto
qed

text \<open>
  A read of a partition changes nothing but the buffer, and returns what is stored there.
\<close>

lemma read_part_spec:
  assumes "read_part hal p off (Some b) len s = Some (r, d, s')" "len < 2 ^ 31"
  obtains w' where "s' = s\<lparr>world := w'\<rparr>" "mem w' = mem (world s)" "length d = length b"
    "r = 0 \<Longrightarrow> 0 \<le> p \<and> 0 \<le> off \<and> 0 < len \<and> nat len \<le> length b \<and> off + len \<le> part_len s (nat p) \<and>
       d = region (mem (world s)) (part_addr s (nat p) + off) (nat len) @ drop (nat len) b"
  using assms(1)
proof (cases rule: read_part_cases)
  case refused
  then show thesis by (intro that [of "world s"]) auto
next
  case dev
  have l: "0 \<le> len" "len < 2 ^ 64" using dev(5) assms(2) by auto
  from dev(7) l obtain w' where "s' = s\<lparr>world := w'\<rparr>" "mem w' = mem (world s)" "length d = length b"
    "r = 0 \<Longrightarrow> 0 < len \<and> nat len \<le> length b \<and>
       d = region (mem (world s)) (part_addr s (nat p) + off) (nat len) @ drop (nat len) b"
    by (rule read_dev_spec) blast
  then show thesis using dev(1,4,5,6) by (intro that [of w']) auto
qed

text \<open>A write to a partition changes flash inside the written range of that partition only.\<close>

lemma write_part_spec:
  assumes "write_part hal p off (Some b) len s = Some (r, s')" "len < 2 ^ 31"
  obtains w' where "s' = s\<lparr>world := w'\<rparr>"
    "\<And>x. x < part_addr s (nat p) + off \<or> part_addr s (nat p) + off + len \<le> x \<Longrightarrow>
       mem w' x = mem (world s) x"
    "mem w' \<noteq> mem (world s) \<or> r = 0 \<Longrightarrow>
       0 \<le> p \<and> 0 \<le> off \<and> 0 < len \<and> off + len \<le> part_len s (nat p)"
    "r = 0 \<Longrightarrow> nat len \<le> length b \<and>
       (programmable (region (mem (world s)) (part_addr s (nat p) + off) (nat len)) (take (nat len) b) \<longrightarrow>
        region (mem w') (part_addr s (nat p) + off) (nat len) = take (nat len) b)"
  using assms(1)
proof (cases rule: write_part_cases)
  case refused
  then show thesis by (intro that [of "world s"]) auto
next
  case dev
  have l: "0 \<le> len" "len < 2 ^ 64" using dev(5) assms(2) by auto
  from dev(7) l obtain w' where "s' = s\<lparr>world := w'\<rparr>"
    "\<And>x. x < part_addr s (nat p) + off \<or> part_addr s (nat p) + off + len \<le> x \<Longrightarrow>
       mem w' x = mem (world s) x"
    "r = 0 \<Longrightarrow> 0 < len \<and> nat len \<le> length b \<and>
       (programmable (region (mem (world s)) (part_addr s (nat p) + off) (nat len)) (take (nat len) b) \<longrightarrow>
        region (mem w') (part_addr s (nat p) + off) (nat len) = take (nat len) b)"
    by (rule write_dev_spec) blast
  then show thesis using dev by (intro that [of w']) auto
qed

text \<open>An erase of a partition changes flash inside that partition only.\<close>

lemma erase_part_spec:
  assumes "erase_part hal p s = Some (r, s')" "part_len s (nat p) < 2 ^ 31"
  obtains w' where "s' = s\<lparr>world := w'\<rparr>"
    "\<And>x. x < part_addr s (nat p) \<or> part_addr s (nat p) + part_len s (nat p) \<le> x \<Longrightarrow>
       mem w' x = mem (world s) x"
    "r = 0 \<Longrightarrow> 0 \<le> p \<and> 0 < part_len s (nat p) \<and> (\<forall>x. part_addr s (nat p) \<le> x \<and>
       x < part_addr s (nat p) + part_len s (nat p) \<longrightarrow> mem w' x = 0xFF)"
  using assms(1)
proof (cases rule: erase_part_cases)
  case refused
  then show thesis by (intro that [of "world s"]) auto
next
  case dev
  let ?l = "p_length (partition (spt s) ! nat p)"
  have l: "sint ?l = part_len s (nat p)"
    using assms(2) unfolding part_len_def by (rule sint_uint_small)
  from dev(4) obtain w' where "s' = s\<lparr>world := w'\<rparr>"
    "\<And>x. x < part_addr s (nat p) \<or> part_addr s (nat p) + part_len s (nat p) \<le> x \<Longrightarrow>
       mem w' x = mem (world s) x"
    "r = 0 \<Longrightarrow> 0 < part_len s (nat p) \<and> (\<forall>x. part_addr s (nat p) \<le> x \<and>
       x < part_addr s (nat p) + part_len s (nat p) \<longrightarrow> mem w' x = 0xFF)"
    unfolding l by (rule erase_dev_spec) (use assms(2) in \<open>auto simp: part_len_def\<close>)
  then show thesis using dev(1) by (intro that [of w']) auto
qed

text \<open>The accesses the tables use: from the start of partition \<open>x\<close>.\<close>

lemma write_part_0_spec:
  assumes "write_part hal (int x) 0 (Some b) (int n) s = Some (r, s')" "n < 2 ^ 31"
  obtains w' where "s' = s\<lparr>world := w'\<rparr>"
    "\<And>a. a < part_addr s x \<or> part_addr s x + part_len s x \<le> a \<Longrightarrow> mem w' a = mem (world s) a"
    "\<And>a. a < part_addr s x \<or> part_addr s x + int n \<le> a \<Longrightarrow> mem w' a = mem (world s) a"
    "r = 0 \<Longrightarrow> int n \<le> part_len s x \<and> n \<le> length b \<and>
       (programmable (region (mem (world s)) (part_addr s x) n) (take n b) \<longrightarrow>
        region (mem w') (part_addr s x) n = take n b)"
proof -
  have n: "int n < 2 ^ 31" using assms(2) by simp
  from assms(1) n obtain w' where w: "s' = s\<lparr>world := w'\<rparr>"
    and fr: "\<And>a. a < part_addr s (nat (int x)) + 0 \<or> part_addr s (nat (int x)) + 0 + int n \<le> a \<Longrightarrow>
       mem w' a = mem (world s) a"
    and ch: "mem w' \<noteq> mem (world s) \<or> r = 0 \<Longrightarrow>
       0 \<le> int x \<and> (0 :: int) \<le> 0 \<and> 0 < int n \<and> 0 + int n \<le> part_len s (nat (int x))"
    and ok: "r = 0 \<Longrightarrow> nat (int n) \<le> length b \<and>
       (programmable (region (mem (world s)) (part_addr s (nat (int x)) + 0) (nat (int n))) (take (nat (int n)) b) \<longrightarrow>
        region (mem w') (part_addr s (nat (int x)) + 0) (nat (int n)) = take (nat (int n)) b)"
    by (rule write_part_spec) blast
  have out: "mem w' a = mem (world s) a" if "a < part_addr s x \<or> part_addr s x + part_len s x \<le> a" for a
    using fr [of a] ch that by (cases "mem w' = mem (world s)") auto
  show thesis by (rule that [OF w out]) (use fr ch ok in auto)
qed

lemma erase_part_0_spec:
  assumes "erase_part hal (int x) s = Some (r, s')" "part_len s x < 2 ^ 31"
  obtains w' where "s' = s\<lparr>world := w'\<rparr>"
    "\<And>a. a < part_addr s x \<or> part_addr s x + part_len s x \<le> a \<Longrightarrow> mem w' a = mem (world s) a"
    "\<And>n. r = 0 \<Longrightarrow> int n \<le> part_len s x \<Longrightarrow> set (region (mem w') (part_addr s x) n) \<subseteq> {0xFF}"
proof -
  have l: "part_len s (nat (int x)) < 2 ^ 31" using assms(2) by simp
  from assms(1) l obtain w' where w: "s' = s\<lparr>world := w'\<rparr>"
    and fr: "\<And>a. a < part_addr s (nat (int x)) \<or> part_addr s (nat (int x)) + part_len s (nat (int x)) \<le> a \<Longrightarrow>
       mem w' a = mem (world s) a"
    and er: "r = 0 \<Longrightarrow> 0 \<le> int x \<and> 0 < part_len s (nat (int x)) \<and> (\<forall>a. part_addr s (nat (int x)) \<le> a \<and>
       a < part_addr s (nat (int x)) + part_len s (nat (int x)) \<longrightarrow> mem w' a = 0xFF)"
    by (rule erase_part_spec) blast
  show thesis by (rule that [OF w]) (use fr er in \<open>auto simp: region_def\<close>)
qed

text \<open>The two writes of a table over an erased partition.\<close>

lemma write_part_two:
  fixes magic :: u32
  assumes w1: "write_part hal (int x) 0 (Some (overlay b 0 (le_bytes 4 (0xFFFFFFFF :: u32)))) (int n) s1 = Some (0, s2)"
    and w2: "write_part hal (int x) 0 (Some bm) (int 4) s3 = Some (r, s4)"
    and same: "mem (world s3) = mem (world s2)" "part_addr s3 x = part_addr s1 x" "part_len s3 x = part_len s1 x"
    and b: "length b = n" "4 \<le> n" "n < 2 ^ 31" "take 4 b = le_bytes 4 magic" "take 4 bm = le_bytes 4 magic"
    and erased: "int n \<le> part_len s1 x \<Longrightarrow> set (region (mem (world s1)) (part_addr s1 x) n) \<subseteq> {0xFF}"
  obtains w' where "s4 = s3\<lparr>world := w'\<rparr>" "int n \<le> part_len s1 x"
    "\<And>a. a < part_addr s1 x \<or> part_addr s1 x + part_len s1 x \<le> a \<Longrightarrow> mem w' a = mem (world s1) a"
    "r = 0 \<Longrightarrow> region (mem w') (part_addr s1 x) n = b"
proof -
  let ?u = "overlay b 0 (le_bytes 4 (0xFFFFFFFF :: u32))"
  have lu: "length ?u = n" using b(1,2) by simp
  from w1 b(3) obtain v2 where s2: "s2 = s1\<lparr>world := v2\<rparr>"
    and f2: "\<And>a. a < part_addr s1 x \<or> part_addr s1 x + part_len s1 x \<le> a \<Longrightarrow> mem v2 a = mem (world s1) a"
    and d2: "(0 :: int) = 0 \<Longrightarrow> int n \<le> part_len s1 x \<and> n \<le> length ?u \<and>
       (programmable (region (mem (world s1)) (part_addr s1 x) n) (take n ?u) \<longrightarrow>
        region (mem v2) (part_addr s1 x) n = take n ?u)"
    by (rule write_part_0_spec) blast
  have len: "int n \<le> part_len s1 x" using d2 by simp
  have r2: "region (mem v2) (part_addr s1 x) n = ?u"
    using d2 programmable_erased [of "region (mem (world s1)) (part_addr s1 x) n" ?u] erased [OF len] lu by simp
  have f4: "(4 :: nat) < 2 ^ 31" by simp
  from w2 f4 obtain v4 where s4: "s4 = s3\<lparr>world := v4\<rparr>"
    and o4: "\<And>a. a < part_addr s3 x \<or> part_addr s3 x + part_len s3 x \<le> a \<Longrightarrow> mem v4 a = mem (world s3) a"
    and i4: "\<And>a. a < part_addr s3 x \<or> part_addr s3 x + int 4 \<le> a \<Longrightarrow> mem v4 a = mem (world s3) a"
    and d4: "r = 0 \<Longrightarrow> int 4 \<le> part_len s3 x \<and> 4 \<le> length bm \<and>
       (programmable (region (mem (world s3)) (part_addr s3 x) 4) (take 4 bm) \<longrightarrow>
        region (mem v4) (part_addr s3 x) 4 = take 4 bm)"
    by (rule write_part_0_spec) blast
  have "region (mem v4) (part_addr s1 x) n = b" if "r = 0"
    by (rule write_magic_last [OF b(1,2,4) r2]) (use i4 d4 [OF that] same s2 b(5) in auto)
  then show thesis using s4 len o4 f2 same s2 by (intro that [of v4]) auto
qed

end

end
