(* ===== verification/Rsu_Cfg.thy ===== *)
theory Rsu_Cfg
  imports Rsu_Platform
begin

text \<open>
  The configuration queries of \<^verbatim>\<open>src/libRSU_cfg.c\<close>: the write protection of a slot and the SPT
  checksum switch, both read from \<^verbatim>\<open>*hal\<close>.
\<close>

text \<open>The shift \<^verbatim>\<open>1 << slot\<close> for a slot up to 31 is taken as the bit of the 32-bit mask.\<close>

definition librsu_cfg_writeprotected :: "'w librsu_ll_intf \<Rightarrow> int \<Rightarrow> int" where
  "librsu_cfg_writeprotected hal slot =
     (if slot < 0 then - 1
      else if slot > 31 then 0
      else if writeprotect hal AND push_bit (nat slot) 1 \<noteq> 0 then 1
      else 0)"

definition librsu_cfg_spt_checksum_enabled :: "'w librsu_ll_intf \<Rightarrow> int" where
  "librsu_cfg_spt_checksum_enabled hal = (if spt_checksum_enabled hal \<noteq> 0 then 1 else 0)"

lemma writeprotected_iff:
  "0 \<le> slot \<Longrightarrow> librsu_cfg_writeprotected hal slot \<noteq> 0 \<longleftrightarrow> slot \<le> 31 \<and> bit (writeprotect hal) (nat slot)"
  by (auto simp: librsu_cfg_writeprotected_def and_exp_eq_0_iff_not_bit)

end
