(* ===== verification/Rsu_Spt.thy ===== *)
theory Rsu_Spt
  imports Rsu_Dev Rsu_Cfg
begin

text \<open>
  The sub-partition table in \<^verbatim>\<open>src/libRSU_ops.c\<close>: validity checks (\<^verbatim>\<open>check_spt\<close>,
  \<^verbatim>\<open>load_spt0_offset\<close>), loading with repair of a bad copy (\<^verbatim>\<open>load_spt\<close>) and writing both copies
  back (\<^verbatim>\<open>writeback_spt\<close>).

  A \<^verbatim>\<open>for\<close> loop over an index is a recursion over the list of the values the index still takes.
\<close>

section \<open>Operations\<close>

definition ops_malloc :: "'w librsu_ll_intf \<Rightarrow> nat \<Rightarrow> 'w ops \<Rightarrow> byte list option \<times> 'w ops" where
  "ops_malloc hal n s = (let (p, w) = rsu_malloc hal (world s) n in (p, s\<lparr>world := w\<rparr>))"

definition load_spt0_offset :: "'w ops \<Rightarrow> int \<times> 'w ops" where
  "load_spt0_offset s =
     (if unat (partitions (spt s)) > SPT_MAX_PARTITIONS then (- EFBIG, s)
      else case find (\<lambda>x. name_is (partition (spt s) ! x) ''SPT0'') [0..<unat (partitions (spt s))] of
        None \<Rightarrow> (- ENOENT, s)
      | Some x \<Rightarrow>
          (let off = p_offset (partition (spt s) ! x)
           in (0, s\<lparr>mtd_part_offset := (if off = spt0_address (spt_addr s) then 0 else off)\<rparr>)))"

definition check_both_spt :: "'w librsu_ll_intf \<Rightarrow> 'w ops \<Rightarrow> (int \<times> 'w ops) option" where
  "check_both_spt hal s =
     (case ops_malloc hal SPT_SIZE s of
        (None, s) \<Rightarrow> Some (- ENOMEM, s)
      | (Some spt0_data, s) \<Rightarrow>
        (case ops_malloc hal SPT_SIZE s of
           (None, s) \<Rightarrow> Some (- ENOMEM, s)
         | (Some spt1_data, s) \<Rightarrow> do {
             (ret, spt0_data, s) \<leftarrow>
               read_dev hal (sint (spt0_address (spt_addr s))) (Some spt0_data) (int SPT_SIZE) s;
             if ret \<noteq> 0 then Some (- EPERM, s)
             else do {
               (ret, spt1_data, s) \<leftarrow>
                 read_dev hal (sint (spt1_address (spt_addr s))) (Some spt1_data) (int SPT_SIZE) s;
               if ret \<noteq> 0 then Some (- EPERM, s)
               else Some (memcmp spt0_data spt1_data, s)
             }
           }))"

text \<open>The checksum of a table: computed over its bytes with the checksum field zero.\<close>

definition spt_crc :: "'w librsu_ll_intf \<Rightarrow> SUB_PARTITION_TABLE \<Rightarrow> u32" where
  "spt_crc hal t =
     rsu_crc32 hal 0 (swap_bits (overlay (spt_bytes t) SPT_CHECKSUM_OFFSET (replicate 4 0)) SPT_SIZE)"

text \<open>
  The first part of \<^verbatim>\<open>check_spt\<close>: the copy of the table into the allocated block, its checksum
  bytes cleared, its bits swapped, the CRC compared.
\<close>

definition check_spt_checksum :: "'w librsu_ll_intf \<Rightarrow> 'w ops \<Rightarrow> int \<times> 'w ops" where
  "check_spt_checksum hal s =
     (if version (spt s) > SPT_VERSION \<and> librsu_cfg_spt_checksum_enabled hal \<noteq> 0 then
        (case ops_malloc hal SPT_SIZE s of
           (None, s) \<Rightarrow> (- ENOEXEC, s)
         | (Some spt_data, s) \<Rightarrow>
             (let spt_data = overlay spt_data 0 (spt_bytes (spt s));
                  spt_data = overlay spt_data SPT_CHECKSUM_OFFSET (replicate 4 0);
                  spt_data = swap_bits spt_data SPT_SIZE;
                  calc_crc = rsu_crc32 hal 0 spt_data
              in if swap_endian32 (checksum (spt s)) \<noteq> calc_crc then (- EBADF, s) else (0, s)))
      else (0, s))"

definition part_end :: "spt_partition \<Rightarrow> u64" where
  "part_end p = p_offset p + ucast (p_length p)"

definition terminate_name :: "spt_partition \<Rightarrow> spt_partition" where
  "terminate_name p =
     (if strnlen (p_name p) SPT_PARTITION_NAME_LENGTH \<ge> SPT_PARTITION_NAME_LENGTH
      then p\<lparr>p_name := (p_name p)[SPT_PARTITION_NAME_LENGTH - 1 := 0]\<rparr> else p)"

text \<open>The inner loop over \<open>y\<close>: no other partition has the name of \<open>x\<close> or overlaps it.\<close>

fun check_spt_others :: "SUB_PARTITION_TABLE \<Rightarrow> nat \<Rightarrow> nat list \<Rightarrow> int" where
  "check_spt_others t x [] = 0"
| "check_spt_others t x (y # ys) =
     (if x = y then check_spt_others t x ys
      else if strncmp (p_name (partition t ! x)) (p_name (partition t ! y)) SPT_PARTITION_NAME_LENGTH = 0
        then - EEXIST
      else if p_offset (partition t ! x) < part_end (partition t ! y) \<and>
              part_end (partition t ! x) > p_offset (partition t ! y) then - ESPIPE
      else check_spt_others t x ys)"

record spt_found =
  spt0_found :: bool
  spt1_found :: bool
  cpb0_found :: bool
  cpb1_found :: bool

definition note_critical :: "spt_found \<Rightarrow> spt_partition \<Rightarrow> spt_found" where
  "note_critical f p =
     (if name_is p ''SPT0'' then f\<lparr>spt0_found := True\<rparr>
      else if name_is p ''SPT1'' then f\<lparr>spt1_found := True\<rparr>
      else if name_is p ''CPB0'' then f\<lparr>cpb0_found := True\<rparr>
      else if name_is p ''CPB1'' then f\<lparr>cpb1_found := True\<rparr>
      else f)"

text \<open>The outer loop over \<open>x\<close>, which also terminates the names.\<close>

fun check_spt_loop ::
    "SUB_PARTITION_TABLE \<Rightarrow> spt_found \<Rightarrow> nat list \<Rightarrow> int \<times> spt_found \<times> SUB_PARTITION_TABLE" where
  "check_spt_loop t f [] = (0, f, t)"
| "check_spt_loop t f (x # xs) =
     (let t = t\<lparr>partition := (partition t)[x := terminate_name (partition t ! x)]\<rparr>;
          ret = check_spt_others t x [0..<unat (partitions t)]
      in if ret \<noteq> 0 then (ret, f, t)
         else check_spt_loop t (note_critical f (partition t ! x)) xs)"

definition none_found :: spt_found where
  "none_found = \<lparr>spt0_found = False, spt1_found = False, cpb0_found = False, cpb1_found = False\<rparr>"

definition check_spt :: "'w librsu_ll_intf \<Rightarrow> 'w ops \<Rightarrow> int \<times> 'w ops" where
  "check_spt hal s =
     (case check_spt_checksum hal s of (ret, s) \<Rightarrow>
        if ret \<noteq> 0 then (ret, s)
        else if unat (partitions (spt s)) > SPT_MAX_PARTITIONS then (- EFBIG, s)
        else
          (case check_spt_loop (spt s) none_found [0..<unat (partitions (spt s))] of (ret, f, t) \<Rightarrow>
             if ret \<noteq> 0 then (ret, s\<lparr>spt := t\<rparr>)
             else if \<not> spt0_found f \<or> \<not> spt1_found f \<or> \<not> cpb0_found f \<or> \<not> cpb1_found f
               then (- ENXIO, s\<lparr>spt := t\<rparr>)
             else (0, s\<lparr>spt := t\<rparr>)))"

text \<open>\<^verbatim>\<open>read_dev\<close> into the table, and the test of a table just read.\<close>

definition read_spt :: "'w librsu_ll_intf \<Rightarrow> u64 \<Rightarrow> 'w ops \<Rightarrow> (int \<times> 'w ops) option" where
  "read_spt hal addr s = do {
     (ret, d, s) \<leftarrow> read_dev hal (sint addr) (Some (spt_bytes (spt s))) (int SPT_SIZE) s;
     Some (ret, s\<lparr>spt := spt_of_bytes d\<rparr>)
   }"

definition spt_good :: "'w librsu_ll_intf \<Rightarrow> 'w ops \<Rightarrow> bool \<times> 'w ops" where
  "spt_good hal s =
     (if magic_number (spt s) = SPT_MAGIC_NUMBER then
        (case check_spt hal s of (ret, s) \<Rightarrow>
           if ret = 0 then (case load_spt0_offset s of (ret, s) \<Rightarrow> (ret = 0, s)) else (False, s))
      else (False, s))"

text \<open>The two repair branches of \<^verbatim>\<open>load_spt\<close>.\<close>

definition restore_spt1 :: "'w librsu_ll_intf \<Rightarrow> 'w ops \<Rightarrow> (int \<times> 'w ops) option" where
  "restore_spt1 hal s = do {
     let addr = sint (spt1_address (spt_addr s));
     (ret, s) \<leftarrow> erase_dev hal addr (32 * 1024) s;
     if ret \<noteq> 0 then Some (- EPERM, s)
     else do {
       let s = s\<lparr>spt := (spt s)\<lparr>magic_number := 0xFFFFFFFF\<rparr>\<rparr>;
       (ret, s) \<leftarrow> write_dev hal addr (Some (spt_bytes (spt s))) (int SPT_SIZE) s;
       if ret \<noteq> 0 then Some (- EPERM, s)
       else do {
         let s = s\<lparr>spt := (spt s)\<lparr>magic_number := SPT_MAGIC_NUMBER\<rparr>\<rparr>;
         (ret, w) \<leftarrow> qspi_write hal (world s) addr (take 4 (spt_bytes (spt s)));
         let s = s\<lparr>world := w\<rparr>;
         if ret \<noteq> 0 then Some (- EPERM, s) else Some (0, s)
       }
     }
   }"

definition restore_spt0 :: "'w librsu_ll_intf \<Rightarrow> 'w ops \<Rightarrow> (int \<times> 'w ops) option" where
  "restore_spt0 hal s = do {
     let addr = sint (spt0_address (spt_addr s));
     (ret, s) \<leftarrow> erase_dev hal addr (32 * 1024) s;
     if ret \<noteq> 0 then Some (- EPERM, s)
     else do {
       let s = s\<lparr>spt := (spt s)\<lparr>magic_number := 0xFFFFFFFF\<rparr>\<rparr>;
       (ret, s) \<leftarrow> write_dev hal addr (Some (spt_bytes (spt s))) (int SPT_SIZE) s;
       if ret \<noteq> 0 then Some (- EPERM, s)
       else do {
         let s = s\<lparr>spt := (spt s)\<lparr>magic_number := SPT_MAGIC_NUMBER\<rparr>\<rparr>;
         (ret, s) \<leftarrow> write_dev hal addr (Some (spt_bytes (spt s))) 4 s;
         if ret \<noteq> 0 then Some (- EPERM, s) else Some (0, s)
       }
     }
   }"

definition load_spt :: "'w librsu_ll_intf \<Rightarrow> 'w ops \<Rightarrow> (int \<times> 'w ops) option" where
  "load_spt hal s = do {
     (ret, s) \<leftarrow> read_spt hal (spt1_address (spt_addr s)) s;
     if ret \<noteq> 0 then Some (- EACCES, s)
     else do {
       let (spt1_good, s) = spt_good hal s;
       (ret, s) \<leftarrow> read_spt hal (spt0_address (spt_addr s)) s;
       if ret \<noteq> 0 then Some (- EACCES, s)
       else do {
         let (spt0_good, s) = spt_good hal s;
         if spt0_good \<and> spt1_good then do {
           (ret, s) \<leftarrow> check_both_spt hal s;
           if ret \<noteq> 0 then Some (- EFAULT, s\<lparr>spt_corrupted := True\<rparr>) else Some (0, s)
         }
         else if spt0_good then restore_spt1 hal s
         else if spt1_good then do {
           (ret, s) \<leftarrow> read_spt hal (spt1_address (spt_addr s)) s;
           if ret \<noteq> 0 then Some (- EPERM, s)
           else do {
             let (ok, s) = spt_good hal s;
             if \<not> ok then Some (- EPERM, s) else restore_spt0 hal s
           }
         }
         else Some (- EFAULT, s\<lparr>spt_corrupted := True\<rparr>)
       }
     }
   }"

text \<open>The checksum update of \<^verbatim>\<open>writeback_spt\<close>; false when the allocation fails.\<close>

definition update_spt_checksum :: "'w librsu_ll_intf \<Rightarrow> 'w ops \<Rightarrow> bool \<times> 'w ops" where
  "update_spt_checksum hal s =
     (if version (spt s) > SPT_VERSION \<and> librsu_cfg_spt_checksum_enabled hal \<noteq> 0 then
        (case ops_malloc hal SPT_SIZE s of
           (None, s) \<Rightarrow> (False, s)
         | (Some spt_data, s) \<Rightarrow>
             (let s = s\<lparr>spt := (spt s)\<lparr>checksum := 0\<rparr>\<rparr>;
                  spt_data = overlay spt_data 0 (spt_bytes (spt s));
                  spt_data = swap_bits spt_data SPT_SIZE;
                  calc_crc = rsu_crc32 hal 0 spt_data
              in (True, s\<lparr>spt := (spt s)\<lparr>checksum := swap_endian32 calc_crc\<rparr>\<rparr>)))
      else (True, s))"

text \<open>The body of the loop of \<^verbatim>\<open>writeback_spt\<close> for one copy \<open>x\<close>.\<close>

definition writeback_spt_copy :: "'w librsu_ll_intf \<Rightarrow> nat \<Rightarrow> 'w ops \<Rightarrow> (int \<times> 'w ops) option" where
  "writeback_spt_copy hal x s = do {
     (ret, s) \<leftarrow> erase_part hal (int x) s;
     if ret \<noteq> 0 then Some (- EIO, s)
     else do {
       let (allocated, s) = update_spt_checksum hal s;
       if \<not> allocated then Some (- ENOMEM, s)
       else do {
         let s = s\<lparr>spt := (spt s)\<lparr>magic_number := 0xFFFFFFFF\<rparr>\<rparr>;
         (ret, s) \<leftarrow> write_part hal (int x) 0 (Some (spt_bytes (spt s))) (int SPT_SIZE) s;
         if ret \<noteq> 0 then Some (- EIO, s)
         else do {
           let s = s\<lparr>spt := (spt s)\<lparr>magic_number := SPT_MAGIC_NUMBER\<rparr>\<rparr>;
           (ret, s) \<leftarrow> write_part hal (int x) 0 (Some (le_bytes 4 (magic_number (spt s)))) 4 s;
           if ret \<noteq> 0 then Some (- EIO, s) else Some (0, s)
         }
       }
     }
   }"

fun writeback_spt_loop ::
    "'w librsu_ll_intf \<Rightarrow> nat list \<Rightarrow> int \<Rightarrow> 'w ops \<Rightarrow> (int \<times> 'w ops) option" where
  "writeback_spt_loop hal [] updates s = Some (if updates \<noteq> 2 then - EADDRNOTAVAIL else 0, s)"
| "writeback_spt_loop hal (x # xs) updates s =
     (if \<not> (name_is (partition (spt s) ! x) ''SPT0'' \<or> name_is (partition (spt s) ! x) ''SPT1'')
      then writeback_spt_loop hal xs updates s
      else do {
        (ret, s) \<leftarrow> writeback_spt_copy hal x s;
        if ret \<noteq> 0 then Some (ret, s) else writeback_spt_loop hal xs (updates + 1) s
      })"

definition writeback_spt :: "'w librsu_ll_intf \<Rightarrow> 'w ops \<Rightarrow> (int \<times> 'w ops) option" where
  "writeback_spt hal s =
     (if unat (partitions (spt s)) > SPT_MAX_PARTITIONS then Some (- EFBIG, s)
      else writeback_spt_loop hal [0..<unat (partitions (spt s))] 0 s)"

end
