(* ===== verification/Rsu_Spt_Check.thy ===== *)
theory Rsu_Spt_Check
  imports Rsu_Spt
begin

text \<open>
  What \<^const>\<open>check_spt\<close> decides. \<open>spt_ok\<close> is the specification: at most 127 partitions, no two of
  the same name, no two that overlap, the four critical entries present. The loop terminates the
  names while it compares them, so a name is compared with names already cut and with names still
  to be cut; the lemmas show that this decides \<open>spt_ok\<close> of the table with all names cut.
\<close>

section \<open>The specification\<close>

definition same_name :: "spt_partition \<Rightarrow> spt_partition \<Rightarrow> bool" where
  "same_name p q \<longleftrightarrow> strncmp (p_name p) (p_name q) SPT_PARTITION_NAME_LENGTH = 0"

definition parts_overlap :: "spt_partition \<Rightarrow> spt_partition \<Rightarrow> bool" where
  "parts_overlap p q \<longleftrightarrow> p_offset p < part_end q \<and> part_end p > p_offset q"

definition has_part :: "SUB_PARTITION_TABLE \<Rightarrow> string \<Rightarrow> bool" where
  "has_part t nm \<longleftrightarrow> (\<exists>x < unat (partitions t). name_is (partition t ! x) nm)"

definition spt_ok :: "SUB_PARTITION_TABLE \<Rightarrow> bool" where
  "spt_ok t \<longleftrightarrow> unat (partitions t) \<le> SPT_MAX_PARTITIONS \<and>
     (\<forall>x < unat (partitions t). \<forall>y < unat (partitions t). x \<noteq> y \<longrightarrow>
        \<not> same_name (partition t ! x) (partition t ! y) \<and>
        \<not> parts_overlap (partition t ! x) (partition t ! y)) \<and>
     has_part t ''SPT0'' \<and> has_part t ''SPT1'' \<and> has_part t ''CPB0'' \<and> has_part t ''CPB1''"

text \<open>The table with the names of its first \<open>k\<close> entries terminated.\<close>

definition term_upto :: "nat \<Rightarrow> SUB_PARTITION_TABLE \<Rightarrow> SUB_PARTITION_TABLE" where
  "term_upto k t = t\<lparr>partition :=
     map (\<lambda>i. if i < k then terminate_name (partition t ! i) else partition t ! i)
       [0..<length (partition t)]\<rparr>"

definition term_names :: "SUB_PARTITION_TABLE \<Rightarrow> SUB_PARTITION_TABLE" where
  "term_names t = term_upto (unat (partitions t)) t"

section \<open>Names\<close>

lemma name_is_iff:
  "name_is p nm \<longleftrightarrow> takeWhile (\<lambda>c. c \<noteq> 0) (take 16 (p_name p)) = takeWhile (\<lambda>c. c \<noteq> 0) (take 16 (chars nm))"
  by (simp add: name_is_def strncmp_eq_0_iff)

lemma critical_names_distinct:
  "name_is p ''SPT0'' \<Longrightarrow> \<not> name_is p ''SPT1''" "name_is p ''SPT0'' \<Longrightarrow> \<not> name_is p ''CPB0''"
  "name_is p ''SPT0'' \<Longrightarrow> \<not> name_is p ''CPB1''" "name_is p ''SPT1'' \<Longrightarrow> \<not> name_is p ''CPB0''"
  "name_is p ''SPT1'' \<Longrightarrow> \<not> name_is p ''CPB1''" "name_is p ''CPB0'' \<Longrightarrow> \<not> name_is p ''CPB1''"
  by (simp_all add: name_is_iff chars_def)

lemma terminate_name_fields [simp]:
  "p_offset (terminate_name p) = p_offset p" "p_length (terminate_name p) = p_length p"
  "p_flags (terminate_name p) = p_flags p" "length (p_name (terminate_name p)) = length (p_name p)"
  by (simp_all add: terminate_name_def)

lemma part_end_terminate_name [simp]: "part_end (terminate_name p) = part_end p"
  by (simp add: part_end_def)

lemma strnlen_less_iff:
  assumes "length a = n" shows "strnlen a n < n \<longleftrightarrow> 0 \<in> set a"
proof -
  have "length (takeWhile (\<lambda>c. c \<noteq> 0) a) < length a \<longleftrightarrow> takeWhile (\<lambda>c. c \<noteq> 0) a \<noteq> a"
    by (metis length_takeWhile_le linorder_not_less nat_less_le takeWhile_eq_take take_all)
  then show ?thesis
    using assms takeWhile_eq_all_conv [of "\<lambda>c. c \<noteq> 0" a] by (auto simp: strnlen_def)
qed

lemma strnlen_terminated: "strnlen (p_name (terminate_name p)) 16 < 16" if "length (p_name p) = 16"
proof (cases "strnlen (p_name p) 16 < 16")
  case True
  then show ?thesis by (simp add: terminate_name_def)
next
  case False
  then have "p_name (terminate_name p) = (p_name p)[15 := 0]" by (simp add: terminate_name_def)
  moreover have "0 \<in> set ((p_name p)[15 := 0])" using that by (simp add: set_update_memI)
  ultimately show ?thesis using that by (simp add: strnlen_less_iff)
qed

lemma terminate_name_idem [simp]:
  assumes "length (p_name p) = 16" shows "terminate_name (terminate_name p) = terminate_name p"
  using strnlen_terminated [OF assms] by (simp add: terminate_name_def [of "terminate_name p"])

lemma same_name_sym: "same_name p q \<longleftrightarrow> same_name q p"
  by (simp add: same_name_def strncmp_sym)

text \<open>A terminated name that equals an unterminated one: only if the latter needs no cutting.\<close>

lemma same_name_terminated:
  assumes "length (p_name p) = 16" "same_name (terminate_name p) q"
  shows "terminate_name q = q"
proof -
  have "strnlen (p_name (terminate_name p)) 16 = strnlen (p_name q) 16"
    using assms(2) by (simp add: same_name_def strncmp_eq_0_iff strnlen_def)
  then show ?thesis using strnlen_terminated [OF assms(1)] by (simp add: terminate_name_def [of q])
qed

section \<open>The loops\<close>

lemma check_spt_others_0:
  "check_spt_others t x ys = 0 \<longleftrightarrow>
   (\<forall>y \<in> set ys. x \<noteq> y \<longrightarrow> \<not> same_name (partition t ! x) (partition t ! y) \<and>
      \<not> parts_overlap (partition t ! x) (partition t ! y))"
  by (induction ys) (auto simp: same_name_def parts_overlap_def)

lemma term_upto_fields [simp]:
  "partitions (term_upto k t) = partitions t" "magic_number (term_upto k t) = magic_number t"
  "version (term_upto k t) = version t" "checksum (term_upto k t) = checksum t"
  "RSVD (term_upto k t) = RSVD t" "length (partition (term_upto k t)) = length (partition t)"
  by (simp_all add: term_upto_def)

lemma nth_term_upto [simp]:
  "i < length (partition t) \<Longrightarrow>
   partition (term_upto k t) ! i = (if i < k then terminate_name (partition t ! i) else partition t ! i)"
  by (simp add: term_upto_def)

lemma term_upto_0 [simp]: "term_upto 0 t = t"
  by (simp add: term_upto_def map_nth)

lemma term_upto_Suc:
  assumes "k < length (partition t)"
  shows "(term_upto k t)\<lparr>partition := (partition (term_upto k t))
           [k := terminate_name (partition (term_upto k t) ! k)]\<rparr> = term_upto (Suc k) t"
proof -
  have "(partition (term_upto k t))[k := terminate_name (partition (term_upto k t) ! k)]
      = partition (term_upto (Suc k) t)"
    using assms by (intro nth_equalityI) (auto simp: nth_list_update less_Suc_eq)
  then show ?thesis by (simp add: term_upto_def)
qed

lemma wf_term_upto [simp]: "wf_spt t \<Longrightarrow> wf_spt (term_upto k t)"
  by (auto simp: wf_spt_def all_set_conv_all_nth)

lemma check_spt_loop_step:
  assumes "k < length (partition t)"
  shows "check_spt_loop (term_upto k t) f (k # xs) =
    (let ret = check_spt_others (term_upto (Suc k) t) k [0..<unat (partitions t)]
     in if ret \<noteq> 0 then (ret, f, term_upto (Suc k) t)
        else check_spt_loop (term_upto (Suc k) t) (note_critical f (terminate_name (partition t ! k))) xs)"
  using assms by (simp only: check_spt_loop.simps term_upto_Suc Let_def) simp

lemma check_spt_loop_spec:
  assumes "n \<le> length (partition t)" "n = unat (partitions t)" "k \<le> n"
    and "check_spt_loop (term_upto k t) f [k..<n] = (r, f', t')"
  shows "(\<exists>j. t' = term_upto j t) \<and>
    (r = 0 \<longleftrightarrow> (\<forall>x. k \<le> x \<and> x < n \<longrightarrow> check_spt_others (term_upto (Suc x) t) x [0..<n] = 0)) \<and>
    (r = 0 \<longrightarrow> t' = term_upto n t \<and>
       f' = fold (\<lambda>x f. note_critical f (terminate_name (partition t ! x))) [k..<n] f)"
  using assms(3,4)
proof (induction "n - k" arbitrary: k f)
  case 0
  then show ?case by auto
next
  case (Suc d)
  then have k: "k < n" by simp
  let ?t = "term_upto (Suc k) t"
  let ?r = "check_spt_others ?t k [0..<n]"
  have c: "[k..<n] = k # [Suc k..<n]" using k by (simp add: upt_conv_Cons)
  have all: "(\<forall>x. k \<le> x \<and> x < n \<longrightarrow> P x) \<longleftrightarrow> P k \<and> (\<forall>x. Suc k \<le> x \<and> x < n \<longrightarrow> P x)" for P
    using k by (metis Suc_leD le_antisym not_less_eq_eq)
  have run: "(if ?r \<noteq> 0 then (?r, f, ?t)
      else check_spt_loop ?t (note_critical f (terminate_name (partition t ! k))) [Suc k..<n]) = (r, f', t')"
    using Suc.prems(2) k assms(1,2) unfolding c
    by (simp only: check_spt_loop_step Let_def order_less_le_trans)
  show ?case
  proof (cases "?r = 0")
    case True
    have "d = n - Suc k" using Suc.hyps(2) by simp
    from Suc.hyps(1) [OF this, of "note_critical f (terminate_name (partition t ! k))"] run True k
    show ?thesis unfolding all c by simp
  next
    case False
    with run have "r = ?r" "t' = ?t" by auto
    with False show ?thesis unfolding all by auto
  qed
qed

lemma fold_note_critical:
  "spt0_found (fold (\<lambda>x f. note_critical f (g x)) xs f) \<longleftrightarrow> spt0_found f \<or> (\<exists>x \<in> set xs. name_is (g x) ''SPT0'')"
  "spt1_found (fold (\<lambda>x f. note_critical f (g x)) xs f) \<longleftrightarrow> spt1_found f \<or> (\<exists>x \<in> set xs. name_is (g x) ''SPT1'')"
  "cpb0_found (fold (\<lambda>x f. note_critical f (g x)) xs f) \<longleftrightarrow> cpb0_found f \<or> (\<exists>x \<in> set xs. name_is (g x) ''CPB0'')"
  "cpb1_found (fold (\<lambda>x f. note_critical f (g x)) xs f) \<longleftrightarrow> cpb1_found f \<or> (\<exists>x \<in> set xs. name_is (g x) ''CPB1'')"
  by (induction xs arbitrary: f) (auto simp: note_critical_def critical_names_distinct)

text \<open>
  All iterations together compare the terminated names pairwise: of two names, the one compared
  later is compared with the other already terminated.
\<close>

lemma pairwise_later:
  assumes sym: "\<And>x y. Q x y = Q y x"
    and PQ: "\<And>x y. x < n \<Longrightarrow> y < n \<Longrightarrow> P x y \<Longrightarrow> Q x y"
  shows "(\<forall>x < (n :: nat). \<forall>y < n. x \<noteq> y \<longrightarrow> \<not> (if y < Suc x then Q x y else P x y) \<and> \<not> V x y) \<longleftrightarrow>
    (\<forall>x < n. \<forall>y < n. x \<noteq> y \<longrightarrow> \<not> Q x y \<and> \<not> V x y)" (is "?L \<longleftrightarrow> ?R")
proof
  assume l: ?L
  show ?R
  proof (intro allI impI conjI)
    fix x y assume xy: "x < n" "y < n" "x \<noteq> y"
    show "\<not> V x y" using l xy by blast
    show "\<not> Q x y"
    proof (cases "y < x")
      case True
      then have "y < Suc x" by simp
      with l xy show ?thesis by meson
    next
      case False
      with xy(3) have "x < Suc y" by simp
      moreover have "\<not> (if x < Suc y then Q y x else P y x)"
        using l xy(1,2) not_sym [OF xy(3)] by blast
      ultimately have "\<not> Q y x" by simp
      then show ?thesis using sym by blast
    qed
  qed
next
  assume ?R
  then show ?L using PQ by (metis (full_types))
qed

lemma all_others_0:
  assumes "wf_spt t" "n = unat (partitions t)" "n \<le> 127"
  shows "(\<forall>x < n. check_spt_others (term_upto (Suc x) t) x [0..<n] = 0) \<longleftrightarrow>
    (\<forall>x < n. \<forall>y < n. x \<noteq> y \<longrightarrow>
       \<not> same_name (partition (term_names t) ! x) (partition (term_names t) ! y) \<and>
       \<not> parts_overlap (partition (term_names t) ! x) (partition (term_names t) ! y))"
    (is "?L \<longleftrightarrow> ?R")
proof -
  let ?p = "\<lambda>x. partition t ! x" and ?q = "\<lambda>x. terminate_name (partition t ! x)"
  let ?Q = "\<lambda>x y. same_name (?q x) (?q y)" and ?P = "\<lambda>x y. same_name (?q x) (?p y)"
    and ?V = "\<lambda>x y. parts_overlap (?p x) (?p y)"
  have len: "x < n \<Longrightarrow> x < length (partition t)" and nl: "x < n \<Longrightarrow> length (p_name (?p x)) = 16" for x
    using assms by (auto simp: wf_spt_def)
  have tn: "partition (term_names t) ! x = ?q x" if "x < n" for x
    using that assms(2) len by (simp add: term_names_def)
  have PQ: "?P x y \<Longrightarrow> ?Q x y" if "x < n" "y < n" for x y
    using same_name_terminated [OF nl [OF that(1)], of "?p y"] by simp
  have one: "check_spt_others (term_upto (Suc x) t) x [0..<n] = 0 \<longleftrightarrow>
      (\<forall>y < n. x \<noteq> y \<longrightarrow> \<not> (if y < Suc x then ?Q x y else ?P x y) \<and> \<not> ?V x y)" if "x < n" for x
    using len that by (simp add: check_spt_others_0 Ball_def parts_overlap_def)
  have "?L \<longleftrightarrow> (\<forall>x < n. \<forall>y < n. x \<noteq> y \<longrightarrow> \<not> (if y < Suc x then ?Q x y else ?P x y) \<and> \<not> ?V x y)"
    by (simp only: one cong: imp_cong)
  also have "\<dots> \<longleftrightarrow> (\<forall>x < n. \<forall>y < n. x \<noteq> y \<longrightarrow> \<not> ?Q x y \<and> \<not> ?V x y)"
    by (rule pairwise_later) (rule same_name_sym, erule (2) PQ)
  also have "\<dots> \<longleftrightarrow> ?R"
    by (simp only: tn parts_overlap_def part_end_terminate_name terminate_name_fields cong: imp_cong)
  finally show ?thesis .
qed

section \<open>\<open>check_spt\<close> decides \<open>spt_ok\<close>\<close>

lemma check_spt_spec:
  assumes "check_spt_checksum hal s = (0, s1)" "spt s1 = spt s" "wf_spt (spt s)"
    and "check_spt hal s = (r, s')"
  shows "(r = 0 \<longleftrightarrow> spt_ok (term_names (spt s))) \<and>
    (\<exists>j. s' = s1\<lparr>spt := term_upto j (spt s)\<rparr>) \<and>
    (r = 0 \<longrightarrow> s' = s1\<lparr>spt := term_names (spt s)\<rparr>)"
proof (cases "unat (partitions (spt s)) \<le> 127")
  case False
  with assms have "r = - EFBIG" "s' = s1" by (auto simp: check_spt_def)
  moreover have "s1 = s1\<lparr>spt := term_upto 0 (spt s)\<rparr>" using assms(2) by simp
  moreover have "\<not> spt_ok (term_names (spt s))" using False by (simp add: spt_ok_def term_names_def)
  ultimately show ?thesis by (intro conjI exI [of _ 0]) auto
next
  case True
  let ?n = "unat (partitions (spt s))"
  have len: "?n \<le> length (partition (spt s))" using True assms(3) by (simp add: wf_spt_def)
  obtain r1 f t where run: "check_spt_loop (spt s) none_found [0..<?n] = (r1, f, t)"
    by (metis prod_cases3)
  have spec: "(\<exists>j. t = term_upto j (spt s)) \<and>
    (r1 = 0 \<longleftrightarrow> (\<forall>x < ?n. check_spt_others (term_upto (Suc x) (spt s)) x [0..<?n] = 0)) \<and>
    (r1 = 0 \<longrightarrow> t = term_names (spt s) \<and>
       f = fold (\<lambda>x f. note_critical f (terminate_name (partition (spt s) ! x))) [0..<?n] none_found)"
    using check_spt_loop_spec [OF len refl, of 0 none_found r1 f t] run by (simp add: term_names_def)
  have has: "has_part (term_names (spt s)) nm \<longleftrightarrow>
      (\<exists>x \<in> set [0..<?n]. name_is (terminate_name (partition (spt s) ! x)) nm)" for nm
    using len by (auto simp: has_part_def term_names_def)
  have ok: "spt_ok (term_names (spt s)) \<longleftrightarrow> r1 = 0 \<and> spt0_found f \<and> spt1_found f \<and> cpb0_found f \<and> cpb1_found f"
  proof (cases "r1 = 0")
    case r1: True
    then have "f = fold (\<lambda>x f. note_critical f (terminate_name (partition (spt s) ! x))) [0..<?n] none_found"
      using spec by simp
    then show ?thesis
      using spec r1 True all_others_0 [OF assms(3) refl True] unfolding spt_ok_def has
      by (simp add: fold_note_critical none_found_def term_names_def)
  next
    case r1: False
    then show ?thesis
      using spec all_others_0 [OF assms(3) refl True] by (auto simp: spt_ok_def term_names_def)
  qed
  have "check_spt hal s = (if r1 \<noteq> 0 then (r1, s1\<lparr>spt := t\<rparr>)
      else if \<not> spt0_found f \<or> \<not> spt1_found f \<or> \<not> cpb0_found f \<or> \<not> cpb1_found f
        then (- ENXIO, s1\<lparr>spt := t\<rparr>) else (0, s1\<lparr>spt := t\<rparr>))"
    using assms(1,2) True run by (simp add: check_spt_def)
  then have s': "s' = s1\<lparr>spt := t\<rparr>" and r: "r = 0 \<longleftrightarrow> spt_ok (term_names (spt s))" "r = 0 \<longrightarrow> r1 = 0"
    using assms(4) by (simp_all add: ok split: if_splits)
  obtain j where "t = term_upto j (spt s)" using spec by blast
  moreover have "r = 0 \<longrightarrow> t = term_names (spt s)" using r(2) spec by blast
  ultimately show ?thesis using r(1) unfolding s' by blast
qed

text \<open>The checksum stage leaves the table alone.\<close>

lemma check_spt_checksum_frame:
  "check_spt_checksum hal s = (r, s1) \<Longrightarrow> \<exists>w. s1 = s\<lparr>world := w\<rparr>"
  by (auto simp: check_spt_checksum_def ops_malloc_def Let_def split: if_splits prod.splits option.splits
      intro: exI [of _ "world s"])

end
