(* ===== verification/Rsu_Spt_Load.thy ===== *)
theory Rsu_Spt_Load
  imports Rsu_Spt_Check
begin

text \<open>
  What \<^const>\<open>load_spt\<close> does to the flash and to the table. \<open>spt_valid\<close> is the specification of a
  good copy, as a predicate of its 4096 bytes.
\<close>

section \<open>Valid copies\<close>

definition checksum_ok :: "'w librsu_ll_intf \<Rightarrow> SUB_PARTITION_TABLE \<Rightarrow> bool" where
  "checksum_ok hal t \<longleftrightarrow> (version t > SPT_VERSION \<and> librsu_cfg_spt_checksum_enabled hal \<noteq> 0 \<longrightarrow>
     swap_endian32 (checksum t) = spt_crc hal t)"

definition spt_valid :: "'w librsu_ll_intf \<Rightarrow> byte list \<Rightarrow> bool" where
  "spt_valid hal bs \<longleftrightarrow> (let t = spt_of_bytes bs in
     magic_number t = SPT_MAGIC_NUMBER \<and> checksum_ok hal t \<and> spt_ok (term_names t))"

definition spt0_copy :: "('w \<Rightarrow> int \<Rightarrow> byte) \<Rightarrow> 'w ops \<Rightarrow> byte list" where
  "spt0_copy mem s = region (mem (world s)) (sint (spt0_address (spt_addr s))) SPT_SIZE"

definition spt1_copy :: "('w \<Rightarrow> int \<Rightarrow> byte) \<Rightarrow> 'w ops \<Rightarrow> byte list" where
  "spt1_copy mem s = region (mem (world s)) (sint (spt1_address (spt_addr s))) SPT_SIZE"

text \<open>The 32 KiB sectors of the two copies, which repair erases, are disjoint.\<close>

definition spt_sectors_disjoint :: "'w ops \<Rightarrow> bool" where
  "spt_sectors_disjoint s \<longleftrightarrow>
     sint (spt0_address (spt_addr s)) + 32768 \<le> sint (spt1_address (spt_addr s)) \<or>
     sint (spt1_address (spt_addr s)) + 32768 \<le> sint (spt0_address (spt_addr s))"

definition in_spt_sectors :: "'w ops \<Rightarrow> int \<Rightarrow> bool" where
  "in_spt_sectors s a \<longleftrightarrow>
     (sint (spt0_address (spt_addr s)) \<le> a \<and> a < sint (spt0_address (spt_addr s)) + 32768) \<or>
     (sint (spt1_address (spt_addr s)) \<le> a \<and> a < sint (spt1_address (spt_addr s)) + 32768)"

text \<open>The device offset of the first partition, as \<^const>\<open>load_spt0_offset\<close> finds it.\<close>

definition spt0_mtd_offset :: "SUB_PARTITION_TABLE \<Rightarrow> u64 \<Rightarrow> u64" where
  "spt0_mtd_offset t a =
     (case find (\<lambda>x. name_is (partition t ! x) ''SPT0'') [0..<unat (partitions t)] of
        None \<Rightarrow> 0
      | Some x \<Rightarrow> if p_offset (partition t ! x) = a then 0 else p_offset (partition t ! x))"

lemma find_upt_Some: "\<exists>x < n. P x \<Longrightarrow> \<exists>x. find P [0..<n] = Some x"
  by (cases "find P [0..<n]") (auto simp: find_None_iff)

lemma load_spt0_offset_ok:
  assumes "spt_ok (spt s)"
  shows "load_spt0_offset s =
    (0, s\<lparr>mtd_part_offset := spt0_mtd_offset (spt s) (spt0_address (spt_addr s))\<rparr>)"
proof -
  have n: "unat (partitions (spt s)) \<le> SPT_MAX_PARTITIONS"
    and h: "has_part (spt s) ''SPT0''"
    using assms by (simp_all add: spt_ok_def)
  obtain x where
    x: "find (\<lambda>x. name_is (partition (spt s) ! x) ''SPT0'') [0..<unat (partitions (spt s))] = Some x"
    using find_upt_Some [OF h [unfolded has_part_def]] by (rule exE)
  with n show ?thesis
    by (simp add: load_spt0_offset_def spt0_mtd_offset_def Let_def)
qed

text \<open>
  The two repair branches are one operation at two addresses: the second writes the magic number
  through \<^const>\<open>write_dev\<close>, the first straight through the platform.
\<close>

definition restore_spt_at :: "'w librsu_ll_intf \<Rightarrow> int \<Rightarrow> 'w ops \<Rightarrow> (int \<times> 'w ops) option" where
  "restore_spt_at hal a s = do {
     (ret, s) \<leftarrow> erase_dev hal a (32 * 1024) s;
     if ret \<noteq> 0 then Some (- EPERM, s)
     else do {
       let s = s\<lparr>spt := (spt s)\<lparr>magic_number := 0xFFFFFFFF\<rparr>\<rparr>;
       (ret, s) \<leftarrow> write_dev hal a (Some (spt_bytes (spt s))) (int SPT_SIZE) s;
       if ret \<noteq> 0 then Some (- EPERM, s)
       else do {
         let s = s\<lparr>spt := (spt s)\<lparr>magic_number := SPT_MAGIC_NUMBER\<rparr>\<rparr>;
         (ret, s) \<leftarrow> write_dev hal a (Some (spt_bytes (spt s))) 4 s;
         if ret \<noteq> 0 then Some (- EPERM, s) else Some (0, s)
       }
     }
   }"

lemma restore_spt0_at: "restore_spt0 hal s = restore_spt_at hal (sint (spt0_address (spt_addr s))) s"
  by (simp add: restore_spt0_def restore_spt_at_def Let_def)

lemma write_dev_4:
  "4 \<le> length b \<Longrightarrow> write_dev hal a (Some b) 4 s =
   Option.bind (qspi_write hal (world s) a (take 4 b)) (\<lambda>(r, w). Some (r, s\<lparr>world := w\<rparr>))"
  by (simp add: write_dev_def size_of_int_nonneg)

lemma write_dev_spt: "write_dev hal a b len s = Some (r, s') \<Longrightarrow> spt s' = spt s"
  by (auto simp: write_dev_def Option.bind_eq_Some_conv split: option.splits if_splits)

lemma erase_dev_spt: "erase_dev hal a len s = Some (r, s') \<Longrightarrow> spt s' = spt s"
  by (auto simp: erase_dev_def Option.bind_eq_Some_conv split: if_splits)

lemma restore_spt1_at:
  assumes "wf_spt (spt s)"
  shows "restore_spt1 hal s = restore_spt_at hal (sint (spt1_address (spt_addr s))) s"
proof -
  have l: "4 \<le> length (spt_bytes ((spt s)\<lparr>magic_number := SPT_MAGIC_NUMBER\<rparr>))"
    using assms by (subst length_spt_bytes) (simp_all add: wf_spt_def)
  show ?thesis
    unfolding restore_spt1_def restore_spt_at_def Let_def
    by (intro Option.bind_cong refl)
      (auto intro!: Option.bind_cong simp: write_dev_4 [OF l] Option.bind_assoc dest!: write_dev_spt erase_dev_spt split: prod.splits)
qed

text \<open>What \<^const>\<open>load_spt\<close> does once it knows which copies are good.\<close>

definition load_spt_decide :: "'w librsu_ll_intf \<Rightarrow> bool \<Rightarrow> bool \<Rightarrow> 'w ops \<Rightarrow> (int \<times> 'w ops) option" where
  "load_spt_decide hal spt0_good spt1_good s =
     (if spt0_good \<and> spt1_good then do {
        (ret, s) \<leftarrow> check_both_spt hal s;
        if ret \<noteq> 0 then Some (- EFAULT, s\<lparr>spt_corrupted := True\<rparr>) else Some (0, s)
      }
      else if spt0_good then restore_spt1 hal s
      else if spt1_good then do {
        (ret, s) \<leftarrow> read_spt hal (spt1_address (spt_addr s)) s;
        if ret \<noteq> 0 then Some (- EPERM, s)
        else do {
          let (ok, s) = spt_good hal s;
          if \<not> ok then Some (- EPERM, s) else restore_spt0 hal s
        }
      }
      else Some (- EFAULT, s\<lparr>spt_corrupted := True\<rparr>))"

lemma load_spt_unfold:
  "load_spt hal s = do {
     (ret, s) \<leftarrow> read_spt hal (spt1_address (spt_addr s)) s;
     if ret \<noteq> 0 then Some (- EACCES, s)
     else do {
       let (spt1_good, s) = spt_good hal s;
       (ret, s) \<leftarrow> read_spt hal (spt0_address (spt_addr s)) s;
       if ret \<noteq> 0 then Some (- EACCES, s)
       else do {
         let (spt0_good, s) = spt_good hal s;
         load_spt_decide hal spt0_good spt1_good s
       }
     }
   }"
  unfolding load_spt_def load_spt_decide_def ..

context nor_flash begin

lemma ops_malloc_spec:
  assumes "ops_malloc hal n s = (p, s')"
  obtains w' where "s' = s\<lparr>world := w'\<rparr>" "mem w' = mem (world s)" "\<And>b. p = Some b \<Longrightarrow> length b = n"
proof -
  obtain w' where w: "rsu_malloc hal (world s) n = (p, w')" "s' = s\<lparr>world := w'\<rparr>"
    using assms by (cases "rsu_malloc hal (world s) n") (simp add: ops_malloc_def)
  show thesis
    by (rule that [OF w(2) malloc_mem [OF w(1)]]) (use malloc_len w(1) in simp)
qed

lemma overlay_full: "length b = length xs \<Longrightarrow> overlay b 0 xs = xs"
  by (simp add: overlay_def)

lemma check_spt_checksum_spec:
  assumes "check_spt_checksum hal s = (r, s')" "wf_spt (spt s)"
  obtains w' where "s' = s\<lparr>world := w'\<rparr>" "mem w' = mem (world s)" "r = 0 \<Longrightarrow> checksum_ok hal (spt s)"
proof (cases "version (spt s) > SPT_VERSION \<and> librsu_cfg_spt_checksum_enabled hal \<noteq> 0")
  case False
  with assms(1) have "r = 0" "s' = s" by (simp_all only: check_spt_checksum_def if_False prod.inject)
  moreover from False have "checksum_ok hal (spt s)" unfolding checksum_ok_def by blast
  ultimately show thesis by (intro that [of "world s"]) simp_all
next
  case True
  obtain p s1 where m: "ops_malloc hal SPT_SIZE s = (p, s1)" by (metis surj_pair)
  from m obtain w' where w: "s1 = s\<lparr>world := w'\<rparr>" "mem w' = mem (world s)" "\<And>b. p = Some b \<Longrightarrow> length b = SPT_SIZE"
    by (rule ops_malloc_spec) blast
  show thesis
  proof (cases p)
    case None
    with True m assms(1) have "r \<noteq> 0" "s' = s1" by (auto simp: check_spt_checksum_def)
    with w show thesis by (intro that [of w']) auto
  next
    case (Some b)
    have o: "overlay b 0 (spt_bytes (spt s)) = spt_bytes (spt s)"
      using w(3) [OF Some] assms(2) by (intro overlay_full) (simp add: length_spt_bytes)
    have "(r, s') = (if swap_endian32 (checksum (spt s)) \<noteq> spt_crc hal (spt s) then (- EBADF, s1) else (0, s1))"
      using assms(1) True m Some w(1) o
      by (auto simp: check_spt_checksum_def spt_crc_def Let_def split: if_splits)
    then have "s' = s1" "r = 0 \<Longrightarrow> swap_endian32 (checksum (spt s)) = spt_crc hal (spt s)"
      by (auto split: if_splits)
    with w show thesis by (intro that [of w']) (auto simp: checksum_ok_def)
  qed
qed

text \<open>
  The test of a table just read changes only the names (terminating some), the offset and the
  heap; a table that passes is valid, and all its names are terminated.
\<close>

lemma spt_good_spec:
  assumes "spt_good hal s = (g, s')" "wf_spt (spt s)"
  obtains w' j m where "s' = s\<lparr>spt := term_upto j (spt s), mtd_part_offset := m, world := w'\<rparr>"
    "mem w' = mem (world s)"
    "g \<Longrightarrow> magic_number (spt s) = SPT_MAGIC_NUMBER \<and> checksum_ok hal (spt s) \<and>
       spt_ok (term_names (spt s)) \<and> spt s' = term_names (spt s) \<and>
       m = spt0_mtd_offset (spt s') (spt0_address (spt_addr s))"
proof (cases "magic_number (spt s) = SPT_MAGIC_NUMBER")
  case False
  with assms(1) have "\<not> g" "s' = s" by (auto simp: spt_good_def)
  then show thesis by (intro that [of "world s" "mtd_part_offset s" 0]) auto
next
  case magic: True
  obtain r1 s1 where c: "check_spt_checksum hal s = (r1, s1)" by (metis surj_pair)
  from c assms(2) obtain w1 where s1: "s1 = s\<lparr>world := w1\<rparr>" "mem w1 = mem (world s)"
    "r1 = 0 \<Longrightarrow> checksum_ok hal (spt s)" by (rule check_spt_checksum_spec) blast
  obtain r2 s2 where k: "check_spt hal s = (r2, s2)" by (metis surj_pair)
  show thesis
  proof (cases "r1 = 0")
    case False
    with c k have "r2 \<noteq> 0" "s2 = s1" by (auto simp: check_spt_def)
    with assms(1) magic k have "\<not> g" "s' = s1" by (auto simp: spt_good_def)
    with s1 show thesis by (intro that [of w1 "mtd_part_offset s" 0]) auto
  next
    case True
    from s1(1) have sp: "spt s1 = spt s" by simp
    note spec = check_spt_spec [OF c [unfolded True] sp assms(2) k]
    from spec obtain j where j: "s2 = s1\<lparr>spt := term_upto j (spt s)\<rparr>" by blast
    show thesis
    proof (cases "r2 = 0")
      case False
      with assms(1) magic k have "\<not> g" "s' = s2" by (auto simp: spt_good_def)
      with s1 j show thesis by (intro that [of w1 "mtd_part_offset s" j]) auto
    next
      case r2: True
      with spec have t: "spt_ok (term_names (spt s))" "s2 = s1\<lparr>spt := term_names (spt s)\<rparr>" by auto
      from t have "load_spt0_offset s2 =
          (0, s2\<lparr>mtd_part_offset := spt0_mtd_offset (spt s2) (spt0_address (spt_addr s2))\<rparr>)"
        by (intro load_spt0_offset_ok) simp
      with assms(1) magic k r2 have
        "s' = s2\<lparr>mtd_part_offset := spt0_mtd_offset (spt s2) (spt0_address (spt_addr s2))\<rparr>" "g"
        by (auto simp: spt_good_def)
      with t s1 True magic show thesis
        by (intro that [of w1 "spt0_mtd_offset (spt s2) (spt0_address (spt_addr s2))" "unat (partitions (spt s))"])
          (auto simp: term_names_def)
    qed
  qed
qed

lemma read_spt_spec:
  assumes "read_spt hal a s = Some (r, s')" "wf_spt (spt s)"
  obtains w' t where "s' = s\<lparr>spt := t, world := w'\<rparr>" "mem w' = mem (world s)" "wf_spt t"
    "r = 0 \<Longrightarrow> t = spt_of_bytes (region (mem (world s)) (sint a) SPT_SIZE)"
proof -
  from assms(1) obtain d s1 where d: "read_dev hal (sint a) (Some (spt_bytes (spt s))) (int SPT_SIZE) s = Some (r, d, s1)"
    and s': "s' = s1\<lparr>spt := spt_of_bytes d\<rparr>"
    by (auto simp: read_spt_def Option.bind_eq_Some_conv)
  from d obtain w' where w: "s1 = s\<lparr>world := w'\<rparr>" "mem w' = mem (world s)"
    "length d = length (spt_bytes (spt s))"
    "r = 0 \<Longrightarrow> 0 < int SPT_SIZE \<and> nat (int SPT_SIZE) \<le> length (spt_bytes (spt s)) \<and>
       d = region (mem (world s)) (sint a) (nat (int SPT_SIZE)) @ drop (nat (int SPT_SIZE)) (spt_bytes (spt s))"
    by (rule read_dev_spec) (simp_all only: of_nat_numeral, simp_all)
  have l: "length (spt_bytes (spt s)) = SPT_SIZE" using assms(2) by (rule length_spt_bytes)
  show thesis
    by (rule that [of w' "spt_of_bytes d"])
      (use w s' l wf_spt_of_bytes [of d] in \<open>auto simp: nat_numeral\<close>)
qed

text \<open>
  The two repair branches: the table is erased and rewritten in its sector, nothing outside the
  sector changes; on success the copy is exactly the table.
\<close>

lemma restore_copy:
  assumes er: "erase_dev hal a (32 * 1024) s = Some (0, s1)"
    and w1: "write_dev hal a (Some (spt_bytes ((spt s)\<lparr>magic_number := 0xFFFFFFFF\<rparr>))) (int SPT_SIZE)
      (s1\<lparr>spt := (spt s)\<lparr>magic_number := 0xFFFFFFFF\<rparr>\<rparr>) = Some (r2, s2)"
    and wf: "wf_spt (spt s)" and magic: "magic_number (spt s) = SPT_MAGIC_NUMBER"
  obtains w2 where "s2 = s\<lparr>spt := (spt s)\<lparr>magic_number := 0xFFFFFFFF\<rparr>, world := w2\<rparr>"
    "\<And>x. x < a \<or> a + 32768 \<le> x \<Longrightarrow> mem w2 x = mem (world s) x"
    "\<And>m'. r2 = 0 \<Longrightarrow> (\<And>x. x < a \<or> a + 4 \<le> x \<Longrightarrow> m' x = mem w2 x) \<Longrightarrow>
       (programmable (region (mem w2) a 4) (take 4 (spt_bytes (spt s))) \<Longrightarrow>
         region m' a 4 = take 4 (spt_bytes (spt s))) \<Longrightarrow> region m' a SPT_SIZE = spt_bytes (spt s)"
proof -
  let ?u = "(spt s)\<lparr>magic_number := 0xFFFFFFFF\<rparr>"
  have l: "length (spt_bytes (spt s)) = SPT_SIZE" "length (spt_bytes ?u) = SPT_SIZE"
    using wf by (simp_all add: length_spt_bytes wf_spt_def)
  from er obtain w1 where s1: "s1 = s\<lparr>world := w1\<rparr>"
    and f1: "\<And>x. x < a \<or> a + 32 * 1024 \<le> x \<Longrightarrow> mem w1 x = mem (world s) x"
    and e1: "(0 :: int) = 0 \<Longrightarrow> (0 :: int) < 32 * 1024 \<and> (\<forall>x. a \<le> x \<and> x < a + 32 * 1024 \<longrightarrow> mem w1 x = 0xFF)"
    by (rule erase_dev_spec) simp_all
  from w1 obtain w2 where s2: "s2 = s1\<lparr>spt := ?u\<rparr>\<lparr>world := w2\<rparr>"
    and f2: "\<And>x. x < a \<or> a + int SPT_SIZE \<le> x \<Longrightarrow> mem w2 x = mem (world (s1\<lparr>spt := ?u\<rparr>)) x"
    and d2: "r2 = 0 \<Longrightarrow> 0 < int SPT_SIZE \<and> nat (int SPT_SIZE) \<le> length (spt_bytes ?u) \<and>
       (programmable (region (mem (world (s1\<lparr>spt := ?u\<rparr>))) a (nat (int SPT_SIZE))) (take (nat (int SPT_SIZE)) (spt_bytes ?u)) \<longrightarrow>
        region (mem w2) a (nat (int SPT_SIZE)) = take (nat (int SPT_SIZE)) (spt_bytes ?u))"
    by (rule write_dev_spec) simp_all
  have "region (mem w2) a SPT_SIZE = spt_bytes ?u" if "r2 = 0"
  proof -
    have "programmable (region (mem w1) a SPT_SIZE) (spt_bytes ?u)"
      by (rule programmable_erased) (use e1 l in \<open>auto simp: region_def\<close>)
    then show ?thesis using d2 [OF that] s1 l by simp
  qed
  moreover have hd: "take 4 (spt_bytes (spt s)) = le_bytes 4 (0x57713427 :: u32)"
    using magic by (simp add: spt_bytes_def spt_header_bytes_def)
  ultimately have "region m' a SPT_SIZE = spt_bytes (spt s)"
    if "r2 = 0" "\<And>x. x < a \<or> a + 4 \<le> x \<Longrightarrow> m' x = mem w2 x"
      "programmable (region (mem w2) a 4) (take 4 (spt_bytes (spt s))) \<Longrightarrow>
         region m' a 4 = take 4 (spt_bytes (spt s))" for m'
    using that l wf write_magic_last [of "spt_bytes (spt s)" SPT_SIZE SPT_MAGIC_NUMBER "mem w2" a m']
    by (simp add: spt_bytes_magic)
  then show thesis
    by (intro that [of w2]) (use s1 s2 f1 f2 in auto)
qed

lemma restore_spt_at_spec:
  assumes "restore_spt_at hal a s = Some (r, s')" "wf_spt (spt s)" "magic_number (spt s) = SPT_MAGIC_NUMBER"
  obtains w' t where "s' = s\<lparr>spt := t, world := w'\<rparr>" "wf_spt t"
    "\<And>x. x < a \<or> a + 32768 \<le> x \<Longrightarrow> mem w' x = mem (world s) x"
    "r = 0 \<Longrightarrow> t = spt s \<and> region (mem w') a SPT_SIZE = spt_bytes (spt s)"
proof -
  let ?u = "(spt s)\<lparr>magic_number := 0xFFFFFFFF\<rparr>"
  have wfu: "wf_spt ?u" using assms(2) by (simp add: wf_spt_def)
  obtain r1 s1 where er: "erase_dev hal a (32 * 1024) s = Some (r1, s1)"
    using assms(1) by (auto simp: restore_spt_at_def Option.bind_eq_Some_conv Let_def)
  from er obtain w1 where s1: "s1 = s\<lparr>world := w1\<rparr>"
    and f1: "\<And>x. x < a \<or> a + 32 * 1024 \<le> x \<Longrightarrow> mem w1 x = mem (world s) x"
    by (rule erase_dev_spec) simp_all
  show thesis
  proof (cases "r1 = 0")
    case False
    with assms(1) er have "r \<noteq> 0" "s' = s1" by (auto simp: restore_spt_at_def Let_def)
    with s1 f1 assms(2) show thesis by (intro that [of w1 "spt s"]) auto
  next
    case True
    obtain r2 s2 where w2: "write_dev hal a (Some (spt_bytes ?u)) (int SPT_SIZE) (s1\<lparr>spt := ?u\<rparr>) = Some (r2, s2)"
      using assms(1) er True s1 by (auto simp: restore_spt_at_def Option.bind_eq_Some_conv Let_def)
    from restore_copy [OF er [unfolded True] w2 assms(2,3)] obtain v2 where
      s2: "s2 = s\<lparr>spt := ?u, world := v2\<rparr>"
      and f2: "\<And>x. x < a \<or> a + 32768 \<le> x \<Longrightarrow> mem v2 x = mem (world s) x"
      and d2: "\<And>m'. r2 = 0 \<Longrightarrow> (\<And>x. x < a \<or> a + 4 \<le> x \<Longrightarrow> m' x = mem v2 x) \<Longrightarrow>
       (programmable (region (mem v2) a 4) (take 4 (spt_bytes (spt s))) \<Longrightarrow>
         region m' a 4 = take 4 (spt_bytes (spt s))) \<Longrightarrow> region m' a SPT_SIZE = spt_bytes (spt s)"
      by blast
    show thesis
    proof (cases "r2 = 0")
      case False
      with assms(1) er True s1 w2 have "r \<noteq> 0" "s' = s2" by (auto simp: restore_spt_at_def Let_def)
      with s2 f2 wfu show thesis by (intro that [of v2 ?u]) auto
    next
      case r2: True
      let ?v = "s\<lparr>world := v2\<rparr>"
      have m: "(spt s)\<lparr>magic_number := SPT_MAGIC_NUMBER\<rparr> = spt s" using assms(3) by simp
      obtain r3 s3 where w3: "write_dev hal a (Some (spt_bytes (spt s))) 4 ?v = Some (r3, s3)"
        and s': "s' = s3" "r = 0 \<longrightarrow> r3 = 0"
        using assms(1) er True s1 w2 r2 s2 m
        by (auto simp: restore_spt_at_def Option.bind_eq_Some_conv Let_def split: if_splits)
      from w3 obtain v3 where s3: "s3 = ?v\<lparr>world := v3\<rparr>"
        and f3: "\<And>x. x < a \<or> a + 4 \<le> x \<Longrightarrow> mem v3 x = mem (world ?v) x"
        and d3: "r3 = 0 \<Longrightarrow> (0 :: int) < 4 \<and> nat 4 \<le> length (spt_bytes (spt s)) \<and>
          (programmable (region (mem (world ?v)) a (nat 4)) (take (nat 4) (spt_bytes (spt s))) \<longrightarrow>
           region (mem v3) a (nat 4) = take (nat 4) (spt_bytes (spt s)))"
        by (rule write_dev_spec) simp_all
      have "region (mem v3) a SPT_SIZE = spt_bytes (spt s)" if "r = 0"
        by (rule d2) (use r2 f3 d3 s'(2) that in auto)
      then show thesis using s' s3 f2 f3 assms(2)
        by (intro that [of v3 "spt s"]) auto
    qed
  qed
qed

text \<open>Loading first reads and tests both copies; the flash and the fixed part of the state stay.\<close>

lemma load_spt_scan:
  assumes run: "load_spt hal s = Some (r, s')" and wf: "wf_spt (spt s)"
  obtains
    (failed) w t m where "r = - EACCES" "s' = s\<lparr>spt := t, mtd_part_offset := m, world := w\<rparr>" "wf_spt t"
      "mem w = mem (world s)"
      "(\<exists>q. q \<noteq> 0 \<and> read_spt hal (spt1_address (spt_addr s)) s = Some (q, s')) \<or>
       (\<exists>s1 g1 s2 q. q \<noteq> 0 \<and> read_spt hal (spt1_address (spt_addr s)) s = Some (0, s1) \<and>
          spt_good hal s1 = (g1, s2) \<and> read_spt hal (spt0_address (spt_addr s)) s2 = Some (q, s'))"
  | (scanned) s1 g1 s2 s3 g0 s4 w t m where
      "read_spt hal (spt1_address (spt_addr s)) s = Some (0, s1)" "spt_good hal s1 = (g1, s2)"
      "read_spt hal (spt0_address (spt_addr s)) s2 = Some (0, s3)" "spt_good hal s3 = (g0, s4)"
      "spt s1 = spt_of_bytes (spt1_copy mem s)" "spt s3 = spt_of_bytes (spt0_copy mem s)"
      "s4 = s\<lparr>spt := t, mtd_part_offset := m, world := w\<rparr>" "mem w = mem (world s)" "wf_spt t"
      "g1 \<Longrightarrow> spt_valid hal (spt1_copy mem s)"
      "g0 \<Longrightarrow> spt_valid hal (spt0_copy mem s) \<and> t = term_names (spt_of_bytes (spt0_copy mem s)) \<and>
         m = spt0_mtd_offset t (spt0_address (spt_addr s))"
      "load_spt_decide hal g0 g1 s4 = Some (r, s')"
proof -
  from run obtain r1 s1 where rd1: "read_spt hal (spt1_address (spt_addr s)) s = Some (r1, s1)"
    by (auto simp: load_spt_unfold Option.bind_eq_Some_conv)
  from rd1 wf obtain w1 t1 where s1: "s1 = s\<lparr>spt := t1, world := w1\<rparr>" and m1: "mem w1 = mem (world s)"
    and wf1: "wf_spt t1"
    and d1: "r1 = 0 \<Longrightarrow> t1 = spt_of_bytes (region (mem (world s)) (sint (spt1_address (spt_addr s))) SPT_SIZE)"
    by (rule read_spt_spec) blast
  show thesis
  proof (cases "r1 = 0")
    case False
    with run rd1 have r: "r = - EACCES" "s' = s1" by (auto simp: load_spt_unfold)
    have "s1 = s\<lparr>spt := t1, mtd_part_offset := mtd_part_offset s, world := w1\<rparr>" using s1 by simp
    from failed [OF r(1) this [folded r(2)] wf1 m1] rd1 False show thesis unfolding r(2) by blast
  next
    case r1: True
    obtain g1 s2 where sg1: "spt_good hal s1 = (g1, s2)" by (metis surj_pair)
    have wfs1: "wf_spt (spt s1)" using s1 wf1 by simp
    from sg1 wfs1 obtain w2 j2 n2 where
      s2: "s2 = s1\<lparr>spt := term_upto j2 (spt s1), mtd_part_offset := n2, world := w2\<rparr>"
      and m2: "mem w2 = mem (world s1)"
      and g1: "g1 \<Longrightarrow> magic_number (spt s1) = SPT_MAGIC_NUMBER \<and> checksum_ok hal (spt s1) \<and>
        spt_ok (term_names (spt s1)) \<and> spt s2 = term_names (spt s1) \<and>
        n2 = spt0_mtd_offset (spt s2) (spt0_address (spt_addr s1))"
      by (rule spt_good_spec) blast
    have wf2: "wf_spt (spt s2)" using s2 wfs1 by simp
    have a2: "spt_addr s2 = spt_addr s" using s1 s2 by simp
    from run rd1 r1 sg1 a2 obtain r3 s3 where rd0: "read_spt hal (spt0_address (spt_addr s)) s2 = Some (r3, s3)"
      by (auto simp: load_spt_unfold Option.bind_eq_Some_conv)
    from rd0 wf2 obtain w3 t3 where s3: "s3 = s2\<lparr>spt := t3, world := w3\<rparr>" and m3: "mem w3 = mem (world s2)"
      and wf3: "wf_spt t3"
      and d3: "r3 = 0 \<Longrightarrow> t3 = spt_of_bytes (region (mem (world s2)) (sint (spt0_address (spt_addr s))) SPT_SIZE)"
      by (rule read_spt_spec) blast
    have mw2: "mem (world s2) = mem (world s)" and mw3: "mem w3 = mem (world s)"
      using m1 m2 m3 s1 s2 by simp_all
    show thesis
    proof (cases "r3 = 0")
      case False
      with run rd1 r1 sg1 a2 rd0 have r: "r = - EACCES" "s' = s3" by (auto simp: load_spt_unfold)
      have "s3 = s\<lparr>spt := t3, mtd_part_offset := n2, world := w3\<rparr>" using s1 s2 s3 by simp
      from failed [OF r(1) this [folded r(2)] wf3 mw3] rd1 r1 sg1 rd0 False show thesis unfolding r(2) by blast
    next
      case r3: True
      obtain g0 s4 where sg0: "spt_good hal s3 = (g0, s4)" by (metis surj_pair)
      have wfs3: "wf_spt (spt s3)" using s3 wf3 by simp
      from sg0 wfs3 obtain w4 j4 n4 where
        s4: "s4 = s3\<lparr>spt := term_upto j4 (spt s3), mtd_part_offset := n4, world := w4\<rparr>"
        and m4: "mem w4 = mem (world s3)"
        and g0: "g0 \<Longrightarrow> magic_number (spt s3) = SPT_MAGIC_NUMBER \<and> checksum_ok hal (spt s3) \<and>
          spt_ok (term_names (spt s3)) \<and> spt s4 = term_names (spt s3) \<and>
          n4 = spt0_mtd_offset (spt s4) (spt0_address (spt_addr s3))"
        by (rule spt_good_spec) blast
      have t1: "spt s1 = spt_of_bytes (spt1_copy mem s)" using s1 d1 r1 by (simp add: spt1_copy_def)
      have t3: "spt s3 = spt_of_bytes (spt0_copy mem s)" using s3 d3 r3 mw2 by (simp add: spt0_copy_def)
      have e4: "s4 = s\<lparr>spt := term_upto j4 (spt s3), mtd_part_offset := n4, world := w4\<rparr>"
        using s4 s3 s2 s1 by simp
      have v1: "g1 \<Longrightarrow> spt_valid hal (spt1_copy mem s)" using g1 t1 by (simp add: spt_valid_def)
      have v0: "g0 \<Longrightarrow> spt_valid hal (spt0_copy mem s) \<and> spt s4 = term_names (spt_of_bytes (spt0_copy mem s)) \<and>
          n4 = spt0_mtd_offset (spt s4) (spt0_address (spt_addr s))"
        using g0 t3 s3 a2 by (simp add: spt_valid_def)
      have dec: "load_spt_decide hal g0 g1 s4 = Some (r, s')"
        using run rd1 r1 sg1 a2 rd0 r3 sg0 by (simp add: load_spt_unfold)
      show thesis
        by (rule scanned [OF rd1 [unfolded r1] sg1 rd0 [unfolded r3] sg0 t1 t3 e4 _ _ v1 _ dec])
          (use m4 s3 mw3 wfs3 v0 e4 in auto)
    qed
  qed
qed

lemma check_both_spt_spec:
  assumes "check_both_spt hal s = Some (r, s')"
  obtains w' where "s' = s\<lparr>world := w'\<rparr>" "mem w' = mem (world s)"
    "r = 0 \<Longrightarrow> spt0_copy mem s = spt1_copy mem s"
proof -
  obtain p0 s1 where m0: "ops_malloc hal SPT_SIZE s = (p0, s1)" by (metis surj_pair)
  obtain p1 s2 where m1: "ops_malloc hal SPT_SIZE s1 = (p1, s2)" by (metis surj_pair)
  from m0 obtain w1 where s1: "s1 = s\<lparr>world := w1\<rparr>" "mem w1 = mem (world s)"
    "\<And>b. p0 = Some b \<Longrightarrow> length b = SPT_SIZE" by (rule ops_malloc_spec) blast
  from m1 obtain w2 where s2: "s2 = s1\<lparr>world := w2\<rparr>" "mem w2 = mem (world s1)"
    "\<And>b. p1 = Some b \<Longrightarrow> length b = SPT_SIZE" by (rule ops_malloc_spec) blast
  show thesis
  proof (cases "p0 = None \<or> p1 = None")
    case True
    with assms m0 m1 have "r \<noteq> 0" "s' = s1 \<or> s' = s2" by (auto simp: check_both_spt_def split: option.splits)
    from this(2) show thesis
    proof
      assume "s' = s1"
      with s1 \<open>r \<noteq> 0\<close> show thesis by (intro that [of w1]) simp_all
    next
      assume "s' = s2"
      with s1 s2 \<open>r \<noteq> 0\<close> show thesis by (intro that [of w2]) simp_all
    qed
  next
    case False
    then obtain b0 b1 where b: "p0 = Some b0" "p1 = Some b1" by auto
    have a2: "spt_addr s2 = spt_addr s" "mem (world s2) = mem (world s)" using s1 s2 by simp_all
    from assms m0 m1 b a2 obtain r3 d0 s3 where
      rd0: "read_dev hal (sint (spt0_address (spt_addr s))) (Some b0) (int SPT_SIZE) s2 = Some (r3, d0, s3)"
      by (auto simp: check_both_spt_def Option.bind_eq_Some_conv)
    from rd0 obtain w3 where s3: "s3 = s2\<lparr>world := w3\<rparr>" "mem w3 = mem (world s2)" "length d0 = length b0"
      "r3 = 0 \<Longrightarrow> 0 < int SPT_SIZE \<and> nat (int SPT_SIZE) \<le> length b0 \<and>
        d0 = region (mem (world s2)) (sint (spt0_address (spt_addr s))) (nat (int SPT_SIZE)) @ drop (nat (int SPT_SIZE)) b0"
      by (rule read_dev_spec) (simp_all only: of_nat_numeral, simp_all)
    show thesis
    proof (cases "r3 = 0")
      case False
      with assms m0 m1 b a2 rd0 have "r \<noteq> 0" "s' = s3" by (auto simp: check_both_spt_def)
      with s1 s2 s3 show thesis by (intro that [of w3]) simp_all
    next
      case r3: True
      have a3: "spt_addr s3 = spt_addr s" "mem (world s3) = mem (world s)" using s3 a2 by simp_all
      from assms m0 m1 b a2 rd0 r3 a3 obtain r4 d1 s4 where
        rd1: "read_dev hal (sint (spt1_address (spt_addr s))) (Some b1) (int SPT_SIZE) s3 = Some (r4, d1, s4)"
        by (auto simp: check_both_spt_def Option.bind_eq_Some_conv)
      from rd1 obtain w4 where s4: "s4 = s3\<lparr>world := w4\<rparr>" "mem w4 = mem (world s3)" "length d1 = length b1"
        "r4 = 0 \<Longrightarrow> 0 < int SPT_SIZE \<and> nat (int SPT_SIZE) \<le> length b1 \<and>
          d1 = region (mem (world s3)) (sint (spt1_address (spt_addr s))) (nat (int SPT_SIZE)) @ drop (nat (int SPT_SIZE)) b1"
        by (rule read_dev_spec) (simp_all only: of_nat_numeral, simp_all)
      have l: "length b0 = SPT_SIZE" "length b1 = SPT_SIZE" using s1(3) s2(3) b by auto
      have "s' = s4 \<and> (r4 \<noteq> 0 \<longrightarrow> r \<noteq> 0) \<and> (r4 = 0 \<longrightarrow> r = memcmp d0 d1)"
        using assms m0 m1 b a2 a3 rd0 r3 rd1 by (auto simp: check_both_spt_def split: if_splits)
      moreover have "d0 = spt0_copy mem s" using s3(4) r3 a2 l by (simp add: spt0_copy_def)
      moreover have "r4 = 0 \<Longrightarrow> d1 = spt1_copy mem s" using s4(4) a3 l by (simp add: spt1_copy_def)
      ultimately show thesis using s1 s2 s3 s4
        by (intro that [of w4]) (auto simp: memcmp_eq_0_iff spt0_copy_def spt1_copy_def)
    qed
  qed
qed

text \<open>The outcomes of loading.\<close>

lemma load_spt_cases:
  assumes run: "load_spt hal s = Some (r, s')" and wf: "wf_spt (spt s)"
  obtains
    (failed) t m w where "r \<noteq> 0" "s' = s\<lparr>spt := t, mtd_part_offset := m, world := w\<rparr>" "wf_spt t"
      "mem w = mem (world s)"
  | (corrupted) t m w where "r = - EFAULT" "wf_spt t"
      "s' = s\<lparr>spt := t, mtd_part_offset := m, spt_corrupted := True, world := w\<rparr>"
      "mem w = mem (world s)"
  | (both) t w where "r = 0" "spt_valid hal (spt0_copy mem s)" "t = term_names (spt_of_bytes (spt0_copy mem s))"
      "spt0_copy mem s = spt1_copy mem s" "mem w = mem (world s)"
      "s' = s\<lparr>spt := t, mtd_part_offset := spt0_mtd_offset t (spt0_address (spt_addr s)), world := w\<rparr>"
  | (restore1) t w where "spt_valid hal (spt0_copy mem s)" "t = term_names (spt_of_bytes (spt0_copy mem s))"
      "mem w = mem (world s)"
      "restore_spt_at hal (sint (spt1_address (spt_addr s)))
         (s\<lparr>spt := t, mtd_part_offset := spt0_mtd_offset t (spt0_address (spt_addr s)), world := w\<rparr>) = Some (r, s')"
  | (restore0) t w where "spt_valid hal (spt1_copy mem s)" "t = term_names (spt_of_bytes (spt1_copy mem s))"
      "mem w = mem (world s)"
      "restore_spt_at hal (sint (spt0_address (spt_addr s)))
         (s\<lparr>spt := t, mtd_part_offset := spt0_mtd_offset t (spt0_address (spt_addr s)), world := w\<rparr>) = Some (r, s')"
  using run wf
proof (cases rule: load_spt_scan)
  case (failed w t m)
  then show thesis by (intro that(1) [of w m t]) auto
next
  case (scanned s1 g1 s2 s3 g0 s4 w t m)
  have wf4: "wf_spt (spt s4)" using scanned(7,9) by simp
  show thesis
  proof (cases g0)
    case g0: True
    note v = scanned(11) [OF g0]
    show thesis
    proof (cases g1)
      case True
      obtain rb sb where cb: "check_both_spt hal s4 = Some (rb, sb)"
        using scanned(12) g0 True by (auto simp: load_spt_decide_def Option.bind_eq_Some_conv)
      from cb obtain wb where sb: "sb = s4\<lparr>world := wb\<rparr>" "mem wb = mem (world s4)"
        "rb = 0 \<Longrightarrow> spt0_copy mem s4 = spt1_copy mem s4" by (rule check_both_spt_spec) blast
      show thesis
      proof (cases "rb = 0")
        case False
        with scanned(12) g0 True cb have "r = - EFAULT" "s' = sb\<lparr>spt_corrupted := True\<rparr>"
          by (auto simp: load_spt_decide_def)
        with sb scanned(7,8,9) show thesis by (intro that(2) [of t wb m]) auto
      next
        case rb: True
        with scanned(12) g0 True cb have "r = 0" "s' = sb" by (auto simp: load_spt_decide_def)
        with sb rb v scanned(7,8) show thesis
          by (intro that(3) [of t wb]) (auto simp: spt0_copy_def spt1_copy_def)
      qed
    next
      case False
      with scanned(12) g0 have "restore_spt_at hal (sint (spt1_address (spt_addr s))) s4 = Some (r, s')"
        using wf4 scanned(7) by (simp add: load_spt_decide_def restore_spt1_at)
      with v scanned(7,8) show thesis by (intro that(4) [of t w]) auto
    qed
  next
    case g0: False
    show thesis
    proof (cases g1)
      case False
      with scanned(12) g0 have "r = - EFAULT" "s' = s4\<lparr>spt_corrupted := True\<rparr>"
        by (auto simp: load_spt_decide_def)
      with scanned(7,8,9) show thesis by (intro that(2) [of t w m]) auto
    next
      case g1: True
      have a4: "spt_addr s4 = spt_addr s" using scanned(7) by simp
      obtain r5 s5 where rd: "read_spt hal (spt1_address (spt_addr s)) s4 = Some (r5, s5)"
        using scanned(12) g0 g1 a4 by (auto simp: load_spt_decide_def Option.bind_eq_Some_conv)
      from rd wf4 obtain w5 t5 where s5: "s5 = s4\<lparr>spt := t5, world := w5\<rparr>" "mem w5 = mem (world s4)" "wf_spt t5"
        "r5 = 0 \<Longrightarrow> t5 = spt_of_bytes (region (mem (world s4)) (sint (spt1_address (spt_addr s))) SPT_SIZE)"
        by (rule read_spt_spec) blast
      show thesis
      proof (cases "r5 = 0")
        case False
        with scanned(12) g0 g1 a4 rd have "r \<noteq> 0" "s' = s5" by (auto simp: load_spt_decide_def)
        with s5 scanned(7,8) show thesis by (intro that(1) [of w5 m t5]) auto
      next
        case r5: True
        have t5: "t5 = spt_of_bytes (spt1_copy mem s)" using s5(4) r5 scanned(7,8) by (simp add: spt1_copy_def)
        obtain g6 s6 where sg: "spt_good hal s5 = (g6, s6)" by (metis surj_pair)
        have wf5: "wf_spt (spt s5)" using s5 by simp
        from sg wf5 obtain w6 j6 n6 where
          s6: "s6 = s5\<lparr>spt := term_upto j6 (spt s5), mtd_part_offset := n6, world := w6\<rparr>"
          and m6: "mem w6 = mem (world s5)"
          and g6: "g6 \<Longrightarrow> magic_number (spt s5) = SPT_MAGIC_NUMBER \<and> checksum_ok hal (spt s5) \<and>
            spt_ok (term_names (spt s5)) \<and> spt s6 = term_names (spt s5) \<and>
            n6 = spt0_mtd_offset (spt s6) (spt0_address (spt_addr s5))"
          by (rule spt_good_spec) blast
        have m6': "mem w6 = mem (world s)" using m6 s5(1,2) scanned(7,8) by simp
        show thesis
        proof (cases g6)
          case False
          with scanned(12) g0 g1 a4 rd r5 sg have "r \<noteq> 0" "s' = s6" by (auto simp: load_spt_decide_def)
          with s6 s5 scanned(7) wf5 m6' show thesis
            by (intro that(1) [of w6 n6 "term_upto j6 t5"]) auto
        next
          case True
          have "restore_spt_at hal (sint (spt0_address (spt_addr s))) s6 = Some (r, s')"
            using scanned(12) g0 g1 a4 rd r5 sg True s6 s5(1) scanned(7)
            by (auto simp: load_spt_decide_def restore_spt0_at)
          moreover have "s6 = s\<lparr>spt := term_names (spt_of_bytes (spt1_copy mem s)),
              mtd_part_offset := spt0_mtd_offset (term_names (spt_of_bytes (spt1_copy mem s))) (spt0_address (spt_addr s)),
              world := w6\<rparr>"
            using s6 s5(1) scanned(7) g6 [OF True] t5 by simp
          ultimately show thesis using m6' scanned(10) [OF g1]
            by (intro that(5) [of _ w6]) auto
        qed
      qed
    qed
  qed
qed

lemma term_names_fields [simp]:
  "partitions (term_names t) = partitions t" "magic_number (term_names t) = magic_number t"
  "version (term_names t) = version t" "checksum (term_names t) = checksum t"
  "wf_spt t \<Longrightarrow> wf_spt (term_names t)"
  by (simp_all add: term_names_def)

lemma spt_valid_table:
  assumes "spt_valid hal (region m a SPT_SIZE)" "t = term_names (spt_of_bytes (region m a SPT_SIZE))"
  shows "wf_spt t" "magic_number t = SPT_MAGIC_NUMBER" "spt_ok t"
  using assms wf_spt_of_bytes [of "region m a SPT_SIZE"] by (simp_all add: spt_valid_def Let_def)

text \<open>
  The outcomes in terms of the flash: which copy the table comes from, and what changed.
\<close>

lemma load_spt_ok:
  assumes "load_spt hal s = Some (0, s')" "wf_spt (spt s)" "spt_sectors_disjoint s"
  shows "wf_spt (spt s') \<and> spt_ok (spt s') \<and> magic_number (spt s') = SPT_MAGIC_NUMBER \<and>
    mtd_part_offset s' = spt0_mtd_offset (spt s') (spt0_address (spt_addr s)) \<and>
    (spt_valid hal (spt0_copy mem s) \<and> spt0_copy mem s' = spt0_copy mem s \<and>
       spt s' = term_names (spt_of_bytes (spt0_copy mem s)) \<and>
       (spt1_copy mem s' = spt0_copy mem s' \<or> spt1_copy mem s' = spt_bytes (spt s')) \<or>
     spt_valid hal (spt1_copy mem s) \<and> spt1_copy mem s' = spt1_copy mem s \<and>
       spt s' = term_names (spt_of_bytes (spt1_copy mem s)) \<and> spt0_copy mem s' = spt_bytes (spt s'))"
  using assms(1,2)
proof (cases rule: load_spt_cases)
  case (both t w)
  note tab = spt_valid_table [OF both(2,3) [unfolded spt0_copy_def]]
  show ?thesis using both tab by (simp add: spt0_copy_def spt1_copy_def)
next
  case (restore1 t w)
  note tab = spt_valid_table [OF restore1(1,2) [unfolded spt0_copy_def]]
  let ?s = "s\<lparr>spt := t, mtd_part_offset := spt0_mtd_offset t (spt0_address (spt_addr s)), world := w\<rparr>"
  have "wf_spt (spt ?s)" "magic_number (spt ?s) = SPT_MAGIC_NUMBER" using tab by simp_all
  with restore1(4) obtain w' u where u: "s' = ?s\<lparr>spt := u, world := w'\<rparr>"
    and fr: "\<And>x. x < sint (spt1_address (spt_addr s)) \<or> sint (spt1_address (spt_addr s)) + 32768 \<le> x \<Longrightarrow>
        mem w' x = mem (world ?s) x"
    and d: "(0 :: int) = 0 \<Longrightarrow> u = spt ?s \<and> region (mem w') (sint (spt1_address (spt_addr s))) SPT_SIZE = spt_bytes (spt ?s)"
    by (rule restore_spt_at_spec) blast
  have "spt0_copy mem s' = spt0_copy mem s"
    using u restore1(3) assms(3) fr
    by (auto simp: spt0_copy_def spt_sectors_disjoint_def intro!: region_cong)
  then show ?thesis using u d restore1(1,2) tab by (simp add: spt1_copy_def)
next
  case (restore0 t w)
  note tab = spt_valid_table [OF restore0(1,2) [unfolded spt1_copy_def]]
  let ?s = "s\<lparr>spt := t, mtd_part_offset := spt0_mtd_offset t (spt0_address (spt_addr s)), world := w\<rparr>"
  have "wf_spt (spt ?s)" "magic_number (spt ?s) = SPT_MAGIC_NUMBER" using tab by simp_all
  with restore0(4) obtain w' u where u: "s' = ?s\<lparr>spt := u, world := w'\<rparr>"
    and fr: "\<And>x. x < sint (spt0_address (spt_addr s)) \<or> sint (spt0_address (spt_addr s)) + 32768 \<le> x \<Longrightarrow>
        mem w' x = mem (world ?s) x"
    and d: "(0 :: int) = 0 \<Longrightarrow> u = spt ?s \<and> region (mem w') (sint (spt0_address (spt_addr s))) SPT_SIZE = spt_bytes (spt ?s)"
    by (rule restore_spt_at_spec) blast
  have "spt1_copy mem s' = spt1_copy mem s"
    using u restore0(3) assms(3) fr
    by (auto simp: spt1_copy_def spt_sectors_disjoint_def intro!: region_cong)
  then show ?thesis using u d restore0(1,2) tab by (simp add: spt0_copy_def)
qed auto

text \<open>Whatever the outcome, a sector is touched only when the other copy is valid and stays.\<close>

lemma load_spt_frame:
  assumes "load_spt hal s = Some (r, s')" "wf_spt (spt s)" "spt_sectors_disjoint s"
  shows "wf_spt (spt s') \<and> spt_addr s' = spt_addr s \<and> cpb s' = cpb s \<and> cpb_slots s' = cpb_slots s \<and>
    (mem (world s') = mem (world s) \<or>
     spt_valid hal (spt0_copy mem s) \<and> (\<forall>x. mem (world s') x \<noteq> mem (world s) x \<longrightarrow>
       sint (spt1_address (spt_addr s)) \<le> x \<and> x < sint (spt1_address (spt_addr s)) + 32768) \<or>
     spt_valid hal (spt1_copy mem s) \<and> (\<forall>x. mem (world s') x \<noteq> mem (world s) x \<longrightarrow>
       sint (spt0_address (spt_addr s)) \<le> x \<and> x < sint (spt0_address (spt_addr s)) + 32768))"
  using assms(1,2)
proof (cases rule: load_spt_cases)
  case (both t w)
  note tab = spt_valid_table [OF both(2,3) [unfolded spt0_copy_def]]
  show ?thesis using both tab by simp
next
  case (restore1 t w)
  note tab = spt_valid_table [OF restore1(1,2) [unfolded spt0_copy_def]]
  let ?s = "s\<lparr>spt := t, mtd_part_offset := spt0_mtd_offset t (spt0_address (spt_addr s)), world := w\<rparr>"
  have "wf_spt (spt ?s)" "magic_number (spt ?s) = SPT_MAGIC_NUMBER" using tab by simp_all
  with restore1(4) obtain w' u where u: "s' = ?s\<lparr>spt := u, world := w'\<rparr>" "wf_spt u"
    and fr: "\<And>x. x < sint (spt1_address (spt_addr s)) \<or> sint (spt1_address (spt_addr s)) + 32768 \<le> x \<Longrightarrow>
        mem w' x = mem (world ?s) x"
    by (rule restore_spt_at_spec) blast
  have "sint (spt1_address (spt_addr s)) \<le> x \<and> x < sint (spt1_address (spt_addr s)) + 32768"
    if "mem (world s') x \<noteq> mem (world s) x" for x
  proof (rule ccontr)
    assume "\<not> ?thesis"
    then have "x < sint (spt1_address (spt_addr s)) \<or> sint (spt1_address (spt_addr s)) + 32768 \<le> x" by linarith
    from fr [OF this] that u(1) restore1(3) show False by simp
  qed
  then show ?thesis using u restore1(1) by simp
next
  case (restore0 t w)
  note tab = spt_valid_table [OF restore0(1,2) [unfolded spt1_copy_def]]
  let ?s = "s\<lparr>spt := t, mtd_part_offset := spt0_mtd_offset t (spt0_address (spt_addr s)), world := w\<rparr>"
  have "wf_spt (spt ?s)" "magic_number (spt ?s) = SPT_MAGIC_NUMBER" using tab by simp_all
  with restore0(4) obtain w' u where u: "s' = ?s\<lparr>spt := u, world := w'\<rparr>" "wf_spt u"
    and fr: "\<And>x. x < sint (spt0_address (spt_addr s)) \<or> sint (spt0_address (spt_addr s)) + 32768 \<le> x \<Longrightarrow>
        mem w' x = mem (world ?s) x"
    by (rule restore_spt_at_spec) blast
  have "sint (spt0_address (spt_addr s)) \<le> x \<and> x < sint (spt0_address (spt_addr s)) + 32768"
    if "mem (world s') x \<noteq> mem (world s) x" for x
  proof (rule ccontr)
    assume "\<not> ?thesis"
    then have "x < sint (spt0_address (spt_addr s)) \<or> sint (spt0_address (spt_addr s)) + 32768 \<le> x" by linarith
    from fr [OF this] that u(1) restore0(3) show False by simp
  qed
  then show ?thesis using u restore0(1) by simp
qed auto

end

end
