(* ===== verification/Rsu_Spt_Write.thy ===== *)
theory Rsu_Spt_Write
  imports Rsu_Spt_Load
begin

text \<open>
  What \<^const>\<open>writeback_spt\<close> does: the two copies are rewritten one after the other, each inside
  its partition, and each ends up as the table with a fresh checksum. The second copy is touched
  only once the first is complete, so an interruption never loses both.
\<close>

section \<open>The table that is written\<close>

text \<open>The table with the checksum the loader expects.\<close>

definition fresh_spt :: "'w librsu_ll_intf \<Rightarrow> SUB_PARTITION_TABLE \<Rightarrow> SUB_PARTITION_TABLE" where
  "fresh_spt hal t =
     (if version t > SPT_VERSION \<and> librsu_cfg_spt_checksum_enabled hal \<noteq> 0
      then t\<lparr>checksum := swap_endian32 (spt_crc hal t)\<rparr> else t)"

lemma spt_crc_checksum [simp]: "wf_spt t \<Longrightarrow> spt_crc hal (t\<lparr>checksum := c\<rparr>) = spt_crc hal t"
  by (simp add: spt_crc_def spt_bytes_checksum overlay_overlay_same length_spt_bytes)

lemma fresh_spt_fields [simp]:
  "magic_number (fresh_spt hal t) = magic_number t" "version (fresh_spt hal t) = version t"
  "partitions (fresh_spt hal t) = partitions t" "RSVD (fresh_spt hal t) = RSVD t"
  "partition (fresh_spt hal t) = partition t" "wf_spt (fresh_spt hal t) = wf_spt t"
  by (simp_all add: fresh_spt_def wf_spt_def)

lemma fresh_spt_idem [simp]: "wf_spt t \<Longrightarrow> fresh_spt hal (fresh_spt hal t) = fresh_spt hal t"
  by (simp add: fresh_spt_def)

lemma fresh_spt_ok: "wf_spt t \<Longrightarrow> checksum_ok hal (fresh_spt hal t)"
  by (simp add: fresh_spt_def checksum_ok_def)

text \<open>A table that passes the checks is valid again once written with a fresh checksum.\<close>

lemma spt_ok_cong:
  "partition t = partition u \<Longrightarrow> partitions t = partitions u \<Longrightarrow> spt_ok t = spt_ok u"
  by (simp add: spt_ok_def has_part_def)

lemma fresh_spt_valid:
  assumes "wf_spt t" "magic_number t = SPT_MAGIC_NUMBER" "spt_ok (term_names t)"
  shows "spt_valid hal (spt_bytes (fresh_spt hal t))"
proof -
  have "spt_ok (term_names (fresh_spt hal t)) = spt_ok (term_names t)"
    by (rule spt_ok_cong) (simp_all add: term_names_def term_upto_def)
  then show ?thesis
    using assms fresh_spt_ok [OF assms(1)] by (simp add: spt_valid_def spt_of_bytes_spt_bytes)
qed

section \<open>One copy\<close>

text \<open>The checksum is computed over the table with the checksum 0.\<close>

lemma spt_bytes_checksum_0:
  "wf_spt t \<Longrightarrow> spt_bytes (t\<lparr>checksum := 0\<rparr>) = overlay (spt_bytes t) SPT_CHECKSUM_OFFSET (replicate 4 0)"
proof -
  have "le_bytes 4 (0 :: u32) = replicate 4 0" by (simp add: le_bytes_def map_replicate_const)
  then show "wf_spt t \<Longrightarrow> ?thesis" by (simp add: spt_bytes_checksum)
qed

lemma erase_dev_frame: "erase_dev hal a len s = Some (r, s') \<Longrightarrow> \<exists>w. s' = s\<lparr>world := w\<rparr>"
proof -
  have "\<exists>w. s = s\<lparr>world := w\<rparr>" by (rule exI [of _ "world s"]) simp
  then show "erase_dev hal a len s = Some (r, s') \<Longrightarrow> ?thesis"
    by (auto simp: erase_dev_def Option.bind_eq_Some_conv simp del: world_update_inj split: if_splits)
qed

context nor_flash begin

lemma update_spt_checksum_spec:
  assumes "update_spt_checksum hal s = (b, s')" "wf_spt (spt s)"
  obtains w' where "s' = s\<lparr>spt := if b then fresh_spt hal (spt s) else spt s, world := w'\<rparr>"
    "mem w' = mem (world s)"
proof (cases "version (spt s) > SPT_VERSION \<and> librsu_cfg_spt_checksum_enabled hal \<noteq> 0")
  case False
  with assms(1) have "b" "s' = s" by (simp_all only: update_spt_checksum_def if_False prod.inject)
  moreover from False have "fresh_spt hal (spt s) = spt s" by (simp only: fresh_spt_def if_False)
  ultimately show thesis by (intro that [of "world s"]) simp_all
next
  case True
  obtain p s1 where m: "ops_malloc hal SPT_SIZE s = (p, s1)" by (metis surj_pair)
  from m obtain w' where w: "s1 = s\<lparr>world := w'\<rparr>" "mem w' = mem (world s)" "\<And>b. p = Some b \<Longrightarrow> length b = SPT_SIZE"
    by (rule ops_malloc_spec) blast
  show thesis
  proof (cases p)
    case None
    with True m assms(1) have "\<not> b" "s' = s1" by (auto simp: update_spt_checksum_def)
    with w show thesis by (intro that [of w']) auto
  next
    case (Some d)
    have wf0: "wf_spt ((spt s)\<lparr>checksum := 0\<rparr>)" using assms(2) by (simp add: wf_spt_def)
    have o: "overlay d 0 (spt_bytes ((spt s)\<lparr>checksum := 0\<rparr>)) = spt_bytes ((spt s)\<lparr>checksum := 0\<rparr>)"
      using w(3) [OF Some] wf0 by (intro overlay_full) (simp add: length_spt_bytes)
    have "b" "s' = s1\<lparr>spt := (spt s)\<lparr>checksum := swap_endian32 (spt_crc hal (spt s))\<rparr>\<rparr>"
      using assms True m Some w(1) o
      by (auto simp: update_spt_checksum_def Let_def spt_crc_def spt_bytes_checksum_0)
    with w True show thesis by (intro that [of w']) (auto simp: fresh_spt_def)
  qed
qed

lemma writeback_spt_copy_spec:
  assumes run: "writeback_spt_copy hal x s = Some (r, s')" and wf: "wf_spt (spt s)"
    and magic: "magic_number (spt s) = SPT_MAGIC_NUMBER" and len: "part_len s x < 2 ^ 31"
  obtains w' t where "s' = s\<lparr>spt := t, world := w'\<rparr>" "wf_spt t" "partition t = partition (spt s)"
    "partitions t = partitions (spt s)"
    "\<And>a. a < part_addr s x \<or> part_addr s x + part_len s x \<le> a \<Longrightarrow> mem w' a = mem (world s) a"
    "r = 0 \<Longrightarrow> t = fresh_spt hal (spt s) \<and> int SPT_SIZE \<le> part_len s x \<and>
       region (mem w') (part_addr s x) SPT_SIZE = spt_bytes t"
proof -
  let ?t = "fresh_spt hal (spt s)"
  let ?u = "?t\<lparr>magic_number := 0xFFFFFFFF\<rparr>"
  have wft: "wf_spt ?t" and wfu: "wf_spt ?u" using wf by (simp_all add: wf_spt_def)
  have l: "length (spt_bytes ?t) = SPT_SIZE" using wft by (simp add: length_spt_bytes)
  have ub: "spt_bytes ?u = overlay (spt_bytes ?t) 0 (le_bytes 4 (0xFFFFFFFF :: u32))"
    using wft by (simp add: spt_bytes_magic)
  obtain r1 s1 where er: "erase_part hal (int x) s = Some (r1, s1)"
    using run by (auto simp: writeback_spt_copy_def Option.bind_eq_Some_conv)
  from er len obtain w1 where s1: "s1 = s\<lparr>world := w1\<rparr>"
    and f1: "\<And>a. a < part_addr s x \<or> part_addr s x + part_len s x \<le> a \<Longrightarrow> mem w1 a = mem (world s) a"
    and e1: "\<And>n. r1 = 0 \<Longrightarrow> int n \<le> part_len s x \<Longrightarrow> set (region (mem w1) (part_addr s x) n) \<subseteq> {0xFF}"
    by (rule erase_part_0_spec) blast
  obtain b s2 where uc: "update_spt_checksum hal s1 = (b, s2)" by (metis surj_pair)
  have wf1: "wf_spt (spt s1)" using s1 wf by simp
  from uc wf1 obtain w2 where
    s2: "s2 = s1\<lparr>spt := if b then fresh_spt hal (spt s1) else spt s1, world := w2\<rparr>" "mem w2 = mem (world s1)"
    by (rule update_spt_checksum_spec) blast
  consider (erase) "r1 \<noteq> 0" | (alloc) "r1 = 0" "\<not> b" | (written) "r1 = 0" "b" by blast
  then show thesis
  proof cases
    case erase
    with run er have "r \<noteq> 0" "s' = s1" by (auto simp: writeback_spt_copy_def)
    with s1 f1 wf show thesis by (intro that [of w1 "spt s"]) auto
  next
    case alloc
    with run er uc have "r \<noteq> 0" "s' = s2" by (auto simp: writeback_spt_copy_def)
    with alloc s1 s2 f1 wf show thesis by (intro that [of w2 "spt s"]) auto
  next
    case written
    let ?s3 = "s\<lparr>spt := ?u, world := w2\<rparr>"
    have s3: "s2\<lparr>spt := (spt s2)\<lparr>magic_number := 0xFFFFFFFF\<rparr>\<rparr> = ?s3" "spt s2 = ?t"
      using written s1 s2 by simp_all
    obtain r4 s4 where wp: "write_part hal (int x) 0 (Some (spt_bytes ?u)) (int SPT_SIZE) ?s3 = Some (r4, s4)"
      using run er written uc s3 by (auto simp: writeback_spt_copy_def Option.bind_eq_Some_conv Let_def)
    have ad: "part_addr (s\<lparr>spt := v, world := w\<rparr>) x = part_addr s x"
        "part_len (s\<lparr>spt := v, world := w\<rparr>) x = part_len s x"
        "part_addr (s\<lparr>world := w, spt := v\<rparr>) x = part_addr s x"
        "part_len (s\<lparr>world := w, spt := v\<rparr>) x = part_len s x" if "partition v = partition (spt s)" for v w
      using that by (simp_all add: part_addr_def part_len_def)
    from wp obtain w4 where s4: "s4 = ?s3\<lparr>world := w4\<rparr>"
      and f4: "\<And>a. a < part_addr ?s3 x \<or> part_addr ?s3 x + part_len ?s3 x \<le> a \<Longrightarrow> mem w4 a = mem (world ?s3) a"
      by (rule write_part_0_spec) simp_all
    have m3: "mem (world ?s3) = mem w1" using s1 s2(2) by simp
    show thesis
    proof (cases "r4 = 0")
      case False
      with run er written uc wp s3 have "r \<noteq> 0" "s' = s4" by (auto simp: writeback_spt_copy_def Let_def)
      then show thesis using s4 f4 f1 ad m3 wfu by (intro that [of w4 ?u]) auto
    next
      case r4: True
      let ?s5 = "s\<lparr>world := w4, spt := ?t\<rparr>"
      have mg: "?t\<lparr>magic_number := SPT_MAGIC_NUMBER\<rparr> = ?t" using magic by simp
      obtain r6 s6 where wm: "write_part hal (int x) 0 (Some (le_bytes 4 (SPT_MAGIC_NUMBER))) (int 4) ?s5 = Some (r6, s6)"
        and r: "s' = s6" "r = 0 \<longrightarrow> r6 = 0"
        using run er written uc wp r4 s3 s4 magic
        by (auto simp: mg writeback_spt_copy_def Option.bind_eq_Some_conv Let_def split: if_splits)
      from wp [unfolded ub r4] wm obtain w' where w': "s6 = ?s5\<lparr>world := w'\<rparr>" "int SPT_SIZE \<le> part_len ?s3 x"
        "\<And>a. a < part_addr ?s3 x \<or> part_addr ?s3 x + part_len ?s3 x \<le> a \<Longrightarrow> mem w' a = mem (world ?s3) a"
        "r6 = 0 \<Longrightarrow> region (mem w') (part_addr ?s3 x) SPT_SIZE = spt_bytes ?t"
      proof (rule write_part_two)
        show "take 4 (spt_bytes ?t) = le_bytes 4 SPT_MAGIC_NUMBER"
          using magic by (simp add: spt_bytes_def spt_header_bytes_def)
      qed (use s4 ad l m3 e1 written in simp_all)
      then show thesis using r ad m3 f1 wft by (intro that [of w' ?t]) auto
    qed
  qed
qed

end

section \<open>Both copies\<close>

definition is_spt_part :: "SUB_PARTITION_TABLE \<Rightarrow> nat \<Rightarrow> bool" where
  "is_spt_part t x \<longleftrightarrow> name_is (partition t ! x) ''SPT0'' \<or> name_is (partition t ! x) ''SPT1''"

definition spt_parts :: "SUB_PARTITION_TABLE \<Rightarrow> nat list" where
  "spt_parts t = filter (is_spt_part t) [0..<unat (partitions t)]"

context nor_flash begin

text \<open>
  The loop over the copies in \<open>xs\<close>, with what it guarantees at its end and, through the ordering
  of the copies, wherever it stops.
\<close>

lemma writeback_spt_loop_spec:
  assumes "writeback_spt_loop hal xs u s = Some (r, s')" "wf_spt (spt s)" "magic_number (spt s) = SPT_MAGIC_NUMBER"
    and "distinct xs" "P = filter (is_spt_part (spt s)) xs"
    and "\<And>x. x \<in> set P \<Longrightarrow> part_len s x < 2 ^ 31" "ranges_disjoint s (set P)"
  shows "(\<exists>t w'. s' = s\<lparr>spt := t, world := w'\<rparr> \<and> wf_spt t \<and> partition t = partition (spt s) \<and>
      partitions t = partitions (spt s)) \<and>
    (\<forall>a. a \<notin> (\<Union>x \<in> set P. part_range s x) \<longrightarrow> mem (world s') a = mem (world s) a) \<and>
    (r = 0 \<longrightarrow> u + int (length P) = 2 \<and> spt s' = (if P = [] then spt s else fresh_spt hal (spt s)) \<and>
      (\<forall>x \<in> set P. region (mem (world s')) (part_addr s x) SPT_SIZE = spt_bytes (fresh_spt hal (spt s)))) \<and>
    sorted_wrt (\<lambda>x y. (\<exists>a \<in> part_range s y. mem (world s') a \<noteq> mem (world s) a) \<longrightarrow>
      region (mem (world s')) (part_addr s x) SPT_SIZE = spt_bytes (fresh_spt hal (spt s))) P"
  using assms
proof (induction xs arbitrary: u s P)
  case Nil
  have "\<exists>t w'. s = s\<lparr>spt := t, world := w'\<rparr> \<and> wf_spt t \<and> partition t = partition (spt s) \<and>
      partitions t = partitions (spt s)"
    using Nil.prems(2) by (intro exI [of _ "spt s"] exI [of _ "world s"]) simp
  moreover from Nil.prems have "s' = s" "P = []" "r = 0 \<longrightarrow> u = 2" by (simp_all split: if_splits)
  ultimately show ?case by simp
next
  case (Cons x xs)
  show ?case
  proof (cases "is_spt_part (spt s) x")
    case False
    then show ?thesis using Cons.IH [of u s P] Cons.prems by (simp add: is_spt_part_def)
  next
    case True
    define Q where "Q = filter (is_spt_part (spt s)) xs"
    have P: "P = x # Q" using True Cons.prems(5) by (simp add: Q_def)
    have xQ: "x \<notin> set Q" using Cons.prems(4) by (simp add: Q_def)
    obtain r1 s1 where c: "writeback_spt_copy hal x s = Some (r1, s1)"
      and k: "(if r1 \<noteq> 0 then Some (r1, s1) else writeback_spt_loop hal xs (u + 1) s1) = Some (r, s')"
      using Cons.prems(1) True by (auto simp: is_spt_part_def Option.bind_eq_Some_conv)
    have lx: "part_len s x < 2 ^ 31" using Cons.prems(6) P by simp
    from c Cons.prems(2,3) lx obtain w1 t1 where s1: "s1 = s\<lparr>spt := t1, world := w1\<rparr>" and wf1: "wf_spt t1"
      and t1: "partition t1 = partition (spt s)" "partitions t1 = partitions (spt s)"
      and f1: "\<And>a. a < part_addr s x \<or> part_addr s x + part_len s x \<le> a \<Longrightarrow> mem w1 a = mem (world s) a"
      and d1: "r1 = 0 \<Longrightarrow> t1 = fresh_spt hal (spt s) \<and> int SPT_SIZE \<le> part_len s x \<and>
         region (mem w1) (part_addr s x) SPT_SIZE = spt_bytes t1"
      by (rule writeback_spt_copy_spec) blast
    have f1': "mem w1 a = mem (world s) a" if "a \<notin> part_range s x" for a
      by (rule f1) (use that in \<open>auto simp: part_range_def\<close>)
    have rg: "part_addr s1 y = part_addr s y" "part_len s1 y = part_len s y" "part_range s1 y = part_range s y" for y
      using s1 t1 by (simp_all add: part_addr_def part_len_def part_range_def)
    have dj: "part_range s x \<inter> part_range s y = {}" if "y \<in> set Q" for y
      using Cons.prems(7) that xQ P by (auto simp: ranges_disjoint_def)
    have unch: "mem w1 a = mem (world s) a" if "a \<in> part_range s y" "y \<in> set Q" for a y
      using dj [OF that(2)] that(1) by (intro f1') blast
    show ?thesis
    proof (cases "r1 = 0")
      case False
      with k have "r = r1" "s' = s1" by auto
      moreover have "sorted_wrt (\<lambda>y z. (\<exists>a \<in> part_range s z. mem w1 a \<noteq> mem (world s) a) \<longrightarrow>
          region (mem w1) (part_addr s y) SPT_SIZE = spt_bytes (fresh_spt hal (spt s))) P"
        unfolding P by (rule sorted_wrt_later) (use unch in blast)
      ultimately show ?thesis using s1 wf1 t1 f1' False P by auto
    next
      case r1: True
      let ?F = "fresh_spt hal (spt s)"
      note d = d1 [OF r1]
      have Q1: "Q = filter (is_spt_part (spt s1)) xs" using s1 t1 by (simp add: Q_def is_spt_part_def [abs_def])
      have fs1: "fresh_spt hal (spt s1) = ?F" using s1 d Cons.prems(2) by simp
      have k': "writeback_spt_loop hal xs (u + 1) s1 = Some (r, s')" using k r1 by simp
      have a2: "wf_spt (spt s1)" "magic_number (spt s1) = SPT_MAGIC_NUMBER" "distinct xs"
        using s1 wf1 d Cons.prems(3,4) by simp_all
      have a6: "part_len s1 y < 2 ^ 31" if "y \<in> set Q" for y using Cons.prems(6) P rg that by simp
      have a7: "ranges_disjoint s1 (set Q)"
        using Cons.prems(7) P rg by (simp add: ranges_disjoint_def)
      note IH = Cons.IH [OF k' a2 Q1 a6 a7, unfolded rg fs1]
      have w1: "world s1 = w1" using s1 by simp
      have fQ: "mem (world s') a = mem w1 a" if "a \<notin> (\<Union>y \<in> set Q. part_range s y)" for a
        using IH that w1 by blast
      have rx: "region (mem (world s')) (part_addr s x) SPT_SIZE = spt_bytes ?F"
      proof -
        have "region (mem (world s')) (part_addr s x) SPT_SIZE = region (mem w1) (part_addr s x) SPT_SIZE"
        proof (rule region_frame)
          fix a assume "a \<in> {part_addr s x..<part_addr s x + int SPT_SIZE}"
          then have "a \<in> part_range s x" using d by (auto simp: part_range_def)
          then show "mem (world s') a = mem w1 a" using dj by (intro fQ) blast
        qed
        with d show ?thesis by simp
      qed
      have ch: "mem (world s') a \<noteq> mem w1 a \<longleftrightarrow> mem (world s') a \<noteq> mem (world s) a" if "a \<in> part_range s y" "y \<in> set Q" for a y
        using unch [OF that] by simp
      have sQ: "sorted_wrt (\<lambda>y z. (\<exists>a \<in> part_range s z. mem (world s') a \<noteq> mem w1 a) \<longrightarrow>
          region (mem (world s')) (part_addr s y) SPT_SIZE = spt_bytes ?F) Q"
        using IH unfolding w1 by blast
      have sP: "sorted_wrt (\<lambda>y z. (\<exists>a \<in> part_range s z. mem (world s') a \<noteq> mem (world s) a) \<longrightarrow>
          region (mem (world s')) (part_addr s y) SPT_SIZE = spt_bytes ?F) P"
        unfolding P sorted_wrt.simps
      proof
        show "\<forall>y\<in>set Q. (\<exists>a\<in>part_range s y. mem (world s') a \<noteq> mem (world s) a) \<longrightarrow>
            region (mem (world s')) (part_addr s x) SPT_SIZE = spt_bytes ?F" using rx by blast
        show "sorted_wrt (\<lambda>y z. (\<exists>a \<in> part_range s z. mem (world s') a \<noteq> mem (world s) a) \<longrightarrow>
          region (mem (world s')) (part_addr s y) SPT_SIZE = spt_bytes ?F) Q"
          by (rule sorted_wrt_mono_rel [OF _ sQ]) (use ch in blast)
      qed
      obtain t w' where fin: "s' = s1\<lparr>spt := t, world := w'\<rparr>" "wf_spt t" "partition t = partition (spt s1)"
        "partitions t = partitions (spt s1)" using IH by blast
      have fin': "\<exists>t w'. s' = s\<lparr>spt := t, world := w'\<rparr> \<and> wf_spt t \<and> partition t = partition (spt s) \<and>
          partitions t = partitions (spt s)"
        using fin s1 t1 by (intro exI [of _ t] exI [of _ w']) simp
      have fr: "\<forall>a. a \<notin> (\<Union>y \<in> set P. part_range s y) \<longrightarrow> mem (world s') a = mem (world s) a"
        using fQ f1' P by simp
      have okr: "r = 0 \<longrightarrow> u + int (length P) = 2 \<and> spt s' = (if P = [] then spt s else ?F) \<and>
          (\<forall>y \<in> set P. region (mem (world s')) (part_addr s y) SPT_SIZE = spt_bytes ?F)"
      proof
        assume "r = 0"
        with IH have c: "u + 1 + int (length Q) = 2" "spt s' = (if Q = [] then spt s1 else ?F)"
          "\<forall>y \<in> set Q. region (mem (world s')) (part_addr s y) SPT_SIZE = spt_bytes ?F" by blast+
        have "spt s1 = ?F" using s1 d by simp
        with c rx P show "u + int (length P) = 2 \<and> spt s' = (if P = [] then spt s else ?F) \<and>
          (\<forall>y \<in> set P. region (mem (world s')) (part_addr s y) SPT_SIZE = spt_bytes ?F)" by simp
      qed
      show ?thesis by (intro conjI fin' fr okr sP)
    qed
  qed
qed

lemma writeback_spt_spec:
  assumes "writeback_spt hal s = Some (r, s')" "wf_spt (spt s)" "magic_number (spt s) = SPT_MAGIC_NUMBER"
    and "\<And>x. x \<in> set (spt_parts (spt s)) \<Longrightarrow> part_len s x < 2 ^ 31"
    and "ranges_disjoint s (set (spt_parts (spt s)))"
  shows "(\<exists>t w'. s' = s\<lparr>spt := t, world := w'\<rparr> \<and> wf_spt t \<and> partition t = partition (spt s) \<and>
      partitions t = partitions (spt s)) \<and>
    (\<forall>a. a \<notin> (\<Union>x \<in> set (spt_parts (spt s)). part_range s x) \<longrightarrow> mem (world s') a = mem (world s) a) \<and>
    (r = 0 \<longrightarrow> length (spt_parts (spt s)) = 2 \<and> spt s' = fresh_spt hal (spt s) \<and>
      (\<forall>x \<in> set (spt_parts (spt s)). region (mem (world s')) (part_addr s x) SPT_SIZE = spt_bytes (spt s'))) \<and>
    sorted_wrt (\<lambda>x y. (\<exists>a \<in> part_range s y. mem (world s') a \<noteq> mem (world s) a) \<longrightarrow>
      region (mem (world s')) (part_addr s x) SPT_SIZE = spt_bytes (fresh_spt hal (spt s))) (spt_parts (spt s))"
proof (cases "unat (partitions (spt s)) > SPT_MAX_PARTITIONS")
  case True
  with assms(1) have r: "r \<noteq> 0" "s' = s" by (auto simp: writeback_spt_def)
  have "\<exists>t w'. s = s\<lparr>spt := t, world := w'\<rparr> \<and> wf_spt t \<and> partition t = partition (spt s) \<and>
      partitions t = partitions (spt s)"
    using assms(2) by (intro exI [of _ "spt s"] exI [of _ "world s"]) simp
  moreover have "sorted_wrt (\<lambda>x y. False \<longrightarrow> Q x y) xs" for Q and xs :: "nat list"
    by (induction xs) auto
  ultimately show ?thesis unfolding r(2) using r(1) by simp
next
  case False
  with assms(1) have "writeback_spt_loop hal [0..<unat (partitions (spt s))] 0 s = Some (r, s')"
    by (simp add: writeback_spt_def)
  note spec = writeback_spt_loop_spec [OF this assms(2,3) distinct_upt spt_parts_def assms(4,5)]
  have "spt s' = fresh_spt hal (spt s)" if "r = 0"
  proof -
    from spec that have "length (spt_parts (spt s)) = 2" by simp
    then have "spt_parts (spt s) \<noteq> []" by auto
    then show ?thesis using spec that by simp
  qed
  then show ?thesis using spec by auto
qed

end

end
