(* ===== verification/Rsu_Spt_Total.thy ===== *)
theory Rsu_Spt_Total
  imports Rsu_Spt_Load
begin

text \<open>
  On a device that works (\<^const>\<open>reliable_flash\<close>) every operation returns, and loading succeeds
  exactly when a valid copy exists and two valid copies agree.
\<close>

section \<open>Accesses inside the device\<close>

definition in_device :: "('w \<Rightarrow> int) \<Rightarrow> 'w ops \<Rightarrow> int \<Rightarrow> int \<Rightarrow> bool" where
  "in_device dsz s a n \<longleftrightarrow> 0 \<le> a \<and> a + n \<le> dsz (world s)"

context reliable_flash begin

lemma rel_malloc:
  assumes "ok (world s)"
  shows "\<exists>b w'. ops_malloc hal n s = (Some b, s\<lparr>world := w'\<rparr>) \<and> ok w' \<and> mem w' = mem (world s) \<and>
    dsize w' = dsize (world s) \<and> length b = n"
proof -
  obtain p w' where m: "rsu_malloc hal (world s) n = (p, w')" by (metis surj_pair)
  with ok_malloc [OF assms m] malloc_mem [OF m] malloc_dsize [OF m] malloc_len
  show ?thesis by (auto simp: ops_malloc_def)
qed

lemma rel_read_dev:
  assumes "ok (world s)" "in_device dsize s a (int n)" "0 < n" "n \<le> length b" "n < 2 ^ 31"
  shows "\<exists>w'. read_dev hal a (Some b) (int n) s =
      Some (0, region (mem (world s)) a n @ drop n b, s\<lparr>world := w'\<rparr>) \<and>
    ok w' \<and> mem w' = mem (world s) \<and> dsize w' = dsize (world s)"
proof -
  have sz: "size_of_int (int n) = n" using assms(5) by (simp add: size_of_int_nonneg)
  have l: "length (take n b) = n" using assms(4) by simp
  from read_returns [of a "take n b" "world s"] assms(2) l
  obtain r d w' where q: "qspi_read hal (world s) a (take n b) = Some (r, d, w')"
    by (auto simp: in_device_def)
  have r: "r = 0" "ok w'" using ok_read [OF assms(1) q] by auto
  have "d = region (mem (world s)) a n" using read_data [OF q [unfolded r(1)]] l by simp
  then show ?thesis
    using q r read_mem [OF q] read_dsize [OF q] assms(3,4) sz by (simp add: read_dev_def)
qed

lemma rel_write_dev:
  assumes "ok (world s)" "in_device dsize s a (int n)" "0 < n" "n \<le> length b" "n < 2 ^ 31"
  shows "\<exists>w'. write_dev hal a (Some b) (int n) s = Some (0, s\<lparr>world := w'\<rparr>) \<and>
    ok w' \<and> dsize w' = dsize (world s)"
proof -
  have sz: "size_of_int (int n) = n" using assms(5) by (simp add: size_of_int_nonneg)
  have l: "length (take n b) = n" using assms(4) by simp
  from write_returns [of a "take n b" "world s"] assms(2) l
  obtain r w' where q: "qspi_write hal (world s) a (take n b) = Some (r, w')"
    by (auto simp: in_device_def)
  then show ?thesis
    using ok_write [OF assms(1) q] write_dsize [OF q] assms(3,4) sz by (simp add: write_dev_def)
qed

lemma rel_erase_dev:
  assumes "ok (world s)" "in_device dsize s a n" "0 < n" "n < 2 ^ 63"
  shows "\<exists>w'. erase_dev hal a n s = Some (0, s\<lparr>world := w'\<rparr>) \<and> ok w' \<and> dsize w' = dsize (world s)"
proof -
  have sz: "int (size_of_int n) = n" using assms(3,4) by (simp add: size_of_int_nonneg)
  from erase_returns [of a n "world s"] assms(2,3)
  obtain r w' where q: "qspi_erase hal (world s) a n = Some (r, w')" by (auto simp: in_device_def)
  then show ?thesis
    using ok_erase [OF assms(1) q] erase_dsize [OF q] assms(3) sz by (simp add: erase_dev_def)
qed

section \<open>Loading\<close>

lemma rel_check_spt_checksum:
  assumes "ok (world s)" "wf_spt (spt s)" "check_spt_checksum hal s = (r, s')"
  shows "(r = 0 \<longleftrightarrow> checksum_ok hal (spt s)) \<and> ok (world s') \<and> dsize (world s') = dsize (world s) \<and>
    spt s' = spt s"
proof (cases "version (spt s) > SPT_VERSION \<and> librsu_cfg_spt_checksum_enabled hal \<noteq> 0")
  case False
  with assms(3) have "r = 0" "s' = s" by (simp_all only: check_spt_checksum_def if_False prod.inject)
  moreover from False have "checksum_ok hal (spt s)" unfolding checksum_ok_def by blast
  ultimately show ?thesis using assms(1) by simp
next
  case True
  obtain b w' where m: "ops_malloc hal SPT_SIZE s = (Some b, s\<lparr>world := w'\<rparr>)" "ok w'"
    "dsize w' = dsize (world s)" "length b = SPT_SIZE"
    using rel_malloc [OF assms(1)] by blast
  have o: "overlay b 0 (spt_bytes (spt s)) = spt_bytes (spt s)"
    using m(4) assms(2) by (intro overlay_full) (simp add: length_spt_bytes)
  have "(r, s') = (if swap_endian32 (checksum (spt s)) \<noteq> spt_crc hal (spt s)
      then (- EBADF, s\<lparr>world := w'\<rparr>) else (0, s\<lparr>world := w'\<rparr>))"
    using assms(3) True m(1) o by (auto simp: check_spt_checksum_def spt_crc_def Let_def split: if_splits)
  then show ?thesis using m True by (auto simp: checksum_ok_def split: if_splits)
qed

lemma rel_spt_good:
  assumes "ok (world s)" "wf_spt (spt s)" "spt_good hal s = (g, s')"
  shows "ok (world s') \<and> dsize (world s') = dsize (world s) \<and>
    (g \<longleftrightarrow> magic_number (spt s) = SPT_MAGIC_NUMBER \<and> checksum_ok hal (spt s) \<and> spt_ok (term_names (spt s)))"
proof (cases "magic_number (spt s) = SPT_MAGIC_NUMBER")
  case False
  with assms show ?thesis by (auto simp: spt_good_def)
next
  case magic: True
  obtain r1 s1 where c: "check_spt_checksum hal s = (r1, s1)" by (metis surj_pair)
  note rc = rel_check_spt_checksum [OF assms(1,2) c]
  obtain r2 s2 where k: "check_spt hal s = (r2, s2)" by (metis surj_pair)
  show ?thesis
  proof (cases "r1 = 0")
    case False
    with c k have "r2 \<noteq> 0" "s2 = s1" by (auto simp: check_spt_def)
    with assms(3) magic k rc False show ?thesis by (auto simp: spt_good_def)
  next
    case r1: True
    have sp: "spt s1 = spt s" using rc by simp
    note spec = check_spt_spec [OF c [unfolded r1] sp assms(2) k]
    then obtain j where j: "s2 = s1\<lparr>spt := term_upto j (spt s)\<rparr>" by blast
    show ?thesis
    proof (cases "r2 = 0")
      case False
      with assms(3) magic k have "\<not> g" "s' = s2" by (auto simp: spt_good_def)
      with spec False j rc show ?thesis by simp
    next
      case True
      with spec have t: "spt_ok (term_names (spt s))" "s2 = s1\<lparr>spt := term_names (spt s)\<rparr>" by auto
      from t have "load_spt0_offset s2 =
          (0, s2\<lparr>mtd_part_offset := spt0_mtd_offset (spt s2) (spt0_address (spt_addr s2))\<rparr>)"
        by (intro load_spt0_offset_ok) simp
      with assms(3) magic k True have g
        "s' = s2\<lparr>mtd_part_offset := spt0_mtd_offset (spt s2) (spt0_address (spt_addr s2))\<rparr>"
        by (auto simp: spt_good_def)
      with t rc r1 magic show ?thesis by simp
    qed
  qed
qed

lemma rel_read_spt:
  assumes "ok (world s)" "wf_spt (spt s)" "in_device dsize s (sint a) (int SPT_SIZE)"
  shows "\<exists>w'. read_spt hal a s =
      Some (0, s\<lparr>spt := spt_of_bytes (region (mem (world s)) (sint a) SPT_SIZE), world := w'\<rparr>) \<and>
    ok w' \<and> mem w' = mem (world s) \<and> dsize w' = dsize (world s)"
proof -
  have l: "length (spt_bytes (spt s)) = SPT_SIZE" using assms(2) by (rule length_spt_bytes)
  obtain w' where "read_dev hal (sint a) (Some (spt_bytes (spt s))) (int SPT_SIZE) s =
      Some (0, region (mem (world s)) (sint a) SPT_SIZE @ drop SPT_SIZE (spt_bytes (spt s)), s\<lparr>world := w'\<rparr>) \<and>
    ok w' \<and> mem w' = mem (world s) \<and> dsize w' = dsize (world s)"
    using rel_read_dev [OF assms(1,3), of "spt_bytes (spt s)"] l by auto
  then show ?thesis using l by (intro exI [of _ w']) (simp add: read_spt_def)
qed

lemma rel_check_both_spt:
  assumes "ok (world s)" "in_device dsize s (sint (spt0_address (spt_addr s))) (int SPT_SIZE)"
    "in_device dsize s (sint (spt1_address (spt_addr s))) (int SPT_SIZE)"
  shows "\<exists>r w'. check_both_spt hal s = Some (r, s\<lparr>world := w'\<rparr>) \<and> ok w' \<and> mem w' = mem (world s) \<and>
    dsize w' = dsize (world s) \<and> (r = 0 \<longleftrightarrow> spt0_copy mem s = spt1_copy mem s)"
proof -
  obtain b0 w0 where m0: "ops_malloc hal SPT_SIZE s = (Some b0, s\<lparr>world := w0\<rparr>)" "ok w0"
    "mem w0 = mem (world s)" "dsize w0 = dsize (world s)" "length b0 = SPT_SIZE"
    using rel_malloc [OF assms(1)] by blast
  have "ok (world (s\<lparr>world := w0\<rparr>))" using m0 by simp
  from rel_malloc [OF this, of SPT_SIZE] obtain b1 w1 where
    m1: "ops_malloc hal SPT_SIZE (s\<lparr>world := w0\<rparr>) = (Some b1, s\<lparr>world := w1\<rparr>)" "ok w1"
    "mem w1 = mem (world s)" "dsize w1 = dsize (world s)" "length b1 = SPT_SIZE"
    using m0 by auto
  have "in_device dsize (s\<lparr>world := w1\<rparr>) (sint (spt0_address (spt_addr s))) (int SPT_SIZE)"
    using assms(2) m1 by (simp add: in_device_def)
  from rel_read_dev [OF _ this, of b0] obtain w2 where
    d0: "read_dev hal (sint (spt0_address (spt_addr s))) (Some b0) (int SPT_SIZE) (s\<lparr>world := w1\<rparr>) =
      Some (0, spt0_copy mem s, s\<lparr>world := w2\<rparr>)" "ok w2" "mem w2 = mem (world s)" "dsize w2 = dsize (world s)"
    using m0 m1 by (auto simp: spt0_copy_def)
  have "in_device dsize (s\<lparr>world := w2\<rparr>) (sint (spt1_address (spt_addr s))) (int SPT_SIZE)"
    using assms(3) d0 by (simp add: in_device_def)
  from rel_read_dev [OF _ this, of b1] obtain w3 where
    d1: "read_dev hal (sint (spt1_address (spt_addr s))) (Some b1) (int SPT_SIZE) (s\<lparr>world := w2\<rparr>) =
      Some (0, spt1_copy mem s, s\<lparr>world := w3\<rparr>)" "ok w3" "mem w3 = mem (world s)" "dsize w3 = dsize (world s)"
    using d0 m1 by (auto simp: spt1_copy_def)
  have "check_both_spt hal s = Some (memcmp (spt0_copy mem s) (spt1_copy mem s), s\<lparr>world := w3\<rparr>)"
    using m0(1) m1(1) d0(1) d1(1) by (simp add: check_both_spt_def)
  then show ?thesis using d1 by (simp add: memcmp_eq_0_iff spt0_copy_def spt1_copy_def)
qed

lemma rel_restore_spt_at:
  assumes "ok (world s)" "wf_spt (spt s)" "in_device dsize s a 32768"
  shows "\<exists>s'. restore_spt_at hal a s = Some (0, s') \<and> ok (world s') \<and> dsize (world s') = dsize (world s) \<and>
    spt_corrupted s' = spt_corrupted s"
proof -
  let ?u = "(spt s)\<lparr>magic_number := 0xFFFFFFFF\<rparr>" and ?v = "(spt s)\<lparr>magic_number := SPT_MAGIC_NUMBER\<rparr>"
  have l: "length (spt_bytes ?u) = SPT_SIZE" "length (spt_bytes ?v) = SPT_SIZE"
    using assms(2) by (simp_all add: length_spt_bytes wf_spt_def)
  obtain w1 where e: "erase_dev hal a 32768 s = Some (0, s\<lparr>world := w1\<rparr>)" "ok w1" "dsize w1 = dsize (world s)"
    using rel_erase_dev [OF assms(1,3)] by auto
  let ?s1 = "s\<lparr>world := w1, spt := ?u\<rparr>"
  have i1: "in_device dsize ?s1 a (int SPT_SIZE)" and o1: "ok (world ?s1)"
    using assms(3) e by (simp_all add: in_device_def)
  obtain w2 where w2: "write_dev hal a (Some (spt_bytes ?u)) (int SPT_SIZE) ?s1 = Some (0, ?s1\<lparr>world := w2\<rparr>)"
    "ok w2" "dsize w2 = dsize (world s)"
    using rel_write_dev [OF o1 i1, of "spt_bytes ?u"] l e by auto
  let ?s2 = "s\<lparr>world := w2, spt := ?v\<rparr>"
  have i2: "in_device dsize ?s2 a (int 4)" and o2: "ok (world ?s2)"
    using assms(3) w2 by (simp_all add: in_device_def)
  obtain w3 where w3: "write_dev hal a (Some (spt_bytes ?v)) (int 4) ?s2 = Some (0, ?s2\<lparr>world := w3\<rparr>)"
    "ok w3" "dsize w3 = dsize (world s)"
    using rel_write_dev [OF o2 i2, of "spt_bytes ?v"] l w2 by auto
  show ?thesis
    using e(1) w2 w3 by (simp add: restore_spt_at_def Let_def)
qed

text \<open>Loading decides: it succeeds iff there is a valid copy and two valid copies do not differ.\<close>

lemma rel_load_spt:
  assumes ok: "ok (world s)" and wf: "wf_spt (spt s)"
    and d0: "in_device dsize s (sint (spt0_address (spt_addr s))) 32768"
    and d1: "in_device dsize s (sint (spt1_address (spt_addr s))) 32768"
  shows "\<exists>r s'. load_spt hal s = Some (r, s') \<and> ok (world s') \<and> dsize (world s') = dsize (world s) \<and>
    (r = 0 \<longleftrightarrow> (spt_valid hal (spt0_copy mem s) \<or> spt_valid hal (spt1_copy mem s)) \<and>
       (spt_valid hal (spt0_copy mem s) \<and> spt_valid hal (spt1_copy mem s) \<longrightarrow>
        spt0_copy mem s = spt1_copy mem s)) \<and>
    (r \<noteq> 0 \<longrightarrow> r = - EFAULT \<and> spt_corrupted s' \<and> mem (world s') = mem (world s)) \<and>
    (r = 0 \<longrightarrow> spt_corrupted s' = spt_corrupted s)"
proof -
  let ?a0 = "sint (spt0_address (spt_addr s))" and ?a1 = "sint (spt1_address (spt_addr s))"
  have in4: "in_device dsize t a (int SPT_SIZE)" if "in_device dsize s a 32768" "dsize (world t) = dsize (world s)" for t a
    using that by (simp add: in_device_def)
  obtain w1 where rd1: "read_spt hal (spt1_address (spt_addr s)) s =
      Some (0, s\<lparr>spt := spt_of_bytes (spt1_copy mem s), world := w1\<rparr>)"
    "ok w1" "mem w1 = mem (world s)" "dsize w1 = dsize (world s)"
    using rel_read_spt [OF ok wf in4 [OF d1, of s, OF refl]] by (auto simp: spt1_copy_def)
  let ?s1 = "s\<lparr>spt := spt_of_bytes (spt1_copy mem s), world := w1\<rparr>"
  have wf1: "wf_spt (spt ?s1)" by (simp add: wf_spt_of_bytes spt1_copy_def)
  obtain g1 s2 where sg1: "spt_good hal ?s1 = (g1, s2)" by (metis surj_pair)
  from sg1 wf1 obtain w2 t2 m2 where s2: "s2 = ?s1\<lparr>spt := term_upto t2 (spt ?s1), mtd_part_offset := m2, world := w2\<rparr>"
    "mem w2 = mem (world ?s1)" by (rule spt_good_spec) blast
  have g1: "ok w2" "dsize w2 = dsize (world s)" "g1 \<longleftrightarrow> spt_valid hal (spt1_copy mem s)"
    using rel_spt_good [OF _ wf1 sg1] rd1 s2 by (simp_all add: spt_valid_def Let_def)
  have wf2: "wf_spt (spt s2)" using s2(1) wf1 by simp
  have i2: "in_device dsize s2 ?a0 (int SPT_SIZE)" using in4 [OF d0, of s2] s2(1) g1(2) by simp
  have m2': "mem (world s2) = mem (world s)" using s2 rd1 by simp
  have ok2: "ok (world s2)" using s2 g1 by simp
  obtain w3 where rd0: "read_spt hal (spt0_address (spt_addr s)) s2 =
      Some (0, s2\<lparr>spt := spt_of_bytes (spt0_copy mem s), world := w3\<rparr>)"
    "ok w3" "mem w3 = mem (world s)" "dsize w3 = dsize (world s)"
    using rel_read_spt [OF ok2 wf2 i2] m2' s2(1) g1(2) by (auto simp: spt0_copy_def)
  let ?s3 = "s2\<lparr>spt := spt_of_bytes (spt0_copy mem s), world := w3\<rparr>"
  have wf3: "wf_spt (spt ?s3)" by (simp add: wf_spt_of_bytes spt0_copy_def)
  obtain g0 s4 where sg0: "spt_good hal ?s3 = (g0, s4)" by (metis surj_pair)
  from sg0 wf3 obtain w4 t4 m4 where s4: "s4 = ?s3\<lparr>spt := term_upto t4 (spt ?s3), mtd_part_offset := m4, world := w4\<rparr>"
    "mem w4 = mem (world ?s3)" by (rule spt_good_spec) blast
  have g0: "ok w4" "dsize w4 = dsize (world s)" "g0 \<longleftrightarrow> spt_valid hal (spt0_copy mem s)"
    using rel_spt_good [OF _ wf3 sg0] rd0 s4 by (simp_all add: spt_valid_def Let_def)
  have a2: "spt_addr s2 = spt_addr s" "spt_addr s4 = spt_addr s" using s2 s4 by simp_all
  have s4': "mem (world s4) = mem (world s)" "wf_spt (spt s4)" "ok (world s4)" "dsize (world s4) = dsize (world s)"
    "spt_corrupted s4 = spt_corrupted s" "spt0_copy mem s4 = spt0_copy mem s" "spt1_copy mem s4 = spt1_copy mem s"
    using s4 s2 rd0 g0 wf3 a2 by (simp_all add: spt0_copy_def spt1_copy_def)
  have run: "load_spt hal s = load_spt_decide hal g0 g1 s4"
    using rd1(1) sg1 rd0(1) sg0 a2 by (simp add: load_spt_unfold)
  have i0: "in_device dsize s4 ?a0 32768" and i1: "in_device dsize s4 ?a1 32768"
    using d0 d1 s4'(4) by (simp_all add: in_device_def)
  consider (both) "g0" "g1" | (one) "g0" "\<not> g1" | (zero) "\<not> g0" "g1" | (none) "\<not> g0" "\<not> g1" by blast
  then show ?thesis
  proof cases
    case both
    have "in_device dsize s4 (sint (spt0_address (spt_addr s4))) (int SPT_SIZE)"
      "in_device dsize s4 (sint (spt1_address (spt_addr s4))) (int SPT_SIZE)"
      using i0 i1 a2 by (simp_all add: in_device_def)
    from rel_check_both_spt [OF s4'(3) this] obtain r w' where
      "check_both_spt hal s4 = Some (r, s4\<lparr>world := w'\<rparr>)" "ok w'" "mem w' = mem (world s4)"
      "dsize w' = dsize (world s4)" "r = 0 \<longleftrightarrow> spt0_copy mem s4 = spt1_copy mem s4" by blast
    then show ?thesis unfolding run using both g0(3) g1(3) s4' by (simp add: load_spt_decide_def)
  next
    case one
    with rel_restore_spt_at [OF s4'(3,2) i1] show ?thesis
      unfolding run using g0(3) g1(3) s4' a2 by (auto simp: load_spt_decide_def restore_spt1_at)
  next
    case none
    then show ?thesis unfolding run using g0(3) g1(3) s4' by (simp add: load_spt_decide_def)
  next
    case zero
    have "in_device dsize s4 ?a1 (int SPT_SIZE)" using i1 by (simp add: in_device_def)
    from rel_read_spt [OF s4'(3,2) this] obtain w5 where
      rd: "read_spt hal (spt1_address (spt_addr s)) s4 = Some (0, s4\<lparr>spt := spt_of_bytes (spt1_copy mem s), world := w5\<rparr>)"
      "ok w5" "mem w5 = mem (world s)" "dsize w5 = dsize (world s)"
      using s4' by (auto simp: spt1_copy_def)
    let ?s5 = "s4\<lparr>spt := spt_of_bytes (spt1_copy mem s), world := w5\<rparr>"
    have wf5: "wf_spt (spt ?s5)" by (simp add: wf_spt_of_bytes spt1_copy_def)
    obtain g6 s6 where sg: "spt_good hal ?s5 = (g6, s6)" by (metis surj_pair)
    from sg wf5 obtain w6 t6 m6 where
      s6: "s6 = ?s5\<lparr>spt := term_upto t6 (spt ?s5), mtd_part_offset := m6, world := w6\<rparr>"
      by (rule spt_good_spec) blast
    have g6: "g6" "ok w6" "dsize w6 = dsize (world s)"
      using rel_spt_good [OF _ wf5 sg] rd s6 zero g1(3) by (simp_all add: spt_valid_def Let_def)
    have "wf_spt (spt s6)" "ok (world s6)" "in_device dsize s6 ?a0 32768"
      using s6 wf5 g6 d0 by (simp_all add: in_device_def)
    from rel_restore_spt_at [OF this(2,1,3)] show ?thesis
      unfolding run using zero g0(3) g1(3) s4' a2 rd(1) sg g6 s6 s4 s2
      by (auto simp: load_spt_decide_def restore_spt0_at)
  qed
qed

end

end
