(* ===== verification/Rsu_Partition.thy ===== *)
theory Rsu_Partition
  imports Rsu_Spt_Write Rsu_Spt_Total
begin

text \<open>
  The \<^verbatim>\<open>partition\<close> operations of \<^verbatim>\<open>src/libRSU_ops.c\<close> over the table in memory: the queries, and
  the three that change the table and commit it to flash (rename, delete, create).

  A pointer that an operation fills in is an optional value: NULL is \<^const>\<open>None\<close>. A string argument
  is the characters before its terminating NUL.
\<close>

section \<open>Queries\<close>

definition partition_count :: "'w ops \<Rightarrow> int" where
  "partition_count s = sint (partitions (spt s))"

definition partition_name :: "int \<Rightarrow> 'w ops \<Rightarrow> byte list" where
  "partition_name part_num s =
     (if bad_part part_num s then chars ''BAD'' @ [0] else p_name (partition (spt s) ! nat part_num))"

definition partition_offset :: "int \<Rightarrow> u64 option \<Rightarrow> 'w ops \<Rightarrow> (int \<times> u64 option) option" where
  "partition_offset part_num offset s =
     (if offset = None then Some (- EINVAL, offset)
      else if part_num < 0 \<or> uint (word_of_int part_num :: u32) \<ge> uint (partitions (spt s))
        then Some (- EINVAL, offset)
      else do {
        p \<leftarrow> part_at (spt s) (nat part_num);
        Some (0, Some (p_offset p))
      })"

definition factory_offset :: "u64 option \<Rightarrow> 'w ops \<Rightarrow> int \<times> u64 option" where
  "factory_offset offset s =
     (if offset = None then (- EINVAL, offset)
      else if unat (partitions (spt s)) > SPT_MAX_PARTITIONS then (- EBADF, offset)
      else case find (\<lambda>x. strncmp (p_name (partition (spt s) ! x)) (chars ''FACTORY_IMAGE'')
                       (SPT_PARTITION_NAME_LENGTH - 1) = 0) [0..<unat (partitions (spt s))] of
        Some x \<Rightarrow> (0, Some (p_offset (partition (spt s) ! x)))
      | None \<Rightarrow> (- EFAULT, offset))"

definition partition_size :: "int \<Rightarrow> 'w ops \<Rightarrow> int" where
  "partition_size part_num s =
     (if bad_part part_num s then - EINVAL else sint (p_length (partition (spt s) ! nat part_num)))"

definition partition_reserved :: "int \<Rightarrow> 'w ops \<Rightarrow> int" where
  "partition_reserved part_num s =
     (if bad_part part_num s then - EINVAL
      else if p_flags (partition (spt s) ! nat part_num) AND SPT_FLAG_RESERVED \<noteq> 0 then 1 else 0)"

definition partition_readonly :: "int \<Rightarrow> 'w ops \<Rightarrow> int" where
  "partition_readonly part_num s =
     (if bad_part part_num s then - EINVAL
      else if p_flags (partition (spt s) ! nat part_num) AND SPT_FLAG_READONLY \<noteq> 0 then 1 else 0)"

section \<open>Data\<close>

definition data_read ::
    "'w librsu_ll_intf \<Rightarrow> int \<Rightarrow> int \<Rightarrow> int \<Rightarrow> byte list option \<Rightarrow> 'w ops \<Rightarrow> (int \<times> byte list \<times> 'w ops) option" where
  "data_read hal part_num offset bytes buf s = read_part hal part_num offset buf bytes s"

definition data_write ::
    "'w librsu_ll_intf \<Rightarrow> int \<Rightarrow> int \<Rightarrow> int \<Rightarrow> byte list option \<Rightarrow> 'w ops \<Rightarrow> (int \<times> 'w ops) option" where
  "data_write hal part_num offset bytes buf s = write_part hal part_num offset buf bytes s"

definition data_erase :: "'w librsu_ll_intf \<Rightarrow> int \<Rightarrow> 'w ops \<Rightarrow> (int \<times> 'w ops) option" where
  "data_erase hal part_num s = erase_part hal part_num s"

section \<open>Changes of the table\<close>

text \<open>The test for a name in use, over the partitions of the table.\<close>

definition name_in_use :: "SUB_PARTITION_TABLE \<Rightarrow> byte list \<Rightarrow> bool" where
  "name_in_use t name \<longleftrightarrow>
     list_ex (\<lambda>x. strncmp (p_name (partition t ! x)) name (SPT_PARTITION_NAME_LENGTH - 1) = 0)
       [0..<unat (partitions t)]"

definition set_partition :: "SUB_PARTITION_TABLE \<Rightarrow> nat \<Rightarrow> spt_partition \<Rightarrow> SUB_PARTITION_TABLE" where
  "set_partition t x p = t\<lparr>partition := (partition t)[x := p]\<rparr>"

definition partition_rename :: "'w librsu_ll_intf \<Rightarrow> int \<Rightarrow> byte list \<Rightarrow> 'w ops \<Rightarrow> (int \<times> 'w ops) option" where
  "partition_rename hal part_num name s =
     (if bad_part part_num s then Some (- EINVAL, s)
      else if strnlen name SPT_PARTITION_NAME_LENGTH \<ge> SPT_PARTITION_NAME_LENGTH then Some (- EINVAL, s)
      else if name_in_use (spt s) name then Some (- EINVAL, s)
      else do {
        let p = partition (spt s) ! nat part_num;
        nm \<leftarrow> SAFE_STRCPY (p_name p) (int SPT_PARTITION_NAME_LENGTH) (Some name) (int SPT_PARTITION_NAME_LENGTH);
        let s = s\<lparr>spt := set_partition (spt s) (nat part_num) (p\<lparr>p_name := nm\<rparr>)\<rparr>;
        (err, s) \<leftarrow> writeback_spt hal s;
        if err \<noteq> 0 then Some (- EPERM, s)
        else do {
          (err, s) \<leftarrow> load_spt hal s;
          if err \<noteq> 0 then Some (- EPERM, s) else Some (0, s)
        }
      })"

text \<open>The loop of \<^verbatim>\<open>partition_delete\<close> moves the entries behind the deleted one down.\<close>

fun move_down :: "spt_partition list \<Rightarrow> nat list \<Rightarrow> spt_partition list" where
  "move_down ps [] = ps"
| "move_down ps (x # xs) = move_down (ps[x := ps ! (x + 1)]) xs"

definition partition_delete :: "'w librsu_ll_intf \<Rightarrow> int \<Rightarrow> 'w ops \<Rightarrow> (int \<times> 'w ops) option" where
  "partition_delete hal part_num s =
     (if bad_part part_num s then Some (- EINVAL, s)
      else do {
        let t = spt s;
        let t = t\<lparr>partition := move_down (partition t)
                    [nat part_num..<min (unat (partitions t)) (SPT_MAX_PARTITIONS - 1)]\<rparr>;
        let t = t\<lparr>partitions := partitions t - 1\<rparr>;
        (err, s) \<leftarrow> writeback_spt hal (s\<lparr>spt := t\<rparr>);
        if err \<noteq> 0 then Some (err, s)
        else do {
          (err, s) \<leftarrow> load_spt hal s;
          if err \<noteq> 0 then Some (err, s) else Some (0, s)
        }
      })"

definition partition_create ::
    "'w librsu_ll_intf \<Rightarrow> byte list \<Rightarrow> u64 \<Rightarrow> u64 \<Rightarrow> 'w ops \<Rightarrow> (int \<times> 'w ops) option" where
  "partition_create hal name start sz s =
     (let stop = start + sz; n = unat (partitions (spt s))
      in if strnlen name SPT_PARTITION_NAME_LENGTH \<ge> SPT_PARTITION_NAME_LENGTH then Some (- EINVAL, s)
         else if n > SPT_MAX_PARTITIONS then Some (- EFBIG, s)
         else if name_in_use (spt s) name then Some (- EINVAL, s)
         else if n = SPT_MAX_PARTITIONS then Some (- EADDRINUSE, s)
         else if list_ex (\<lambda>x. start < part_end (partition (spt s) ! x) \<and> stop > p_offset (partition (spt s) ! x)) [0..<n]
           then Some (- 1, s)
         else do {
           let p = partition (spt s) ! n;
           nm \<leftarrow> SAFE_STRCPY (p_name p) (int SPT_PARTITION_NAME_LENGTH) (Some name) (int SPT_PARTITION_NAME_LENGTH);
           let t = set_partition (spt s) n \<lparr>p_name = nm, p_offset = start, p_length = ucast sz, p_flags = 0\<rparr>;
           let t = t\<lparr>partitions := partitions t + 1\<rparr>;
           (err, s) \<leftarrow> writeback_spt hal (s\<lparr>spt := t\<rparr>);
           if err \<noteq> 0 then Some (err, s)
           else do {
             (err, s) \<leftarrow> load_spt hal s;
             if err \<noteq> 0 then Some (err, s) else Some (0, s)
           }
         })"


section \<open>The invariant of a loaded table\<close>

text \<open>
  The entries of the two copies of the table itself, and where they must lie: at the addresses the
  firmware reported, shorter than 2 GiB and apart.
\<close>

definition spt_entries :: "SUB_PARTITION_TABLE \<Rightarrow> spt_partition list" where
  "spt_entries t = filter (\<lambda>p. name_is p ''SPT0'' \<or> name_is p ''SPT1'') (take (unat (partitions t)) (partition t))"

definition spt_placed :: "'w ops \<Rightarrow> bool" where
  "spt_placed s \<longleftrightarrow> (\<exists>p q. spt_entries (spt s) \<in> {[p, q], [q, p]} \<and> name_is p ''SPT0'' \<and> name_is q ''SPT1'' \<and>
     (let a = sint (p_offset p - mtd_part_offset s); b = sint (p_offset q - mtd_part_offset s)
      in a = sint (spt0_address (spt_addr s)) \<and> b = sint (spt1_address (spt_addr s)) \<and>
         uint (p_length p) < 2 ^ 31 \<and> uint (p_length q) < 2 ^ 31 \<and>
         (a + uint (p_length p) \<le> b \<or> b + uint (p_length q) \<le> a)))"

definition names_terminated :: "SUB_PARTITION_TABLE \<Rightarrow> bool" where
  "names_terminated t \<longleftrightarrow> (\<forall>x < unat (partitions t). 0 \<in> set (p_name (partition t ! x)))"

text \<open>\<open>spt_base\<close> is what every change of the table keeps, \<open>spt_inv\<close> what holds after each load.\<close>

definition spt_base :: "'w ops \<Rightarrow> bool" where
  "spt_base s \<longleftrightarrow> wf_spt (spt s) \<and> magic_number (spt s) = SPT_MAGIC_NUMBER \<and> names_terminated (spt s) \<and>
     unat (partitions (spt s)) \<le> SPT_MAX_PARTITIONS \<and>
     mtd_part_offset s = spt0_mtd_offset (spt s) (spt0_address (spt_addr s)) \<and> spt_placed s \<and> spt_sectors_disjoint s"

definition spt_inv :: "'w ops \<Rightarrow> bool" where
  "spt_inv s \<longleftrightarrow> spt_base s \<and> spt_ok (spt s)"

lemma term_names_terminated:
  assumes "wf_spt t" "names_terminated t" "unat (partitions t) \<le> SPT_MAX_PARTITIONS"
  shows "term_names t = t"
proof -
  have "terminate_name (partition t ! x) = partition t ! x" if "x < unat (partitions t)" for x
  proof -
    have "length (p_name (partition t ! x)) = 16" using that assms by (simp add: wf_spt_def)
    then have "strnlen (p_name (partition t ! x)) 16 < 16"
      using that assms(2) by (simp add: strnlen_less_iff names_terminated_def)
    then show ?thesis by (simp add: terminate_name_def)
  qed
  then have "partition (term_names t) = partition t"
    using assms by (intro nth_equalityI) (auto simp: term_names_def)
  then show ?thesis by (simp add: term_names_def term_upto_def)
qed

lemma spt_entries_parts:
  assumes "unat (partitions t) \<le> length (partition t)"
  shows "map (\<lambda>x. partition t ! x) (spt_parts t) = spt_entries t"
proof -
  let ?n = "unat (partitions t)"
  have "take ?n (partition t) = map (\<lambda>x. partition t ! x) [0..<?n]"
    using assms by (intro nth_equalityI) auto
  then show ?thesis
    by (simp add: spt_entries_def spt_parts_def filter_map comp_def is_spt_part_def [abs_def])
qed

lemma find_filter: "(\<And>x. P x \<Longrightarrow> Q x) \<Longrightarrow> find P (filter Q xs) = find P xs"
  by (induction xs) auto

lemma find_map_index: "map_option f (find (\<lambda>x. P (f x)) xs) = find P (map f xs)"
  by (induction xs) auto

lemma spt0_mtd_offset_entries:
  assumes "unat (partitions t) \<le> length (partition t)"
  shows "spt0_mtd_offset t a = (case find (\<lambda>p. name_is p ''SPT0'') (spt_entries t) of
     None \<Rightarrow> 0 | Some p \<Rightarrow> if p_offset p = a then 0 else p_offset p)"
proof -
  let ?n = "unat (partitions t)"
  have "take ?n (partition t) = map (\<lambda>x. partition t ! x) [0..<?n]"
    using assms by (intro nth_equalityI) auto
  then have "find (\<lambda>p. name_is p ''SPT0'') (spt_entries t) =
      map_option (\<lambda>x. partition t ! x) (find (\<lambda>x. name_is (partition t ! x) ''SPT0'') [0..<?n])"
    by (simp add: spt_entries_def find_filter find_map_index [where f = "(!) (partition t)", symmetric])
  then show ?thesis by (simp add: spt0_mtd_offset_def option.case_eq_if option.map_sel)
qed

text \<open>A placed table: its two copies are two partitions, at the two addresses.\<close>

lemma spt_placed_parts:
  assumes "spt_placed s" "unat (partitions (spt s)) \<le> length (partition (spt s))"
  obtains x y where "set (spt_parts (spt s)) = {x, y}" "part_addr s x = sint (spt0_address (spt_addr s))"
    "part_addr s y = sint (spt1_address (spt_addr s))" "part_len s x < 2 ^ 31" "part_len s y < 2 ^ 31"
    "part_range s x \<inter> part_range s y = {}"
proof -
  from assms(1) obtain p q where pq: "spt_entries (spt s) \<in> {[p, q], [q, p]}"
    "sint (p_offset p - mtd_part_offset s) = sint (spt0_address (spt_addr s))"
    "sint (p_offset q - mtd_part_offset s) = sint (spt1_address (spt_addr s))"
    "uint (p_length p) < 2 ^ 31" "uint (p_length q) < 2 ^ 31"
    "sint (p_offset p - mtd_part_offset s) + uint (p_length p) \<le> sint (p_offset q - mtd_part_offset s) \<or>
     sint (p_offset q - mtd_part_offset s) + uint (p_length q) \<le> sint (p_offset p - mtd_part_offset s)"
    unfolding spt_placed_def Let_def by blast
  have m: "map (\<lambda>x. partition (spt s) ! x) (spt_parts (spt s)) \<in> {[p, q], [q, p]}"
    using spt_entries_parts [OF assms(2)] pq(1) by simp
  then obtain x y where xy: "set (spt_parts (spt s)) = {x, y}" "partition (spt s) ! x = p" "partition (spt s) ! y = q"
  proof (cases "map (\<lambda>x. partition (spt s) ! x) (spt_parts (spt s)) = [p, q]")
    case True
    then show thesis by (auto simp: map_eq_Cons_conv intro: that)
  next
    case False
    with m have "map (\<lambda>x. partition (spt s) ! x) (spt_parts (spt s)) = [q, p]" by simp
    then show thesis by (auto simp: map_eq_Cons_conv insert_commute intro: that)
  qed
  show thesis
    by (rule that [of x y]) (use xy pq in \<open>auto simp: part_addr_def part_len_def part_range_def\<close>)
qed

lemma spt0_mtd_offset_cong:
  assumes "spt_entries t = spt_entries u" "unat (partitions t) \<le> length (partition t)"
    "unat (partitions u) \<le> length (partition u)"
  shows "spt0_mtd_offset t a = spt0_mtd_offset u a"
  using assms by (simp add: spt0_mtd_offset_entries)

lemma spt_base_cong:
  assumes "spt_base s" "spt_entries t = spt_entries (spt s)" "wf_spt t" "magic_number t = SPT_MAGIC_NUMBER"
    "names_terminated t" "unat (partitions t) \<le> SPT_MAX_PARTITIONS"
  shows "spt_base (s\<lparr>spt := t\<rparr>)"
proof -
  have "spt0_mtd_offset t a = spt0_mtd_offset (spt s) a" for a
    using assms by (intro spt0_mtd_offset_cong) (auto simp: wf_spt_def spt_base_def)
  moreover have "spt_placed (s\<lparr>spt := t\<rparr>) = spt_placed s"
    using assms(2) by (simp add: spt_placed_def)
  ultimately show ?thesis
    using assms by (auto simp: spt_base_def spt_sectors_disjoint_def)
qed

lemma fresh_spt_names [simp]: "names_terminated (fresh_spt hal t) = names_terminated t"
  by (simp add: names_terminated_def)

lemma fresh_spt_entries [simp]: "spt_entries (fresh_spt hal t) = spt_entries t"
  by (simp add: spt_entries_def)

section \<open>Committing a changed table\<close>

context nor_flash begin

text \<open>
  Writing a table back and loading it again, the tail of every change: when both return 0, the
  table in memory is the changed one (with a fresh checksum), it passes the checks, and both
  copies in flash hold it.
\<close>

lemma commit_spt:
  assumes w: "writeback_spt hal s = Some (0, s1)" and l: "load_spt hal s1 = Some (0, s')" and b: "spt_base s"
  shows "spt_inv s' \<and> spt s' = fresh_spt hal (spt s) \<and>
    spt0_copy mem s' = spt_bytes (spt s') \<and> spt1_copy mem s' = spt_bytes (spt s')"
proof -
  let ?t = "fresh_spt hal (spt s)"
  have wf: "wf_spt (spt s)" and m: "magic_number (spt s) = SPT_MAGIC_NUMBER" and nt: "names_terminated (spt s)"
    and n: "unat (partitions (spt s)) \<le> SPT_MAX_PARTITIONS" and pl: "spt_placed s" and sd: "spt_sectors_disjoint s"
    and off: "mtd_part_offset s = spt0_mtd_offset (spt s) (spt0_address (spt_addr s))"
    using b by (auto simp: spt_base_def)
  obtain x y where xy: "set (spt_parts (spt s)) = {x, y}" "part_addr s x = sint (spt0_address (spt_addr s))"
    "part_addr s y = sint (spt1_address (spt_addr s))" "part_len s x < 2 ^ 31" "part_len s y < 2 ^ 31"
    "part_range s x \<inter> part_range s y = {}"
    by (rule spt_placed_parts [OF pl]) (use n wf in \<open>auto simp: wf_spt_def\<close>)
  have rd: "ranges_disjoint s (set (spt_parts (spt s)))" and ln: "\<And>z. z \<in> set (spt_parts (spt s)) \<Longrightarrow> part_len s z < 2 ^ 31"
    using xy by (auto simp: ranges_disjoint_def)
  note ws = writeback_spt_spec [OF w wf m ln rd]
  then obtain u v where s1: "s1 = s\<lparr>spt := u, world := v\<rparr>" by blast
  have t1: "spt s1 = ?t" and cp: "\<forall>z \<in> set (spt_parts (spt s)). region (mem (world s1)) (part_addr s z) SPT_SIZE = spt_bytes ?t"
    using ws by auto
  have c0: "spt0_copy mem s1 = spt_bytes ?t" and c1: "spt1_copy mem s1 = spt_bytes ?t"
    using cp xy s1 by (auto simp: spt0_copy_def spt1_copy_def)
  have tt: "term_names (spt_of_bytes (spt_bytes ?t)) = ?t"
    using wf nt n by (simp add: spt_of_bytes_spt_bytes term_names_terminated)
  have "wf_spt (spt s1)" "spt_sectors_disjoint s1"
    using t1 wf sd s1 by (simp_all add: spt_sectors_disjoint_def)
  note ls = load_spt_ok [OF l this] load_spt_frame [OF l this]
  have sp: "spt s' = ?t" using ls(1) c0 c1 tt by auto
  have "spt0_copy mem s' = spt_bytes (spt s') \<and> spt1_copy mem s' = spt_bytes (spt s')"
    using ls(1) c0 c1 tt sp by auto
  moreover have ad: "spt_addr s' = spt_addr s" using ls(2) s1 by simp
  moreover have "mtd_part_offset s' = mtd_part_offset s"
    using ls(1) sp ad off s1 wf n by (simp add: spt0_mtd_offset_entries wf_spt_def)
  ultimately show ?thesis
    using ls(1) sp wf m nt n off pl sd
    by (simp add: spt_inv_def spt_base_def spt_placed_def spt_sectors_disjoint_def spt0_mtd_offset_entries wf_spt_def)
qed

end


section \<open>The effect of the operations\<close>

lemma filter_list_update:
  "\<not> P (xs ! i) \<Longrightarrow> \<not> P v \<Longrightarrow> filter P (xs[i := v]) = filter P xs"
  by (induction xs arbitrary: i) (auto split: nat.split)

lemma move_down_nth:
  assumes "b < length ps"
  shows "length (move_down ps [a..<b]) = length ps \<and> (\<forall>i < length ps.
     move_down ps [a..<b] ! i = (if a \<le> i \<and> i < b then ps ! (i + 1) else ps ! i))"
  using assms
proof (induction "b - a" arbitrary: a ps)
  case 0
  then show ?case by auto
next
  case (Suc d)
  let ?qs = "ps[a := ps ! (a + 1)]"
  have l: "[a..<b] = a # [Suc a..<b]" using Suc.hyps(2) by (intro upt_conv_Cons) simp
  have d: "d = b - Suc a" using Suc.hyps(2) by simp
  have IH: "length (move_down ?qs [Suc a..<b]) = length ps" "\<And>i. i < length ps \<Longrightarrow>
     move_down ?qs [Suc a..<b] ! i = (if Suc a \<le> i \<and> i < b then ?qs ! (i + 1) else ?qs ! i)"
    using Suc.hyps(1) [OF d, of ?qs] Suc.prems by simp_all
  have "move_down ?qs [Suc a..<b] ! i = (if a \<le> i \<and> i < b then ps ! (i + 1) else ps ! i)"
    if i: "i < length ps" for i
  proof (cases "i = a")
    case True
    then show ?thesis using IH(2) [OF i] i Suc.hyps(2) by simp
  next
    case False
    then show ?thesis using IH(2) [OF i] by auto
  qed
  then show ?case unfolding l using IH(1) by simp
qed

text \<open>A free name is no name of the table, in particular none of its critical ones.\<close>

lemma takeWhile_take: "takeWhile P (take n xs) = take n (takeWhile P xs)"
  by (induction xs arbitrary: n) (auto simp: take_Cons split: nat.split)

lemma strncmp_mono:
  assumes "strncmp a b n = 0" "m \<le> n" shows "strncmp a b m = 0"
proof -
  have "take m (takeWhile (\<lambda>c. c \<noteq> 0) (take n a)) = take m (takeWhile (\<lambda>c. c \<noteq> 0) (take n b))"
    using assms(1) by (simp add: strncmp_eq_0_iff)
  then show ?thesis using assms(2) by (simp add: strncmp_eq_0_iff takeWhile_take min_absorb1)
qed

lemma name_in_use_entry:
  assumes "x < unat (partitions t)" "strncmp (p_name (partition t ! x)) name 16 = 0"
  shows "name_in_use t name"
  using assms strncmp_mono [of _ name 16 15] by (auto simp: name_in_use_def list_ex_iff intro!: bexI [of _ x])

text \<open>The array that \<^const>\<open>SAFE_STRCPY\<close> leaves: the string, its terminator and old bytes.\<close>

lemma SAFE_STRCPY_name:
  assumes "length d = 16" "strnlen nm 16 < 16" "0 \<notin> set nm"
  shows "SAFE_STRCPY d 16 (Some nm) 16 = Some (overlay d 0 (nm @ [0]))"
    and "length (overlay d 0 (nm @ [0])) = 16" and "c_str (overlay d 0 (nm @ [0])) = Some nm"
proof -
  have tw: "takeWhile (\<lambda>c. c \<noteq> 0) nm = nm" using assms(3) by auto
  have l: "strnlen nm 16 = length nm" "length nm < 16"
    using assms(2) unfolding strnlen_def takeWhile_take tw by (simp_all add: min_def split: if_splits)
  then show "SAFE_STRCPY d 16 (Some nm) 16 = Some (overlay d 0 (nm @ [0]))"
    and "length (overlay d 0 (nm @ [0])) = 16"
    using assms(1) by (simp_all add: SAFE_STRCPY_def)
  show "c_str (overlay d 0 (nm @ [0])) = Some nm"
    using assms(3) by (auto simp: c_str_def overlay_def) (subst takeWhile_append2; auto)
qed

text \<open>The new entry is no copy of the table.\<close>

lemma new_name_no_spt:
  assumes "\<not> name_in_use t nm" "spt_entries t \<in> {[p, q], [q, p]}" "name_is p ''SPT0''" "name_is q ''SPT1''"
    "c_str (p_name e) = Some nm" "strnlen nm 16 < 16"
  shows "\<not> (name_is e ''SPT0'' \<or> name_is e ''SPT1'')"
proof
  assume e: "name_is e ''SPT0'' \<or> name_is e ''SPT1''"
  then obtain z where z: "z \<in> set (spt_entries t)" "strncmp (p_name z) (p_name e) 16 = 0"
    using assms(2-4) by (force simp: name_is_def strncmp_eq_0_iff)
  have e1: "takeWhile (\<lambda>c. c \<noteq> 0) (p_name e) = nm" using assms(5) by (auto simp: c_str_def split: if_splits)
  then have e2: "takeWhile (\<lambda>c. c \<noteq> 0) nm = nm" by (auto dest: set_takeWhileD)
  have "strncmp (p_name z) nm 16 = 0"
    using z(2) unfolding strncmp_eq_0_iff takeWhile_take e1 e2 .
  moreover obtain x where "x < unat (partitions t)" "partition t ! x = z"
    using z(1) by (auto simp: spt_entries_def in_set_conv_nth)
  ultimately show False using assms(1) name_in_use_entry by blast
qed

lemma bad_part_index:
  assumes "\<not> bad_part k s" "k < 2 ^ 31"
  shows "0 \<le> k" "nat k < unat (partitions (spt s))" "unat (partitions (spt s)) \<le> SPT_MAX_PARTITIONS"
proof -
  show k: "0 \<le> k" and "unat (partitions (spt s)) \<le> SPT_MAX_PARTITIONS"
    using assms(1) by (auto simp: bad_part_def)
  have "k < uint (partitions (spt s))"
    using assms k by (auto simp: bad_part_def uint_of_int_small)
  then show "nat k < unat (partitions (spt s))" using k uint_nat [of "partitions (spt s)"] by linarith
qed

text \<open>A change of the partition array that leaves the entries of the two copies alone.\<close>

lemma spt_inv_change:
  assumes "spt_inv s" "length ps = SPT_MAX_PARTITIONS" "\<And>p. p \<in> set ps \<Longrightarrow> length (p_name p) = 16"
    "\<And>p. p \<in> set (take (unat n) ps) \<Longrightarrow> 0 \<in> set (p_name p)" "unat n \<le> SPT_MAX_PARTITIONS"
    "filter (\<lambda>p. name_is p ''SPT0'' \<or> name_is p ''SPT1'') (take (unat n) ps) = spt_entries (spt s)"
  shows "spt_base (s\<lparr>spt := (spt s)\<lparr>partition := ps, partitions := n\<rparr>\<rparr>)"
proof (rule spt_base_cong)
  have "0 \<in> set (p_name (ps ! x))" if "x < unat n" for x
    using assms(4) [of "ps ! x"] nth_mem [of x "take (unat n) ps"] that assms(2,5) by simp
  then show "names_terminated ((spt s)\<lparr>partition := ps, partitions := n\<rparr>)"
    by (simp add: names_terminated_def)
qed (use assms in \<open>auto simp: spt_inv_def spt_base_def wf_spt_def spt_entries_def\<close>)

lemma spt_inv_names:
  assumes "spt_inv s" "p \<in> set (take (unat (partitions (spt s))) (partition (spt s)))"
  shows "0 \<in> set (p_name p)"
  using assms by (auto simp: spt_inv_def spt_base_def names_terminated_def wf_spt_def in_set_conv_nth)

lemma spt_inv_wf:
  assumes "spt_inv s"
  shows "wf_spt (spt s)" "length (partition (spt s)) = 127" "length (RSVD (spt s)) = 4"
    "p \<in> set (partition (spt s)) \<Longrightarrow> length (p_name p) = 16"
  using assms by (simp_all add: spt_inv_def spt_base_def wf_spt_def)

lemma spt_inv_copies:
  assumes "spt_inv s"
  obtains p q where "spt_entries (spt s) \<in> {[p, q], [q, p]}" "name_is p ''SPT0''" "name_is q ''SPT1''"
  using assms by (auto simp: spt_inv_def spt_base_def spt_placed_def)

text \<open>The changed tables, and that each keeps the entries of the copies.\<close>

definition renamed_entry :: "spt_partition \<Rightarrow> byte list \<Rightarrow> spt_partition" where
  "renamed_entry p nm = p\<lparr>p_name := overlay (p_name p) 0 (nm @ [0])\<rparr>"

definition created_table :: "SUB_PARTITION_TABLE \<Rightarrow> byte list \<Rightarrow> u64 \<Rightarrow> u64 \<Rightarrow> SUB_PARTITION_TABLE" where
  "created_table t nm start sz = (let n = unat (partitions t) in
     t\<lparr>partition := (partition t)[n :=
          \<lparr>p_name = overlay (p_name (partition t ! n)) 0 (nm @ [0]), p_offset = start, p_length = ucast sz, p_flags = 0\<rparr>],
       partitions := partitions t + 1\<rparr>)"

definition deleted_table :: "SUB_PARTITION_TABLE \<Rightarrow> nat \<Rightarrow> SUB_PARTITION_TABLE" where
  "deleted_table t k =
     t\<lparr>partition := move_down (partition t) [k..<min (unat (partitions t)) (SPT_MAX_PARTITIONS - 1)],
       partitions := partitions t - 1\<rparr>"

lemma rename_base:
  assumes inv: "spt_inv s" and k: "k < unat (partitions (spt s))" and ns: "\<not> is_spt_part (spt s) k"
    and nm: "strnlen nm 16 < 16" "0 \<notin> set nm" "\<not> name_in_use (spt s) nm"
  defines "t \<equiv> set_partition (spt s) k (renamed_entry (partition (spt s) ! k) nm)"
  shows "spt_base (s\<lparr>spt := t\<rparr>)" "spt_entries t = spt_entries (spt s)"
    "c_str (p_name (renamed_entry (partition (spt s) ! k) nm)) = Some nm"
proof -
  let ?n = "unat (partitions (spt s))" and ?q = "renamed_entry (partition (spt s) ! k) nm"
  note wf = spt_inv_wf [OF inv]
  have n: "?n \<le> 127" using inv by (simp add: spt_inv_def spt_base_def)
  have "length (p_name (partition (spt s) ! k)) = 16" using wf k n by simp
  note cp = SAFE_STRCPY_name [OF this nm(1,2)]
  then show cq: "c_str (p_name ?q) = Some nm" by (simp add: renamed_entry_def)
  have lq: "length (p_name ?q) = 16" using cp by (simp add: renamed_entry_def)
  obtain e f where "spt_entries (spt s) \<in> {[e, f], [f, e]}" "name_is e ''SPT0''" "name_is f ''SPT1''"
    by (rule spt_inv_copies [OF inv])
  then have nq: "\<not> (name_is ?q ''SPT0'' \<or> name_is ?q ''SPT1'')"
    by (rule new_name_no_spt [OF nm(3) _ _ _ cq nm(1)])
  have tk: "take ?n ((partition (spt s))[k := ?q]) = (take ?n (partition (spt s)))[k := ?q]"
    by (simp add: take_update_swap)
  have fl: "filter (\<lambda>p. name_is p ''SPT0'' \<or> name_is p ''SPT1'') (take ?n ((partition (spt s))[k := ?q])) =
      spt_entries (spt s)"
    unfolding tk spt_entries_def
    by (rule filter_list_update) (use nq ns k in \<open>simp_all add: is_spt_part_def\<close>)
  then show "spt_entries t = spt_entries (spt s)" by (simp add: t_def set_partition_def spt_entries_def)
  have "spt_base (s\<lparr>spt := (spt s)\<lparr>partition := (partition (spt s))[k := ?q], partitions := partitions (spt s)\<rparr>\<rparr>)"
    by (rule spt_inv_change [OF inv _ _ _ _ fl])
      (use wf lq cq n inv in \<open>auto simp: tk c_str_def spt_inv_names split: if_splits
        dest!: set_update_subset_insert [THEN subsetD]\<close>)
  then show "spt_base (s\<lparr>spt := t\<rparr>)" by (simp add: t_def set_partition_def)
qed

lemma create_base:
  fixes start sz :: u64
  assumes inv: "spt_inv s" and n: "unat (partitions (spt s)) < 127"
    and nm: "strnlen nm 16 < 16" "0 \<notin> set nm" "\<not> name_in_use (spt s) nm"
  defines "n \<equiv> unat (partitions (spt s))" and "t \<equiv> created_table (spt s) nm start sz"
  shows "spt_base (s\<lparr>spt := t\<rparr>)" "spt_entries t = spt_entries (spt s)" "unat (partitions t) = Suc n"
    "c_str (p_name (partition t ! n)) = Some nm" "take (Suc n) (partition t) = take n (partition (spt s)) @ [partition t ! n]"
    "p_offset (partition t ! n) = start" "p_length (partition t ! n) = ucast sz" "p_flags (partition t ! n) = 0"
proof -
  let ?e = "\<lparr>p_name = overlay (p_name (partition (spt s) ! n)) 0 (nm @ [0]), p_offset = start, p_length = ucast sz, p_flags = 0\<rparr>"
  have t: "t = (spt s)\<lparr>partition := (partition (spt s))[n := ?e], partitions := partitions (spt s) + 1\<rparr>"
    by (simp add: t_def created_table_def n_def Let_def)
  note wf = spt_inv_wf [OF inv]
  have n: "n < 127" using assms(2) by (simp add: n_def)
  have "length (p_name (partition (spt s) ! n)) = 16" using wf n by simp
  note cp = SAFE_STRCPY_name [OF this nm(1,2)]
  have te: "partition t ! n = ?e" using wf n by (simp add: t)
  then show cq: "c_str (p_name (partition t ! n)) = Some nm" and "p_offset (partition t ! n) = start"
    "p_length (partition t ! n) = ucast sz" "p_flags (partition t ! n) = 0" using cp by simp_all
  obtain e f where "spt_entries (spt s) \<in> {[e, f], [f, e]}" "name_is e ''SPT0''" "name_is f ''SPT1''"
    by (rule spt_inv_copies [OF inv])
  then have nq: "\<not> (name_is (partition t ! n) ''SPT0'' \<or> name_is (partition t ! n) ''SPT1'')"
    by (rule new_name_no_spt [OF nm(3) _ _ _ cq nm(1)])
  have n1: "unat (partitions (spt s) + 1) = Suc n" using n unfolding n_def by (subst unat_add_lem [THEN iffD1]) auto
  then show nt: "unat (partitions t) = Suc n" by (simp add: t)
  show tk: "take (Suc n) (partition t) = take n (partition (spt s)) @ [partition t ! n]"
    using n wf by (simp add: t take_Suc_conv_app_nth)
  have fl: "filter (\<lambda>p. name_is p ''SPT0'' \<or> name_is p ''SPT1'') (take (unat (partitions t)) (partition t)) = spt_entries (spt s)"
    unfolding nt tk using nq by (simp add: spt_entries_def n_def)
  then show "spt_entries t = spt_entries (spt s)" by (simp add: spt_entries_def)
  have "spt_base (s\<lparr>spt := (spt s)\<lparr>partition := partition t, partitions := partitions t\<rparr>\<rparr>)"
  proof (rule spt_inv_change [OF inv _ _ _ _ fl])
    show "0 \<in> set (p_name p)" if "p \<in> set (take (unat (partitions t)) (partition t))" for p
      using that cq unfolding nt tk by (auto simp: n_def c_str_def spt_inv_names [OF inv] split: if_splits)
  qed (use wf cp n nt in \<open>auto simp: t dest!: set_update_subset_insert [THEN subsetD]\<close>)
  then show "spt_base (s\<lparr>spt := t\<rparr>)" by (simp add: t)
qed

lemma delete_base:
  assumes inv: "spt_inv s" and k: "k < unat (partitions (spt s))" and ns: "\<not> is_spt_part (spt s) k"
  defines "n \<equiv> unat (partitions (spt s))" and "t \<equiv> deleted_table (spt s) k"
  shows "spt_base (s\<lparr>spt := t\<rparr>)" "spt_entries t = spt_entries (spt s)" "unat (partitions t) = n - 1"
    "take (n - 1) (partition t) = take k (partition (spt s)) @ drop (Suc k) (take n (partition (spt s)))"
    "\<And>i. i < n - 1 \<Longrightarrow> partition t ! i = partition (spt s) ! (if k \<le> i then i + 1 else i)"
proof -
  let ?m = "min n 126" and ?l = "take n (partition (spt s))"
  let ?ps = "move_down (partition (spt s)) [k..<?m]"
  have t: "t = (spt s)\<lparr>partition := ?ps, partitions := partitions (spt s) - 1\<rparr>"
    by (simp add: t_def deleted_table_def n_def)
  note wf = spt_inv_wf [OF inv]
  have n: "n \<le> 127" "k < n" using inv k by (simp_all add: spt_inv_def spt_base_def n_def)
  have n1: "unat (partitions (spt s) - 1) = n - 1"
    using n unfolding n_def by (subst unat_minus_one) (auto simp: unat_eq_0)
  then show nt: "unat (partitions t) = n - 1" by (simp add: t)
  have mn: "?m < length (partition (spt s))" using wf by simp
  have "length ?ps = length (partition (spt s)) \<and> (\<forall>i < length (partition (spt s)).
     ?ps ! i = (if k \<le> i \<and> i < ?m then partition (spt s) ! (i + 1) else partition (spt s) ! i))"
    by (rule move_down_nth [OF mn])
  then have mv: "length ?ps = 127" "\<And>i. i < 127 \<Longrightarrow>
     ?ps ! i = (if k \<le> i \<and> i < ?m then partition (spt s) ! (i + 1) else partition (spt s) ! i)"
    using wf by simp_all
  show ix: "partition t ! i = partition (spt s) ! (if k \<le> i then i + 1 else i)" if "i < n - 1" for i
    using that mv(2) [of i] n by (auto simp: t)
  have ll: "length ?l = n" "take k ?l = take k (partition (spt s))" using n wf by simp_all
  show tk: "take (n - 1) (partition t) = take k (partition (spt s)) @ drop (Suc k) ?l"
  proof (rule nth_equalityI)
    show "length (take (n - 1) (partition t)) = length (take k (partition (spt s)) @ drop (Suc k) ?l)"
      using n mv(1) wf by (simp add: t)
    show "take (n - 1) (partition t) ! i = (take k (partition (spt s)) @ drop (Suc k) ?l) ! i"
      if "i < length (take (n - 1) (partition t))" for i
      using that n mv(1) ix [of i] wf by (cases "i < k") (auto simp: t nth_append)
  qed
  have split: "?l = take k (partition (spt s)) @ partition (spt s) ! k # drop (Suc k) ?l"
    using id_take_nth_drop [of k ?l] n ll by simp
  have fl: "filter (\<lambda>p. name_is p ''SPT0'' \<or> name_is p ''SPT1'') (take (unat (partitions t)) (partition t)) = spt_entries (spt s)"
    unfolding nt tk spt_entries_def n_def [symmetric]
    using ns by (subst (2) split) (simp add: is_spt_part_def)
  then show "spt_entries t = spt_entries (spt s)" by (simp add: spt_entries_def)
  have sub: "set (take k (partition (spt s)) @ drop (Suc k) ?l) \<subseteq> set ?l"
    by (subst (2) split) auto
  have "spt_base (s\<lparr>spt := (spt s)\<lparr>partition := partition t, partitions := partitions t\<rparr>\<rparr>)"
  proof (rule spt_inv_change [OF inv _ _ _ _ fl])
    show "length (p_name p) = 16" if "p \<in> set (partition t)" for p
    proof -
      have "p \<in> set ?ps" using that by (simp add: t)
      then obtain i where i: "i < 127" "p = ?ps ! i" using mv(1) by (auto simp: in_set_conv_nth)
      then show ?thesis using mv(2) [OF i(1)] wf by (auto split: if_splits)
    qed
    show "0 \<in> set (p_name p)" if "p \<in> set (take (unat (partitions t)) (partition t))" for p
      using that sub unfolding nt tk by (blast intro: spt_inv_names [OF inv, folded n_def])
  qed (use mv(1) n nt in \<open>simp_all add: t\<close>)
  then show "spt_base (s\<lparr>spt := t\<rparr>)" by (simp add: t)
qed

text \<open>A run of each operation up to its commit.\<close>

lemma partition_rename_run:
  assumes k: "k < 2 ^ 31" and inv: "spt_inv s" and z: "0 \<notin> set nm"
  shows "partition_rename hal k nm s =
    (if bad_part k s \<or> strnlen nm 16 \<ge> 16 \<or> name_in_use (spt s) nm then Some (- EINVAL, s)
     else do {
       (err, s) \<leftarrow> writeback_spt hal (s\<lparr>spt := set_partition (spt s) (nat k) (renamed_entry (partition (spt s) ! nat k) nm)\<rparr>);
       if err \<noteq> 0 then Some (- EPERM, s)
       else do { (err, s) \<leftarrow> load_spt hal s; if err \<noteq> 0 then Some (- EPERM, s) else Some (0, s) }
     })"
proof (cases "bad_part k s \<or> strnlen nm 16 \<ge> 16 \<or> name_in_use (spt s) nm")
  case False
  then have "length (p_name (partition (spt s) ! nat k)) = 16"
    using bad_part_index [of k s] k spt_inv_wf [OF inv] by simp
  then show ?thesis
    using False SAFE_STRCPY_name [of _ nm] z
    by (simp add: partition_rename_def Let_def renamed_entry_def del: One_nat_def)
qed (auto simp: partition_rename_def)

lemma partition_create_run:
  assumes inv: "spt_inv s" and z: "0 \<notin> set nm" and n: "unat (partitions (spt s)) < 127"
    and nm: "strnlen nm 16 < 16" "\<not> name_in_use (spt s) nm"
    and fr: "\<And>x. x < unat (partitions (spt s)) \<Longrightarrow>
      \<not> (start < part_end (partition (spt s) ! x) \<and> start + sz > p_offset (partition (spt s) ! x))"
  shows "partition_create hal nm start sz s = do {
       (err, s) \<leftarrow> writeback_spt hal (s\<lparr>spt := created_table (spt s) nm start sz\<rparr>);
       if err \<noteq> 0 then Some (err, s)
       else do { (err, s) \<leftarrow> load_spt hal s; if err \<noteq> 0 then Some (err, s) else Some (0, s) }
     }"
proof -
  have "length (p_name (partition (spt s) ! unat (partitions (spt s)))) = 16"
    using n spt_inv_wf [OF inv] by simp
  moreover have "\<not> list_ex (\<lambda>x. start < part_end (partition (spt s) ! x) \<and> start + sz > p_offset (partition (spt s) ! x))
      [0..<unat (partitions (spt s))]" using fr by (auto simp: list_ex_iff)
  ultimately show ?thesis
    using n nm SAFE_STRCPY_name [of _ nm] z
    by (simp add: partition_create_def Let_def created_table_def set_partition_def del: One_nat_def)
qed

lemma partition_delete_run:
  "partition_delete hal k s =
    (if bad_part k s then Some (- EINVAL, s)
     else do {
       (err, s) \<leftarrow> writeback_spt hal (s\<lparr>spt := deleted_table (spt s) (nat k)\<rparr>);
       if err \<noteq> 0 then Some (err, s)
       else do { (err, s) \<leftarrow> load_spt hal s; if err \<noteq> 0 then Some (err, s) else Some (0, s) }
     })"
  by (simp add: partition_delete_def Let_def deleted_table_def)

context nor_flash begin

lemma partition_rename_spec:
  assumes run: "partition_rename hal k nm s = Some (0, s')" and k: "k < 2 ^ 31" and inv: "spt_inv s"
    and ns: "\<not> is_spt_part (spt s) (nat k)" and z: "0 \<notin> set nm"
  shows "spt_inv s' \<and> spt s' = fresh_spt hal (set_partition (spt s) (nat k) (renamed_entry (partition (spt s) ! nat k) nm)) \<and>
    c_str (p_name (partition (spt s') ! nat k)) = Some nm \<and>
    spt0_copy mem s' = spt_bytes (spt s') \<and> spt1_copy mem s' = spt_bytes (spt s')"
proof -
  let ?t = "set_partition (spt s) (nat k) (renamed_entry (partition (spt s) ! nat k) nm)"
  from run obtain s1 where b: "\<not> bad_part k s" and nm: "strnlen nm 16 < 16" "\<not> name_in_use (spt s) nm"
    and w: "writeback_spt hal (s\<lparr>spt := ?t\<rparr>) = Some (0, s1)" "load_spt hal s1 = Some (0, s')"
    by (auto simp: partition_rename_run [OF k inv z] Option.bind_eq_Some_conv split: if_splits)
  note bs = bad_part_index [OF b k]
  note rb = rename_base [OF inv bs(2) ns nm(1) z nm(2)]
  have "partition ?t ! nat k = renamed_entry (partition (spt s) ! nat k) nm"
    using bs spt_inv_wf [OF inv] by (simp add: set_partition_def)
  with commit_spt [OF w rb(1)] rb(3) show ?thesis by simp
qed

lemma partition_create_spec:
  assumes run: "partition_create hal nm start sz s = Some (0, s')" and inv: "spt_inv s" and z: "0 \<notin> set nm"
  shows "spt_inv s' \<and> spt s' = fresh_spt hal (created_table (spt s) nm start sz) \<and>
    unat (partitions (spt s')) = Suc (unat (partitions (spt s))) \<and>
    take (unat (partitions (spt s))) (partition (spt s')) = take (unat (partitions (spt s))) (partition (spt s)) \<and>
    (let p = partition (spt s') ! unat (partitions (spt s)) in
       c_str (p_name p) = Some nm \<and> p_offset p = start \<and> p_length p = ucast sz \<and> p_flags p = 0) \<and>
    spt0_copy mem s' = spt_bytes (spt s') \<and> spt1_copy mem s' = spt_bytes (spt s')"
proof -
  let ?n = "unat (partitions (spt s))" and ?t = "created_table (spt s) nm start sz"
  have nm: "strnlen nm 16 < 16" "\<not> name_in_use (spt s) nm" and n: "?n < 127"
    using run by (auto simp: partition_create_def Let_def split: if_splits)
  have fr: "\<not> (start < part_end (partition (spt s) ! x) \<and> start + sz > p_offset (partition (spt s) ! x))" if "x < ?n" for x
    using run that by (auto simp: partition_create_def Let_def list_ex_iff split: if_splits)
  obtain s1 where w: "writeback_spt hal (s\<lparr>spt := ?t\<rparr>) = Some (0, s1)" "load_spt hal s1 = Some (0, s')"
    using run by (subst (asm) partition_create_run [OF inv z n nm])
      (use fr in \<open>auto simp: Option.bind_eq_Some_conv split: if_splits\<close>)
  note cb = create_base [OF inv n nm(1) z nm(2), of start sz]
  have "take ?n (take (Suc ?n) (partition ?t)) = take ?n (partition (spt s))" unfolding cb(5) using spt_inv_wf [OF inv] n by simp
  then have "take ?n (partition ?t) = take ?n (partition (spt s))" by simp
  with commit_spt [OF w cb(1)] cb show ?thesis by (simp add: Let_def)
qed

lemma partition_delete_spec:
  assumes run: "partition_delete hal k s = Some (0, s')" and k: "k < 2 ^ 31" and inv: "spt_inv s"
    and ns: "\<not> is_spt_part (spt s) (nat k)"
  shows "spt_inv s' \<and> unat (partitions (spt s')) = unat (partitions (spt s)) - 1 \<and>
    take (unat (partitions (spt s'))) (partition (spt s')) =
      take (nat k) (partition (spt s)) @ drop (Suc (nat k)) (take (unat (partitions (spt s))) (partition (spt s))) \<and>
    spt0_copy mem s' = spt_bytes (spt s') \<and> spt1_copy mem s' = spt_bytes (spt s')"
proof -
  let ?t = "deleted_table (spt s) (nat k)"
  from run obtain s1 where b: "\<not> bad_part k s"
    and w: "writeback_spt hal (s\<lparr>spt := ?t\<rparr>) = Some (0, s1)" "load_spt hal s1 = Some (0, s')"
    by (auto simp: partition_delete_run Option.bind_eq_Some_conv split: if_splits)
  note db = delete_base [OF inv bad_part_index(2) [OF b k] ns]
  from commit_spt [OF w db(1)] db(3,4) show ?thesis by simp
qed

end

text \<open>
  The slot view: the partition operations of the library are the interface that the slot functions
  call, and every name they see is terminated.
\<close>

definition partition_ops :: "'w ops partition_intf" where
  "partition_ops = \<lparr>intf_count = partition_count, intf_name = (\<lambda>s x. partition_name x s),
     intf_reserved = (\<lambda>s x. partition_reserved x s), intf_readonly = (\<lambda>s x. partition_readonly x s)\<rparr>"

lemma partition_name_terminated:
  assumes "spt_inv s" "0 \<le> x" "x < partition_count s"
  shows "c_str (partition_name x s) \<noteq> None"
proof (cases "bad_part x s")
  case True
  then show ?thesis by (simp add: partition_name_def c_str_def)
next
  case False
  have "unat (partitions (spt s)) \<le> 127" using assms(1) by (simp add: spt_inv_def spt_base_def)
  then have "x < uint (partitions (spt s))"
    using assms(3) by (simp add: partition_count_def sint_eq_uint)
  then have "nat x < unat (partitions (spt s))" using assms(2) uint_nat [of "partitions (spt s)"] by linarith
  then have "0 \<in> set (p_name (partition (spt s) ! nat x))"
    using assms(1) by (simp add: spt_inv_def spt_base_def names_terminated_def)
  then show ?thesis using False by (simp add: partition_name_def c_str_def)
qed

interpretation part_slots: slot_view partition_ops spt_inv
  by unfold_locales (simp add: partition_ops_def partition_name_terminated)

end
