(* ===== verification/Rsu_Cpb.thy ===== *)
theory Rsu_Cpb
  imports Rsu_Dev
begin

text \<open>
  The configuration pointer block in \<^verbatim>\<open>src/libRSU_ops.c\<close>: validity checks (\<^verbatim>\<open>check_cpb\<close>,
  \<^verbatim>\<open>check_both_cpb\<close>), loading with repair (\<^verbatim>\<open>load_cpb\<close>), the update of one pointer (\<^verbatim>\<open>update_cpb\<close>),
  writing both copies (\<^verbatim>\<open>writeback_cpb\<close>) and the priority list kept in it (\<^verbatim>\<open>priority_get\<close>,
  \<^verbatim>\<open>priority_add\<close>, \<^verbatim>\<open>priority_remove\<close>, \<^verbatim>\<open>empty_cpb\<close>).

  The number of pointers is read from the block at every test of a loop, as the C code does: a loop
  that writes pointers is a recursion that reads it again, one that only reads is a recursion over
  the indices. \<^const>\<open>None\<close> is an access outside the block.
\<close>

section \<open>Validity\<close>

definition cpb_live :: "u64 \<Rightarrow> bool" where
  "cpb_live v \<longleftrightarrow> v \<noteq> ERASED_ENTRY \<and> v \<noteq> SPENT_ENTRY"

definition cpb_count :: "('w, 'z) ops_scheme \<Rightarrow> nat" where
  "cpb_count s = unat (cpb_image_ptr_slots (cpb s))"

lemma cpb_count_less: "cpb_count s < 2 ^ 32"
  using unsigned_less [of "cpb_image_ptr_slots (cpb s)", where 'a = nat] by (simp add: cpb_count_def)

text \<open>The body of the loop of \<^verbatim>\<open>check_cpb\<close> for one pointer that is in use.\<close>

definition check_cpb_entry :: "SUB_PARTITION_TABLE \<Rightarrow> u64 \<Rightarrow> int" where
  "check_cpb_entry t v =
     (case find (\<lambda>y. v = p_offset (partition t ! y)) [0..<unat (partitions t)] of
        None \<Rightarrow> - EFAULT
      | Some y \<Rightarrow> if p_flags (partition t ! y) AND SPT_FLAG_RESERVED \<noteq> 0 then - EPERM else 0)"

fun check_cpb_loop :: "'w ops \<Rightarrow> nat list \<Rightarrow> int option" where
  "check_cpb_loop s [] = Some 0"
| "check_cpb_loop s (x # xs) = do {
     v \<leftarrow> get_cpb_slot s x;
     if \<not> cpb_live v then check_cpb_loop s xs
     else (let ret = check_cpb_entry (spt s) v
           in if ret \<noteq> 0 then Some ret else check_cpb_loop s xs)
   }"

definition check_cpb :: "'w ops \<Rightarrow> int option" where
  "check_cpb s = check_cpb_loop s [0..<cpb_count s]"

definition check_both_cpb :: "'w librsu_ll_intf \<Rightarrow> 'w ops \<Rightarrow> (int \<times> 'w ops) option" where
  "check_both_cpb hal s =
     (case rsu_malloc hal (world s) CPB_SIZE of
        (None, w) \<Rightarrow> Some (- ENOMEM, s\<lparr>world := w\<rparr>)
      | (Some cpb0_data, w) \<Rightarrow>
        (case rsu_malloc hal w CPB_SIZE of
           (None, w) \<Rightarrow> Some (- ENOMEM, s\<lparr>world := w\<rparr>)
         | (Some cpb1_data, w) \<Rightarrow> do {
             let s = s\<lparr>world := w\<rparr>;
             (ret, cpb0_data, s) \<leftarrow> read_part hal (sint (cpb0_part s)) 0 (Some cpb0_data) (int CPB_SIZE) s;
             if ret \<noteq> 0 then Some (ret, s)
             else do {
               (ret, cpb1_data, s) \<leftarrow> read_part hal (sint (cpb1_part s)) 0 (Some cpb1_data) (int CPB_SIZE) s;
               if ret \<noteq> 0 then Some (ret, s)
               else Some (memcmp cpb0_data cpb1_data, s)
             }
           }))"

section \<open>Loading\<close>

text \<open>The loop that looks for the two partitions, with its early exit.\<close>

fun find_cpb_parts :: "'w ops \<Rightarrow> nat list \<Rightarrow> 'w ops" where
  "find_cpb_parts s [] = s"
| "find_cpb_parts s (x # xs) =
     (let s = (if name_is (partition (spt s) ! x) ''CPB0'' then s\<lparr>cpb0_part := word_of_nat x\<rparr>
               else if name_is (partition (spt s) ! x) ''CPB1'' then s\<lparr>cpb1_part := word_of_nat x\<rparr>
               else s)
      in if cpb0_part s < partitions (spt s) \<and> cpb1_part s < partitions (spt s) then s
         else find_cpb_parts s xs)"

text \<open>Reading a copy into the block and testing it.\<close>

definition read_cpb :: "'w librsu_ll_intf \<Rightarrow> u32 \<Rightarrow> 'w ops \<Rightarrow> (int \<times> 'w ops) option" where
  "read_cpb hal part s = do {
     (ret, d, s) \<leftarrow> read_part hal (sint part) 0 (Some (cpb s)) (int CPB_BLOCK_SIZE) s;
     Some (ret, s\<lparr>cpb := d\<rparr>)
   }"

definition cpb_good :: "'w librsu_ll_intf \<Rightarrow> u32 \<Rightarrow> 'w ops \<Rightarrow> (bool \<times> 'w ops) option" where
  "cpb_good hal part s = do {
     (ret, s) \<leftarrow> read_cpb hal part s;
     if ret = 0 \<and> cpb_magic_number (cpb s) = CPB_MAGIC_NUMBER \<and>
        cpb_image_ptr_offset (cpb s) = CPB_IMAGE_PTR_OFFSET
     then do {
       let s = s\<lparr>cpb_slots := Some (unat (cpb_image_ptr_offset (cpb s)))\<rparr>;
       ret \<leftarrow> check_cpb s;
       Some (ret = 0, s)
     }
     else Some (False, s)
   }"

definition set_cpb_slots :: "('w, 'z) ops_scheme \<Rightarrow> ('w, 'z) ops_scheme" where
  "set_cpb_slots s = s\<lparr>cpb_slots := Some (unat (cpb_image_ptr_offset (cpb s)))\<rparr>"

text \<open>The repair of one copy from the block in memory.\<close>

definition restore_cpb :: "'w librsu_ll_intf \<Rightarrow> u32 \<Rightarrow> 'w ops \<Rightarrow> (int \<times> 'w ops) option" where
  "restore_cpb hal part s = do {
     (ret, s) \<leftarrow> erase_part hal (sint part) s;
     if ret \<noteq> 0 then Some (- EPERM, s)
     else do {
       let s = s\<lparr>cpb := set_cpb_magic_number (cpb s) 0xFFFFFFFF\<rparr>;
       (ret, s) \<leftarrow> write_part hal (sint part) 0 (Some (cpb s)) (int CPB_BLOCK_SIZE) s;
       if ret \<noteq> 0 then Some (- EPERM, s)
       else do {
         let s = s\<lparr>cpb := set_cpb_magic_number (cpb s) CPB_MAGIC_NUMBER\<rparr>;
         (ret, s) \<leftarrow> write_part hal (sint part) 0 (Some (cpb s)) 4 s;
         if ret \<noteq> 0 then Some (- EPERM, s) else Some (0, set_cpb_slots s)
       }
     }
   }"

definition load_cpb :: "'w librsu_ll_intf \<Rightarrow> 'w ops \<Rightarrow> (int \<times> 'w ops) option" where
  "load_cpb hal s =
     (if unat (partitions (spt s)) > SPT_MAX_PARTITIONS then Some (- EFBIG, s)
      else case mbox_get_rsu_status hal (world s) of (ret, info, w) \<Rightarrow>
        (let s = s\<lparr>world := w\<rparr>
         in if ret \<noteq> 0 then Some (- EACCES, s)
            else if \<not> cpb_fixed s \<and> st_state info = STATE_CPB0_CPB1_CORRUPTED
              then Some (- ECORRUPTED_CPB, s\<lparr>cpb_corrupted := True\<rparr>)
            else do {
              let cpb0_corrupted = (\<not> cpb_fixed s \<and> st_state info = STATE_CPB0_CORRUPTED);
              let s = find_cpb_parts (s\<lparr>cpb0_part := - 1, cpb1_part := - 1\<rparr>) [0..<unat (partitions (spt s))];
              if cpb0_part s > partitions (spt s) \<or> cpb1_part s > partitions (spt s)
              then Some (- EFAULT, s)
              else do {
                (cpb1_good, s) \<leftarrow> cpb_good hal (cpb1_part s) s;
                (cpb0_good, s) \<leftarrow> (if \<not> cpb0_corrupted then cpb_good hal (cpb0_part s) s else Some (False, s));
                if cpb0_good \<and> cpb1_good then do {
                  (ret, s) \<leftarrow> check_both_cpb hal s;
                  if ret \<noteq> 0 then Some (- EBADF, s\<lparr>cpb_corrupted := True\<rparr>) else Some (0, set_cpb_slots s)
                }
                else if cpb0_good then restore_cpb hal (cpb1_part s) s
                else if cpb1_good then do {
                  (ret, s) \<leftarrow> read_cpb hal (cpb1_part s) s;
                  if ret \<noteq> 0 \<or> cpb_magic_number (cpb s) \<noteq> CPB_MAGIC_NUMBER \<or>
                     cpb_image_ptr_offset (cpb s) \<noteq> CPB_IMAGE_PTR_OFFSET
                  then Some (- EACCES, s)
                  else restore_cpb hal (cpb0_part s) s
                }
                else Some (- ECORRUPTED_CPB, s\<lparr>cpb_corrupted := True\<rparr>)
              }
            }))"

section \<open>Writing\<close>

definition is_cpb_part :: "SUB_PARTITION_TABLE \<Rightarrow> nat \<Rightarrow> bool" where
  "is_cpb_part t x \<longleftrightarrow> name_is (partition t ! x) ''CPB0'' \<or> name_is (partition t ! x) ''CPB1''"

fun update_cpb_loop :: "'w librsu_ll_intf \<Rightarrow> nat list \<Rightarrow> int \<Rightarrow> 'w ops \<Rightarrow> (int \<times> 'w ops) option" where
  "update_cpb_loop hal [] updates s = Some (if updates \<noteq> 2 then - EADDRNOTAVAIL else 0, s)"
| "update_cpb_loop hal (x # xs) updates s =
     (if \<not> is_cpb_part (spt s) x then update_cpb_loop hal xs updates s
      else do {
        (ret, s) \<leftarrow> write_part hal (int x) 0 (Some (cpb s)) (int CPB_BLOCK_SIZE) s;
        if ret \<noteq> 0 then Some (- EIO, s) else update_cpb_loop hal xs (updates + 1) s
      })"

definition update_cpb :: "'w librsu_ll_intf \<Rightarrow> int \<Rightarrow> u64 \<Rightarrow> 'w ops \<Rightarrow> (int \<times> 'w ops) option" where
  "update_cpb hal slot ptr s =
     (if slot < 0 \<or> uint (word_of_int slot :: u32) > uint (cpb_image_ptr_slots (cpb s)) then Some (- EINVAL, s)
      else do {
        v \<leftarrow> get_cpb_slot s (nat slot);
        if v AND ptr \<noteq> ptr then Some (- EINVAL, s)
        else if unat (partitions (spt s)) > SPT_MAX_PARTITIONS then Some (- EFBIG, s)
        else do {
          s \<leftarrow> set_cpb_slot s (nat slot) ptr;
          update_cpb_loop hal [0..<unat (partitions (spt s))] 0 s
        }
      })"

text \<open>The body of the loop of \<^verbatim>\<open>writeback_cpb\<close> for one copy.\<close>

definition writeback_cpb_copy :: "'w librsu_ll_intf \<Rightarrow> nat \<Rightarrow> 'w ops \<Rightarrow> (int \<times> 'w ops) option" where
  "writeback_cpb_copy hal x s = do {
     (err, s) \<leftarrow> erase_part hal (int x) s;
     if err \<noteq> 0 then Some (err, s)
     else do {
       let s = s\<lparr>cpb := set_cpb_magic_number (cpb s) 0xFFFFFFFF\<rparr>;
       (err, s) \<leftarrow> write_part hal (int x) 0 (Some (cpb s)) (int CPB_BLOCK_SIZE) s;
       if err \<noteq> 0 then Some (err, s)
       else do {
         let s = s\<lparr>cpb := set_cpb_magic_number (cpb s) CPB_MAGIC_NUMBER\<rparr>;
         write_part hal (int x) 0 (Some (cpb s)) 4 s
       }
     }
   }"

fun writeback_cpb_loop :: "'w librsu_ll_intf \<Rightarrow> nat list \<Rightarrow> int \<Rightarrow> 'w ops \<Rightarrow> (int \<times> 'w ops) option" where
  "writeback_cpb_loop hal [] updates s = Some (if updates \<noteq> 2 then - EADDRNOTAVAIL else 0, s)"
| "writeback_cpb_loop hal (x # xs) updates s =
     (if \<not> is_cpb_part (spt s) x then writeback_cpb_loop hal xs updates s
      else do {
        (err, s) \<leftarrow> writeback_cpb_copy hal x s;
        if err \<noteq> 0 then Some (err, s) else writeback_cpb_loop hal xs (updates + 1) s
      })"

definition writeback_cpb :: "'w librsu_ll_intf \<Rightarrow> 'w ops \<Rightarrow> (int \<times> 'w ops) option" where
  "writeback_cpb hal s =
     (if unat (partitions (spt s)) > SPT_MAX_PARTITIONS then Some (- EFBIG, s)
      else writeback_cpb_loop hal [0..<unat (partitions (spt s))] 0 s)"

section \<open>Priorities\<close>

text \<open>The loop runs \<open>x\<close> down from the number of pointers; the first argument is \<open>x\<close>.\<close>

fun priority_get_loop :: "'w ops \<Rightarrow> nat \<Rightarrow> nat \<Rightarrow> int \<Rightarrow> int option" where
  "priority_get_loop s part 0 priority = Some 0"
| "priority_get_loop s part (Suc x) priority = do {
     v \<leftarrow> get_cpb_slot s x;
     if cpb_live v then do {
       p \<leftarrow> part_at (spt s) part;
       if v = p_offset p then Some (priority + 1) else priority_get_loop s part x (priority + 1)
     }
     else priority_get_loop s part x priority
   }"

definition priority_get :: "int \<Rightarrow> 'w ops \<Rightarrow> int option" where
  "priority_get part_num s =
     (if part_num < 0 \<or> uint (word_of_int part_num :: u32) \<ge> uint (partitions (spt s)) then Some (- EINVAL)
      else priority_get_loop s (nat part_num) (cpb_count s) 0)"

text \<open>The first pointer with a value, as the loops of the two operations look for it.\<close>

fun find_cpb_slot :: "'w ops \<Rightarrow> u64 \<Rightarrow> nat list \<Rightarrow> nat option option" where
  "find_cpb_slot s val [] = Some None"
| "find_cpb_slot s val (x # xs) = do {
     v \<leftarrow> get_cpb_slot s x;
     if v = val then Some (Some x) else find_cpb_slot s val xs
   }"

text \<open>The two loops of the compression: packing the pointers in use, erasing the rest.\<close>

function compress_loop :: "nat \<Rightarrow> nat \<Rightarrow> 'w ops \<Rightarrow> (nat \<times> 'w ops) option" where
  "compress_loop x y s =
     (if x < cpb_count s then do {
        v \<leftarrow> get_cpb_slot s x;
        if cpb_live v then do { s \<leftarrow> set_cpb_slot s y v; compress_loop (Suc x) (Suc y) s }
        else compress_loop (Suc x) y s
      }
      else Some (y, s))"
  by pat_completeness auto

termination
proof (relation "measure (\<lambda>(x, y, s). 2 ^ 32 - x)", goal_cases)
  case (2 x y s v s')
  then have "x < 2 ^ 32" using cpb_count_less [of s] by simp
  then show ?case by simp
next
  case (3 x y s v)
  then have "x < 2 ^ 32" using cpb_count_less [of s] by simp
  then show ?case by simp
qed simp

function erase_rest :: "nat \<Rightarrow> 'w ops \<Rightarrow> 'w ops option" where
  "erase_rest y s =
     (if y < cpb_count s then do { s \<leftarrow> set_cpb_slot s y ERASED_ENTRY; erase_rest (Suc y) s }
      else Some s)"
  by pat_completeness auto

termination
proof (relation "measure (\<lambda>(y, s). 2 ^ 32 - y)", goal_cases)
  case (2 y s s')
  then have "y < 2 ^ 32" using cpb_count_less [of s] by simp
  then show ?case by simp
qed simp

declare compress_loop.simps [simp del] erase_rest.simps [simp del]

definition priority_add :: "'w librsu_ll_intf \<Rightarrow> int \<Rightarrow> 'w ops \<Rightarrow> (int \<times> 'w ops) option" where
  "priority_add hal part_num s =
     (if bad_part part_num s then Some (- EINVAL, s)
      else do {
        p \<leftarrow> part_at (spt s) (nat part_num);
        x \<leftarrow> find_cpb_slot s ERASED_ENTRY [0..<cpb_count s];
        case x of
          Some x \<Rightarrow> do {
            (err, s) \<leftarrow> update_cpb hal (int x) (p_offset p) s;
            if err \<noteq> 0 then do { (_, s) \<leftarrow> load_cpb hal s; Some (err, s) } else load_cpb hal s
          }
        | None \<Rightarrow> do {
            (y, s) \<leftarrow> compress_loop 0 0 s;
            if y < cpb_count s then do {
              s \<leftarrow> set_cpb_slot s y (p_offset p);
              s \<leftarrow> erase_rest (Suc y) s;
              (err, s) \<leftarrow> writeback_cpb hal s;
              if err \<noteq> 0 then Some (err, s) else load_cpb hal s
            }
            else Some (- EFAULT, s)
          }
      })"

definition priority_remove :: "'w librsu_ll_intf \<Rightarrow> int \<Rightarrow> 'w ops \<Rightarrow> (int \<times> 'w ops) option" where
  "priority_remove hal part_num s =
     (if bad_part part_num s then Some (- EINVAL, s)
      else do {
        p \<leftarrow> part_at (spt s) (nat part_num);
        x \<leftarrow> find_cpb_slot s (p_offset p) [0..<cpb_count s];
        case x of
          Some x \<Rightarrow> do {
            (err, s) \<leftarrow> update_cpb hal (int x) SPENT_ENTRY s;
            if err \<noteq> 0 then do { (_, s) \<leftarrow> load_cpb hal s; Some (err, s) } else load_cpb hal s
          }
        | None \<Rightarrow> load_cpb hal s
      })"

section \<open>The empty block\<close>

definition empty_cpb_header :: "byte list" where
  "empty_cpb_header =
     le_bytes 4 CPB_MAGIC_NUMBER @ le_bytes 4 CPB_HEADER_SIZE @ le_bytes 4 (4096 :: u32) @ le_bytes 4 (0 :: u32) @
     le_bytes 4 CPB_IMAGE_PTR_OFFSET @ le_bytes 4 CPB_IMAGE_PTR_NSLOTS"

definition empty_cpb :: "'w librsu_ll_intf \<Rightarrow> 'w ops \<Rightarrow> (int \<times> 'w ops) option" where
  "empty_cpb hal s =
     (if spt_corrupted s then Some (- ECORRUPTED_CPB, s)
      else case rsu_malloc hal (world s) 24 of
        (None, w) \<Rightarrow> Some (- ENOMEM, s\<lparr>world := w\<rparr>)
      | (Some c_header, w) \<Rightarrow> do {
          let s = s\<lparr>world := w\<rparr>;
          let s = s\<lparr>cpb := overlay (replicate CPB_SIZE 0xFF) 0 empty_cpb_header\<rparr>;
          (ret, s) \<leftarrow> writeback_cpb hal s;
          if ret \<noteq> 0 then Some (ret, s)
          else Some (ret, (set_cpb_slots s)\<lparr>cpb_corrupted := False, cpb_fixed := True\<rparr>)
        })"

end
