(* ===== verification/Rsu_Priority.thy ===== *)
theory Rsu_Priority
  imports Rsu_Cpb
begin

text \<open>
  The priority list as a list of pointers. \<open>slots\<close> abstracts the block to the list of its pointers
  and \<open>with_slots\<close> puts a list back; under \<open>cpb_inv\<close> every access of the code to a pointer is an
  access to that list, so the loops of the code become list functions. The abstract value of the
  block is the list of the pointers in use, \<open>live\<close>, lowest priority first.
\<close>

section \<open>The block as a list\<close>

text \<open>The bound of 508 is the number of pointers a block of 4096 bytes has room for.\<close>

definition cpb_inv :: "('w, 'z) ops_scheme \<Rightarrow> bool" where
  "cpb_inv s \<longleftrightarrow> length (cpb s) = CPB_BLOCK_SIZE \<and> cpb_slots s = Some 32 \<and> cpb_count s \<le> 508"

definition slots_of_bytes :: "byte list \<Rightarrow> u64 list" where
  "slots_of_bytes b = map (\<lambda>i. u64_at b (32 + 8 * i)) [0..<unat (cpb_image_ptr_slots b)]"

definition slots :: "('w, 'z) ops_scheme \<Rightarrow> u64 list" where
  "slots s = slots_of_bytes (cpb s)"

definition live :: "('w, 'z) ops_scheme \<Rightarrow> u64 list" where
  "live s = filter cpb_live (slots s)"

definition with_slots :: "('w, 'z) ops_scheme \<Rightarrow> u64 list \<Rightarrow> ('w, 'z) ops_scheme" where
  "with_slots s vs = s\<lparr>cpb := overlay (cpb s) 32 (concat (map (le_bytes 8) vs))\<rparr>"

lemma length_slots [simp]: "length (slots s) = cpb_count s"
  by (simp add: slots_def slots_of_bytes_def cpb_count_def)

lemma slots_nth: "i < cpb_count s \<Longrightarrow> slots s ! i = u64_at (cpb s) (32 + 8 * i)"
  by (simp add: slots_def slots_of_bytes_def cpb_count_def)

lemma get_cpb_slot_nth:
  "cpb_inv s \<Longrightarrow> x < cpb_count s \<Longrightarrow> get_cpb_slot s x = Some (slots s ! x)"
  by (simp add: get_cpb_slot_def cpb_inv_def slots_nth)

lemma length_slot_bytes [simp]: "length (concat (map (le_bytes 8) (vs :: u64 list))) = 8 * length vs"
  by (rule length_concat_fixed) simp

lemma with_slots_fields [simp]:
  "cpb_slots (with_slots s vs) = cpb_slots s" "spt (with_slots s vs) = spt s"
  "world (with_slots (t :: 'w ops) vs) = world t" "mtd_part_offset (with_slots s vs) = mtd_part_offset s"
  "cpb0_part (with_slots s vs) = cpb0_part s" "cpb1_part (with_slots s vs) = cpb1_part s"
  "spt_addr (with_slots s vs) = spt_addr s" "spt_corrupted (with_slots s vs) = spt_corrupted s"
  by (simp_all add: with_slots_def)

lemma with_slots_header:
  assumes "length (cpb s) = CPB_BLOCK_SIZE" "length vs \<le> 508"
  shows "length (cpb (with_slots s vs)) = CPB_BLOCK_SIZE"
    "cpb_count (with_slots s vs) = cpb_count s"
    "cpb_magic_number (cpb (with_slots s vs)) = cpb_magic_number (cpb s)"
    "cpb_image_ptr_offset (cpb (with_slots s vs)) = cpb_image_ptr_offset (cpb s)"
    "cpb_image_ptr_slots (cpb (with_slots s vs)) = cpb_image_ptr_slots (cpb s)"
  using assms
  by (simp_all add: with_slots_def cpb_count_def cpb_image_ptr_slots_def cpb_magic_number_def
      cpb_image_ptr_offset_def u32_at_overlay_other)

lemma cpb_inv_with_slots:
  "cpb_inv s \<Longrightarrow> length vs = cpb_count s \<Longrightarrow> cpb_inv (with_slots s vs)"
  by (simp add: cpb_inv_def with_slots_header)

lemma u64_at_slot_bytes:
  assumes "i < length vs" shows "u64_at (concat (map (le_bytes 8) vs)) (8 * i) = (vs ! i :: u64)"
  using chunk_concat_fixed [of vs "le_bytes 8" 8 i] assms by (simp add: u64_at_def le_word_le_bytes)

lemma slots_with_slots:
  assumes "cpb_inv s" "length vs = cpb_count s"
  shows "slots (with_slots s vs) = vs"
proof (rule nth_equalityI)
  have c: "cpb_count (with_slots s vs) = cpb_count s" "cpb_count s \<le> 508" "length (cpb s) = 4096"
    using assms by (simp_all add: cpb_inv_def with_slots_header)
  show "length (slots (with_slots s vs)) = length vs" using c assms by simp
  fix i assume "i < length (slots (with_slots s vs))"
  then have i: "i < cpb_count s" using c by simp
  let ?b = "concat (map (le_bytes 8) vs)"
  have "chunk (overlay (cpb s) 32 ?b) (32 + 8 * i) 8 = chunk (chunk (overlay (cpb s) 32 ?b) 32 (8 * length vs)) (8 * i) 8"
    using i assms(2) by (simp add: chunk_chunk)
  also have "\<dots> = chunk ?b (8 * i) 8" using c assms(2) by (simp add: chunk_overlay_same)
  finally have "u64_at (cpb (with_slots s vs)) (32 + 8 * i) = u64_at ?b (8 * i)"
    by (simp add: with_slots_def u64_at_def)
  then show "slots (with_slots s vs) ! i = vs ! i"
    using i c assms(2) by (simp add: slots_nth u64_at_slot_bytes)
qed

lemma with_slots_slots:
  assumes "cpb_inv s" shows "with_slots s (slots s) = s"
proof -
  have c: "cpb_count s \<le> 508" "length (cpb s) = 4096" using assms by (simp_all add: cpb_inv_def)
  let ?r = "chunk (cpb s) 32 (8 * cpb_count s)"
  have "map (le_bytes 8) (slots s) = map (\<lambda>i. chunk ?r (8 * i) 8) [0..<cpb_count s]"
    using c by (auto intro!: nth_equalityI simp: slots_nth le_bytes_8_u64_at chunk_chunk)
  then have "concat (map (le_bytes 8) (slots s)) = ?r" using c by (simp add: concat_chunks)
  then show ?thesis using c by (simp add: with_slots_def overlay_chunk_same)
qed

lemma with_slots_with_slots:
  "cpb_inv s \<Longrightarrow> length vs = cpb_count s \<Longrightarrow> length us = cpb_count s \<Longrightarrow>
   with_slots (with_slots s vs) us = with_slots s us"
  by (simp add: with_slots_def cpb_inv_def overlay_overlay_same)

text \<open>Writing one pointer is an update of the list.\<close>

lemma set_cpb_slot_update:
  assumes "cpb_inv s" "x < cpb_count s"
  shows "set_cpb_slot s x v = Some (with_slots s ((slots s)[x := v]))"
proof -
  have c: "cpb_count s \<le> 508" "length (cpb s) = 4096" "cpb_slots s = Some 32"
    using assms by (simp_all add: cpb_inv_def)
  let ?s = "s\<lparr>cpb := overlay (cpb s) (32 + 8 * x) (le_bytes 8 v)\<rparr>"
  have cnt: "cpb_count ?s = cpb_count s"
    using c assms(2) by (simp add: cpb_count_def cpb_image_ptr_slots_def u32_at_overlay_other)
  have inv: "cpb_inv ?s" using c cnt assms(2) by (simp add: cpb_inv_def)
  have "slots ?s = (slots s)[x := v]"
  proof (rule nth_equalityI)
    fix i assume "i < length (slots ?s)"
    then have i: "i < cpb_count s" using cnt by simp
    show "slots ?s ! i = (slots s)[x := v] ! i"
    proof (cases "i = x")
      case True
      then show ?thesis using i c assms(2) cnt by (simp add: slots_nth u64_at_overlay_same)
    next
      case False
      then have "32 + 8 * i + 8 \<le> 32 + 8 * x \<or> 32 + 8 * x + 8 \<le> 32 + 8 * i" by linarith
      with False show ?thesis using i c assms(2) cnt by (simp add: slots_nth u64_at_overlay_other)
    qed
  qed (simp add: cnt)
  then have "with_slots ?s ((slots s)[x := v]) = ?s" using with_slots_slots [OF inv] by simp
  moreover have "with_slots ?s ((slots s)[x := v]) = with_slots s ((slots s)[x := v])"
  proof -
    let ?b = "concat (map (le_bytes 8) ((slots s)[x := v]))"
    have "overlay (overlay (cpb s) (32 + 8 * x) (le_bytes 8 v)) 32 ?b = overlay (cpb s) 32 ?b"
      using c assms(2) by (intro nth_equalityI) (auto simp: nth_overlay)
    then show ?thesis by (simp add: with_slots_def)
  qed
  ultimately show ?thesis using c assms(2) by (simp add: set_cpb_slot_def)
qed

section \<open>Reading a priority\<close>

text \<open>The position of a value in a list, from 1; 0 when it is not there.\<close>

fun pos_from :: "int \<Rightarrow> u64 \<Rightarrow> u64 list \<Rightarrow> int" where
  "pos_from k v [] = 0"
| "pos_from k v (x # xs) = (if x = v then k + 1 else pos_from (k + 1) v xs)"

lemma pos_from_bounds: "0 \<le> k \<Longrightarrow> pos_from k v xs \<noteq> 0 \<Longrightarrow> k < pos_from k v xs \<and> pos_from k v xs \<le> k + int (length xs)"
proof (induction xs arbitrary: k)
  case (Cons x xs)
  show ?case
  proof (cases "x = v")
    case False
    have "0 \<le> k + 1" "pos_from (k + 1) v xs \<noteq> 0" using Cons.prems False by simp_all
    from Cons.IH [OF this] False show ?thesis by simp
  qed simp
qed simp

lemma pos_from_0: "0 \<le> k \<Longrightarrow> pos_from k v xs = 0 \<longleftrightarrow> v \<notin> set xs"
  by (induction xs arbitrary: k) auto

lemma pos_from_nth:
  "0 \<le> k \<Longrightarrow> v \<in> set xs \<Longrightarrow> xs ! nat (pos_from k v xs - k - 1) = v"
proof (induction xs arbitrary: k)
  case (Cons x xs)
  show ?case
  proof (cases "x = v")
    case False
    with Cons.prems have "v \<in> set xs" by simp
    moreover then have "k + 1 < pos_from (k + 1) v xs"
      using pos_from_bounds [of "k + 1" v xs] pos_from_0 [of "k + 1" v xs] Cons.prems(1) by simp
    then have "nat (pos_from (k + 1) v xs - k - 1) = Suc (nat (pos_from (k + 1) v xs - (k + 1) - 1))" by simp
    ultimately show ?thesis using False Cons.IH [of "k + 1"] Cons.prems(1) by simp
  qed simp
qed simp

lemma priority_get_loop_pos:
  assumes "cpb_inv s" "x \<le> cpb_count s" "part_at (spt s) part = Some p"
  shows "priority_get_loop s part x k = Some (pos_from k (p_offset p) (rev (filter cpb_live (take x (slots s)))))"
  using assms(2)
proof (induction x arbitrary: k)
  case (Suc x)
  then show ?case
    using assms(1,3) by (simp add: get_cpb_slot_nth take_Suc_conv_app_nth)
qed simp

text \<open>The priority of a partition is its position from the end among the pointers in use.\<close>

lemma priority_get_pos:
  assumes "cpb_inv s" "wf_spt (spt s)" "0 \<le> p" "p < 127" "p < uint (partitions (spt s))"
  shows "priority_get p s = Some (pos_from 0 (p_offset (partition (spt s) ! nat p)) (rev (live s)))"
proof -
  have "part_at (spt s) (nat p) = Some (partition (spt s) ! nat p)"
    using assms by (simp add: part_at_def wf_spt_def)
  then show ?thesis
    using assms priority_get_loop_pos [OF assms(1), of "cpb_count s"]
    by (simp add: priority_get_def uint_of_int_small live_def)
qed

section \<open>Searching and compressing\<close>

lemma find_cpb_slot_find:
  assumes "cpb_inv s" "\<And>x. x \<in> set xs \<Longrightarrow> x < cpb_count s"
  shows "find_cpb_slot s v xs = Some (find (\<lambda>x. slots s ! x = v) xs)"
  using assms(2) by (induction xs) (auto simp: get_cpb_slot_nth [OF assms(1)])

lemma compress_loop_slots:
  assumes "cpb_inv s" "y \<le> x" "x \<le> cpb_count s"
  shows "compress_loop x y s =
    (let vs = filter cpb_live (drop x (slots s))
     in Some (y + length vs, with_slots s (take y (slots s) @ vs @ drop (y + length vs) (slots s))))"
  using assms
proof (induction "cpb_count s - x" arbitrary: x y s)
  case 0
  then show ?case by (subst compress_loop.simps) (simp add: with_slots_slots)
next
  case (Suc n)
  let ?xs = "slots s"
  have x: "x < cpb_count s" using Suc.hyps(2) by simp
  have d: "drop x ?xs = ?xs ! x # drop (Suc x) ?xs" using x by (simp add: Cons_nth_drop_Suc)
  show ?case
  proof (cases "cpb_live (?xs ! x)")
    case False
    then show ?thesis
      using Suc.hyps(1) [of s "Suc x" y] Suc.hyps(2) Suc.prems x
      by (subst compress_loop.simps) (simp add: get_cpb_slot_nth d Let_def)
  next
    case True
    let ?s = "with_slots s (?xs[y := ?xs ! x])"
    have y: "y < cpb_count s" using Suc.prems x by simp
    have inv: "cpb_inv ?s" using Suc.prems(1) by (intro cpb_inv_with_slots) simp_all
    have c: "cpb_count ?s = cpb_count s" using Suc.prems(1) by (simp add: with_slots_header cpb_inv_def)
    have sl: "slots ?s = ?xs[y := ?xs ! x]" using Suc.prems(1) by (simp add: slots_with_slots)
    have dr: "drop (Suc x) (slots ?s) = drop (Suc x) ?xs" using Suc.prems(2) by (simp add: sl drop_update_cancel)
    let ?vs = "filter cpb_live (drop (Suc x) ?xs)"
    have l: "Suc y + length ?vs \<le> cpb_count s"
      using length_filter_le [of cpb_live "drop (Suc x) ?xs"] Suc.prems(2) x by simp
    have tk: "take (Suc y) (slots ?s) = take y ?xs @ [?xs ! x]"
      using y by (simp add: sl take_Suc_conv_app_nth)
    have dr2: "drop (Suc (y + k)) (slots ?s) = drop (Suc (y + k)) ?xs" for k by (simp add: sl drop_update_cancel)
    have "compress_loop (Suc x) (Suc y) ?s = Some (Suc y + length ?vs,
        with_slots ?s (take (Suc y) (slots ?s) @ ?vs @ drop (Suc y + length ?vs) (slots ?s)))"
      using Suc.hyps(1) [of ?s "Suc x" "Suc y"] Suc.hyps(2) inv c Suc.prems(2) x dr by (simp add: Let_def)
    also have "\<dots> = Some (y + length (?xs ! x # ?vs),
        with_slots s (take y ?xs @ (?xs ! x # ?vs) @ drop (y + length (?xs ! x # ?vs)) ?xs))"
      using Suc.prems(1) l y by (simp add: tk dr2 with_slots_with_slots)
    finally show ?thesis
      using True Suc.prems(1) x y
      by (subst compress_loop.simps) (simp add: get_cpb_slot_nth set_cpb_slot_update d Let_def)
  qed
qed

lemma erase_rest_slots:
  assumes "cpb_inv s" "y \<le> cpb_count s"
  shows "erase_rest y s = Some (with_slots s (take y (slots s) @ replicate (cpb_count s - y) ERASED_ENTRY))"
  using assms
proof (induction "cpb_count s - y" arbitrary: y s)
  case 0
  then show ?case by (subst erase_rest.simps) (simp add: with_slots_slots)
next
  case (Suc n)
  let ?s = "with_slots s ((slots s)[y := ERASED_ENTRY])"
  have y: "y < cpb_count s" using Suc.hyps(2) by simp
  have inv: "cpb_inv ?s" using Suc.prems(1) by (intro cpb_inv_with_slots) simp_all
  have c: "cpb_count ?s = cpb_count s" using Suc.prems(1) by (simp add: with_slots_header cpb_inv_def)
  have sl: "slots ?s = (slots s)[y := ERASED_ENTRY]" using Suc.prems(1) by (simp add: slots_with_slots)
  have r: "replicate (cpb_count s - y) ERASED_ENTRY = ERASED_ENTRY # replicate (cpb_count s - Suc y) ERASED_ENTRY"
    using y by (simp add: Suc_diff_Suc flip: replicate_Suc)
  have "erase_rest (Suc y) ?s =
      Some (with_slots ?s (take (Suc y) (slots ?s) @ replicate (cpb_count ?s - Suc y) ERASED_ENTRY))"
    using Suc.hyps(1) [of ?s "Suc y"] Suc.hyps(2) inv c y by simp
  also have "\<dots> = Some (with_slots s (take y (slots s) @ replicate (cpb_count s - y) ERASED_ENTRY))"
    using Suc.prems(1) y c by (simp add: sl take_Suc_conv_app_nth with_slots_with_slots r)
  finally show ?case
    using y Suc.prems(1) by (subst erase_rest.simps) (simp add: set_cpb_slot_update)
qed

section \<open>The updates of the list\<close>

text \<open>
  What adding a pointer makes of the list: the first erased pointer takes it, or the pointers in
  use are packed and it follows them.
\<close>

definition add_slot :: "u64 \<Rightarrow> u64 list \<Rightarrow> u64 list option" where
  "add_slot off vs =
     (case find (\<lambda>x. vs ! x = ERASED_ENTRY) [0..<length vs] of
        Some x \<Rightarrow> Some (vs[x := off])
      | None \<Rightarrow>
          (let us = filter cpb_live vs
           in if length us < length vs
              then Some (us @ off # replicate (length vs - length us - 1) ERASED_ENTRY) else None))"

definition remove_slot :: "u64 \<Rightarrow> u64 list \<Rightarrow> u64 list" where
  "remove_slot off vs =
     (case find (\<lambda>x. vs ! x = off) [0..<length vs] of Some x \<Rightarrow> vs[x := SPENT_ENTRY] | None \<Rightarrow> vs)"

text \<open>Pointers are used in order: behind an erased one all are erased.\<close>

definition packed :: "u64 list \<Rightarrow> bool" where
  "packed vs \<longleftrightarrow> (\<forall>i j. i \<le> j \<longrightarrow> j < length vs \<longrightarrow> vs ! i = ERASED_ENTRY \<longrightarrow> vs ! j = ERASED_ENTRY)"

lemma find_upt_SomeD:
  assumes "find P [0..<n] = Some x" shows "x < n \<and> P x \<and> (\<forall>y < x. \<not> P y)"
proof -
  obtain i where i: "i < length [0..<n]" "P ([0..<n] ! i)" "x = [0..<n] ! i" "\<forall>j < i. \<not> P ([0..<n] ! j)"
    using assms by (auto simp: find_Some_iff)
  then have "x = i" by simp
  with i show ?thesis by auto
qed

lemma filter_list_update_split:
  "x < length vs \<Longrightarrow> filter P (vs[x := v]) = filter P (take x vs) @ (if P v then [v] else []) @ filter P (drop (Suc x) vs)"
  by (simp add: upd_conv_take_nth_drop)

lemma packed_drop_erased:
  assumes "packed vs" "x < length vs" "vs ! x = ERASED_ENTRY"
  shows "filter cpb_live (drop (Suc x) vs) = []" "filter cpb_live vs = filter cpb_live (take x vs)"
proof -
  have "v = ERASED_ENTRY" if "v \<in> set (drop x vs)" for v
  proof -
    from that obtain i where "i < length (drop x vs)" "drop x vs ! i = v" by (auto simp: in_set_conv_nth)
    then show ?thesis using assms(2,3) assms(1) [unfolded packed_def, rule_format, of x "x + i"] by auto
  qed
  then have d: "filter cpb_live (drop x vs) = []" by (auto simp: cpb_live_def filter_empty_conv)
  then show "filter cpb_live (drop (Suc x) vs) = []"
    using assms(2) by (simp flip: Cons_nth_drop_Suc split: if_splits)
  show "filter cpb_live vs = filter cpb_live (take x vs)"
    by (subst append_take_drop_id [of x vs, symmetric], subst filter_append, simp only: d append_Nil2)
qed

text \<open>Adding makes the new pointer the last in use, so of the highest priority, and keeps the order.\<close>

lemma add_slot_live:
  assumes "add_slot off vs = Some us" "packed vs" "cpb_live off"
  shows "filter cpb_live us = filter cpb_live vs @ [off]" "length us = length vs"
proof -
  show "length us = length vs"
    using assms(1) by (auto simp: add_slot_def Let_def split: option.splits if_splits)
  show "filter cpb_live us = filter cpb_live vs @ [off]"
  proof (cases "find (\<lambda>x. vs ! x = ERASED_ENTRY) [0..<length vs]")
    case None
    have "filter cpb_live (replicate k ERASED_ENTRY) = []" for k by (simp add: cpb_live_def)
    with None assms(1,3) show ?thesis by (auto simp: add_slot_def Let_def split: if_splits)
  next
    case (Some x)
    then have x: "x < length vs" "vs ! x = ERASED_ENTRY" using find_upt_SomeD [OF Some] by auto
    from Some assms(1) have "us = vs[x := off]" by (simp add: add_slot_def)
    then show ?thesis
      using x assms(3) packed_drop_erased [OF assms(2) x] by (simp add: filter_list_update_split)
  qed
qed

lemma add_slot_packed:
  assumes "add_slot off vs = Some us" "packed vs" "off \<noteq> ERASED_ENTRY"
  shows "packed us"
proof (cases "find (\<lambda>x. vs ! x = ERASED_ENTRY) [0..<length vs]")
  case None
  let ?l = "filter cpb_live vs"
  from None assms(1) have us: "us = ?l @ off # replicate (length vs - length ?l - 1) ERASED_ENTRY"
    by (simp add: add_slot_def Let_def split: if_splits)
  have "?l ! i \<noteq> ERASED_ENTRY" if "i < length ?l" for i
    using nth_mem [OF that] by (auto simp: cpb_live_def)
  then show ?thesis using assms(3) by (auto simp: packed_def us nth_append nth_Cons split: nat.splits if_splits)
next
  case (Some x)
  have x: "x < length vs" "vs ! x = ERASED_ENTRY" "\<forall>y < x. vs ! y \<noteq> ERASED_ENTRY" using find_upt_SomeD [OF Some] by auto
  from Some assms(1) have us: "us = vs[x := off]" by (simp add: add_slot_def)
  show ?thesis unfolding packed_def us
  proof (intro allI impI)
    fix i j assume ij: "i \<le> j" "j < length (vs[x := off])" "vs[x := off] ! i = ERASED_ENTRY"
    have "i \<noteq> x" using ij(3) x(1) assms(3) by auto
    moreover have "\<not> i < x" using ij(3) x(3) by auto
    ultimately have "x < i" by simp
    then show "vs[x := off] ! j = ERASED_ENTRY" using ij assms(2) by (auto simp: packed_def)
  qed
qed

text \<open>Removing a pointer takes its first occurrence out of the list.\<close>

lemma remove_slot_live:
  assumes "cpb_live off"
  shows "filter cpb_live (remove_slot off vs) = remove1 off (filter cpb_live vs)" "length (remove_slot off vs) = length vs"
proof -
  show "length (remove_slot off vs) = length vs" by (simp add: remove_slot_def split: option.splits)
  show "filter cpb_live (remove_slot off vs) = remove1 off (filter cpb_live vs)"
  proof (cases "find (\<lambda>x. vs ! x = off) [0..<length vs]")
    case None
    then have "off \<notin> set vs" by (auto simp: find_None_iff in_set_conv_nth)
    with None show ?thesis by (simp add: remove_slot_def remove1_idem)
  next
    case (Some x)
    have x: "x < length vs" "vs ! x = off" "\<forall>y < x. vs ! y \<noteq> off" using find_upt_SomeD [OF Some] by auto
    have n: "off \<notin> set (take x vs)" using x(3) by (auto simp: in_set_conv_nth)
    have "filter cpb_live vs = filter cpb_live (take x vs) @ off # filter cpb_live (drop (Suc x) vs)"
      using x(1,2) assms by (subst id_take_nth_drop [OF x(1)]) simp
    then have "remove1 off (filter cpb_live vs) = filter cpb_live (take x vs) @ filter cpb_live (drop (Suc x) vs)"
      using n by (simp add: remove1_append)
    then show ?thesis using Some x(1) by (simp add: remove_slot_def filter_list_update_split cpb_live_def)
  qed
qed

lemma remove_slot_packed:
  assumes "packed vs" "off \<noteq> ERASED_ENTRY" shows "packed (remove_slot off vs)"
proof (cases "find (\<lambda>x. vs ! x = off) [0..<length vs]")
  case None
  then show ?thesis using assms by (simp add: remove_slot_def)
next
  case (Some x)
  have x: "x < length vs" "vs ! x = off" using find_upt_SomeD [OF Some] by auto
  then show ?thesis
    using Some assms by (auto simp: remove_slot_def packed_def nth_list_update)
qed

section \<open>The operations over the list\<close>

lemma bad_part_small:
  assumes "\<not> bad_part p s" "p < 2 ^ 31"
  shows "0 \<le> p" "p < 127" "p < uint (partitions (spt s))"
proof -
  show p: "0 \<le> p" "p < uint (partitions (spt s))" using assms by (auto simp: bad_part_def uint_of_int_small)
  have "unat (partitions (spt s)) \<le> 127" using assms(1) by (simp add: bad_part_def)
  then show "p < 127" using p(2) uint_nat [of "partitions (spt s)"] by linarith
qed

lemma priority_add_list:
  assumes inv: "cpb_inv s" and wf: "wf_spt (spt s)" and p: "\<not> bad_part p s" "p < 2 ^ 31"
  defines "off \<equiv> p_offset (partition (spt s) ! nat p)"
  shows "priority_add hal p s =
    (case find (\<lambda>x. slots s ! x = ERASED_ENTRY) [0..<cpb_count s] of
       Some x \<Rightarrow> do {
         (err, t) \<leftarrow> update_cpb hal (int x) off s;
         if err \<noteq> 0 then do { (_, t) \<leftarrow> load_cpb hal t; Some (err, t) } else load_cpb hal t
       }
     | None \<Rightarrow>
         if length (live s) < cpb_count s then do {
           (err, t) \<leftarrow> writeback_cpb hal
             (with_slots s (live s @ off # replicate (cpb_count s - length (live s) - 1) ERASED_ENTRY));
           if err \<noteq> 0 then Some (err, t) else load_cpb hal t
         }
         else Some (- EFAULT, with_slots s (live s @ drop (length (live s)) (slots s))))"
proof -
  have c: "length (cpb s) = CPB_BLOCK_SIZE" "cpb_count s \<le> 508" using inv by (simp_all add: cpb_inv_def)
  have pa: "part_at (spt s) (nat p) = Some (partition (spt s) ! nat p)"
    using bad_part_small [OF p] wf by (simp add: part_at_def wf_spt_def)
  have fs: "find_cpb_slot s ERASED_ENTRY [0..<cpb_count s] = Some (find (\<lambda>x. slots s ! x = ERASED_ENTRY) [0..<cpb_count s])"
    by (rule find_cpb_slot_find [OF inv]) simp
  let ?l = "live s"
  have ll: "length ?l \<le> cpb_count s" using length_filter_le [of cpb_live "slots s"] by (simp add: live_def)
  let ?s1 = "with_slots s (?l @ drop (length ?l) (slots s))"
  have comp: "compress_loop 0 0 s = Some (length ?l, ?s1)"
    using compress_loop_slots [OF inv, of 0 0] by (simp add: live_def Let_def)
  have l1: "length (?l @ drop (length ?l) (slots s)) = cpb_count s" using ll by simp
  have inv1: "cpb_inv ?s1" "cpb_count ?s1 = cpb_count s" "slots ?s1 = ?l @ drop (length ?l) (slots s)"
    using inv l1 c by (simp_all add: cpb_inv_with_slots with_slots_header slots_with_slots)
  have rest: "\<exists>s2. set_cpb_slot ?s1 (length ?l) off = Some s2 \<and> erase_rest (Suc (length ?l)) s2 =
      Some (with_slots s (?l @ off # replicate (cpb_count s - length ?l - 1) ERASED_ENTRY))"
    if lt: "length ?l < cpb_count s"
  proof -
    let ?us = "?l @ off # drop (Suc (length ?l)) (slots s)"
    have up: "(slots ?s1)[length ?l := off] = ?us"
      unfolding inv1(3) using lt by (simp add: list_update_append Cons_nth_drop_Suc [symmetric])
    have lu: "length ?us = cpb_count s" using lt by simp
    have "set_cpb_slot ?s1 (length ?l) off = Some (with_slots s ?us)"
      using set_cpb_slot_update [OF inv1(1), of "length ?l" off] lt inv1(2) up inv l1
      by (simp add: with_slots_with_slots)
    moreover have inv2: "cpb_inv (with_slots s ?us)" "cpb_count (with_slots s ?us) = cpb_count s" "slots (with_slots s ?us) = ?us"
      using inv lu c by (simp_all add: cpb_inv_with_slots with_slots_header slots_with_slots)
    ultimately show ?thesis
      using erase_rest_slots [OF inv2(1), of "Suc (length ?l)"] lt inv lu by (simp add: with_slots_with_slots)
  qed
  show ?thesis
    using p(1) pa fs comp inv1(2) rest unfolding off_def by (auto simp: priority_add_def split: option.split)
qed

lemma priority_remove_list:
  assumes inv: "cpb_inv s" and wf: "wf_spt (spt s)" and p: "\<not> bad_part p s" "p < 2 ^ 31"
  defines "off \<equiv> p_offset (partition (spt s) ! nat p)"
  shows "priority_remove hal p s =
    (case find (\<lambda>x. slots s ! x = off) [0..<cpb_count s] of
       Some x \<Rightarrow> do {
         (err, t) \<leftarrow> update_cpb hal (int x) SPENT_ENTRY s;
         if err \<noteq> 0 then do { (_, t) \<leftarrow> load_cpb hal t; Some (err, t) } else load_cpb hal t
       }
     | None \<Rightarrow> load_cpb hal s)"
proof -
  have pa: "part_at (spt s) (nat p) = Some (partition (spt s) ! nat p)"
    using bad_part_small [OF p] wf by (simp add: part_at_def wf_spt_def)
  have fs: "find_cpb_slot s off [0..<cpb_count s] = Some (find (\<lambda>x. slots s ! x = off) [0..<cpb_count s])"
    by (rule find_cpb_slot_find [OF inv]) simp
  show ?thesis using p(1) pa fs unfolding off_def by (simp add: priority_remove_def)
qed

end
