(* ===== verification/Rsu_Cpb_Load.thy ===== *)
theory Rsu_Cpb_Load
  imports Rsu_Priority Rsu_Spt_Check
begin

text \<open>
  What \<^const>\<open>load_cpb\<close> and the writers of the block do to the flash. \<open>cpb_valid\<close> specifies a good
  copy; after a successful load the block in memory and both copies in flash agree.
\<close>

section \<open>Valid copies\<close>

definition cpb_valid :: "SUB_PARTITION_TABLE \<Rightarrow> byte list \<Rightarrow> bool" where
  "cpb_valid t b \<longleftrightarrow> cpb_magic_number b = CPB_MAGIC_NUMBER \<and> cpb_image_ptr_offset b = CPB_IMAGE_PTR_OFFSET \<and>
     unat (cpb_image_ptr_slots b) \<le> 508 \<and>
     (\<forall>v \<in> set (slots_of_bytes b). cpb_live v \<longrightarrow> check_cpb_entry t v = 0)"

definition cpb_parts :: "SUB_PARTITION_TABLE \<Rightarrow> nat list" where
  "cpb_parts t = filter (is_cpb_part t) [0..<unat (partitions t)]"

definition part_copy :: "('w \<Rightarrow> int \<Rightarrow> byte) \<Rightarrow> 'w ops \<Rightarrow> nat \<Rightarrow> byte list" where
  "part_copy mem s x = region (mem (world s)) (part_addr s x) CPB_SIZE"

text \<open>The block in memory is what both copies in flash hold.\<close>

definition cpb_synced :: "('w \<Rightarrow> int \<Rightarrow> byte) \<Rightarrow> 'w ops \<Rightarrow> bool" where
  "cpb_synced mem s \<longleftrightarrow> (\<forall>x \<in> set (cpb_parts (spt s)). part_copy mem s x = cpb s)"

text \<open>What a loaded partition table guarantees of the two partitions.\<close>

definition cpb_layout :: "'w ops \<Rightarrow> bool" where
  "cpb_layout s \<longleftrightarrow> wf_spt (spt s) \<and> spt_ok (spt s) \<and>
     (\<forall>x \<in> set (cpb_parts (spt s)). int CPB_SIZE \<le> part_len s x \<and> part_len s x < 2 ^ 31) \<and> ranges_disjoint s (set (cpb_parts (spt s)))"

section \<open>Checking\<close>

lemma check_cpb_loop_0:
  "check_cpb_loop s xs = Some 0 \<Longrightarrow> x \<in> set xs \<Longrightarrow>
   \<exists>v. get_cpb_slot s x = Some v \<and> (cpb_live v \<longrightarrow> check_cpb_entry (spt s) v = 0)"
  by (induction xs) (auto simp: Option.bind_eq_Some_conv Let_def split: if_splits)

lemma check_cpb_0:
  assumes "check_cpb s = Some 0" "length (cpb s) = CPB_BLOCK_SIZE" "cpb_slots s = Some 32"
  shows "cpb_inv s" "\<forall>v \<in> set (slots s). cpb_live v \<longrightarrow> check_cpb_entry (spt s) v = 0"
proof -
  have g: "\<exists>v. get_cpb_slot s x = Some v \<and> (cpb_live v \<longrightarrow> check_cpb_entry (spt s) v = 0)" if "x < cpb_count s" for x
    using check_cpb_loop_0 [OF assms(1) [unfolded check_cpb_def]] that by simp
  have "cpb_count s \<le> 508"
  proof (rule ccontr)
    assume "\<not> ?thesis"
    then have "508 < cpb_count s" by simp
    from g [OF this] assms(2,3) show False by (auto simp: get_cpb_slot_def)
  qed
  then show inv: "cpb_inv s" using assms(2,3) by (simp add: cpb_inv_def)
  show "\<forall>v \<in> set (slots s). cpb_live v \<longrightarrow> check_cpb_entry (spt s) v = 0"
    using g get_cpb_slot_nth [OF inv] by (fastforce simp: in_set_conv_nth)
qed

lemma check_cpb_total:
  assumes "cpb_inv s"
  shows "\<exists>r. check_cpb s = Some r \<and> (r = 0 \<longleftrightarrow> (\<forall>v \<in> set (slots s). cpb_live v \<longrightarrow> check_cpb_entry (spt s) v = 0))"
proof -
  have "\<exists>r. check_cpb_loop s xs = Some r \<and> (r = 0 \<longleftrightarrow>
      (\<forall>x \<in> set xs. cpb_live (slots s ! x) \<longrightarrow> check_cpb_entry (spt s) (slots s ! x) = 0))"
    if "\<And>x. x \<in> set xs \<Longrightarrow> x < cpb_count s" for xs
    using that
  proof (induction xs)
    case (Cons x xs)
    then have "get_cpb_slot s x = Some (slots s ! x)" using assms by (simp add: get_cpb_slot_nth)
    with Cons show ?case by (auto simp: Let_def)
  qed simp
  from this [of "[0..<cpb_count s]"] show ?thesis by (auto simp: check_cpb_def all_set_conv_all_nth)
qed

section \<open>The two partitions\<close>

lemma name_is_same: "name_is p nm \<Longrightarrow> name_is q nm \<Longrightarrow> same_name p q"
  by (simp add: name_is_iff same_name_def strncmp_eq_0_iff)

lemma spt_ok_unique:
  assumes "spt_ok t" "x < unat (partitions t)" "y < unat (partitions t)"
    "name_is (partition t ! x) nm" "name_is (partition t ! y) nm"
  shows "x = y"
  using assms name_is_same [OF assms(4,5)] unfolding spt_ok_def by blast

lemma cpb_parts_two:
  assumes "spt_ok t" "x < unat (partitions t)" "y < unat (partitions t)"
    "name_is (partition t ! x) ''CPB0''" "name_is (partition t ! y) ''CPB1''"
  shows "set (cpb_parts t) = {x, y}" "x \<noteq> y"
proof -
  show "x \<noteq> y" using assms(4,5) critical_names_distinct(6) by blast
  show "set (cpb_parts t) = {x, y}"
    using assms spt_ok_unique [OF assms(1)] by (auto simp: cpb_parts_def is_cpb_part_def)
qed

text \<open>The search leaves each index unset or at a partition of the right name.\<close>

definition found_part :: "SUB_PARTITION_TABLE \<Rightarrow> string \<Rightarrow> u32 \<Rightarrow> bool" where
  "found_part t nm w \<longleftrightarrow> w = - 1 \<or> unat w < unat (partitions t) \<and> name_is (partition t ! unat w) nm"

lemma find_cpb_parts_spec:
  assumes "found_part (spt s) ''CPB0'' (cpb0_part s)" "found_part (spt s) ''CPB1'' (cpb1_part s)"
    "\<And>x. x \<in> set xs \<Longrightarrow> x < unat (partitions (spt s))"
  shows "\<exists>a b. find_cpb_parts s xs = s\<lparr>cpb0_part := a, cpb1_part := b\<rparr> \<and>
    found_part (spt s) ''CPB0'' a \<and> found_part (spt s) ''CPB1'' b"
  using assms
proof (induction xs arbitrary: s)
  case Nil
  then show ?case by (intro exI [of _ "cpb0_part s"] exI [of _ "cpb1_part s"]) simp
next
  case (Cons x xs)
  define s1 where "s1 = (if name_is (partition (spt s) ! x) ''CPB0'' then s\<lparr>cpb0_part := word_of_nat x\<rparr>
    else if name_is (partition (spt s) ! x) ''CPB1'' then s\<lparr>cpb1_part := word_of_nat x\<rparr> else s)"
  have run: "find_cpb_parts s (x # xs) =
      (if cpb0_part s1 < partitions (spt s1) \<and> cpb1_part s1 < partitions (spt s1) then s1 else find_cpb_parts s1 xs)"
    by (simp only: find_cpb_parts.simps Let_def s1_def)
  have "x < 2 ^ 32"
    using Cons.prems(3) [of x] unsigned_less [of "partitions (spt s)", where 'a = nat] by simp
  then have u: "unat (word_of_nat x :: u32) = x" by (simp add: unat_of_nat take_bit_nat_eq_self)
  have f: "found_part (spt s1) ''CPB0'' (cpb0_part s1)" "found_part (spt s1) ''CPB1'' (cpb1_part s1)"
    "spt s1 = spt s"
    using Cons.prems u by (auto simp: found_part_def s1_def)
  have e: "s1\<lparr>cpb0_part := a, cpb1_part := b\<rparr> = s\<lparr>cpb0_part := a, cpb1_part := b\<rparr>" for a b
    by (simp add: s1_def)
  show ?case
  proof (cases "cpb0_part s1 < partitions (spt s1) \<and> cpb1_part s1 < partitions (spt s1)")
    case True
    then show ?thesis unfolding run using f e [of "cpb1_part s1" "cpb0_part s1"]
      by - (rule exI [of _ "cpb0_part s1"], rule exI [of _ "cpb1_part s1"], simp)
  next
    case False
    obtain a b where "find_cpb_parts s1 xs = s1\<lparr>cpb0_part := a, cpb1_part := b\<rparr>"
      "found_part (spt s) ''CPB0'' a" "found_part (spt s) ''CPB1'' b"
      using Cons.IH [OF f(1,2)] Cons.prems(3) f(3) by auto
    then show ?thesis using False unfolding run e by auto
  qed
qed

lemma found_part_small:
  assumes "found_part t nm w" "unat (partitions t) \<le> 127" "\<not> w > partitions t"
  shows "unat w < unat (partitions t)" "name_is (partition t ! unat w) nm" "sint w = int (unat w)"
proof -
  have "w \<noteq> - 1"
  proof
    assume "w = - 1"
    then have "partitions t = - 1" using assms(3) by (simp add: not_less word_order.extremum_unique)
    with assms(2) show False by (simp add: unsigned_minus_1_eq_mask mask_eq_exp_minus_1)
  qed
  with assms(1) show x: "unat w < unat (partitions t)" "name_is (partition t ! unat w) nm"
    by (auto simp: found_part_def)
  have "unat w < 2 ^ 31" using x(1) assms(2) by simp
  then have "sint w = uint w" by (rule sint_eq_uint)
  then show "sint w = int (unat w)" by simp
qed

section \<open>Loading\<close>

lemma nat_sint: "sint (w :: 32 word) = int (unat w) \<Longrightarrow> nat (sint w) = unat w"
  by simp

lemma set_cpb_magic_take:
  "4 \<le> length b \<Longrightarrow> take 4 (set_cpb_magic_number b m) = le_bytes 4 m"
  by (simp add: set_cpb_magic_number_def overlay_def)

lemma set_cpb_magic_same:
  "4 \<le> length b \<Longrightarrow> cpb_magic_number b = m \<Longrightarrow> set_cpb_magic_number b m = b"
  using overlay_chunk_same [of 0 4 b] le_bytes_4_u32_at [of 0 b]
  by (auto simp: set_cpb_magic_number_def cpb_magic_number_def)

lemma set_cpb_magic_twice:
  "4 \<le> length b \<Longrightarrow> set_cpb_magic_number (set_cpb_magic_number b m) n = set_cpb_magic_number b n"
  by (simp add: set_cpb_magic_number_def overlay_overlay_same)

lemma length_set_cpb_magic [simp]: "4 \<le> length b \<Longrightarrow> length (set_cpb_magic_number b m) = length b"
  by (simp add: set_cpb_magic_number_def)

text \<open>What \<^const>\<open>load_cpb\<close> does once it knows which copies are good.\<close>

definition load_cpb_decide :: "'w librsu_ll_intf \<Rightarrow> bool \<Rightarrow> bool \<Rightarrow> 'w ops \<Rightarrow> (int \<times> 'w ops) option" where
  "load_cpb_decide hal cpb0_good cpb1_good s =
     (if cpb0_good \<and> cpb1_good then do {
        (ret, s) \<leftarrow> check_both_cpb hal s;
        if ret \<noteq> 0 then Some (- EBADF, s\<lparr>cpb_corrupted := True\<rparr>) else Some (0, set_cpb_slots s)
      }
      else if cpb0_good then restore_cpb hal (cpb1_part s) s
      else if cpb1_good then do {
        (ret, s) \<leftarrow> read_cpb hal (cpb1_part s) s;
        if ret \<noteq> 0 \<or> cpb_magic_number (cpb s) \<noteq> CPB_MAGIC_NUMBER \<or>
           cpb_image_ptr_offset (cpb s) \<noteq> CPB_IMAGE_PTR_OFFSET
        then Some (- EACCES, s)
        else restore_cpb hal (cpb0_part s) s
      }
      else Some (- ECORRUPTED_CPB, s\<lparr>cpb_corrupted := True\<rparr>))"

context nor_flash begin

lemma read_cpb_spec:
  assumes "read_cpb hal part s = Some (r, s')" "length (cpb s) = CPB_SIZE" "sint part = int x"
  obtains w' c where "s' = s\<lparr>cpb := c, world := w'\<rparr>" "mem w' = mem (world s)" "length c = CPB_SIZE"
    "r = 0 \<Longrightarrow> c = part_copy mem s x \<and> int CPB_SIZE \<le> part_len s x"
proof -
  obtain d s1 where rp: "read_part hal (int x) 0 (Some (cpb s)) (int CPB_BLOCK_SIZE) s = Some (r, d, s1)"
    and s': "s' = s1\<lparr>cpb := d\<rparr>"
    using assms(1,3) by (auto simp: read_cpb_def Option.bind_eq_Some_conv)
  have n: "int CPB_BLOCK_SIZE < 2 ^ 31" by simp
  from rp n obtain w' where w: "s1 = s\<lparr>world := w'\<rparr>" "mem w' = mem (world s)" "length d = length (cpb s)"
    and d: "r = 0 \<Longrightarrow> 0 \<le> int x \<and> (0 :: int) \<le> 0 \<and> 0 < int CPB_BLOCK_SIZE \<and>
       nat (int CPB_BLOCK_SIZE) \<le> length (cpb s) \<and> 0 + int CPB_BLOCK_SIZE \<le> part_len s (nat (int x)) \<and>
       d = region (mem (world s)) (part_addr s (nat (int x)) + 0) (nat (int CPB_BLOCK_SIZE)) @
         drop (nat (int CPB_BLOCK_SIZE)) (cpb s)"
    by (rule read_part_spec) blast
  show thesis by (rule that [of w' d]) (use w d s' assms(2) in \<open>auto simp: part_copy_def\<close>)
qed

lemma cpb_good_spec:
  assumes "cpb_good hal part s = Some (g, s')" "length (cpb s) = CPB_SIZE" "sint part = int x"
  obtains w' c p where "s' = s\<lparr>cpb := c, cpb_slots := p, world := w'\<rparr>" "mem w' = mem (world s)"
    "length c = CPB_SIZE" "g \<Longrightarrow> c = part_copy mem s x \<and> cpb_valid (spt s) c \<and> p = Some 32"
proof -
  obtain r s1 where rd: "read_cpb hal part s = Some (r, s1)"
    using assms(1) by (auto simp: cpb_good_def Option.bind_eq_Some_conv)
  from rd assms(2,3) obtain w1 c where s1: "s1 = s\<lparr>cpb := c, world := w1\<rparr>" "mem w1 = mem (world s)"
    "length c = CPB_SIZE" and c: "r = 0 \<Longrightarrow> c = part_copy mem s x \<and> int CPB_SIZE \<le> part_len s x"
    by (rule read_cpb_spec) blast
  let ?ok = "r = 0 \<and> cpb_magic_number (cpb s1) = CPB_MAGIC_NUMBER \<and> cpb_image_ptr_offset (cpb s1) = CPB_IMAGE_PTR_OFFSET"
  show thesis
  proof (cases ?ok)
    case False
    with assms(1) rd have "\<not> g" "s' = s1" by (auto simp: cpb_good_def)
    with s1 show thesis by (intro that [of w1 "cpb_slots s" c]) auto
  next
    case True
    let ?s2 = "s1\<lparr>cpb_slots := Some 32\<rparr>"
    obtain q where q: "check_cpb ?s2 = Some q" and s': "g \<longleftrightarrow> q = 0" "s' = ?s2"
      using assms(1) rd True by (auto simp: cpb_good_def Let_def Option.bind_eq_Some_conv)
    have "cpb_valid (spt s) c" if g
    proof -
      have q0: "check_cpb ?s2 = Some 0" using q s'(1) that by simp
      have "length (cpb ?s2) = CPB_BLOCK_SIZE" "cpb_slots ?s2 = Some 32" using s1 by simp_all
      from check_cpb_0 [OF q0 this] show ?thesis
        using True s1 by (simp add: cpb_valid_def cpb_inv_def cpb_count_def slots_def)
    qed
    then show thesis using s' s1 c True by (intro that [of w1 "Some 32" c]) auto
  qed
qed

lemma check_both_cpb_spec:
  assumes "check_both_cpb hal s = Some (r, s')" "sint (cpb0_part s) = int x0" "sint (cpb1_part s) = int x1"
  obtains w' where "s' = s\<lparr>world := w'\<rparr>" "mem w' = mem (world s)"
    "r = 0 \<Longrightarrow> part_copy mem s x0 = part_copy mem s x1"
proof -
  obtain p0 w0 where m0: "rsu_malloc hal (world s) CPB_SIZE = (p0, w0)" by (metis surj_pair)
  obtain p1 w1 where m1: "rsu_malloc hal w0 CPB_SIZE = (p1, w1)" by (metis surj_pair)
  have mm: "mem w0 = mem (world s)" "mem w1 = mem (world s)" using malloc_mem [OF m0] malloc_mem [OF m1] by simp_all
  consider (none) "p0 = None" | (none1) b0 where "p0 = Some b0" "p1 = None"
    | (some) b0 b1 where "p0 = Some b0" "p1 = Some b1" by (cases p0; cases p1) auto
  then show thesis
  proof cases
    case none
    with assms(1) m0 mm show thesis by (intro that [of w0]) (auto simp: check_both_cpb_def)
  next
    case none1
    with assms(1) m0 m1 mm show thesis by (intro that [of w1]) (auto simp: check_both_cpb_def)
  next
    case some
    have l: "length b0 = CPB_SIZE" "length b1 = CPB_SIZE" using malloc_len m0 m1 some by auto
    let ?s = "s\<lparr>world := w1\<rparr>"
    have n: "int CPB_SIZE < 2 ^ 31" by simp
    obtain r2 d0 s2 where rd0: "read_part hal (int x0) 0 (Some b0) (int CPB_SIZE) ?s = Some (r2, d0, s2)"
      using assms m0 m1 some by (auto simp: check_both_cpb_def Let_def Option.bind_eq_Some_conv)
    from rd0 n obtain w2 where w2: "s2 = ?s\<lparr>world := w2\<rparr>" "mem w2 = mem (world ?s)" "length d0 = length b0"
      and d0: "r2 = 0 \<Longrightarrow> 0 \<le> int x0 \<and> (0 :: int) \<le> 0 \<and> 0 < int CPB_SIZE \<and> nat (int CPB_SIZE) \<le> length b0 \<and>
        0 + int CPB_SIZE \<le> part_len ?s (nat (int x0)) \<and>
        d0 = region (mem (world ?s)) (part_addr ?s (nat (int x0)) + 0) (nat (int CPB_SIZE)) @ drop (nat (int CPB_SIZE)) b0"
      by (rule read_part_spec) blast
    show thesis
    proof (cases "r2 = 0")
      case False
      with assms m0 m1 some rd0 have "r \<noteq> 0" "s' = s2" by (auto simp: check_both_cpb_def Let_def)
      with w2 mm show thesis by (intro that [of w2]) auto
    next
      case r2: True
      have s2: "s2 = s\<lparr>world := w2\<rparr>" "mem w2 = mem (world s)" using w2 mm by simp_all
      obtain r3 d1 s3 where rd1: "read_part hal (int x1) 0 (Some b1) (int CPB_SIZE) s2 = Some (r3, d1, s3)"
        using assms m0 m1 some rd0 r2 s2 by (auto simp: check_both_cpb_def Let_def Option.bind_eq_Some_conv)
      from rd1 n obtain w3 where w3: "s3 = s2\<lparr>world := w3\<rparr>" "mem w3 = mem (world s2)" "length d1 = length b1"
        and d1: "r3 = 0 \<Longrightarrow> 0 \<le> int x1 \<and> (0 :: int) \<le> 0 \<and> 0 < int CPB_SIZE \<and> nat (int CPB_SIZE) \<le> length b1 \<and>
          0 + int CPB_SIZE \<le> part_len s2 (nat (int x1)) \<and>
          d1 = region (mem (world s2)) (part_addr s2 (nat (int x1)) + 0) (nat (int CPB_SIZE)) @ drop (nat (int CPB_SIZE)) b1"
        by (rule read_part_spec) blast
      have "s' = s3 \<and> (r3 \<noteq> 0 \<longrightarrow> r \<noteq> 0) \<and> (r3 = 0 \<longrightarrow> r = memcmp d0 d1)"
        using assms m0 m1 some rd0 r2 s2 rd1 by (auto simp: check_both_cpb_def Let_def split: if_splits)
      then show thesis using s2 w3 d0 r2 d1 l mm
        by (intro that [of w3]) (auto simp: part_copy_def memcmp_eq_0_iff)
    qed
  qed
qed

lemma restore_cpb_spec:
  assumes run: "restore_cpb hal part s = Some (r, s')" and b: "length (cpb s) = CPB_SIZE"
    and magic: "cpb_magic_number (cpb s) = CPB_MAGIC_NUMBER" and p: "sint part = int x" and len: "part_len s x < 2 ^ 31"
  obtains w' c q where "s' = s\<lparr>cpb := c, cpb_slots := q, world := w'\<rparr>" "length c = CPB_SIZE"
    "\<And>a. a < part_addr s x \<or> part_addr s x + part_len s x \<le> a \<Longrightarrow> mem w' a = mem (world s) a"
    "r = 0 \<Longrightarrow> c = cpb s \<and> q = Some (unat (cpb_image_ptr_offset (cpb s))) \<and> int CPB_SIZE \<le> part_len s x \<and>
       region (mem w') (part_addr s x) CPB_SIZE = cpb s"
proof -
  let ?u = "overlay (cpb s) 0 (le_bytes 4 (0xFFFFFFFF :: u32))"
  have u: "set_cpb_magic_number (cpb s) 0xFFFFFFFF = ?u" by (simp add: set_cpb_magic_number_def)
  have bk: "set_cpb_magic_number ?u CPB_MAGIC_NUMBER = cpb s"
    using b magic set_cpb_magic_same [of "cpb s" CPB_MAGIC_NUMBER] by (simp add: set_cpb_magic_twice flip: u)
  have t4: "take 4 (cpb s) = le_bytes 4 CPB_MAGIC_NUMBER"
    using set_cpb_magic_take [of ?u CPB_MAGIC_NUMBER] b unfolding bk by simp
  obtain r1 s1 where er: "erase_part hal (int x) s = Some (r1, s1)"
    using run p by (auto simp: restore_cpb_def Option.bind_eq_Some_conv)
  from er len obtain w1 where s1: "s1 = s\<lparr>world := w1\<rparr>"
    and f1: "\<And>a. a < part_addr s x \<or> part_addr s x + part_len s x \<le> a \<Longrightarrow> mem w1 a = mem (world s) a"
    and e1: "\<And>n. r1 = 0 \<Longrightarrow> int n \<le> part_len s x \<Longrightarrow> set (region (mem w1) (part_addr s x) n) \<subseteq> {0xFF}"
    by (rule erase_part_0_spec) blast
  show thesis
  proof (cases "r1 = 0")
    case False
    with run p er have "r \<noteq> 0" "s' = s1" by (auto simp: restore_cpb_def)
    with s1 f1 b show thesis by (intro that [of w1 "cpb_slots s" "cpb s"]) auto
  next
    case r1: True
    let ?s2 = "s\<lparr>world := w1, cpb := ?u\<rparr>"
    have ad: "part_addr (s\<lparr>world := w, cpb := c\<rparr>) x = part_addr s x"
      "part_len (s\<lparr>world := w, cpb := c\<rparr>) x = part_len s x" for w c
      by (simp_all add: part_addr_def part_len_def)
    obtain r3 s3 where wp: "write_part hal (int x) 0 (Some ?u) (int CPB_SIZE) ?s2 = Some (r3, s3)"
      using run p er r1 s1 by (auto simp: u restore_cpb_def Option.bind_eq_Some_conv Let_def)
    from wp obtain w3 where s3: "s3 = ?s2\<lparr>world := w3\<rparr>"
      and f3: "\<And>a. a < part_addr ?s2 x \<or> part_addr ?s2 x + part_len ?s2 x \<le> a \<Longrightarrow> mem w3 a = mem (world ?s2) a"
      by (rule write_part_0_spec) simp_all
    show thesis
    proof (cases "r3 = 0")
      case False
      with run p er r1 s1 wp have "r \<noteq> 0" "s' = s3" by (auto simp: u restore_cpb_def Let_def)
      then show thesis using s3 f3 f1 ad b by (intro that [of w3 "cpb_slots s" ?u]) auto
    next
      case r3: True
      let ?s4 = "s\<lparr>world := w3\<rparr>"
      obtain r5 s5 where wm: "write_part hal (int x) 0 (Some (cpb s)) (int 4) ?s4 = Some (r5, s5)"
        and r: "r \<noteq> 0 \<Longrightarrow> s' = s5" "r = 0 \<Longrightarrow> r5 = 0 \<and> s' = set_cpb_slots s5"
        using run p er r1 s1 wp r3 s3
        by (auto simp: u bk restore_cpb_def Option.bind_eq_Some_conv Let_def split: if_splits)
      from wp [unfolded r3] wm
      obtain w' where w': "s5 = ?s4\<lparr>world := w'\<rparr>" "int CPB_SIZE \<le> part_len ?s2 x"
        "\<And>a. a < part_addr ?s2 x \<or> part_addr ?s2 x + part_len ?s2 x \<le> a \<Longrightarrow> mem w' a = mem (world ?s2) a"
        "r5 = 0 \<Longrightarrow> region (mem w') (part_addr ?s2 x) CPB_SIZE = cpb s"
        by (rule write_part_two [where magic = CPB_MAGIC_NUMBER]) (use s3 ad b t4 e1 r1 in simp_all)
      have fr: "mem w' a = mem (world s) a" if "a < part_addr s x \<or> part_addr s x + part_len s x \<le> a" for a
        using w'(3) [of a] f1 [of a] that ad by simp
      show thesis
      proof (cases "r = 0")
        case True
        with r(2) w'(1) have "s' = s\<lparr>cpb := cpb s, cpb_slots := Some (unat (cpb_image_ptr_offset (cpb s))), world := w'\<rparr>"
          by (simp add: set_cpb_slots_def)
        moreover have "r5 = 0" using r(2) True by simp
        then have "region (mem w') (part_addr s x) CPB_SIZE = cpb s" "int CPB_SIZE \<le> part_len s x"
          using w'(2,4) ad by simp_all
        ultimately show thesis by (intro that [OF _ b fr]) simp_all
      next
        case False
        with r(1) w'(1) have "s' = s\<lparr>cpb := cpb s, cpb_slots := cpb_slots s, world := w'\<rparr>" by simp
        then show thesis by (rule that [OF _ b fr]) (simp_all add: False)
      qed
    qed
  qed
qed

text \<open>
  Loading first finds the partitions, then reads and tests the copies, without any write.
\<close>

lemma load_cpb_scan:
  assumes run: "load_cpb hal s = Some (r, s')" and lay: "cpb_layout s" and l: "length (cpb s) = CPB_SIZE"
  obtains
    (failed) "r \<noteq> 0" "mem (world s') = mem (world s)" "spt s' = spt s" "length (cpb s') = CPB_SIZE"
  | (scanned) x0 x1 g0 g1 s2 where
      "x0 < unat (partitions (spt s))" "x1 < unat (partitions (spt s))"
      "name_is (partition (spt s) ! x0) ''CPB0''" "name_is (partition (spt s) ! x1) ''CPB1''"
      "sint (cpb0_part s2) = int x0" "sint (cpb1_part s2) = int x1"
      "spt s2 = spt s" "mtd_part_offset s2 = mtd_part_offset s" "mem (world s2) = mem (world s)"
      "length (cpb s2) = CPB_SIZE"
      "g1 \<Longrightarrow> cpb_valid (spt s) (part_copy mem s x1)"
      "g0 \<Longrightarrow> cpb_valid (spt s) (part_copy mem s x0) \<and> cpb s2 = part_copy mem s x0 \<and> cpb_slots s2 = Some 32"
      "load_cpb_decide hal g0 g1 s2 = Some (r, s')"
proof -
  have n: "unat (partitions (spt s)) \<le> 127" using lay by (simp add: cpb_layout_def spt_ok_def)
  obtain r0 info w0 where st: "mbox_get_rsu_status hal (world s) = (r0, info, w0)" by (metis prod_cases3)
  have m0: "mem w0 = mem (world s)" by (rule status_mem [OF st])
  let ?s0 = "s\<lparr>world := w0, cpb0_part := - 1, cpb1_part := - 1\<rparr>"
  obtain a b where fp: "find_cpb_parts ?s0 [0..<unat (partitions (spt s))] = ?s0\<lparr>cpb0_part := a, cpb1_part := b\<rparr>"
    "found_part (spt s) ''CPB0'' a" "found_part (spt s) ''CPB1'' b"
    using find_cpb_parts_spec [of ?s0 "[0..<unat (partitions (spt s))]"] by (auto simp: found_part_def)
  let ?s1 = "s\<lparr>world := w0, cpb0_part := a, cpb1_part := b\<rparr>"
  show thesis
  proof (cases "r0 \<noteq> 0 \<or> \<not> cpb_fixed s \<and> st_state info = STATE_CPB0_CPB1_CORRUPTED \<or>
      a > partitions (spt s) \<or> b > partitions (spt s)")
    case True
    with run st n have "r \<noteq> 0" "\<exists>q. s' = s\<lparr>world := w0\<rparr> \<or> s' = s\<lparr>world := w0, cpb_corrupted := q\<rparr> \<or> s' = ?s1"
      by (auto simp: load_cpb_def Let_def fp(1) split: if_splits)
    with m0 l show thesis by (intro failed) auto
  next
    case False
    note sa = found_part_small [OF fp(2) n] and sb = found_part_small [OF fp(3) n]
    define c0 where "c0 \<longleftrightarrow> \<not> cpb_fixed s \<and> st_state info = STATE_CPB0_CORRUPTED"
    have run1: "do {
        (g1, s) \<leftarrow> cpb_good hal b ?s1;
        (g0, s) \<leftarrow> (if \<not> c0 then cpb_good hal (cpb0_part s) s else Some (False, s));
        load_cpb_decide hal g0 g1 s
      } = Some (r, s')"
    proof -
      have c: "(\<not> cpb_fixed s \<and> st_state info = STATE_CPB0_CPB1_CORRUPTED) = False"
        "(a > partitions (spt s) \<or> b > partitions (spt s)) = False" "r0 = 0" using False by blast+
      show ?thesis
        using run st n unfolding c0_def load_cpb_decide_def by (simp add: load_cpb_def Let_def fp(1) c)
    qed
    obtain g1 sA where A: "cpb_good hal b ?s1 = Some (g1, sA)"
      using run1 by (auto simp: Option.bind_eq_Some_conv)
    have lA: "length (cpb ?s1) = CPB_SIZE" using l by simp
    have pb: "sint b = int (unat b)" using sb(3) False by blast
    from A lA pb obtain wA cA pA where sA: "sA = ?s1\<lparr>cpb := cA, cpb_slots := pA, world := wA\<rparr>"
      "mem wA = mem (world ?s1)" "length cA = CPB_SIZE"
      and gA: "g1 \<Longrightarrow> cA = part_copy mem ?s1 (unat b) \<and> cpb_valid (spt ?s1) cA \<and> pA = Some 32"
      by (rule cpb_good_spec) blast
    have mA: "mem wA = mem (world s)" using sA(2) m0 by simp
    have pc: "part_copy mem ?s1 x = part_copy mem s x" "part_copy mem sA x = part_copy mem s x" for x
      using sA mA m0 by (simp_all add: part_copy_def part_addr_def)
    obtain g0 sB where B: "(if \<not> c0 then cpb_good hal (cpb0_part sA) sA else Some (False, sA)) = Some (g0, sB)"
      and fin: "load_cpb_decide hal g0 g1 sB = Some (r, s')"
      using run1 A by (auto simp: Option.bind_eq_Some_conv [of "if \<not> c0 then _ else _"])
    have pa: "sint a = int (unat a)" using sa(3) False by blast
    have "\<exists>wB cB pB. sB = sA\<lparr>cpb := cB, cpb_slots := pB, world := wB\<rparr> \<and> mem wB = mem (world sA) \<and>
        length cB = CPB_SIZE \<and> (g0 \<longrightarrow> cB = part_copy mem sA (unat a) \<and> cpb_valid (spt sA) cB \<and> pB = Some 32)"
    proof (cases c0)
      case True
      with B have "sB = sA" "\<not> g0" by auto
      then show ?thesis using sA(1,3)
        by (intro exI [of _ "world sA"] exI [of _ "cpb sA"] exI [of _ "cpb_slots sA"]) simp
    next
      case False
      have "cpb_good hal a sA = Some (g0, sB)" using B False sA(1) by simp
      moreover have "length (cpb sA) = CPB_SIZE" using sA by simp
      ultimately show ?thesis using pa by (rule cpb_good_spec) blast
    qed
    then obtain wB cB pB where sB: "sB = sA\<lparr>cpb := cB, cpb_slots := pB, world := wB\<rparr>"
      "mem wB = mem (world sA)" "length cB = CPB_SIZE"
      and gB: "g0 \<longrightarrow> cB = part_copy mem sA (unat a) \<and> cpb_valid (spt sA) cB \<and> pB = Some 32" by blast
    have v1: "cpb_valid (spt s) (part_copy mem s (unat b))" if g1
      using gA [OF that] pc(1) [of "unat b"] by auto
    have v0: "cpb_valid (spt s) (part_copy mem s (unat a)) \<and> cpb sB = part_copy mem s (unat a) \<and> cpb_slots sB = Some 32" if g0
      using gB that pc(2) [of "unat a"] sB(1) sA(1) by auto
    show thesis
      by (rule scanned [OF _ _ _ _ _ _ _ _ _ _ v1 v0 fin])
        (use sa sb False pa pb sA(1) sB mA in simp_all)
  qed
qed

text \<open>After a successful load the block in memory and both copies in flash are the same valid copy.\<close>

lemma cpb_parts_range:
  "cpb_layout s \<Longrightarrow> x \<in> set (cpb_parts (spt s)) \<Longrightarrow> y \<in> set (cpb_parts (spt s)) \<Longrightarrow> x \<noteq> y \<Longrightarrow>
   part_range s x \<inter> part_range s y = {}"
  by (simp add: cpb_layout_def ranges_disjoint_def)

lemma cpb_valid_magic:
  "cpb_valid t b \<Longrightarrow> cpb_magic_number b = CPB_MAGIC_NUMBER \<and> cpb_image_ptr_offset b = CPB_IMAGE_PTR_OFFSET \<and>
    unat (cpb_image_ptr_slots b) \<le> 508"
  by (simp add: cpb_valid_def)

text \<open>The repair of the copy in \<open>y\<close> from the block, which is the copy in \<open>x\<close>.\<close>

lemma restore_cpb_synced:
  assumes run: "restore_cpb hal part s = Some (0, s')" and p: "sint part = int y"
    and parts: "set (cpb_parts (spt s)) = {x, y}" "x \<noteq> y" and lay: "cpb_layout s"
    and valid: "cpb_valid (spt s) (cpb s)" "cpb s = part_copy mem s x"
    and lx: "int CPB_SIZE \<le> part_len s x"
  shows "cpb s' = cpb s \<and> cpb_slots s' = Some 32 \<and> spt s' = spt s \<and> mtd_part_offset s' = mtd_part_offset s \<and>
    cpb_synced mem s' \<and> (\<forall>a. a \<notin> part_range s y \<longrightarrow> mem (world s') a = mem (world s) a)"
proof -
  have l: "length (cpb s) = CPB_SIZE" using valid(2) by (simp add: part_copy_def)
  have m: "cpb_magic_number (cpb s) = CPB_MAGIC_NUMBER" "unat (cpb_image_ptr_offset (cpb s)) = 32"
    using cpb_valid_magic [OF valid(1)] by simp_all
  have len: "part_len s y < 2 ^ 31" using lay parts(1) by (simp add: cpb_layout_def)
  from run l m(1) p len obtain w' c q where s': "s' = s\<lparr>cpb := c, cpb_slots := q, world := w'\<rparr>"
    and fr: "\<And>a. a < part_addr s y \<or> part_addr s y + part_len s y \<le> a \<Longrightarrow> mem w' a = mem (world s) a"
    and d: "(0 :: int) = 0 \<Longrightarrow> c = cpb s \<and> q = Some (unat (cpb_image_ptr_offset (cpb s))) \<and>
       int CPB_SIZE \<le> part_len s y \<and> region (mem w') (part_addr s y) CPB_SIZE = cpb s"
    by (rule restore_cpb_spec) blast
  have fr': "mem w' a = mem (world s) a" if "a \<notin> part_range s y" for a
    by (rule fr) (use that in \<open>auto simp: part_range_def\<close>)
  have dj: "part_range s x \<inter> part_range s y = {}" using cpb_parts_range [OF lay] parts by simp
  have "region (mem w') (part_addr s x) CPB_SIZE = region (mem (world s)) (part_addr s x) CPB_SIZE"
  proof (rule region_frame)
    fix a assume "a \<in> {part_addr s x..<part_addr s x + int CPB_SIZE}"
    then have "a \<in> part_range s x" using lx by (auto simp: part_range_def)
    then show "mem w' a = mem (world s) a" using dj by (intro fr') blast
  qed
  moreover have "part_addr s' z = part_addr s z" for z using s' by (simp add: part_addr_def)
  ultimately have "cpb_synced mem s'"
    using s' d parts(1) valid(2) by (auto simp: cpb_synced_def part_copy_def)
  then show ?thesis using s' d m fr' by simp
qed

lemma load_cpb_ok:
  assumes run: "load_cpb hal s = Some (0, s')" and lay: "cpb_layout s" and l: "length (cpb s) = CPB_SIZE"
  shows "cpb_inv s' \<and> cpb_valid (spt s) (cpb s') \<and> cpb_synced mem s' \<and> spt s' = spt s \<and>
    mtd_part_offset s' = mtd_part_offset s \<and> (\<exists>x \<in> set (cpb_parts (spt s)). cpb s' = part_copy mem s x) \<and>
    (\<forall>a. a \<notin> (\<Union>x \<in> set (cpb_parts (spt s)). part_range s x) \<longrightarrow> mem (world s') a = mem (world s) a)"
  using run lay l
proof (cases rule: load_cpb_scan)
  case (scanned x0 x1 g0 g1 s2)
  have parts: "set (cpb_parts (spt s)) = {x0, x1}" "x0 \<noteq> x1"
    using cpb_parts_two [OF _ scanned(1,2,3,4)] lay by (simp_all add: cpb_layout_def)
  have ad: "part_addr s2 x = part_addr s x" "part_len s2 x = part_len s x" "part_range s2 x = part_range s x"
    "part_copy mem s2 x = part_copy mem s x" for x
    using scanned(7,8,9) by (simp_all add: part_addr_def part_len_def part_range_def part_copy_def)
  have lay2: "cpb_layout s2" using lay scanned(7) ad by (simp add: cpb_layout_def ranges_disjoint_def)
  have inv: "cpb_inv t" if "cpb_valid (spt s) (cpb t)" "cpb_slots t = Some 32" "length (cpb t) = CPB_SIZE" for t :: "'a ops"
    using that by (simp add: cpb_inv_def cpb_valid_def cpb_count_def)
  have long: "int CPB_SIZE \<le> part_len s x" if "x \<in> set (cpb_parts (spt s))" for x
    using lay that by (simp add: cpb_layout_def)
  have lc: "length (part_copy mem s x) = CPB_SIZE" for x by (simp add: part_copy_def)
  consider (both) "g0" "g1" | (one) "g0" "\<not> g1" | (zero) "\<not> g0" "g1"
    using scanned(13) by (cases g0; cases g1) (auto simp: load_cpb_decide_def)
  then show ?thesis
  proof cases
    case both
    note v0 = scanned(12) [OF both(1)]
    obtain r sB where cb: "check_both_cpb hal s2 = Some (r, sB)"
      using scanned(13) both by (auto simp: load_cpb_decide_def Option.bind_eq_Some_conv)
    from cb scanned(5,6) obtain w' where w: "sB = s2\<lparr>world := w'\<rparr>" "mem w' = mem (world s2)"
      "r = 0 \<Longrightarrow> part_copy mem s2 x0 = part_copy mem s2 x1" by (rule check_both_cpb_spec) blast
    have r: "r = 0" "s' = set_cpb_slots sB"
      using scanned(13) both cb by (auto simp: load_cpb_decide_def split: if_splits)
    have s': "s' = s2\<lparr>world := w', cpb_slots := Some 32\<rparr>"
      using r w v0 cpb_valid_magic [of "spt s" "part_copy mem s x0"] by (simp add: set_cpb_slots_def)
    have "part_addr s' x = part_addr s x" for x using s' ad by (simp add: part_addr_def)
    then have "cpb_synced mem s'"
      using s' w r(1) v0 scanned(7,9) parts ad by (auto simp: cpb_synced_def part_copy_def)
    then show ?thesis using inv [of s'] s' v0 lc w scanned(7,8,9) parts by simp
  next
    case one
    note v0 = scanned(12) [OF one(1)]
    have rc: "restore_cpb hal (cpb1_part s2) s2 = Some (0, s')"
      using scanned(13) one by (simp add: load_cpb_decide_def)
    have "int CPB_SIZE \<le> part_len s2 x0" using long parts(1) ad by simp
    from restore_cpb_synced [OF rc scanned(6) parts(1) [folded scanned(7)] parts(2) lay2 _ _ this] v0 scanned(7) ad
    have R: "cpb s' = cpb s2 \<and> cpb_slots s' = Some 32 \<and> spt s' = spt s \<and> mtd_part_offset s' = mtd_part_offset s2 \<and>
      cpb_synced mem s' \<and> (\<forall>a. a \<notin> part_range s x1 \<longrightarrow> mem (world s') a = mem (world s2) a)" by simp
    show ?thesis using inv [of s'] R v0 lc scanned(7,8,9) parts by auto
  next
    case zero
    note v1 = scanned(11) [OF zero(2)]
    obtain r sC where rd: "read_cpb hal (cpb1_part s2) s2 = Some (r, sC)"
      using scanned(13) zero by (auto simp: load_cpb_decide_def Option.bind_eq_Some_conv)
    from rd scanned(10,6) obtain w' c where sC: "sC = s2\<lparr>cpb := c, world := w'\<rparr>" "mem w' = mem (world s2)"
      "r = 0 \<Longrightarrow> c = part_copy mem s2 x1 \<and> int CPB_SIZE \<le> part_len s2 x1" by (rule read_cpb_spec) blast
    have rc: "restore_cpb hal (cpb0_part sC) sC = Some (0, s')" and r: "r = 0"
      using scanned(13) zero rd by (auto simp: load_cpb_decide_def split: if_splits)
    have c: "c = part_copy mem s x1" using sC(3) [OF r] ad by simp
    have adC: "part_addr sC x = part_addr s x" "part_len sC x = part_len s x" "part_range sC x = part_range s x"
      "part_copy mem sC x = part_copy mem s x" for x
      using sC ad scanned(9) by (simp_all add: part_addr_def part_len_def part_range_def part_copy_def)
    have layC: "cpb_layout sC" using lay2 sC(1) adC ad by (simp add: cpb_layout_def ranges_disjoint_def)
    have pC: "set (cpb_parts (spt sC)) = {x1, x0}" "x1 \<noteq> x0" "sint (cpb0_part sC) = int x0"
      using parts scanned(5,7) sC(1) by auto
    have "int CPB_SIZE \<le> part_len sC x1" using long parts(1) adC by simp
    from restore_cpb_synced [OF rc pC(3,1,2) layC _ _ this] v1 c adC sC(1) scanned(7)
    have R: "cpb s' = cpb sC \<and> cpb_slots s' = Some 32 \<and> spt s' = spt s \<and> mtd_part_offset s' = mtd_part_offset sC \<and>
      cpb_synced mem s' \<and> (\<forall>a. a \<notin> part_range s x0 \<longrightarrow> mem (world s') a = mem (world sC) a)" by simp
    show ?thesis using inv [of s'] R v1 lc c sC scanned(7,8,9) parts by auto
  qed
qed simp

end

end
