(* ===== verification/Rsu_Cpb_Write.thy ===== *)
theory Rsu_Cpb_Write
  imports Rsu_Cpb_Load
begin

text \<open>
  What the writers of the block do to the flash, and the priority operations as a whole: after
  \<^const>\<open>priority_add\<close> the partition has the highest priority and the others keep their order, after
  \<^const>\<open>priority_remove\<close> its pointer is gone, and memory and both copies in flash agree again.
\<close>

section \<open>Clearing bits\<close>

lemma programmable_overlay:
  assumes "off + length new \<le> length b" "programmable (chunk b off (length new)) new"
  shows "programmable b (overlay b off new)"
  unfolding programmable_def list_all2_conv_all_nth
proof (intro conjI allI impI)
  show "length b = length (overlay b off new)" using assms(1) by simp
  fix i assume i: "i < length b"
  show "b ! i AND overlay b off new ! i = overlay b off new ! i"
  proof (cases "off \<le> i \<and> i < off + length new")
    case True
    then have j: "i - off < length new" "b ! i = chunk b off (length new) ! (i - off)" using assms(1) by auto
    from assms(2) j(1) have "chunk b off (length new) ! (i - off) AND new ! (i - off) = new ! (i - off)"
      unfolding programmable_def list_all2_conv_all_nth using assms(1) by simp
    then show ?thesis using True j(2) assms(1) i by (simp add: nth_overlay)
  next
    case False
    then show ?thesis using assms(1) i by (auto simp: nth_overlay)
  qed
qed

lemma programmable_refl: "programmable b b"
  by (simp add: programmable_def list_all2_conv_all_nth)

lemma programmable_pointer:
  assumes "off + 8 \<le> length b" "u64_at b off AND p = p"
  shows "programmable b (overlay b off (le_bytes 8 p))"
proof (rule programmable_overlay)
  have "chunk b off 8 = le_bytes 8 (u64_at b off)" using assms(1) by (simp add: le_bytes_8_u64_at)
  moreover have "programmable (le_bytes 8 (u64_at b off)) (le_bytes 8 p)"
    unfolding programmable_def list_all2_conv_all_nth
  proof (intro conjI allI impI)
    fix i assume i: "i < length (le_bytes 8 (u64_at b off))"
    have "le_bytes 8 (u64_at b off) ! i AND le_bytes 8 p ! i = map2 (AND) (le_bytes 8 (u64_at b off)) (le_bytes 8 p) ! i"
      using i by simp
    then show "le_bytes 8 (u64_at b off) ! i AND le_bytes 8 p ! i = le_bytes 8 p ! i"
      by (simp add: le_bytes_and assms(2))
  qed simp
  ultimately show "programmable (chunk b off (length (le_bytes 8 p))) (le_bytes 8 p)" by simp
qed (use assms(1) in simp)

section \<open>The loops over the two copies\<close>

lemma part_copy_frame:
  assumes "\<And>a. a \<notin> part_range s x \<Longrightarrow> mem w a = mem (world s) a" "part_range s x \<inter> part_range s y = {}"
    "int CPB_SIZE \<le> part_len s y"
  shows "region (mem w) (part_addr s y) CPB_SIZE = part_copy mem s y"
  unfolding part_copy_def
proof (rule region_frame)
  fix a assume "a \<in> {part_addr s y..<part_addr s y + int CPB_SIZE}"
  then have "a \<in> part_range s y" using assms(3) by (auto simp: part_range_def)
  then show "mem w a = mem (world s) a" using assms(2) by (intro assms(1)) blast
qed

context nor_flash begin

lemma update_cpb_loop_spec:
  assumes "update_cpb_loop hal xs u s = Some (r, s')" "distinct xs" "P = filter (is_cpb_part (spt s)) xs"
    and "length (cpb s) = CPB_SIZE" "ranges_disjoint s (set P)"
    and "\<And>x. x \<in> set P \<Longrightarrow> int CPB_SIZE \<le> part_len s x \<and> programmable (part_copy mem s x) (cpb s)"
  shows "\<exists>w'. s' = s\<lparr>world := w'\<rparr> \<and>
    (\<forall>a. a \<notin> (\<Union>x \<in> set P. part_range s x) \<longrightarrow> mem w' a = mem (world s) a) \<and>
    (r = 0 \<longrightarrow> u + int (length P) = 2 \<and> (\<forall>x \<in> set P. part_copy mem s' x = cpb s))"
  using assms
proof (induction xs arbitrary: u s P)
  case Nil
  then have "s' = s" "P = []" "r = 0 \<longrightarrow> u = 2" by (simp_all split: if_splits)
  then show ?case by - (rule exI [of _ "world s"], simp)
next
  case (Cons x xs)
  show ?case
  proof (cases "is_cpb_part (spt s) x")
    case False
    then show ?thesis using Cons.IH [of u s P] Cons.prems by simp
  next
    case True
    define Q where "Q = filter (is_cpb_part (spt s)) xs"
    have P: "P = x # Q" and xQ: "x \<notin> set Q" using True Cons.prems(2,3) by (simp_all add: Q_def)
    obtain r1 s1 where w: "write_part hal (int x) 0 (Some (cpb s)) (int CPB_SIZE) s = Some (r1, s1)"
      and k: "(if r1 \<noteq> 0 then Some (- EIO, s1) else update_cpb_loop hal xs (u + 1) s1) = Some (r, s')"
      using Cons.prems(1) True by (auto simp: Option.bind_eq_Some_conv)
    from w obtain w1 where s1: "s1 = s\<lparr>world := w1\<rparr>"
      and f1: "\<And>a. a < part_addr s x \<or> part_addr s x + part_len s x \<le> a \<Longrightarrow> mem w1 a = mem (world s) a"
      and d1: "r1 = 0 \<Longrightarrow> int CPB_SIZE \<le> part_len s x \<and> CPB_SIZE \<le> length (cpb s) \<and>
        (programmable (region (mem (world s)) (part_addr s x) CPB_SIZE) (take CPB_SIZE (cpb s)) \<longrightarrow>
         region (mem w1) (part_addr s x) CPB_SIZE = take CPB_SIZE (cpb s))"
      by (rule write_part_0_spec) simp_all
    have f1': "mem w1 a = mem (world s) a" if "a \<notin> part_range s x" for a
      by (rule f1) (use that in \<open>auto simp: part_range_def\<close>)
    show ?thesis
    proof (cases "r1 = 0")
      case False
      with k have "s' = s\<lparr>world := w1\<rparr>" "r \<noteq> 0" using s1 by auto
      with f1' P show ?thesis by (intro exI [of _ w1]) simp
    next
      case True
      have c1: "region (mem w1) (part_addr s x) CPB_SIZE = cpb s"
        using d1 [OF True] Cons.prems(4,6) P by (simp add: part_copy_def)
      have k': "update_cpb_loop hal xs (u + 1) s1 = Some (r, s')" using k True by simp
      have Q1: "Q = filter (is_cpb_part (spt s1)) xs" using s1 by (simp add: Q_def)
      have ad: "part_addr s1 y = part_addr s y" "part_len s1 y = part_len s y" "part_range s1 y = part_range s y" for y
        using s1 by (simp_all add: part_range_def)
      have dj: "part_range s x \<inter> part_range s y = {}" if "y \<in> set Q" for y
        using Cons.prems(5) P xQ that by (auto simp: ranges_disjoint_def)
      have dis: "distinct xs" "ranges_disjoint s1 (set Q)" "length (cpb s1) = CPB_SIZE"
        using Cons.prems(2,4,5) P s1 ad by (simp_all add: ranges_disjoint_def)
      have pr: "int CPB_SIZE \<le> part_len s1 y \<and> programmable (part_copy mem s1 y) (cpb s1)" if "y \<in> set Q" for y
        using part_copy_frame [of s x mem w1 y, OF f1' dj [OF that]] Cons.prems(6) [of y] that P s1 ad
        by (simp add: part_copy_def)
      from Cons.IH [OF k' dis(1) Q1 dis(3,2) pr] obtain w' where s': "s' = s1\<lparr>world := w'\<rparr>"
        and fr: "\<And>a. a \<notin> (\<Union>y \<in> set Q. part_range s y) \<Longrightarrow> mem w' a = mem w1 a"
        and ok: "r = 0 \<longrightarrow> u + 1 + int (length Q) = 2 \<and> (\<forall>y \<in> set Q. part_copy mem s' y = cpb s)"
        using s1 ad by auto
      have "region (mem w') (part_addr s x) CPB_SIZE = region (mem w1) (part_addr s x) CPB_SIZE"
      proof (rule region_frame)
        fix a assume "a \<in> {part_addr s x..<part_addr s x + int CPB_SIZE}"
        then have "a \<in> part_range s x" using d1 [OF True] by (auto simp: part_range_def)
        then show "mem w' a = mem w1 a" using dj by (intro fr) blast
      qed
      then have "part_copy mem s' x = cpb s" using c1 s' s1 by (simp add: part_copy_def)
      then show ?thesis by (intro exI [of _ w'] conjI) (use s' s1 fr f1' ok P in auto)
    qed
  qed
qed

lemma writeback_cpb_copy_spec:
  assumes run: "writeback_cpb_copy hal x s = Some (r, s')" and b: "length (cpb s) = CPB_SIZE"
    and magic: "cpb_magic_number (cpb s) = CPB_MAGIC_NUMBER" and len: "part_len s x < 2 ^ 31"
  obtains w' c where "s' = s\<lparr>cpb := c, world := w'\<rparr>" "length c = CPB_SIZE"
    "\<And>a. a < part_addr s x \<or> part_addr s x + part_len s x \<le> a \<Longrightarrow> mem w' a = mem (world s) a"
    "r = 0 \<Longrightarrow> c = cpb s \<and> int CPB_SIZE \<le> part_len s x \<and> region (mem w') (part_addr s x) CPB_SIZE = cpb s"
proof -
  let ?u = "overlay (cpb s) 0 (le_bytes 4 (0xFFFFFFFF :: u32))"
  have u: "set_cpb_magic_number (cpb s) 0xFFFFFFFF = ?u" by (simp add: set_cpb_magic_number_def)
  have bk: "set_cpb_magic_number ?u CPB_MAGIC_NUMBER = cpb s"
    using b magic set_cpb_magic_same [of "cpb s" CPB_MAGIC_NUMBER] by (simp add: set_cpb_magic_twice flip: u)
  have t4: "take 4 (cpb s) = le_bytes 4 CPB_MAGIC_NUMBER"
    using set_cpb_magic_take [of ?u CPB_MAGIC_NUMBER] b unfolding bk by simp
  obtain r1 s1 where er: "erase_part hal (int x) s = Some (r1, s1)"
    using run by (auto simp: writeback_cpb_copy_def Option.bind_eq_Some_conv)
  from er len obtain w1 where s1: "s1 = s\<lparr>world := w1\<rparr>"
    and f1: "\<And>a. a < part_addr s x \<or> part_addr s x + part_len s x \<le> a \<Longrightarrow> mem w1 a = mem (world s) a"
    and e1: "\<And>n. r1 = 0 \<Longrightarrow> int n \<le> part_len s x \<Longrightarrow> set (region (mem w1) (part_addr s x) n) \<subseteq> {0xFF}"
    by (rule erase_part_0_spec) blast
  show thesis
  proof (cases "r1 = 0")
    case False
    with run er have "r \<noteq> 0" "s' = s1" by (auto simp: writeback_cpb_copy_def)
    with s1 f1 b show thesis by (intro that [of w1 "cpb s"]) auto
  next
    case r1: True
    let ?s2 = "s\<lparr>world := w1, cpb := ?u\<rparr>"
    have ad: "part_addr (s\<lparr>world := w, cpb := c\<rparr>) x = part_addr s x"
      "part_len (s\<lparr>world := w, cpb := c\<rparr>) x = part_len s x" for w c
      by (simp_all add: part_addr_def part_len_def)
    obtain r3 s3 where wp: "write_part hal (int x) 0 (Some ?u) (int CPB_SIZE) ?s2 = Some (r3, s3)"
      using run er r1 s1 by (auto simp: u writeback_cpb_copy_def Option.bind_eq_Some_conv Let_def)
    from wp obtain w3 where s3: "s3 = ?s2\<lparr>world := w3\<rparr>"
      and f3: "\<And>a. a < part_addr ?s2 x \<or> part_addr ?s2 x + part_len ?s2 x \<le> a \<Longrightarrow> mem w3 a = mem (world ?s2) a"
      by (rule write_part_0_spec) simp_all
    show thesis
    proof (cases "r3 = 0")
      case False
      with run er r1 s1 wp have "r \<noteq> 0" "s' = s3" by (auto simp: u writeback_cpb_copy_def Let_def)
      then show thesis using s3 f3 f1 ad b by (intro that [of w3 ?u]) auto
    next
      case r3: True
      let ?s4 = "s\<lparr>world := w3\<rparr>"
      have wm: "write_part hal (int x) 0 (Some (cpb s)) (int 4) ?s4 = Some (r, s')"
        using run er r1 s1 wp r3 s3
        by (auto simp: u bk writeback_cpb_copy_def Option.bind_eq_Some_conv Let_def split: if_splits)
      from wp [unfolded r3] wm
      obtain w' where w': "s' = ?s4\<lparr>world := w'\<rparr>" "int CPB_SIZE \<le> part_len ?s2 x"
        "\<And>a. a < part_addr ?s2 x \<or> part_addr ?s2 x + part_len ?s2 x \<le> a \<Longrightarrow> mem w' a = mem (world ?s2) a"
        "r = 0 \<Longrightarrow> region (mem w') (part_addr ?s2 x) CPB_SIZE = cpb s"
        by (rule write_part_two [where magic = CPB_MAGIC_NUMBER]) (use s3 ad b t4 e1 r1 in simp_all)
      show thesis
        by (rule that [of w' "cpb s"]) (use w' f1 ad b in simp_all)
    qed
  qed
qed

lemma writeback_cpb_loop_spec:
  assumes "writeback_cpb_loop hal xs u s = Some (r, s')" "distinct xs" "P = filter (is_cpb_part (spt s)) xs"
    and "length (cpb s) = CPB_SIZE" "cpb_magic_number (cpb s) = CPB_MAGIC_NUMBER" "ranges_disjoint s (set P)"
    and "\<And>x. x \<in> set P \<Longrightarrow> part_len s x < 2 ^ 31"
  shows "\<exists>w' c. s' = s\<lparr>cpb := c, world := w'\<rparr> \<and> length c = CPB_SIZE \<and>
    (\<forall>a. a \<notin> (\<Union>x \<in> set P. part_range s x) \<longrightarrow> mem w' a = mem (world s) a) \<and>
    (r = 0 \<longrightarrow> c = cpb s \<and> u + int (length P) = 2 \<and> (\<forall>x \<in> set P. part_copy mem s' x = cpb s)) \<and>
    sorted_wrt (\<lambda>x y. (\<exists>a \<in> part_range s y. mem w' a \<noteq> mem (world s) a) \<longrightarrow> part_copy mem s' x = cpb s) P"
  using assms
proof (induction xs arbitrary: u s P)
  case Nil
  from Nil.prems have "s' = s" "P = []" "r = 0 \<longrightarrow> u = 2" by (simp_all split: if_splits)
  with Nil.prems(4) show ?case by - (rule exI [of _ "world s"], rule exI [of _ "cpb s"], simp)
next
  case (Cons x xs)
  show ?case
  proof (cases "is_cpb_part (spt s) x")
    case False
    then show ?thesis using Cons.IH [of u s P] Cons.prems by simp
  next
    case True
    define Q where "Q = filter (is_cpb_part (spt s)) xs"
    have P: "P = x # Q" and xQ: "x \<notin> set Q" using True Cons.prems(2,3) by (simp_all add: Q_def)
    obtain r1 s1 where c: "writeback_cpb_copy hal x s = Some (r1, s1)"
      and k: "(if r1 \<noteq> 0 then Some (r1, s1) else writeback_cpb_loop hal xs (u + 1) s1) = Some (r, s')"
      using Cons.prems(1) True by (auto simp: Option.bind_eq_Some_conv)
    have lx: "part_len s x < 2 ^ 31" using Cons.prems(7) P by simp
    from c Cons.prems(4,5) lx obtain w1 c1 where s1: "s1 = s\<lparr>cpb := c1, world := w1\<rparr>" and l1: "length c1 = CPB_SIZE"
      and f1: "\<And>a. a < part_addr s x \<or> part_addr s x + part_len s x \<le> a \<Longrightarrow> mem w1 a = mem (world s) a"
      and d1: "r1 = 0 \<Longrightarrow> c1 = cpb s \<and> int CPB_SIZE \<le> part_len s x \<and> region (mem w1) (part_addr s x) CPB_SIZE = cpb s"
      by (rule writeback_cpb_copy_spec) blast
    have f1': "mem w1 a = mem (world s) a" if "a \<notin> part_range s x" for a
      by (rule f1) (use that in \<open>auto simp: part_range_def\<close>)
    have dj: "part_range s x \<inter> part_range s y = {}" if "y \<in> set Q" for y
      using Cons.prems(6) P xQ that by (auto simp: ranges_disjoint_def)
    have unch: "mem w1 a = mem (world s) a" if "a \<in> part_range s y" "y \<in> set Q" for a y
      using dj [OF that(2)] that(1) by (intro f1') blast
    show ?thesis
    proof (cases "r1 = 0")
      case False
      have "sorted_wrt (\<lambda>y z. (\<exists>a \<in> part_range s z. mem w1 a \<noteq> mem (world s) a) \<longrightarrow> part_copy mem s1 y = cpb s) P"
        unfolding P by (rule sorted_wrt_later) (use unch in blast)
      moreover from False k have "s' = s1" "r \<noteq> 0" by auto
      ultimately show ?thesis using s1 l1 f1' P by (intro exI [of _ w1] exI [of _ c1]) auto
    next
      case r1: True
      note d = d1 [OF r1]
      have s1': "s1 = s\<lparr>world := w1\<rparr>" using s1 d by simp
      have k': "writeback_cpb_loop hal xs (u + 1) s1 = Some (r, s')" using k r1 by simp
      have Q1: "Q = filter (is_cpb_part (spt s1)) xs" using s1' by (simp add: Q_def)
      have ad: "part_addr s1 y = part_addr s y" "part_len s1 y = part_len s y" "part_range s1 y = part_range s y" for y
        using s1' by (simp_all add: part_range_def)
      have a: "distinct xs" "length (cpb s1) = CPB_SIZE" "cpb_magic_number (cpb s1) = CPB_MAGIC_NUMBER"
        "ranges_disjoint s1 (set Q)" "cpb s1 = cpb s" "world s1 = w1"
        using Cons.prems(2,4,5,6) P s1' ad by (simp_all add: ranges_disjoint_def)
      have ln: "part_len s1 y < 2 ^ 31" if "y \<in> set Q" for y using Cons.prems(7) P ad that by simp
      note IH = Cons.IH [OF k' a(1) Q1 a(2,3,4) ln, unfolded ad a(5,6)]
      then obtain w' c' where s': "s' = s1\<lparr>cpb := c', world := w'\<rparr>" "length c' = CPB_SIZE"
        and fr: "\<And>a. a \<notin> (\<Union>y \<in> set Q. part_range s y) \<Longrightarrow> mem w' a = mem w1 a"
        and ok: "r = 0 \<longrightarrow> c' = cpb s \<and> u + 1 + int (length Q) = 2 \<and> (\<forall>y \<in> set Q. part_copy mem s' y = cpb s)"
        and so: "sorted_wrt (\<lambda>x y. (\<exists>a \<in> part_range s y. mem w' a \<noteq> mem w1 a) \<longrightarrow> part_copy mem s' x = cpb s) Q"
        by blast
      have pa: "part_addr s' y = part_addr s y" for y using s' s1' by (simp add: part_addr_def)
      have "region (mem w') (part_addr s x) CPB_SIZE = region (mem w1) (part_addr s x) CPB_SIZE"
      proof (rule region_frame)
        fix a assume "a \<in> {part_addr s x..<part_addr s x + int CPB_SIZE}"
        then have "a \<in> part_range s x" using d by (auto simp: part_range_def)
        then show "mem w' a = mem w1 a" using dj by (intro fr) blast
      qed
      then have cx: "part_copy mem s' x = cpb s" using d s' pa by (simp add: part_copy_def)
      have "sorted_wrt (\<lambda>x y. (\<exists>a \<in> part_range s y. mem w' a \<noteq> mem (world s) a) \<longrightarrow> part_copy mem s' x = cpb s) Q"
        by (rule sorted_wrt_mono_rel [OF _ so]) (use unch in \<open>metis (no_types)\<close>)
      then have so': "sorted_wrt (\<lambda>x y. (\<exists>a \<in> part_range s y. mem w' a \<noteq> mem (world s) a) \<longrightarrow> part_copy mem s' x = cpb s) P"
        using cx by (simp add: P)
      show ?thesis
        by (intro exI [of _ w'] exI [of _ c'] conjI so') (use s' s1' fr f1' ok cx P in auto)
    qed
  qed
qed

end

section \<open>The invariant of a loaded block\<close>

text \<open>
  What a successful load establishes and every successful operation keeps: the block in memory is
  valid against the partition table, and both partitions hold it.
\<close>

definition cpb_consistent :: "('w \<Rightarrow> int \<Rightarrow> byte) \<Rightarrow> 'w ops \<Rightarrow> bool" where
  "cpb_consistent mem s \<longleftrightarrow> cpb_layout s \<and> cpb_inv s \<and> cpb_valid (spt s) (cpb s) \<and> cpb_synced mem s"

lemma cpb_layout_cong:
  assumes "spt t = spt s" "mtd_part_offset t = mtd_part_offset s"
  shows "cpb_layout t = cpb_layout s"
proof -
  have "part_addr t x = part_addr s x" "part_len t x = part_len s x" "part_range t x = part_range s x" for x
    using assms by (simp_all add: part_addr_def part_len_def part_range_def)
  then show ?thesis using assms by (simp add: cpb_layout_def ranges_disjoint_def)
qed

lemma part_copy_cong:
  "spt t = spt s \<Longrightarrow> mtd_part_offset t = mtd_part_offset s \<Longrightarrow> mem (world t) = mem (world s) \<Longrightarrow>
   part_copy mem t x = part_copy mem s x"
  by (simp add: part_copy_def part_addr_def)

lemma cpb_layout_parts:
  assumes "cpb_layout s"
  shows "length (cpb_parts (spt s)) = 2" "unat (partitions (spt s)) \<le> 127" "wf_spt (spt s)"
    "ranges_disjoint s (set (cpb_parts (spt s)))"
    "x \<in> set (cpb_parts (spt s)) \<Longrightarrow> int CPB_SIZE \<le> part_len s x \<and> part_len s x < 2 ^ 31"
proof -
  show "unat (partitions (spt s)) \<le> 127" "wf_spt (spt s)" "ranges_disjoint s (set (cpb_parts (spt s)))"
    "x \<in> set (cpb_parts (spt s)) \<Longrightarrow> int CPB_SIZE \<le> part_len s x \<and> part_len s x < 2 ^ 31"
    using assms by (simp_all add: cpb_layout_def spt_ok_def)
  have "spt_ok (spt s)" using assms by (simp add: cpb_layout_def)
  moreover then obtain x y where "x < unat (partitions (spt s))" "y < unat (partitions (spt s))"
    "name_is (partition (spt s) ! x) ''CPB0''" "name_is (partition (spt s) ! y) ''CPB1''"
    unfolding spt_ok_def has_part_def by metis
  ultimately have "set (cpb_parts (spt s)) = {x, y}" "x \<noteq> y" using cpb_parts_two by blast+
  moreover have "distinct (cpb_parts (spt s))" by (simp add: cpb_parts_def)
  ultimately show "length (cpb_parts (spt s)) = 2" by (simp flip: distinct_card)
qed

context nor_flash begin

lemma load_cpb_consistent:
  assumes "load_cpb hal s = Some (0, s')" "cpb_layout s" "length (cpb s) = CPB_SIZE"
  shows "cpb_consistent mem s' \<and> spt s' = spt s \<and> mtd_part_offset s' = mtd_part_offset s \<and>
    (\<exists>x \<in> set (cpb_parts (spt s)). cpb s' = part_copy mem s x)"
  using load_cpb_ok [OF assms] assms(2) cpb_layout_cong [of s' s] by (simp add: cpb_consistent_def)

text \<open>Loading right after a write that left both copies equal to memory keeps the block.\<close>

lemma load_cpb_synced:
  assumes "load_cpb hal s = Some (0, s')" "cpb_layout s" "length (cpb s) = CPB_SIZE" "cpb_synced mem s"
  shows "cpb_consistent mem s' \<and> cpb s' = cpb s \<and> spt s' = spt s"
  using load_cpb_consistent [OF assms(1-3)] assms(4) by (auto simp: cpb_synced_def)

lemma writeback_cpb_spec:
  assumes "writeback_cpb hal s = Some (r, s')" "cpb_layout s" "length (cpb s) = CPB_SIZE"
    "cpb_magic_number (cpb s) = CPB_MAGIC_NUMBER"
  shows "\<exists>w' c. s' = s\<lparr>cpb := c, world := w'\<rparr> \<and> length c = CPB_SIZE \<and>
    (\<forall>a. a \<notin> (\<Union>x \<in> set (cpb_parts (spt s)). part_range s x) \<longrightarrow> mem w' a = mem (world s) a) \<and>
    (r = 0 \<longrightarrow> c = cpb s \<and> (\<forall>x \<in> set (cpb_parts (spt s)). part_copy mem s' x = cpb s)) \<and>
    sorted_wrt (\<lambda>x y. (\<exists>a \<in> part_range s y. mem w' a \<noteq> mem (world s) a) \<longrightarrow> part_copy mem s' x = cpb s)
      (cpb_parts (spt s))"
proof -
  note lay = cpb_layout_parts [OF assms(2)]
  have run: "writeback_cpb_loop hal [0..<unat (partitions (spt s))] 0 s = Some (r, s')"
    using assms(1) lay(2) by (simp add: writeback_cpb_def)
  have ln: "part_len s x < 2 ^ 31" if "x \<in> set (cpb_parts (spt s))" for x using lay(5) [OF that] by simp
  from writeback_cpb_loop_spec [OF run distinct_upt cpb_parts_def assms(3,4) lay(4) ln] show ?thesis by blast
qed

text \<open>Whatever it returns, an update of a pointer touches only the CPB partitions; on success both copies hold it.\<close>

lemma update_cpb_run:
  assumes run: "update_cpb hal (int x) ptr s = Some (r, s')" and con: "cpb_consistent mem s" and x: "x < cpb_count s"
  shows "\<exists>c w'. s' = s\<lparr>cpb := c, world := w'\<rparr> \<and> length c = CPB_SIZE \<and>
    (\<forall>a. a \<notin> (\<Union>x \<in> set (cpb_parts (spt s)). part_range s x) \<longrightarrow> mem w' a = mem (world s) a) \<and>
    (r = 0 \<longrightarrow> s' = (with_slots s ((slots s)[x := ptr]))\<lparr>world := w'\<rparr> \<and> cpb_synced mem s')"
proof -
  have inv: "cpb_inv s" and lay: "cpb_layout s" and sy: "cpb_synced mem s" using con by (simp_all add: cpb_consistent_def)
  note L = cpb_layout_parts [OF lay]
  let ?t = "with_slots s ((slots s)[x := ptr])"
  have set: "set_cpb_slot s x ptr = Some ?t" by (rule set_cpb_slot_update [OF inv x])
  have get: "get_cpb_slot s x = Some (slots s ! x)" by (rule get_cpb_slot_nth [OF inv x])
  have c: "cpb_slots s = Some 32" "length (cpb s) = CPB_SIZE" "cpb_count s \<le> 508" using inv by (simp_all add: cpb_inv_def)
  from run consider (refused) "s' = s" "r \<noteq> 0"
    | (loop) "slots s ! x AND ptr = ptr" "update_cpb_loop hal [0..<unat (partitions (spt s))] 0 ?t = Some (r, s')"
    using get set L(2) by (auto simp: update_cpb_def split: if_splits)
  then show ?thesis
  proof cases
    case refused
    then show ?thesis using c by (intro exI [of _ "cpb s"] exI [of _ "world s"]) simp
  next
    case loop
    have t: "s\<lparr>cpb := overlay (cpb s) (32 + 8 * x) (le_bytes 8 ptr)\<rparr> = ?t"
      using set c x by (simp add: set_cpb_slot_def)
    from arg_cong [OF this, of cpb] have bytes: "cpb ?t = overlay (cpb s) (32 + 8 * x) (le_bytes 8 ptr)" by simp
    have pr: "programmable (cpb s) (cpb ?t)"
      unfolding bytes using c x loop(1) by (intro programmable_pointer) (simp_all add: slots_nth)
    have lt: "length (cpb ?t) = CPB_SIZE" using c by (simp add: with_slots_header)
    have ad: "part_len ?t y = part_len s y" "part_range ?t y = part_range s y" "part_copy mem ?t y = part_copy mem s y" for y
      by (simp_all add: part_addr_def part_len_def part_range_def part_copy_def)
    have P: "cpb_parts (spt s) = filter (is_cpb_part (spt ?t)) [0..<unat (partitions (spt s))]" by (simp add: cpb_parts_def)
    have dj: "ranges_disjoint ?t (set (cpb_parts (spt s)))" using L(4) ad by (simp add: ranges_disjoint_def)
    have pre: "int CPB_SIZE \<le> part_len ?t y \<and> programmable (part_copy mem ?t y) (cpb ?t)" if "y \<in> set (cpb_parts (spt s))" for y
      using L(5) [OF that] sy that pr ad by (simp add: cpb_synced_def)
    from update_cpb_loop_spec [OF loop(2) distinct_upt P lt dj pre] obtain w' where
      w: "s' = ?t\<lparr>world := w'\<rparr>" "\<forall>a. a \<notin> (\<Union>x \<in> set (cpb_parts (spt s)). part_range ?t x) \<longrightarrow> mem w' a = mem (world ?t) a"
      "r = 0 \<longrightarrow> (\<forall>y \<in> set (cpb_parts (spt s)). part_copy mem s' y = cpb ?t)" by auto
    have "s' = s\<lparr>cpb := cpb ?t, world := w'\<rparr>" using w(1) by (simp add: with_slots_def)
    moreover have "cpb_synced mem s'" if "r = 0" using w(1,3) that by (simp add: cpb_synced_def)
    ultimately show ?thesis using lt w ad(2) by (intro exI [of _ "cpb ?t"] exI [of _ w']) simp
  qed
qed

lemma update_cpb_spec:
  assumes "update_cpb hal (int x) ptr s = Some (0, s')" "cpb_consistent mem s" "x < cpb_count s"
  shows "\<exists>w'. s' = (with_slots s ((slots s)[x := ptr]))\<lparr>world := w'\<rparr> \<and> cpb_synced mem s'"
  using update_cpb_run [OF assms] by blast

text \<open>The two ways of adding a pointer are the two cases of \<^const>\<open>add_slot\<close>.\<close>

lemma priority_add_slots:
  assumes run: "priority_add hal p s = Some (0, s')" and con: "cpb_consistent mem s"
    and p: "\<not> bad_part p s" "p < 2 ^ 31"
  shows "\<exists>vs. add_slot (p_offset (partition (spt s) ! nat p)) (slots s) = Some vs \<and>
    slots s' = vs \<and> cpb_consistent mem s' \<and> spt s' = spt s"
proof -
  have inv: "cpb_inv s" and lay: "cpb_layout s" using con by (simp_all add: cpb_consistent_def)
  have c: "length (cpb s) = CPB_SIZE" "cpb_count s \<le> 508" using inv by (simp_all add: cpb_inv_def)
  let ?off = "p_offset (partition (spt s) ! nat p)"
  note run' = run [unfolded priority_add_list [OF inv cpb_layout_parts(3) [OF lay] p]]
  have keep: "slots (with_slots s vs) = vs" "cpb_layout (with_slots s vs)" "length (cpb (with_slots s vs)) = CPB_SIZE"
    "cpb_magic_number (cpb (with_slots s vs)) = CPB_MAGIC_NUMBER" if "length vs = cpb_count s" for vs
    using that inv c lay con cpb_layout_cong [of "with_slots s vs" s]
    by (simp_all add: slots_with_slots with_slots_header cpb_consistent_def cpb_valid_def)
  have fin: ?thesis if "add_slot ?off (slots s) = Some vs" "length vs = cpb_count s"
    "t = (with_slots s vs)\<lparr>world := w\<rparr>" "cpb_synced mem t" "load_cpb hal t = Some (0, s')" for vs t w
  proof -
    have "cpb_layout t" "length (cpb t) = CPB_SIZE"
      using keep [OF that(2)] that(3) cpb_layout_cong [of t "with_slots s vs"] by simp_all
    from load_cpb_synced [OF that(5) this that(4)] show ?thesis
      using that(1,3) keep [OF that(2)] by (simp add: slots_def)
  qed
  show ?thesis
  proof (cases "find (\<lambda>x. slots s ! x = ERASED_ENTRY) [0..<cpb_count s]")
    case (Some x)
    have x: "x < cpb_count s" using find_upt_SomeD [OF Some] by simp
    obtain t where u: "update_cpb hal (int x) ?off s = Some (0, t)" and l: "load_cpb hal t = Some (0, s')"
      using run' Some by (auto simp: Option.bind_eq_Some_conv split: if_splits)
    from update_cpb_spec [OF u con x] obtain w where
      t: "t = (with_slots s ((slots s)[x := ?off]))\<lparr>world := w\<rparr>" "cpb_synced mem t" by blast
    show ?thesis by (rule fin [OF _ _ t l]) (simp_all add: add_slot_def Some)
  next
    case None
    let ?vs = "live s @ ?off # replicate (cpb_count s - length (live s) - 1) ERASED_ENTRY"
    obtain t where lt: "length (live s) < cpb_count s"
      and wb: "writeback_cpb hal (with_slots s ?vs) = Some (0, t)" and l: "load_cpb hal t = Some (0, s')"
      using run' None by (auto simp: Option.bind_eq_Some_conv split: if_splits)
    have lv: "length ?vs = cpb_count s" using lt by simp
    from writeback_cpb_spec [OF wb keep(2,3,4) [OF lv]] obtain w where t: "t = (with_slots s ?vs)\<lparr>world := w\<rparr>"
      "\<forall>x \<in> set (cpb_parts (spt s)). part_copy mem t x = cpb (with_slots s ?vs)"
      by (auto simp: with_slots_def)
    then have "cpb_synced mem t" by (simp add: cpb_synced_def)
    from fin [OF _ lv t(1) this l] show ?thesis
      using None lt by (simp add: add_slot_def Let_def live_def)
  qed
qed

text \<open>Removing.\<close>

lemma priority_remove_slots:
  assumes run: "priority_remove hal p s = Some (0, s')" and con: "cpb_consistent mem s"
    and p: "\<not> bad_part p s" "p < 2 ^ 31"
  shows "slots s' = remove_slot (p_offset (partition (spt s) ! nat p)) (slots s) \<and>
    cpb_consistent mem s' \<and> spt s' = spt s"
proof -
  have inv: "cpb_inv s" and lay: "cpb_layout s" using con by (simp_all add: cpb_consistent_def)
  have c: "length (cpb s) = CPB_SIZE" "cpb_count s \<le> 508" using inv by (simp_all add: cpb_inv_def)
  let ?off = "p_offset (partition (spt s) ! nat p)"
  note run' = run [unfolded priority_remove_list [OF inv cpb_layout_parts(3) [OF lay] p]]
  show ?thesis
  proof (cases "find (\<lambda>x. slots s ! x = ?off) [0..<cpb_count s]")
    case (Some x)
    have x: "x < cpb_count s" using find_upt_SomeD [OF Some] by simp
    obtain t where u: "update_cpb hal (int x) SPENT_ENTRY s = Some (0, t)" and l: "load_cpb hal t = Some (0, s')"
      using run' Some by (auto simp: Option.bind_eq_Some_conv split: if_splits)
    let ?vs = "(slots s)[x := SPENT_ENTRY]"
    from update_cpb_spec [OF u con x] obtain w where
      t: "t = (with_slots s ?vs)\<lparr>world := w\<rparr>" "cpb_synced mem t" by blast
    have k: "cpb_layout t" "length (cpb t) = CPB_SIZE"
      using t(1) inv c lay cpb_layout_cong [of t s] by (simp_all add: with_slots_header)
    from load_cpb_synced [OF l k t(2)] have r: "cpb_consistent mem s'" "cpb s' = cpb t" "spt s' = spt s"
      using t(1) by simp_all
    have "slots s' = slots (with_slots s ?vs)" using r(2) t(1) by (simp add: slots_def)
    also have "\<dots> = ?vs" by (rule slots_with_slots [OF inv]) simp
    finally show ?thesis using Some r by (simp add: remove_slot_def)
  next
    case None
    have l: "load_cpb hal s = Some (0, s')"
      using run' None by simp
    have "cpb_synced mem s" using con by (simp add: cpb_consistent_def)
    from load_cpb_synced [OF l lay c(1) this]
    have r: "cpb_consistent mem s'" "cpb s' = cpb s" "spt s' = spt s" by simp_all
    then have "slots s' = slots s" by (simp add: slots_def)
    then show ?thesis using None r by (simp add: remove_slot_def)
  qed
qed

text \<open>The same on the list of pointers in use.\<close>

lemma priority_add_highest:
  assumes "priority_add hal p s = Some (0, s')" "cpb_consistent mem s" "packed (slots s)"
    "\<not> bad_part p s" "p < 2 ^ 31" "cpb_live (p_offset (partition (spt s) ! nat p))"
  shows "live s' = live s @ [p_offset (partition (spt s) ! nat p)] \<and> packed (slots s') \<and>
    cpb_consistent mem s' \<and> spt s' = spt s \<and> priority_get p s' = Some 1"
proof -
  obtain vs where vs: "add_slot (p_offset (partition (spt s) ! nat p)) (slots s) = Some vs" "slots s' = vs"
    "cpb_consistent mem s'" "spt s' = spt s"
    using priority_add_slots [OF assms(1,2,4,5)] by blast
  have l: "live s' = live s @ [p_offset (partition (spt s) ! nat p)]"
    using add_slot_live [OF vs(1) assms(3,6)] vs(2) by (simp add: live_def)
  have "packed (slots s')" using add_slot_packed [OF vs(1) assms(3)] vs(2) assms(6) by (simp add: cpb_live_def)
  moreover have "cpb_inv s'" "wf_spt (spt s')" using vs(3) by (simp_all add: cpb_consistent_def cpb_layout_def)
  then have "priority_get p s' = Some 1"
    using priority_get_pos [of s' p] bad_part_small [OF assms(4,5)] l vs(4) by simp
  ultimately show ?thesis using l vs by simp
qed

lemma priority_remove_live:
  assumes "priority_remove hal p s = Some (0, s')" "cpb_consistent mem s" "packed (slots s)"
    "\<not> bad_part p s" "p < 2 ^ 31" "cpb_live (p_offset (partition (spt s) ! nat p))"
  shows "live s' = remove1 (p_offset (partition (spt s) ! nat p)) (live s) \<and> packed (slots s') \<and>
    cpb_consistent mem s' \<and> spt s' = spt s"
proof -
  note r = priority_remove_slots [OF assms(1,2,4,5)]
  then have "live s' = remove1 (p_offset (partition (spt s) ! nat p)) (live s)"
    using remove_slot_live(1) [OF assms(6)] by (simp add: live_def)
  moreover have "packed (slots s')" using r remove_slot_packed [OF assms(3)] assms(6) by (simp add: cpb_live_def)
  ultimately show ?thesis using r by simp
qed

end

section \<open>The empty block\<close>

lemma le_word_erased: "le_word (replicate 8 0xFF) = (- 1 :: u64)"
proof -
  have "le_bytes 8 (- 1 :: u64) = replicate 8 0xFF"
    using le_bytes_erased [of 8, where 'a = 64] by (intro replicate_eqI) auto
  then show ?thesis using le_word_le_bytes [of 8 "- 1 :: u64"] by simp
qed

lemma length_empty_cpb_header [simp]: "length empty_cpb_header = 24"
  by (simp add: empty_cpb_header_def)

lemma empty_cpb_block:
  defines "b \<equiv> overlay (replicate CPB_SIZE 0xFF) 0 empty_cpb_header"
  shows "length b = CPB_SIZE" "cpb_magic_number b = CPB_MAGIC_NUMBER"
    "cpb_image_ptr_offset b = CPB_IMAGE_PTR_OFFSET" "cpb_image_ptr_slots b = CPB_IMAGE_PTR_NSLOTS"
    "slots_of_bytes b = replicate 508 ERASED_ENTRY"
proof -
  have b: "b = empty_cpb_header @ replicate 4072 0xFF" by (simp add: b_def overlay_def)
  show "length b = CPB_SIZE" by (simp add: b)
  show "cpb_magic_number b = CPB_MAGIC_NUMBER" "cpb_image_ptr_offset b = CPB_IMAGE_PTR_OFFSET"
    and n: "cpb_image_ptr_slots b = CPB_IMAGE_PTR_NSLOTS"
    unfolding cpb_magic_number_def cpb_image_ptr_offset_def cpb_image_ptr_slots_def u32_at_def b empty_cpb_header_def
    by (simp_all add: chunk_append_left chunk_append_right le_word_le_bytes)
  have "u64_at b (32 + 8 * i) = ERASED_ENTRY" if "i < 508" for i
  proof -
    have "chunk b (32 + 8 * i) 8 = chunk (replicate 4072 (0xFF :: byte)) (8 + 8 * i) 8"
      unfolding b by (simp add: chunk_append_right)
    also have "\<dots> = replicate 8 0xFF" using that by (simp add: chunk_def min_def)
    finally show ?thesis by (simp only: u64_at_def le_word_erased)
  qed
  then show "slots_of_bytes b = replicate 508 ERASED_ENTRY"
    unfolding slots_of_bytes_def n by (intro nth_equalityI) auto
qed

context nor_flash begin

lemma empty_cpb_ok:
  assumes run: "empty_cpb hal s = Some (0, s')" and lay: "cpb_layout s"
  shows "cpb_consistent mem s' \<and> live s' = [] \<and> cpb_fixed s' \<and> \<not> cpb_corrupted s' \<and> spt s' = spt s"
proof -
  let ?b = "overlay (replicate CPB_SIZE 0xFF) 0 empty_cpb_header"
  obtain h w where m: "rsu_malloc hal (world s) 24 = (Some h, w)" "\<not> spt_corrupted s"
    using run by (auto simp: empty_cpb_def split: if_splits prod.splits option.splits)
  let ?s = "s\<lparr>world := w, cpb := ?b\<rparr>"
  obtain t where wb: "writeback_cpb hal ?s = Some (0, t)"
    and s': "s' = (set_cpb_slots t)\<lparr>cpb_corrupted := False, cpb_fixed := True\<rparr>"
    using run m by (auto simp: empty_cpb_def Let_def Option.bind_eq_Some_conv split: if_splits)
  have lay1: "cpb_layout ?s" using lay cpb_layout_cong [of ?s s] by simp
  note B = empty_cpb_block
  have "length (cpb ?s) = CPB_SIZE" "cpb_magic_number (cpb ?s) = CPB_MAGIC_NUMBER" using B by simp_all
  from writeback_cpb_spec [OF wb lay1 this] obtain v where t: "t = ?s\<lparr>world := v\<rparr>"
    and sy: "\<forall>x \<in> set (cpb_parts (spt ?s)). part_copy mem t x = cpb ?s" by auto
  have pc: "part_copy mem s' x = part_copy mem t x" for x
    by (rule part_copy_cong) (simp_all add: s' set_cpb_slots_def)
  have f: "cpb s' = ?b" "spt s' = spt s" "cpb_slots s' = Some 32" "mtd_part_offset s' = mtd_part_offset s"
    using s' t B(3) by (simp_all add: set_cpb_slots_def)
  have nl: "\<not> cpb_live ERASED_ENTRY" by (simp add: cpb_live_def)
  have "cpb_synced mem s'" using f sy pc by (simp add: cpb_synced_def)
  moreover have "cpb_layout s'" using lay cpb_layout_cong [of s' s] f by simp
  moreover have "cpb_inv s'" using f B by (simp add: cpb_inv_def cpb_count_def)
  moreover have "cpb_valid (spt s') (cpb s')" using f B nl by (simp add: cpb_valid_def)
  moreover have "live s' = []" using f B(5) nl by (simp add: live_def slots_def)
  ultimately show ?thesis using s' f by (simp add: cpb_consistent_def)
qed

end

end
