(* ===== verification/Rsu_Backup.thy ===== *)
theory Rsu_Backup
  imports Rsu_Spt_Write Rsu_Partition Rsu_Cpb_Write
begin

text \<open>
  Saving and restoring the two tables, \<^verbatim>\<open>src/libRSU_ops.c\<close>: to and from a file or a buffer, the image
  of the table followed by its CRC; and the delegations to the platform.

  A local variable that a short read may leave uninitialised is an argument: \<open>junk\<close> is what
  \<^verbatim>\<open>crc_from_saved_file\<close> holds before it is read.
\<close>

section \<open>Delegation to the platform\<close>

definition on_world :: "('w \<Rightarrow> 'a \<times> 'w) \<Rightarrow> 'w ops \<Rightarrow> 'a \<times> 'w ops" where
  "on_world f s = (case f (world s) of (r, w) \<Rightarrow> (r, s\<lparr>world := w\<rparr>))"

definition notify_sdm :: "'w librsu_ll_intf \<Rightarrow> u32 \<Rightarrow> 'w ops \<Rightarrow> int \<times> 'w ops" where
  "notify_sdm hal value = on_world (\<lambda>w. mbox_rsu_notify hal w value)"

definition rsu_status :: "'w librsu_ll_intf \<Rightarrow> 'w ops \<Rightarrow> (int \<times> mbox_status_info) \<times> 'w ops" where
  "rsu_status hal = on_world (\<lambda>w. case mbox_get_rsu_status hal w of (r, d, w) \<Rightarrow> ((r, d), w))"

definition rsu_set_address :: "'w librsu_ll_intf \<Rightarrow> u64 \<Rightarrow> 'w ops \<Rightarrow> int \<times> 'w ops" where
  "rsu_set_address hal offset = on_world (\<lambda>w. mbox_send_rsu_update hal w offset)"

definition rsu_get_dcmf_status :: "'w librsu_ll_intf \<Rightarrow> 'w ops \<Rightarrow> (int \<times> u32 list) \<times> 'w ops" where
  "rsu_get_dcmf_status hal = on_world (\<lambda>w. case misc_get_dcmf_status hal w of (r, d, w) \<Rightarrow> ((r, d), w))"

definition rsu_get_max_retry_count :: "'w librsu_ll_intf \<Rightarrow> 'w ops \<Rightarrow> (int \<times> byte) \<times> 'w ops" where
  "rsu_get_max_retry_count hal = on_world (\<lambda>w. case misc_get_max_retry_count hal w of (r, d, w) \<Rightarrow> ((r, d), w))"

definition rsu_get_dcmf_version :: "'w librsu_ll_intf \<Rightarrow> 'w ops \<Rightarrow> (int \<times> int list) \<times> 'w ops" where
  "rsu_get_dcmf_version hal = on_world (\<lambda>w. case misc_get_dcmf_version hal w of (r, d, w) \<Rightarrow> ((r, d), w))"

definition rsu_fopen :: "'w librsu_ll_intf \<Rightarrow> byte list \<Rightarrow> RSU_filesys_flags_t \<Rightarrow> 'w ops \<Rightarrow> nat option \<times> 'w ops" where
  "rsu_fopen hal filename flag = on_world (\<lambda>w. file_open hal w filename flag)"

definition rsu_read :: "'w librsu_ll_intf \<Rightarrow> byte list \<Rightarrow> nat \<Rightarrow> 'w ops \<Rightarrow> (int \<times> byte list) \<times> 'w ops" where
  "rsu_read hal buf fp = on_world (\<lambda>w. case file_read hal w buf fp of (r, d, w) \<Rightarrow> ((r, d), w))"

definition rsu_write :: "'w librsu_ll_intf \<Rightarrow> byte list \<Rightarrow> nat \<Rightarrow> 'w ops \<Rightarrow> int \<times> 'w ops" where
  "rsu_write hal buf fp = on_world (\<lambda>w. file_write hal w buf fp)"

definition rsu_fseek :: "'w librsu_ll_intf \<Rightarrow> int \<Rightarrow> RSU_filesys_whence_t \<Rightarrow> nat \<Rightarrow> 'w ops \<Rightarrow> int \<times> 'w ops" where
  "rsu_fseek hal offset whence fp = on_world (\<lambda>w. file_fseek hal w offset whence fp)"

definition rsu_ftruncate :: "'w librsu_ll_intf \<Rightarrow> int \<Rightarrow> nat \<Rightarrow> 'w ops \<Rightarrow> int \<times> 'w ops" where
  "rsu_ftruncate hal len fp = on_world (\<lambda>w. file_ftruncate hal w len fp)"

definition rsu_close :: "'w librsu_ll_intf \<Rightarrow> nat \<Rightarrow> 'w ops \<Rightarrow> int \<times> 'w ops" where
  "rsu_close hal fp = on_world (\<lambda>w. file_close hal w fp)"

text \<open>The end of every path behind a successful open: close, then the result.\<close>

definition close_ret :: "'w librsu_ll_intf \<Rightarrow> nat \<Rightarrow> int \<Rightarrow> 'w ops \<Rightarrow> int \<times> 'w ops" where
  "close_ret hal fp ret s = (ret, snd (rsu_close hal fp s))"

section \<open>The sub-partition table\<close>

text \<open>What both ways of restoring do with the image of a table.\<close>

definition install_spt :: "'w librsu_ll_intf \<Rightarrow> byte list \<Rightarrow> 'w ops \<Rightarrow> (int \<times> 'w ops) option" where
  "install_spt hal spt_data s =
     (let s = s\<lparr>spt := spt_of_bytes (take SPT_SIZE spt_data)\<rparr>
      in case load_spt0_offset s of (err, s) \<Rightarrow>
        if err \<noteq> 0 then Some (- EPERM, s)
        else do {
          (ret, s) \<leftarrow> writeback_spt hal s;
          if ret < 0 then Some (ret, s)
          else do {
            (_, s) \<leftarrow> load_cpb hal (s\<lparr>spt_corrupted := False, cpb_corrupted := False\<rparr>);
            Some (ret, s)
          }
        })"

definition restore_spt_from_file ::
    "'w librsu_ll_intf \<Rightarrow> byte list \<Rightarrow> byte list \<Rightarrow> 'w ops \<Rightarrow> (int \<times> 'w ops) option" where
  "restore_spt_from_file hal junk name s =
     (case rsu_fopen hal name RSU_FILE_READ s of
        (None, s) \<Rightarrow> Some (- EFAULT, s)
      | (Some fp, s) \<Rightarrow>
        (case ops_malloc hal SPT_SIZE s of
           (None, s) \<Rightarrow> Some (close_ret hal fp (- ENOMEM) s)
         | (Some spt_data, s) \<Rightarrow>
           (case rsu_read hal spt_data fp s of ((ret, spt_data), s) \<Rightarrow>
            if ret < 0 then Some (close_ret hal fp ret s)
            else let calc_crc = rsu_crc32 hal 0 spt_data
            in case rsu_fseek hal (int SPT_SIZE) RSU_SEEK_SET fp s of (ret, s) \<Rightarrow>
            if ret \<noteq> 0 then Some (close_ret hal fp ret s)
            else case rsu_read hal junk fp s of ((ret, crc), s) \<Rightarrow>
            if ret < 0 then Some (close_ret hal fp ret s)
            else if u32_at crc 0 \<noteq> calc_crc then Some (close_ret hal fp (- EBADF) s)
            else if u32_at spt_data 0 \<noteq> SPT_MAGIC_NUMBER then Some (close_ret hal fp (- EFAULT) s)
            else do {
              (ret, s) \<leftarrow> install_spt hal spt_data s;
              Some (close_ret hal fp ret s)
            })))"

definition save_spt_to_file :: "'w librsu_ll_intf \<Rightarrow> byte list \<Rightarrow> 'w ops \<Rightarrow> (int \<times> 'w ops) option" where
  "save_spt_to_file hal name s =
     (case rsu_fopen hal name RSU_FILE_WRITE s of
        (None, s) \<Rightarrow> Some (- EFAULT, s)
      | (Some fp, s) \<Rightarrow>
        (case ops_malloc hal SPT_SIZE s of
           (None, s) \<Rightarrow> Some (close_ret hal fp (- ENOMEM) s)
         | (Some spt_data, s) \<Rightarrow> do {
             (ret, spt_data, s) \<leftarrow> read_dev hal (sint (spt0_address (spt_addr s))) (Some spt_data) (int SPT_SIZE) s;
             if ret < 0 then Some (close_ret hal fp ret s)
             else
               let calc_crc = rsu_crc32 hal 0 spt_data
               in case rsu_write hal spt_data fp s of (write_size, s) \<Rightarrow>
                  if write_size \<noteq> int SPT_SIZE then Some (close_ret hal fp (- EPERM) s)
                  else case rsu_write hal (le_bytes 4 calc_crc) fp s of (write_size, s) \<Rightarrow>
                  if write_size \<noteq> 4 then Some (close_ret hal fp (- EPERM) s)
                  else Some (close_ret hal fp ret s)
           }))"

text \<open>The buffers hold at least the bytes their size argument promises; \<^const>\<open>None\<close> otherwise.\<close>

definition save_spt_to_buf ::
    "'w librsu_ll_intf \<Rightarrow> byte list option \<Rightarrow> nat \<Rightarrow> 'w ops \<Rightarrow> (int \<times> byte list option \<times> 'w ops) option" where
  "save_spt_to_buf hal buffer sz s =
     (case buffer of None \<Rightarrow> Some (- EFAULT, buffer, s)
      | Some b \<Rightarrow>
          if sz < SPT_SIZE + 4 then Some (- EFAULT, buffer, s)
          else if length b < sz then None
          else do {
            (ret, b, s) \<leftarrow> read_dev hal (sint (spt0_address (spt_addr s))) (Some b) (int SPT_SIZE) s;
            if ret < 0 then Some (ret, Some b, s)
            else Some (0, Some (overlay b SPT_SIZE (le_bytes 4 (rsu_crc32 hal 0 (take SPT_SIZE b)))), s)
          })"

definition restore_spt_from_buf ::
    "'w librsu_ll_intf \<Rightarrow> byte list option \<Rightarrow> nat \<Rightarrow> 'w ops \<Rightarrow> (int \<times> 'w ops) option" where
  "restore_spt_from_buf hal buffer sz s =
     (case buffer of None \<Rightarrow> Some (- EFAULT, s)
      | Some b \<Rightarrow>
          if sz < SPT_SIZE + 4 then Some (- EFAULT, s)
          else if length b < sz then None
          else if u32_at b SPT_SIZE \<noteq> rsu_crc32 hal 0 (take SPT_SIZE b) then Some (- EBADF, s)
          else if u32_at b 0 \<noteq> SPT_MAGIC_NUMBER then Some (- EFAULT, s)
          else install_spt hal b s)"

definition corrupted_spt :: "'w ops \<Rightarrow> int" where
  "corrupted_spt s = (if spt_corrupted s then 1 else 0)"

section \<open>The configuration pointer block\<close>

definition install_cpb :: "'w librsu_ll_intf \<Rightarrow> byte list \<Rightarrow> 'w ops \<Rightarrow> (int \<times> 'w ops) option" where
  "install_cpb hal cpb_data s = do {
     (ret, s) \<leftarrow> writeback_cpb hal (s\<lparr>cpb := take CPB_SIZE cpb_data\<rparr>);
     if ret \<noteq> 0 then Some (ret, s)
     else Some (0, (set_cpb_slots s)\<lparr>cpb_corrupted := False, cpb_fixed := True\<rparr>)
   }"

definition restore_cpb_from_file ::
    "'w librsu_ll_intf \<Rightarrow> byte list \<Rightarrow> byte list \<Rightarrow> 'w ops \<Rightarrow> (int \<times> 'w ops) option" where
  "restore_cpb_from_file hal junk name s =
     (if spt_corrupted s then Some (- ECORRUPTED_SPT, s)
      else case rsu_fopen hal name RSU_FILE_READ s of
        (None, s) \<Rightarrow> Some (- EFAULT, s)
      | (Some fp, s) \<Rightarrow>
        (case ops_malloc hal CPB_SIZE s of
           (None, s) \<Rightarrow> Some (close_ret hal fp (- ENOMEM) s)
         | (Some cpb_data, s) \<Rightarrow>
           (case rsu_read hal cpb_data fp s of ((ret, cpb_data), s) \<Rightarrow>
            if ret = 0 then Some (close_ret hal fp (- EPERM) s)
            else let calc_crc = rsu_crc32 hal 0 cpb_data
            in case rsu_fseek hal (int CPB_SIZE) RSU_SEEK_SET fp s of (ret, s) \<Rightarrow>
            if ret \<noteq> 0 then Some (close_ret hal fp (- EIO) s)
            else case rsu_read hal junk fp s of ((ret, crc), s) \<Rightarrow>
            if ret = 0 then Some (close_ret hal fp (- EPERM) s)
            else if u32_at crc 0 \<noteq> calc_crc then Some (close_ret hal fp (- EBADF) s)
            else if u32_at cpb_data 0 \<noteq> CPB_MAGIC_NUMBER then Some (close_ret hal fp (- EFAULT) s)
            else do {
              (ret, s) \<leftarrow> install_cpb hal cpb_data s;
              Some (close_ret hal fp ret s)
            })))"

definition save_cpb_to_file :: "'w librsu_ll_intf \<Rightarrow> byte list \<Rightarrow> 'w ops \<Rightarrow> (int \<times> 'w ops) option" where
  "save_cpb_to_file hal name s =
     (case rsu_fopen hal name RSU_FILE_WRITE s of
        (None, s) \<Rightarrow> Some (- EFAULT, s)
      | (Some fp, s) \<Rightarrow>
        (case ops_malloc hal CPB_SIZE s of
           (None, s) \<Rightarrow> Some (close_ret hal fp (- ENOMEM) s)
         | (Some cpb_data, s) \<Rightarrow> do {
             (ret, cpb_data, s) \<leftarrow> read_part hal (sint (cpb0_part s)) 0 (Some cpb_data) (int CPB_SIZE) s;
             if ret \<noteq> 0 then Some (close_ret hal fp ret s)
             else
               let calc_crc = rsu_crc32 hal 0 cpb_data
               in case rsu_write hal cpb_data fp s of (write_size, s) \<Rightarrow>
                  if write_size \<noteq> int CPB_SIZE then Some (close_ret hal fp (- EPERM) s)
                  else case rsu_write hal (le_bytes 4 calc_crc) fp s of (write_size, s) \<Rightarrow>
                  if write_size \<noteq> 4 then Some (close_ret hal fp (- EPERM) s)
                  else Some (close_ret hal fp ret s)
           }))"

definition save_cpb_to_buf ::
    "'w librsu_ll_intf \<Rightarrow> byte list option \<Rightarrow> nat \<Rightarrow> 'w ops \<Rightarrow> (int \<times> byte list option \<times> 'w ops) option" where
  "save_cpb_to_buf hal buffer sz s =
     (case buffer of None \<Rightarrow> Some (- EFAULT, buffer, s)
      | Some b \<Rightarrow>
          if sz < CPB_SIZE + 4 then Some (- EFAULT, buffer, s)
          else if length b < sz then None
          else do {
            (ret, b, s) \<leftarrow> read_part hal (sint (cpb0_part s)) 0 (Some b) (int CPB_SIZE) s;
            if ret \<noteq> 0 then Some (ret, Some b, s)
            else Some (0, Some (overlay b CPB_SIZE (le_bytes 4 (rsu_crc32 hal 0 (take CPB_SIZE b)))), s)
          })"

definition restore_cpb_from_buf ::
    "'w librsu_ll_intf \<Rightarrow> byte list option \<Rightarrow> nat \<Rightarrow> 'w ops \<Rightarrow> (int \<times> 'w ops) option" where
  "restore_cpb_from_buf hal buffer sz s =
     (if spt_corrupted s then Some (- ECORRUPTED_SPT, s)
      else case buffer of None \<Rightarrow> Some (- EFAULT, s)
      | Some b \<Rightarrow>
          if sz < CPB_SIZE + 4 then Some (- EFAULT, s)
          else if length b < sz then None
          else if u32_at b CPB_SIZE \<noteq> rsu_crc32 hal 0 (take CPB_SIZE b) then Some (- EBADF, s)
          else if u32_at b 0 \<noteq> CPB_MAGIC_NUMBER then Some (- EFAULT, s)
          else install_cpb hal b s)"

definition corrupted_cpb :: "'w ops \<Rightarrow> int" where
  "corrupted_cpb s = (if cpb_corrupted s then 1 else 0)"

end
