(* ===== verification/Rsu_Cpb_Total.thy ===== *)
theory Rsu_Cpb_Total
  imports Rsu_Cpb_Write Rsu_Spt_Total
begin

text \<open>
  On a device that works the operations on a consistent block succeed: loading it again, adding a
  partition while there is room, removing one.
\<close>

section \<open>Accesses to a partition inside the device\<close>

definition parts_in_device :: "('w \<Rightarrow> int) \<Rightarrow> 'w ops \<Rightarrow> bool" where
  "parts_in_device dsz s \<longleftrightarrow>
     (\<forall>x \<in> set (cpb_parts (spt s)). part_fits s x \<and> in_device dsz s (part_addr s x) (part_len s x))"

lemma part_fits_cong:
  assumes "spt t = spt s" "mtd_part_offset t = mtd_part_offset s"
  shows "part_fits t x = part_fits s x" "part_addr t x = part_addr s x" "part_len t x = part_len s x"
  unfolding part_fits_def part_addr_def part_len_def assms by (rule refl)+

lemma parts_in_device_cong:
  assumes "spt t = spt s" "mtd_part_offset t = mtd_part_offset s" "dsz (world t) = dsz (world s)"
  shows "parts_in_device dsz t = parts_in_device dsz s"
  unfolding parts_in_device_def in_device_def part_fits_cong [OF assms(1,2)] assms(1,3) by (rule refl)

lemma part_fits_bounds:
  assumes "part_fits s x"
  shows "part_len s x < 2 ^ 31" "0 \<le> part_addr s x" "part_addr s x < 2 ^ 62"
  using assms by (simp_all add: part_fits_def)

lemma off_add_small: "0 \<le> a \<Longrightarrow> a < 2 ^ 62 \<Longrightarrow> 0 \<le> b \<Longrightarrow> b < 2 ^ 62 \<Longrightarrow> off_add a b = Some (a + b)"
  by (simp add: off_add_def)

context reliable_flash begin

lemma rel_read_part_at:
  assumes "ok (world s)" "wf_spt (spt s)" "part_fits s x" "in_device dsize s (part_addr s x) (part_len s x)"
    "0 < n" "n \<le> length b" "int (off + n) \<le> part_len s x"
  shows "\<exists>w'. read_part hal (int x) (int off) (Some b) (int n) s =
      Some (0, region (mem (world s)) (part_addr s x + int off) n @ drop n b, s\<lparr>world := w'\<rparr>) \<and>
    ok w' \<and> mem w' = mem (world s) \<and> dsize w' = dsize (world s)"
proof -
  note B = part_fits_bounds [OF assms(3)]
  have x: "x < length (partition (spt s))" using assms(2,3) by (simp add: part_fits_def wf_spt_def)
  have i: "in_device dsize s (part_addr s x + int off) (int n)" using assms(4,7) B(2) by (simp add: in_device_def)
  have n: "off < 2 ^ 31" "n < 2 ^ 31" using assms(7) B(1) by simp_all
  have "off_add (int off) (int n) = Some (int (off + n))" "off_add (part_addr s x) (int off) = Some (part_addr s x + int off)"
    using B n by (simp_all add: off_add_def)
  moreover have "part_at (spt s) x = Some (partition (spt s) ! x)" using x by (simp add: part_at_def)
  ultimately have "read_part hal (int x) (int off) (Some b) (int n) s = read_dev hal (part_addr s x + int off) (Some b) (int n) s"
    using assms(5,7) get_part_offset_fits [OF assms(3,2)] by (simp add: read_part_def part_len_def)
  then show ?thesis using rel_read_dev [OF assms(1) i assms(5,6) n(2)] by simp
qed

lemmas rel_read_part = rel_read_part_at [where off = 0, simplified]

lemma rel_write_part_at:
  assumes "ok (world s)" "wf_spt (spt s)" "part_fits s x" "in_device dsize s (part_addr s x) (part_len s x)"
    "0 < n" "n \<le> length b" "int (off + n) \<le> part_len s x"
  shows "\<exists>w'. write_part hal (int x) (int off) (Some b) (int n) s = Some (0, s\<lparr>world := w'\<rparr>) \<and>
    ok w' \<and> dsize w' = dsize (world s)"
proof -
  note B = part_fits_bounds [OF assms(3)]
  have x: "x < length (partition (spt s))" using assms(2,3) by (simp add: part_fits_def wf_spt_def)
  have i: "in_device dsize s (part_addr s x + int off) (int n)" using assms(4,7) B(2) by (simp add: in_device_def)
  have n: "off < 2 ^ 31" "n < 2 ^ 31" using assms(7) B(1) by simp_all
  have "off_add (int off) (int n) = Some (int (off + n))" "off_add (part_addr s x) (int off) = Some (part_addr s x + int off)"
    using B n by (simp_all add: off_add_def)
  moreover have "part_at (spt s) x = Some (partition (spt s) ! x)" using x by (simp add: part_at_def)
  ultimately have "write_part hal (int x) (int off) (Some b) (int n) s = write_dev hal (part_addr s x + int off) (Some b) (int n) s"
    using assms(5,7) get_part_offset_fits [OF assms(3,2)] by (simp add: write_part_def part_len_def)
  then show ?thesis using rel_write_dev [OF assms(1) i assms(5,6) n(2)] by simp
qed

lemmas rel_write_part = rel_write_part_at [where off = 0, simplified]

lemma rel_erase_part:
  assumes "ok (world s)" "wf_spt (spt s)" "part_fits s x" "in_device dsize s (part_addr s x) (part_len s x)"
    "0 < part_len s x"
  shows "\<exists>w'. erase_part hal (int x) s = Some (0, s\<lparr>world := w'\<rparr>) \<and> ok w' \<and> dsize w' = dsize (world s)"
proof -
  note B = part_fits_bounds [OF assms(3)]
  have x: "x < length (partition (spt s))" using assms(2,3) by (simp add: part_fits_def wf_spt_def)
  have "sint (p_length (partition (spt s) ! x)) = part_len s x"
    using B(1) unfolding part_len_def by (rule sint_uint_small)
  then have "erase_part hal (int x) s = erase_dev hal (part_addr s x) (part_len s x) s"
    using x get_part_offset_fits [OF assms(3,2)] by (simp add: erase_part_def part_at_def)
  then show ?thesis using rel_erase_dev [OF assms(1,4,5)] B(1) by simp
qed

section \<open>Loading and writing the block\<close>

lemma rel_read_cpb:
  assumes "ok (world s)" "cpb_layout s" "parts_in_device dsize s" "length (cpb s) = CPB_SIZE"
    "x \<in> set (cpb_parts (spt s))" "sint part = int x"
  shows "\<exists>w'. read_cpb hal part s = Some (0, s\<lparr>cpb := part_copy mem s x, world := w'\<rparr>) \<and>
    ok w' \<and> mem w' = mem (world s) \<and> dsize w' = dsize (world s)"
proof -
  have f: "part_fits s x" "in_device dsize s (part_addr s x) (part_len s x)"
    using assms(3,5) by (simp_all add: parts_in_device_def)
  have l: "int CPB_SIZE \<le> part_len s x" using cpb_layout_parts(5) [OF assms(2,5)] by simp
  obtain w' where "read_part hal (int x) 0 (Some (cpb s)) (int CPB_SIZE) s =
      Some (0, region (mem (world s)) (part_addr s x) CPB_SIZE @ drop CPB_SIZE (cpb s), s\<lparr>world := w'\<rparr>) \<and>
    ok w' \<and> mem w' = mem (world s) \<and> dsize w' = dsize (world s)"
    using rel_read_part [OF assms(1) cpb_layout_parts(3) [OF assms(2)] f _ _ l, of "cpb s"] assms(4) by auto
  then show ?thesis using assms(4,6) by (intro exI [of _ w']) (simp add: read_cpb_def part_copy_def)
qed

lemma rel_cpb_good:
  assumes "ok (world s)" "cpb_layout s" "parts_in_device dsize s" "length (cpb s) = CPB_SIZE"
    "x \<in> set (cpb_parts (spt s))" "sint part = int x" "cpb_valid (spt s) (part_copy mem s x)"
  shows "\<exists>w'. cpb_good hal part s = Some (True, s\<lparr>cpb := part_copy mem s x, world := w', cpb_slots := Some 32\<rparr>) \<and>
    ok w' \<and> mem w' = mem (world s) \<and> dsize w' = dsize (world s)"
proof -
  obtain w' where rd: "read_cpb hal part s = Some (0, s\<lparr>cpb := part_copy mem s x, world := w'\<rparr>)"
    "ok w'" "mem w' = mem (world s)" "dsize w' = dsize (world s)"
    using rel_read_cpb [OF assms(1-6)] by blast
  let ?s = "s\<lparr>cpb := part_copy mem s x, world := w', cpb_slots := Some 32\<rparr>"
  have "cpb_inv ?s" "slots ?s = slots_of_bytes (part_copy mem s x)"
    using assms(7) by (simp_all add: cpb_inv_def cpb_valid_def cpb_count_def slots_def part_copy_def)
  with check_cpb_total [of ?s] assms(7) have "check_cpb ?s = Some 0" by (auto simp: cpb_valid_def)
  then show ?thesis using rd cpb_valid_magic [OF assms(7)]
    by (intro exI [of _ w']) (simp add: cpb_good_def Let_def)
qed

lemma rel_check_both_cpb:
  assumes "ok (world s)" "cpb_layout s" "parts_in_device dsize s"
    "x0 \<in> set (cpb_parts (spt s))" "sint (cpb0_part s) = int x0"
    "x1 \<in> set (cpb_parts (spt s))" "sint (cpb1_part s) = int x1"
  shows "\<exists>w'. check_both_cpb hal s = Some (memcmp (part_copy mem s x0) (part_copy mem s x1), s\<lparr>world := w'\<rparr>) \<and>
    ok w' \<and> mem w' = mem (world s) \<and> dsize w' = dsize (world s)"
proof -
  obtain p0 w0 where m0: "rsu_malloc hal (world s) CPB_SIZE = (p0, w0)" by (metis surj_pair)
  obtain p1 w1 where m1: "rsu_malloc hal w0 CPB_SIZE = (p1, w1)" by (metis surj_pair)
  note k0 = ok_malloc [OF assms(1) m0]
  then have k1: "p1 \<noteq> None \<and> ok w1" using ok_malloc m1 by blast
  from k0 k1 obtain b0 b1 where b: "p0 = Some b0" "p1 = Some b1" by auto
  have l: "length b0 = CPB_SIZE" "length b1 = CPB_SIZE" using malloc_len m0 m1 b by auto
  have mm: "mem w1 = mem (world s)" "dsize w1 = dsize (world s)"
    using malloc_mem [OF m0] malloc_mem [OF m1] malloc_dsize [OF m0] malloc_dsize [OF m1] by simp_all
  note L = cpb_layout_parts [OF assms(2)]
  let ?s = "s\<lparr>world := w1\<rparr>"
  have f: "part_fits t x" "in_device dsize t (part_addr t x) (part_len t x)" "int CPB_SIZE \<le> part_len t x"
    if "t = s\<lparr>world := w\<rparr>" "dsize w = dsize (world s)" "x \<in> set (cpb_parts (spt s))" for t x w
    using assms(3) L(5) [OF that(3)] that by (auto simp: parts_in_device_def in_device_def)
  have ok1: "ok (world ?s)" and wf1: "wf_spt (spt ?s)" using k1 L(3) by simp_all
  obtain w2 where r0: "read_part hal (int x0) 0 (Some b0) (int CPB_SIZE) ?s =
      Some (0, part_copy mem s x0, s\<lparr>world := w2\<rparr>)" "ok w2" "mem w2 = mem (world s)" "dsize w2 = dsize (world s)"
    using rel_read_part [OF ok1 wf1, of x0 CPB_SIZE b0] f [OF refl mm(2) assms(4)] l mm by (auto simp: part_copy_def)
  let ?t = "s\<lparr>world := w2\<rparr>"
  have ok2: "ok (world ?t)" and wf2: "wf_spt (spt ?t)" using r0 L(3) by simp_all
  obtain w3 where r1: "read_part hal (int x1) 0 (Some b1) (int CPB_SIZE) ?t =
      Some (0, part_copy mem s x1, s\<lparr>world := w3\<rparr>)" "ok w3" "mem w3 = mem (world s)" "dsize w3 = dsize (world s)"
    using rel_read_part [OF ok2 wf2, of x1 CPB_SIZE b1] f [OF refl r0(4) assms(6)] l r0 by (auto simp: part_copy_def)
  show ?thesis
    using m0 m1 b r0 r1 assms(5,7) by (intro exI [of _ w3]) (simp add: check_both_cpb_def Let_def)
qed

end

text \<open>The search finds both partitions of a table that has them.\<close>

lemma find_cpb_parts_complete:
  assumes "\<And>x. x \<in> set xs \<Longrightarrow> x < unat (partitions (spt s))"
    and "cpb0_part s < partitions (spt s) \<or> (\<exists>x \<in> set xs. name_is (partition (spt s) ! x) ''CPB0'')"
    and "cpb1_part s < partitions (spt s) \<or> (\<exists>x \<in> set xs. name_is (partition (spt s) ! x) ''CPB1'')"
  shows "cpb0_part (find_cpb_parts s xs) < partitions (spt s) \<and> cpb1_part (find_cpb_parts s xs) < partitions (spt s)"
  using assms
proof (induction xs arbitrary: s)
  case (Cons x xs)
  define s1 where "s1 = (if name_is (partition (spt s) ! x) ''CPB0'' then s\<lparr>cpb0_part := word_of_nat x\<rparr>
    else if name_is (partition (spt s) ! x) ''CPB1'' then s\<lparr>cpb1_part := word_of_nat x\<rparr> else s)"
  have run: "find_cpb_parts s (x # xs) =
      (if cpb0_part s1 < partitions (spt s1) \<and> cpb1_part s1 < partitions (spt s1) then s1 else find_cpb_parts s1 xs)"
    by (simp only: find_cpb_parts.simps Let_def s1_def)
  have "x < unat (partitions (spt s))" using Cons.prems by simp
  then have w: "(word_of_nat x :: u32) < partitions (spt s)"
    using unsigned_less [of "partitions (spt s)", where 'a = nat]
    by (simp add: word_less_nat_alt unat_of_nat take_bit_nat_eq_self)
  have sp: "spt s1 = spt s" by (simp add: s1_def)
  have f: "name_is (partition (spt s) ! x) ''CPB0'' \<or> cpb0_part s < partitions (spt s) \<Longrightarrow> cpb0_part s1 < partitions (spt s)"
    "name_is (partition (spt s) ! x) ''CPB1'' \<or> cpb1_part s < partitions (spt s) \<Longrightarrow> cpb1_part s1 < partitions (spt s)"
    using w critical_names_distinct(6) [of "partition (spt s) ! x"] by (auto simp: s1_def)
  have "cpb0_part (find_cpb_parts s1 xs) < partitions (spt s1) \<and> cpb1_part (find_cpb_parts s1 xs) < partitions (spt s1)"
    by (rule Cons.IH) (use Cons.prems f sp in auto)
  then show ?case unfolding run using sp by simp
qed simp

context reliable_flash begin

text \<open>Loading two equal valid copies, whatever the block in memory holds.\<close>

lemma rel_load_cpb_copies:
  assumes "ok (world s)" "cpb_layout s" "parts_in_device dsize s" "length (cpb s) = CPB_SIZE"
    "\<And>x. x \<in> set (cpb_parts (spt s)) \<Longrightarrow> part_copy mem s x = d" "cpb_valid (spt s) d"
  shows "\<exists>s'. load_cpb hal s = Some (0, s') \<and> ok (world s') \<and> dsize (world s') = dsize (world s) \<and>
    cpb_corrupted s' = cpb_corrupted s"
proof -
  note L = cpb_layout_parts [OF assms(2)]
  have sok: "spt_ok (spt s)" using assms(2) by (simp add: cpb_layout_def)
  obtain r0 info w0 where st: "mbox_get_rsu_status hal (world s) = (r0, info, w0)" by (metis prod_cases3)
  have st': "r0 = 0" "ok w0" "mem w0 = mem (world s)" "dsize w0 = dsize (world s)"
    "st_state info \<noteq> STATE_CPB0_CORRUPTED" "st_state info \<noteq> STATE_CPB0_CPB1_CORRUPTED"
    using ok_status [OF assms(1) st] status_mem [OF st] status_dsize [OF st] by simp_all
  let ?s0 = "s\<lparr>world := w0, cpb0_part := - 1, cpb1_part := - 1\<rparr>"
  obtain a b where fp: "find_cpb_parts ?s0 [0..<unat (partitions (spt s))] = ?s0\<lparr>cpb0_part := a, cpb1_part := b\<rparr>"
    "found_part (spt s) ''CPB0'' a" "found_part (spt s) ''CPB1'' b"
    using find_cpb_parts_spec [of ?s0 "[0..<unat (partitions (spt s))]"] by (auto simp: found_part_def)
  have ex: "\<exists>x \<in> set [0..<unat (partitions (spt ?s0))]. name_is (partition (spt ?s0) ! x) ''CPB0''"
    "\<exists>x \<in> set [0..<unat (partitions (spt ?s0))]. name_is (partition (spt ?s0) ! x) ''CPB1''"
    using sok by (auto simp: spt_ok_def has_part_def)
  have "a < partitions (spt s)" "b < partitions (spt s)"
    using find_cpb_parts_complete [of "[0..<unat (partitions (spt ?s0))]" ?s0] ex fp(1) by simp_all
  then have ab: "\<not> a > partitions (spt s)" "\<not> b > partitions (spt s)" by auto
  note sa = found_part_small [OF fp(2) L(2) ab(1)] and sb = found_part_small [OF fp(3) L(2) ab(2)]
  have parts: "set (cpb_parts (spt s)) = {unat a, unat b}"
    by (rule cpb_parts_two [OF sok sa(1) sb(1) sa(2) sb(2)])
  have cp: "part_copy mem s (unat a) = d" "part_copy mem s (unat b) = d"
    using assms(5) parts by simp_all
  have ld: "length d = CPB_SIZE" using cp(1) by (auto simp: part_copy_def)
  let ?s1 = "s\<lparr>world := w0, cpb0_part := a, cpb1_part := b\<rparr>"
  have pc: "part_copy mem t x = part_copy mem s x" "cpb_layout t" "parts_in_device dsize t"
    if "spt t = spt s" "mtd_part_offset t = mtd_part_offset s" "mem (world t) = mem (world s)"
      "dsize (world t) = dsize (world s)" for t x
    using part_copy_cong [OF that(1-3)] cpb_layout_cong [OF that(1,2)] parts_in_device_cong [OF that(1,2,4)]
      assms(2,3) by simp_all
  have 1: "ok (world ?s1)" "cpb_layout ?s1" "parts_in_device dsize ?s1" "length (cpb ?s1) = CPB_SIZE"
    "unat b \<in> set (cpb_parts (spt ?s1))" "cpb_valid (spt ?s1) (part_copy mem ?s1 (unat b))"
    using pc [of ?s1] st' assms(4,6) parts cp by simp_all
  obtain w1 where g1: "cpb_good hal b ?s1 = Some (True, ?s1\<lparr>cpb := d, world := w1, cpb_slots := Some 32\<rparr>)"
    "ok w1" "mem w1 = mem (world s)" "dsize w1 = dsize (world s)"
    using rel_cpb_good [OF 1(1-5) sb(3) 1(6)] pc(1) [of ?s1 "unat b"] cp st' by auto
  let ?s2 = "?s1\<lparr>cpb := d, world := w1, cpb_slots := Some 32\<rparr>"
  have 2: "ok (world ?s2)" "cpb_layout ?s2" "parts_in_device dsize ?s2" "length (cpb ?s2) = CPB_SIZE"
    "unat a \<in> set (cpb_parts (spt ?s2))" "cpb_valid (spt ?s2) (part_copy mem ?s2 (unat a))"
    using pc [of ?s2] g1 assms(6) ld parts cp by simp_all
  obtain w2 where g0: "cpb_good hal a ?s2 = Some (True, ?s2\<lparr>cpb := d, world := w2, cpb_slots := Some 32\<rparr>)"
    "ok w2" "mem w2 = mem (world s)" "dsize w2 = dsize (world s)"
    using rel_cpb_good [OF 2(1-5) sa(3) 2(6)] pc(1) [of ?s2 "unat a"] cp g1 by auto
  let ?s3 = "?s2\<lparr>cpb := d, world := w2, cpb_slots := Some 32\<rparr>"
  have 3: "ok (world ?s3)" "cpb_layout ?s3" "parts_in_device dsize ?s3"
    "unat a \<in> set (cpb_parts (spt ?s3))" "unat b \<in> set (cpb_parts (spt ?s3))"
    "sint (cpb0_part ?s3) = int (unat a)" "sint (cpb1_part ?s3) = int (unat b)"
    using pc [of ?s3] g0 parts sa(3) sb(3) by simp_all
  have mc: "memcmp (part_copy mem ?s3 (unat a)) (part_copy mem ?s3 (unat b)) = 0"
    using pc(1) [of ?s3] g0 cp by (simp add: memcmp_eq_0_iff)
  obtain w3 where cb: "check_both_cpb hal ?s3 = Some (0, ?s3\<lparr>world := w3\<rparr>)" "ok w3" "dsize w3 = dsize (world s)"
    using rel_check_both_cpb [OF 3(1-4,6,5,7)] g0(4) unfolding mc by auto
  have g0': "cpb_good hal (cpb0_part ?s2) ?s2 = Some (True, ?s3)" using g0(1) by simp
  have "load_cpb hal s = Some (0, set_cpb_slots (?s3\<lparr>world := w3\<rparr>))"
    using st st' L(2) ab g1(1) g0' cb(1) by (simp add: load_cpb_def Let_def fp(1))
  then show ?thesis using cb by (simp add: set_cpb_slots_def)
qed

lemma rel_load_cpb:
  assumes "ok (world s)" "cpb_layout s" "parts_in_device dsize s" "length (cpb s) = CPB_SIZE"
    "cpb_synced mem s" "cpb_valid (spt s) (cpb s)"
  shows "\<exists>s'. load_cpb hal s = Some (0, s') \<and> ok (world s') \<and> dsize (world s') = dsize (world s) \<and>
    cpb_corrupted s' = cpb_corrupted s"
  by (rule rel_load_cpb_copies [OF assms(1-4) _ assms(6)]) (use assms(5) in \<open>simp add: cpb_synced_def\<close>)

lemma rel_update_cpb_loop:
  assumes "ok (world s)" "wf_spt (spt s)" "length (cpb s) = CPB_SIZE" "P = filter (is_cpb_part (spt s)) xs"
    "\<And>x. x \<in> set P \<Longrightarrow> part_fits s x \<and> in_device dsize s (part_addr s x) (part_len s x) \<and> int CPB_SIZE \<le> part_len s x"
  shows "\<exists>w'. update_cpb_loop hal xs u s =
      Some (if u + int (length P) \<noteq> 2 then - EADDRNOTAVAIL else 0, s\<lparr>world := w'\<rparr>) \<and>
    ok w' \<and> dsize w' = dsize (world s)"
  using assms
proof (induction xs arbitrary: u s P)
  case Nil
  then show ?case by - (rule exI [of _ "world s"], simp)
next
  case (Cons x xs)
  show ?case
  proof (cases "is_cpb_part (spt s) x")
    case False
    then show ?thesis using Cons.IH [of s P u] Cons.prems by simp
  next
    case True
    let ?Q = "filter (is_cpb_part (spt s)) xs"
    have P: "P = x # ?Q" using True Cons.prems(4) by simp
    have f: "part_fits s x" "in_device dsize s (part_addr s x) (part_len s x)" "int CPB_SIZE \<le> part_len s x"
      using Cons.prems(5) [of x] P by simp_all
    obtain w where w: "write_part hal (int x) 0 (Some (cpb s)) (int CPB_SIZE) s = Some (0, s\<lparr>world := w\<rparr>)"
      "ok w" "dsize w = dsize (world s)"
      using rel_write_part [OF Cons.prems(1,2) f(1,2) _ _ f(3), of "cpb s"] Cons.prems(3) by auto
    have "\<exists>w'. update_cpb_loop hal xs (u + 1) (s\<lparr>world := w\<rparr>) =
      Some (if u + 1 + int (length ?Q) \<noteq> 2 then - EADDRNOTAVAIL else 0, s\<lparr>world := w\<rparr>\<lparr>world := w'\<rparr>) \<and>
      ok w' \<and> dsize w' = dsize (world (s\<lparr>world := w\<rparr>))"
      by (rule Cons.IH) (use Cons.prems P w in \<open>auto simp: in_device_def\<close>)
    then show ?thesis using True w P by (auto simp: algebra_simps)
  qed
qed

lemma rel_writeback_cpb_copy:
  assumes "ok (world s)" "wf_spt (spt s)" "length (cpb s) = CPB_SIZE"
    "part_fits s x" "in_device dsize s (part_addr s x) (part_len s x)" "int CPB_SIZE \<le> part_len s x"
  shows "\<exists>w' c. writeback_cpb_copy hal x s = Some (0, s\<lparr>cpb := c, world := w'\<rparr>) \<and> length c = CPB_SIZE \<and>
    ok w' \<and> dsize w' = dsize (world s)"
proof -
  let ?u = "set_cpb_magic_number (cpb s) 0xFFFFFFFF" and ?v = "set_cpb_magic_number (cpb s) CPB_MAGIC_NUMBER"
  have l: "length ?u = CPB_SIZE" "length ?v = CPB_SIZE" using assms(3) by simp_all
  obtain w1 where e: "erase_part hal (int x) s = Some (0, s\<lparr>world := w1\<rparr>)" "ok w1" "dsize w1 = dsize (world s)"
    using rel_erase_part [OF assms(1,2,4,5)] assms(6) by auto
  let ?s1 = "s\<lparr>world := w1, cpb := ?u\<rparr>"
  have t: "part_fits t x" "in_device dsize t (part_addr t x) (part_len t x)" "int CPB_SIZE \<le> part_len t x"
    if "spt t = spt s" "mtd_part_offset t = mtd_part_offset s" "dsize (world t) = dsize (world s)" for t
    using assms(4-6) part_fits_cong [OF that(1,2)] that(3) by (simp_all add: in_device_def)
  obtain w2 where w2: "write_part hal (int x) 0 (Some ?u) (int CPB_SIZE) ?s1 = Some (0, ?s1\<lparr>world := w2\<rparr>)"
    "ok w2" "dsize w2 = dsize (world s)"
    using rel_write_part [of ?s1 x CPB_SIZE ?u] t [of ?s1] e assms(2) l by auto
  let ?s2 = "s\<lparr>world := w2, cpb := ?v\<rparr>"
  obtain w3 where w3: "write_part hal (int x) 0 (Some ?v) (int 4) ?s2 = Some (0, ?s2\<lparr>world := w3\<rparr>)"
    "ok w3" "dsize w3 = dsize (world s)"
    using rel_write_part [of ?s2 x 4 ?v] t [of ?s2] w2 assms(2,6) l by auto
  have b: "set_cpb_magic_number ?u CPB_MAGIC_NUMBER = ?v" using assms(3) by (simp add: set_cpb_magic_twice)
  show ?thesis
    using e(1) w2(1) w3 l b by (intro exI [of _ w3] exI [of _ ?v]) (simp add: writeback_cpb_copy_def Let_def)
qed

lemma rel_writeback_cpb_loop:
  assumes "ok (world s)" "wf_spt (spt s)" "length (cpb s) = CPB_SIZE" "P = filter (is_cpb_part (spt s)) xs"
    "\<And>x. x \<in> set P \<Longrightarrow> part_fits s x \<and> in_device dsize s (part_addr s x) (part_len s x) \<and> int CPB_SIZE \<le> part_len s x"
  shows "\<exists>w' c. writeback_cpb_loop hal xs u s =
      Some (if u + int (length P) \<noteq> 2 then - EADDRNOTAVAIL else 0, s\<lparr>cpb := c, world := w'\<rparr>) \<and>
    ok w' \<and> dsize w' = dsize (world s)"
  using assms
proof (induction xs arbitrary: u s P)
  case Nil
  then show ?case by - (rule exI [of _ "world s"], rule exI [of _ "cpb s"], simp)
next
  case (Cons x xs)
  show ?case
  proof (cases "is_cpb_part (spt s) x")
    case False
    then show ?thesis using Cons.IH [of s P u] Cons.prems by simp
  next
    case True
    let ?Q = "filter (is_cpb_part (spt s)) xs"
    have P: "P = x # ?Q" using True Cons.prems(4) by simp
    have f: "part_fits s x" "in_device dsize s (part_addr s x) (part_len s x)" "int CPB_SIZE \<le> part_len s x"
      using Cons.prems(5) [of x] P by simp_all
    obtain w c where w: "writeback_cpb_copy hal x s = Some (0, s\<lparr>cpb := c, world := w\<rparr>)" "length c = CPB_SIZE"
      "ok w" "dsize w = dsize (world s)"
      using rel_writeback_cpb_copy [OF Cons.prems(1-3) f] by blast
    let ?t = "s\<lparr>cpb := c, world := w\<rparr>"
    have pf: "part_fits ?t y = part_fits s y" "part_addr ?t y = part_addr s y" "part_len ?t y = part_len s y" for y
      using part_fits_cong [of ?t s] by simp_all
    have "\<exists>w' c'. writeback_cpb_loop hal xs (u + 1) ?t =
      Some (if u + 1 + int (length ?Q) \<noteq> 2 then - EADDRNOTAVAIL else 0, ?t\<lparr>cpb := c', world := w'\<rparr>) \<and>
      ok w' \<and> dsize w' = dsize (world ?t)"
      by (rule Cons.IH) (use Cons.prems P w pf in \<open>auto simp: in_device_def\<close>)
    then obtain w' c' where r: "writeback_cpb_loop hal xs (u + 1) ?t =
      Some (if u + 1 + int (length ?Q) \<noteq> 2 then - EADDRNOTAVAIL else 0, ?t\<lparr>cpb := c', world := w'\<rparr>)"
      "ok w'" "dsize w' = dsize (world s)" using w by auto
    then show ?thesis using True w P by (intro exI [of _ w'] exI [of _ c']) (simp add: algebra_simps)
  qed
qed

text \<open>What is still needed of a list of pointers written back: all of them valid.\<close>

lemma rel_load_with_slots:
  assumes "cpb_consistent mem s" "parts_in_device dsize s" "length vs = cpb_count s"
    "\<forall>v \<in> set vs. cpb_live v \<longrightarrow> check_cpb_entry (spt s) v = 0"
    "t = (with_slots s vs)\<lparr>world := w\<rparr>" "cpb_synced mem t" "ok w" "dsize w = dsize (world s)"
  shows "\<exists>s'. load_cpb hal t = Some (0, s') \<and> ok (world s') \<and> dsize (world s') = dsize (world s)"
proof -
  have inv: "cpb_inv s" "cpb_layout s" "cpb_valid (spt s) (cpb s)" using assms(1) by (simp_all add: cpb_consistent_def)
  have c: "length (cpb s) = CPB_SIZE" "cpb_count s \<le> 508" using inv(1) by (simp_all add: cpb_inv_def)
  have sl: "slots_of_bytes (cpb t) = vs"
    using slots_with_slots [OF inv(1) assms(3)] assms(5) by (simp add: slots_def)
  have "cpb_valid (spt t) (cpb t)" "length (cpb t) = CPB_SIZE"
    using assms(3,4,5) inv(3) c sl by (simp_all add: cpb_valid_def with_slots_header)
  moreover have "cpb_layout t" "parts_in_device dsize t"
    using assms(2,5,8) inv(2) cpb_layout_cong [of t s] parts_in_device_cong [of t s dsize] by simp_all
  ultimately show ?thesis using rel_load_cpb [of t] assms(5-8) by auto
qed

lemma rel_priority_add:
  assumes "ok (world s)" and con: "cpb_consistent mem s" and dev: "parts_in_device dsize s"
    and p: "\<not> bad_part p s" "p < 2 ^ 31"
  defines "off \<equiv> p_offset (partition (spt s) ! nat p)"
  assumes entry: "cpb_live off \<longrightarrow> check_cpb_entry (spt s) off = 0" and room: "add_slot off (slots s) \<noteq> None"
  shows "\<exists>s'. priority_add hal p s = Some (0, s') \<and> ok (world s') \<and> dsize (world s') = dsize (world s)"
proof -
  have inv: "cpb_inv s" and lay: "cpb_layout s" and val: "cpb_valid (spt s) (cpb s)"
    using con by (simp_all add: cpb_consistent_def)
  have c: "length (cpb s) = CPB_SIZE" "cpb_count s \<le> 508" using inv by (simp_all add: cpb_inv_def)
  note L = cpb_layout_parts [OF lay]
  note ul = priority_add_list [OF inv L(3) p, folded off_def]
  have old: "\<forall>v \<in> set (slots s). cpb_live v \<longrightarrow> check_cpb_entry (spt s) v = 0"
    using val by (simp add: cpb_valid_def slots_def)
  have P: "cpb_parts (spt s) = filter (is_cpb_part (spt s)) [0..<unat (partitions (spt s))]" by (simp add: cpb_parts_def)
  have fit: "part_fits t x \<and> in_device dsize t (part_addr t x) (part_len t x) \<and> int CPB_SIZE \<le> part_len t x"
    if "x \<in> set (cpb_parts (spt s))" "spt t = spt s" "mtd_part_offset t = mtd_part_offset s" "world t = world s" for t x
    using dev that L(5) [OF that(1)] part_fits_cong [OF that(2,3)] by (simp add: parts_in_device_def in_device_def)
  have wt: "length (cpb (with_slots s vs)) = CPB_SIZE" if "length vs = cpb_count s" for vs
    using that c by (simp add: with_slots_header)
  show ?thesis
  proof (cases "find (\<lambda>x. slots s ! x = ERASED_ENTRY) [0..<cpb_count s]")
    case (Some x)
    then have x: "x < cpb_count s" "slots s ! x = ERASED_ENTRY" using find_upt_SomeD [OF Some] by auto
    let ?vs = "(slots s)[x := off]" and ?n = "[0..<unat (partitions (spt s))]"
    let ?t = "with_slots s ?vs"
    have xs: "\<not> uint (word_of_int (int x) :: u32) > uint (cpb_image_ptr_slots (cpb s))"
    proof -
      have "uint (word_of_int (int x) :: u32) = int x"
        by (rule uint_of_int_small) (use x(1) c(2) in simp_all)
      moreover have "x < unat (cpb_image_ptr_slots (cpb s))" using x(1) by (simp add: cpb_count_def)
      ultimately show ?thesis using uint_nat [of "cpb_image_ptr_slots (cpb s)"] by linarith
    qed
    have "\<exists>w'. update_cpb_loop hal ?n 0 ?t =
        Some (if 0 + int (length (cpb_parts (spt s))) \<noteq> 2 then - EADDRNOTAVAIL else 0, ?t\<lparr>world := w'\<rparr>) \<and>
        ok w' \<and> dsize w' = dsize (world ?t)"
      by (rule rel_update_cpb_loop) (use assms(1) L(3) wt P fit in simp_all)
    then obtain w where loop: "update_cpb_loop hal ?n 0 ?t = Some (0, ?t\<lparr>world := w\<rparr>)" "ok w" "dsize w = dsize (world s)"
      using L(1) by auto
    have u: "update_cpb hal (int x) off s = Some (0, ?t\<lparr>world := w\<rparr>)"
      using xs get_cpb_slot_nth [OF inv x(1)] set_cpb_slot_update [OF inv x(1), of off] x(2) L(2) loop(1)
      by (simp add: update_cpb_def)
    have sy: "cpb_synced mem (?t\<lparr>world := w\<rparr>)" using update_cpb_spec [OF u con x(1)] by blast
    have "\<forall>v \<in> set ?vs. cpb_live v \<longrightarrow> check_cpb_entry (spt s) v = 0"
      using old entry set_update_subset_insert [of "slots s" x off] by blast
    from rel_load_with_slots [OF con dev _ this refl sy loop(2,3)] show ?thesis
      using Some u by (simp add: ul)
  next
    case None
    then have lt: "length (live s) < cpb_count s" using room by (simp add: add_slot_def Let_def live_def split: if_splits)
    let ?vs = "live s @ off # replicate (cpb_count s - length (live s) - 1) ERASED_ENTRY"
    let ?t = "with_slots s ?vs" and ?n = "[0..<unat (partitions (spt s))]"
    have lv: "length ?vs = cpb_count s" using lt by simp
    have "\<exists>w' c. writeback_cpb_loop hal ?n 0 ?t =
        Some (if 0 + int (length (cpb_parts (spt s))) \<noteq> 2 then - EADDRNOTAVAIL else 0, ?t\<lparr>cpb := c, world := w'\<rparr>) \<and>
        ok w' \<and> dsize w' = dsize (world ?t)"
      by (rule rel_writeback_cpb_loop) (use assms(1) L(3) wt [OF lv] P fit in simp_all)
    then obtain w c' where "writeback_cpb_loop hal ?n 0 ?t = Some (0, ?t\<lparr>cpb := c', world := w\<rparr>)" "ok w" "dsize w = dsize (world s)"
      using L(1) by auto
    then have wb: "writeback_cpb hal ?t = Some (0, ?t\<lparr>cpb := c', world := w\<rparr>)" "ok w" "dsize w = dsize (world s)"
      using L(2) by (simp_all add: writeback_cpb_def)
    have k: "cpb_layout ?t" "cpb_magic_number (cpb ?t) = CPB_MAGIC_NUMBER"
      using lay cpb_layout_cong [of ?t s] val lv c by (simp_all add: with_slots_header cpb_valid_def)
    from writeback_cpb_spec [OF wb(1) k(1) wt [OF lv] k(2)] obtain v d where
      e: "?t\<lparr>cpb := c', world := w\<rparr> = ?t\<lparr>cpb := d, world := v\<rparr>" "d = cpb ?t"
      and sy: "\<forall>x \<in> set (cpb_parts (spt ?t)). part_copy mem (?t\<lparr>cpb := c', world := w\<rparr>) x = cpb ?t" by blast
    have c': "c' = cpb ?t" using arg_cong [OF e(1), of cpb] e(2) by simp
    have "\<forall>v \<in> set ?vs. cpb_live v \<longrightarrow> check_cpb_entry (spt s) v = 0"
      using old entry by (auto simp: live_def cpb_live_def)
    moreover have "cpb_synced mem (?t\<lparr>world := w\<rparr>)" using sy c' by (simp add: cpb_synced_def)
    ultimately show ?thesis
      using rel_load_with_slots [OF con dev lv _ refl _ wb(2,3)] None lt wb(1) c' by (simp add: ul)
  qed
qed

end

end
