(* ===== verification/Rsu_Backup_Ok.thy ===== *)
theory Rsu_Backup_Ok
  imports Rsu_Backup Rsu_Cpb_Total
begin

text \<open>
  What saving and restoring achieve: a saved image restored later brings both copies in flash back
  to the saved bytes.
\<close>

lemma u32_at_take: "off + 4 \<le> n \<Longrightarrow> u32_at (take n d) off = u32_at d off"
  by (simp add: u32_at_def chunk_def drop_take min_def)

section \<open>What loading the CPB leaves alone\<close>

text \<open>The members of the database that no access to a partition changes.\<close>

definition same_static :: "('w, 'z) ops_scheme \<Rightarrow> ('w, 'z) ops_scheme \<Rightarrow> bool" where
  "same_static s t \<longleftrightarrow> spt t = spt s \<and> mtd_part_offset t = mtd_part_offset s \<and> spt_addr t = spt_addr s \<and>
     spt_corrupted t = spt_corrupted s"

lemma same_static_refl [simp]: "same_static s s"
  by (simp add: same_static_def)

lemma same_static_trans: "same_static s t \<Longrightarrow> same_static t u \<Longrightarrow> same_static s u"
  by (simp add: same_static_def)

lemma same_static_update [simp]:
  "same_static s (s\<lparr>world := w\<rparr>)" "same_static s (s\<lparr>cpb := c\<rparr>)" "same_static s (s\<lparr>cpb_slots := p\<rparr>)"
  "same_static s (s\<lparr>cpb_corrupted := b\<rparr>)" "same_static s (s\<lparr>cpb0_part := i\<rparr>)" "same_static s (s\<lparr>cpb1_part := i\<rparr>)"
  "same_static s (set_cpb_slots s)"
  by (simp_all add: same_static_def set_cpb_slots_def)

lemma read_dev_static: "read_dev hal a b n s = Some (r, d, t) \<Longrightarrow> same_static s t"
  by (auto simp: read_dev_def Option.bind_eq_Some_conv split: option.splits if_splits)

lemma write_dev_static: "write_dev hal a b n s = Some (r, t) \<Longrightarrow> same_static s t"
  by (auto simp: write_dev_def Option.bind_eq_Some_conv split: option.splits if_splits)

lemma erase_dev_static: "erase_dev hal a n s = Some (r, t) \<Longrightarrow> same_static s t"
  by (auto simp: erase_dev_def Option.bind_eq_Some_conv split: if_splits)

lemma read_part_static: "read_part hal p off b n s = Some (r, d, t) \<Longrightarrow> same_static s t"
  by (auto simp: read_part_def Option.bind_eq_Some_conv split: option.splits if_splits dest: read_dev_static)

lemma write_part_static: "write_part hal p off b n s = Some (r, t) \<Longrightarrow> same_static s t"
  by (auto simp: write_part_def Option.bind_eq_Some_conv split: option.splits if_splits dest: write_dev_static)

lemma erase_part_static: "erase_part hal p s = Some (r, t) \<Longrightarrow> same_static s t"
  by (auto simp: erase_part_def Option.bind_eq_Some_conv split: if_splits dest: erase_dev_static)

lemma read_cpb_static: "read_cpb hal p s = Some (r, t) \<Longrightarrow> same_static s t"
  by (auto simp: read_cpb_def Option.bind_eq_Some_conv intro: same_static_trans dest: read_part_static)

lemma cpb_good_static: "cpb_good hal p s = Some (g, t) \<Longrightarrow> same_static s t"
  by (auto simp: cpb_good_def Let_def Option.bind_eq_Some_conv intro: same_static_trans split: if_splits dest: read_cpb_static)

lemma check_both_cpb_static: "check_both_cpb hal s = Some (r, t) \<Longrightarrow> same_static s t"
  unfolding check_both_cpb_def
  by (auto simp: Let_def Option.bind_eq_Some_conv dest!: read_part_static intro: same_static_trans
      split: prod.splits option.splits if_splits) (simp_all add: same_static_def)

lemma restore_cpb_static: "restore_cpb hal p s = Some (r, t) \<Longrightarrow> same_static s t"
  unfolding restore_cpb_def Let_def
  by (auto simp: Option.bind_eq_Some_conv dest!: erase_part_static write_part_static
      split: if_splits) (auto simp: same_static_def set_cpb_slots_def)

lemma find_cpb_parts_static: "same_static s (find_cpb_parts s xs)"
proof (induction xs arbitrary: s)
  case (Cons x xs)
  show ?case
    by (auto simp: Let_def intro: same_static_trans [OF _ Cons.IH])
qed simp

lemma load_cpb_decide_static: "load_cpb_decide hal a b s = Some (r, t) \<Longrightarrow> same_static s t"
  unfolding load_cpb_decide_def
  by (auto simp: Option.bind_eq_Some_conv dest!: check_both_cpb_static restore_cpb_static read_cpb_static
      intro: same_static_trans split: if_splits)

lemma load_cpb_static:
  assumes "load_cpb hal s = Some (r, t)" shows "same_static s t"
proof (cases "unat (partitions (spt s)) > SPT_MAX_PARTITIONS")
  case True
  with assms show ?thesis by (simp add: load_cpb_def)
next
  case n: False
  obtain r0 info w0 where st: "mbox_get_rsu_status hal (world s) = (r0, info, w0)" by (metis prod_cases3)
  let ?s0 = "s\<lparr>world := w0, cpb0_part := - 1, cpb1_part := - 1\<rparr>"
  let ?s1 = "find_cpb_parts ?s0 [0..<unat (partitions (spt s))]"
  have s0: "same_static s ?s0" by (simp add: same_static_def)
  have s1: "same_static s ?s1" by (rule same_static_trans [OF s0 find_cpb_parts_static])
  consider "r0 \<noteq> 0" | (corrupt) "r0 = 0" "\<not> cpb_fixed s \<and> st_state info = STATE_CPB0_CPB1_CORRUPTED"
    | (missing) "r0 = 0" "cpb0_part ?s1 > partitions (spt s) \<or> cpb1_part ?s1 > partitions (spt s)"
    | (go) "r0 = 0" "\<not> (\<not> cpb_fixed s \<and> st_state info = STATE_CPB0_CPB1_CORRUPTED)"
        "\<not> (cpb0_part ?s1 > partitions (spt s) \<or> cpb1_part ?s1 > partitions (spt s))" by blast
  then show ?thesis
  proof cases
    case corrupt
    with assms n st show ?thesis by (auto simp: load_cpb_def same_static_def)
  next
    case missing
    have "spt ?s1 = spt s" using s1 by (simp add: same_static_def)
    with missing assms n st s1 show ?thesis
      by (auto simp: load_cpb_def Let_def same_static_def split: if_splits)
  next
    case go
    define c0 where "c0 \<longleftrightarrow> \<not> cpb_fixed s \<and> st_state info = STATE_CPB0_CORRUPTED"
    have "spt ?s1 = spt s" using s1 by (simp add: same_static_def)
    then have run: "do {
        (g1, s) \<leftarrow> cpb_good hal (cpb1_part ?s1) ?s1;
        (g0, s) \<leftarrow> (if \<not> c0 then cpb_good hal (cpb0_part s) s else Some (False, s));
        load_cpb_decide hal g0 g1 s
      } = Some (r, t)"
      using assms n st go unfolding c0_def load_cpb_decide_def by (simp add: load_cpb_def Let_def)
    obtain g1 sA where A: "cpb_good hal (cpb1_part ?s1) ?s1 = Some (g1, sA)"
      using run by (auto simp: Option.bind_eq_Some_conv)
    obtain g0 sB where B: "(if \<not> c0 then cpb_good hal (cpb0_part sA) sA else Some (False, sA)) = Some (g0, sB)"
      and D: "load_cpb_decide hal g0 g1 sB = Some (r, t)"
      using run A by (auto simp: Option.bind_eq_Some_conv [of "if \<not> c0 then _ else _"])
    have "same_static sA sB" using B by (auto split: if_splits dest: cpb_good_static)
    with cpb_good_static [OF A] s1 load_cpb_decide_static [OF D] show ?thesis
      by (meson same_static_trans)
  qed (use assms n st in \<open>auto simp: load_cpb_def\<close>)
qed

context nor_flash begin

text \<open>Whatever it returns, \<^const>\<open>load_cpb\<close> changes flash in the two CPB partitions only.\<close>

lemma load_cpb_frame:
  assumes run: "load_cpb hal s = Some (r, s')" and lay: "cpb_layout s" and l: "length (cpb s) = CPB_SIZE"
    and a: "a \<notin> (\<Union>x \<in> set (cpb_parts (spt s)). part_range s x)"
  shows "mem (world s') a = mem (world s) a"
  using run lay l
proof (cases rule: load_cpb_scan)
  case (scanned x0 x1 g0 g1 s2)
  have parts: "set (cpb_parts (spt s)) = {x0, x1}" "x0 \<noteq> x1"
    using cpb_parts_two [OF _ scanned(1,2,3,4)] lay by (simp_all add: cpb_layout_def)
  have ad: "part_addr t x = part_addr s x" "part_len t x = part_len s x"
    if "spt t = spt s" "mtd_part_offset t = mtd_part_offset s" for t :: "'a ops" and x
    using that by (simp_all add: part_addr_def part_len_def)
  have len: "part_len s x < 2 ^ 31" if "x \<in> {x0, x1}" for x using lay that parts by (auto simp: cpb_layout_def)
  have rst: "mem (world s') a = mem (world t) a"
    if r: "restore_cpb hal p t = Some (r, s')" and "spt t = spt s" "mtd_part_offset t = mtd_part_offset s"
      "sint p = int x" "x \<in> {x0, x1}" "length (cpb t) = CPB_SIZE" "cpb_magic_number (cpb t) = CPB_MAGIC_NUMBER" for p t x
  proof -
    have "part_len t x < 2 ^ 31" using len that(5) ad [OF that(2,3)] by simp
    with r that(6,7,4) obtain w' c q where "s' = t\<lparr>cpb := c, cpb_slots := q, world := w'\<rparr>"
      "\<And>a. a < part_addr t x \<or> part_addr t x + part_len t x \<le> a \<Longrightarrow> mem w' a = mem (world t) a"
      by (rule restore_cpb_spec) blast
    moreover have "a < part_addr s x \<or> part_addr s x + part_len s x \<le> a"
      using a that(5) parts(1) by (auto simp: part_range_def)
    ultimately show ?thesis using ad [OF that(2,3)] by simp
  qed
  show ?thesis
  proof (cases g0)
    case True
    note v0 = scanned(12) [OF True]
    show ?thesis
    proof (cases g1)
      case True
      obtain q sB where cb: "check_both_cpb hal s2 = Some (q, sB)"
        using scanned(13) True \<open>g0\<close> by (auto simp: load_cpb_decide_def Option.bind_eq_Some_conv)
      from cb scanned(5,6) obtain w' where "sB = s2\<lparr>world := w'\<rparr>" "mem w' = mem (world s2)"
        by (rule check_both_cpb_spec) blast
      then show ?thesis using scanned(13,9) True \<open>g0\<close> cb
        by (auto simp: load_cpb_decide_def set_cpb_slots_def split: if_splits)
    next
      case False
      have "restore_cpb hal (cpb1_part s2) s2 = Some (r, s')" using scanned(13) False \<open>g0\<close> by (simp add: load_cpb_decide_def)
      from rst [OF this scanned(7,8,6)] show ?thesis using scanned(9,10) v0 cpb_valid_magic by auto
    qed
  next
    case g0: False
    show ?thesis
    proof (cases g1)
      case False
      then show ?thesis using scanned(13,9) g0 by (auto simp: load_cpb_decide_def)
    next
      case True
      note v1 = scanned(11) [OF True]
      obtain q sC where rd: "read_cpb hal (cpb1_part s2) s2 = Some (q, sC)"
        using scanned(13) g0 True by (auto simp: load_cpb_decide_def Option.bind_eq_Some_conv)
      from rd scanned(10,6) obtain w' c where sC: "sC = s2\<lparr>cpb := c, world := w'\<rparr>" "mem w' = mem (world s2)"
        "length c = CPB_SIZE" by (rule read_cpb_spec) blast
      show ?thesis
      proof (cases "restore_cpb hal (cpb0_part sC) sC = Some (r, s')")
        case R: True
        show ?thesis
        proof (cases "cpb_magic_number (cpb sC) = CPB_MAGIC_NUMBER")
          case True
          from rst [OF R _ _ _ _ _ True, of x0] show ?thesis using scanned(5,7,8,9) sC by auto
        next
          case False
          then show ?thesis using scanned(13,9) g0 \<open>g1\<close> rd sC by (auto simp: load_cpb_decide_def split: if_splits)
        qed
      next
        case False
        then have "s' = sC" using scanned(13) g0 True rd by (auto simp: load_cpb_decide_def split: if_splits)
        then show ?thesis using sC scanned(9) by simp
      qed
    qed
  qed
qed simp

end

section \<open>Restoring the SPT\<close>

lemma spt_part_no_cpb: "is_spt_part t x \<Longrightarrow> \<not> is_cpb_part t x"
  using critical_names_distinct by (auto simp: is_spt_part_def is_cpb_part_def)

lemma load_spt0_offset_run:
  "load_spt0_offset s = (0, t) \<Longrightarrow>
   t = s\<lparr>mtd_part_offset := spt0_mtd_offset (spt s) (spt0_address (spt_addr s))\<rparr>"
  by (auto simp: load_spt0_offset_def spt0_mtd_offset_def Let_def split: if_splits option.splits)

text \<open>
  The database with the table of an image, and what an image must be: a valid table whose copies
  and CPB partitions lie where they should, apart from each other.
\<close>

definition image_state :: "byte list \<Rightarrow> 'w ops \<Rightarrow> 'w ops" where
  "image_state d s = (let t = spt_of_bytes (take SPT_SIZE d) in
     s\<lparr>spt := t, mtd_part_offset := spt0_mtd_offset t (spt0_address (spt_addr s))\<rparr>)"

definition restorable :: "'w librsu_ll_intf \<Rightarrow> byte list \<Rightarrow> 'w ops \<Rightarrow> bool" where
  "restorable hal d s \<longleftrightarrow> SPT_SIZE \<le> length d \<and> spt_placed (image_state d s) \<and> cpb_layout (image_state d s) \<and>
     checksum_ok hal (spt (image_state d s)) \<and>
     (\<forall>x \<in> set (spt_parts (spt (image_state d s))). int SPT_SIZE \<le> part_len (image_state d s) x) \<and>
     ranges_disjoint (image_state d s) (set (spt_parts (spt (image_state d s))) \<union> set (cpb_parts (spt (image_state d s))))"

lemma fresh_spt_checksum_ok: "checksum_ok hal t \<Longrightarrow> fresh_spt hal t = t"
  by (cases t) (auto simp: checksum_ok_def fresh_spt_def dest: arg_cong [of _ _ swap_endian32])

context nor_flash begin

lemma install_spt_ok:
  assumes run: "install_spt hal d s = Some (0, s')" and rs: "restorable hal d s"
    and magic: "u32_at d 0 = SPT_MAGIC_NUMBER" and l: "length (cpb s) = CPB_SIZE"
  shows "spt0_copy mem s' = take SPT_SIZE d \<and> spt1_copy mem s' = take SPT_SIZE d \<and>
    spt s' = spt_of_bytes (take SPT_SIZE d) \<and> \<not> spt_corrupted s'"
proof -
  let ?u = "image_state d s" and ?b = "take SPT_SIZE d"
  have lb: "length ?b = 4096" and pl: "spt_placed ?u" and lay: "cpb_layout ?u" and ck: "checksum_ok hal (spt ?u)"
    and rd: "ranges_disjoint ?u (set (spt_parts (spt ?u)) \<union> set (cpb_parts (spt ?u)))"
    using rs by (auto simp: restorable_def)
  have u: "spt ?u = spt_of_bytes ?b" "spt_addr ?u = spt_addr s" "cpb ?u = cpb s" "world ?u = world s"
    by (simp_all add: image_state_def Let_def)
  have "u32_at ?b 0 = u32_at d 0" using lb by (simp add: u32_at_def chunk_def)
  then have mg: "magic_number (spt ?u) = SPT_MAGIC_NUMBER" using magic u(1) by (simp add: spt_of_bytes_def)
  have wf: "wf_spt (spt ?u)" "unat (partitions (spt ?u)) \<le> 127" using lay by (simp_all add: cpb_layout_def spt_ok_def)
  have fr: "fresh_spt hal (spt ?u) = spt ?u" using ck by (rule fresh_spt_checksum_ok)
  have by_: "spt_bytes (spt ?u) = ?b" using lb u(1) by (simp add: spt_bytes_spt_of_bytes)
  obtain x y where xy: "set (spt_parts (spt ?u)) = {x, y}" "part_addr ?u x = sint (spt0_address (spt_addr ?u))"
    "part_addr ?u y = sint (spt1_address (spt_addr ?u))" "part_len ?u x < 2 ^ 31" "part_len ?u y < 2 ^ 31"
    by (rule spt_placed_parts [OF pl]) (use wf in \<open>auto simp: wf_spt_def\<close>)
  have "load_spt0_offset (s\<lparr>spt := spt_of_bytes ?b\<rparr>) = (0, ?u)"
  proof -
    obtain e v where e: "load_spt0_offset (s\<lparr>spt := spt_of_bytes ?b\<rparr>) = (e, v)" by fastforce
    with run have "e = 0" by (auto simp: install_spt_def Let_def split: if_splits)
    with load_spt0_offset_run [of "s\<lparr>spt := spt_of_bytes ?b\<rparr>" v] e show ?thesis
      by (simp add: image_state_def Let_def)
  qed
  with run obtain r v q where w: "writeback_spt hal ?u = Some (r, v)" and r: "r = 0"
    and c: "load_cpb hal (v\<lparr>spt_corrupted := False, cpb_corrupted := False\<rparr>) = Some (q, s')"
    by (auto simp: install_spt_def Let_def Option.bind_eq_Some_conv split: if_splits)
  have "ranges_disjoint ?u (set (spt_parts (spt ?u)))" using rd by (auto simp: ranges_disjoint_def)
  moreover have "part_len ?u z < 2 ^ 31" if "z \<in> set (spt_parts (spt ?u))" for z using that xy by auto
  ultimately have W: "\<exists>t w. v = ?u\<lparr>spt := t, world := w\<rparr>" "spt v = spt ?u"
    "\<And>z. z \<in> {x, y} \<Longrightarrow> region (mem (world v)) (part_addr ?u z) SPT_SIZE = ?b"
    using writeback_spt_spec [OF w wf(1) mg] r fr by_ xy(1) by auto
  have long: "int SPT_SIZE \<le> part_len ?u z" if "z \<in> {x, y}" for z
    using rs that xy(1) by (auto simp: restorable_def)
  let ?v = "v\<lparr>spt_corrupted := False, cpb_corrupted := False\<rparr>"
  have v: "spt ?v = spt ?u" "mtd_part_offset ?v = mtd_part_offset ?u" "spt_addr ?v = spt_addr ?u" "cpb ?v = cpb ?u"
    using W by auto
  have layv: "cpb_layout ?v" using lay cpb_layout_cong [OF v(1,2)] by simp
  have lv: "length (cpb ?v) = CPB_SIZE" using l u(3) v(4) by simp
  have pr: "part_range ?v z = part_range ?u z" for z
    using v(1,2) by (simp add: part_range_def part_addr_def part_len_def)
  have keep: "region (mem (world s')) (part_addr ?u z) SPT_SIZE = ?b" if z: "z \<in> {x, y}" for z
  proof -
    have "region (mem (world s')) (part_addr ?u z) SPT_SIZE = region (mem (world ?v)) (part_addr ?u z) SPT_SIZE"
    proof (rule region_frame)
      fix a assume "a \<in> {part_addr ?u z..<part_addr ?u z + int SPT_SIZE}"
      then have "a \<in> part_range ?u z" using long [OF z] by (auto simp: part_range_def)
      moreover have "z \<in> set (spt_parts (spt ?u))" using z xy(1) by simp
      then have "z \<notin> set (cpb_parts (spt ?u))" using spt_part_no_cpb by (simp add: spt_parts_def cpb_parts_def)
      ultimately have "a \<notin> (\<Union>x \<in> set (cpb_parts (spt ?v)). part_range ?v x)"
        using rd z xy(1) unfolding ranges_disjoint_def pr v(1) by (metis (no_types, lifting) IntI UN_E UnCI empty_iff)
      then show "mem (world s') a = mem (world ?v) a" by (rule load_cpb_frame [OF c layv lv])
    qed
    then show ?thesis using W(3) [OF z] by simp
  qed
  have "same_static ?v s'" by (rule load_cpb_static [OF c])
  then show ?thesis using keep [of x] keep [of y] xy u v by (simp add: same_static_def spt0_copy_def spt1_copy_def)
qed

text \<open>A saved image passes the checks of the restore.\<close>

lemma save_spt_to_buf_ok:
  assumes run: "save_spt_to_buf hal (Some b) n s = Some (0, Some d, s')"
  shows "mem (world s') = mem (world s) \<and> length d = length b \<and> n \<le> length d \<and> SPT_SIZE + 4 \<le> n \<and>
    take SPT_SIZE d = spt0_copy mem s \<and> u32_at d SPT_SIZE = rsu_crc32 hal 0 (take SPT_SIZE d)"
proof -
  have n: "SPT_SIZE + 4 \<le> n" "n \<le> length b" using run by (auto simp: save_spt_to_buf_def split: if_splits)
  then obtain r b1 where rd: "read_dev hal (sint (spt0_address (spt_addr s))) (Some b) (int SPT_SIZE) s = Some (r, b1, s')"
    and r: "\<not> r < 0" and d: "d = overlay b1 SPT_SIZE (le_bytes 4 (rsu_crc32 hal 0 (take SPT_SIZE b1)))"
    using run by (auto simp: save_spt_to_buf_def Option.bind_eq_Some_conv split: if_splits)
  from rd obtain w' where w: "s' = s\<lparr>world := w'\<rparr>" "mem w' = mem (world s)" "length b1 = length b"
    and b1: "r = 0 \<Longrightarrow> 0 < int SPT_SIZE \<and> nat (int SPT_SIZE) \<le> length b \<and>
      b1 = region (mem (world s)) (sint (spt0_address (spt_addr s))) (nat (int SPT_SIZE)) @ drop (nat (int SPT_SIZE)) b"
    by (rule read_dev_spec) simp_all
  have "(0 :: int) \<le> int SPT_SIZE" "int SPT_SIZE < (2 :: int) ^ 64" by simp_all
  with rd have "r \<le> 0"
    by (cases rule: read_dev_cases) (auto dest: read_ret)
  with r have "r = 0" by simp
  from b1 [OF this] have "take SPT_SIZE b1 = spt0_copy mem s" by (simp add: spt0_copy_def)
  moreover have "take SPT_SIZE d = take SPT_SIZE b1" using d n w(3) by (simp add: overlay_def)
  moreover have "u32_at d SPT_SIZE = rsu_crc32 hal 0 (take SPT_SIZE b1)"
    unfolding d by (rule u32_at_overlay_same) (use n w(3) in simp)
  ultimately show ?thesis using n w d by simp
qed

lemma spt_backup_roundtrip:
  assumes save: "save_spt_to_buf hal (Some b) n s = Some (0, Some d, s1)"
    and restore: "restore_spt_from_buf hal (Some d) n t = Some (r, t')"
    and valid: "spt_valid hal (spt0_copy mem s)" and rs: "restorable hal d t" and l: "length (cpb t) = CPB_SIZE"
  shows "restore_spt_from_buf hal (Some d) n t = install_spt hal d t \<and>
    (r = 0 \<longrightarrow> spt0_copy mem t' = spt0_copy mem s \<and> spt1_copy mem t' = spt0_copy mem s \<and> \<not> spt_corrupted t')"
proof -
  note sv = save_spt_to_buf_ok [OF save]
  have "u32_at d 0 = u32_at (take SPT_SIZE d) 0" by (simp add: u32_at_take)
  also have "\<dots> = SPT_MAGIC_NUMBER" using valid sv by (simp add: spt_valid_def Let_def spt_of_bytes_def)
  finally have m: "u32_at d 0 = SPT_MAGIC_NUMBER" .
  then have i: "restore_spt_from_buf hal (Some d) n t = install_spt hal d t"
    using sv by (auto simp: restore_spt_from_buf_def)
  show ?thesis
  proof (cases "r = 0")
    case True
    then have "install_spt hal d t = Some (0, t')" using restore i by simp
    from install_spt_ok [OF this rs m l] show ?thesis using i sv by simp
  qed (use i in simp)
qed

section \<open>Restoring the CPB\<close>

lemma save_cpb_to_buf_ok:
  assumes run: "save_cpb_to_buf hal (Some b) n s = Some (0, Some d, s')" and x: "sint (cpb0_part s) = int x"
  shows "mem (world s') = mem (world s) \<and> length d = length b \<and> n \<le> length d \<and> CPB_SIZE + 4 \<le> n \<and>
    take CPB_SIZE d = part_copy mem s x \<and> u32_at d CPB_SIZE = rsu_crc32 hal 0 (take CPB_SIZE d)"
proof -
  have n: "CPB_SIZE + 4 \<le> n" "n \<le> length b" using run by (auto simp: save_cpb_to_buf_def split: if_splits)
  then obtain b1 where rd: "read_part hal (int x) 0 (Some b) (int CPB_SIZE) s = Some (0, b1, s')"
    and d: "d = overlay b1 CPB_SIZE (le_bytes 4 (rsu_crc32 hal 0 (take CPB_SIZE b1)))"
    using run x by (auto simp: save_cpb_to_buf_def Option.bind_eq_Some_conv split: if_splits)
  have c: "int CPB_SIZE < (2 :: int) ^ 31" by simp
  from rd c obtain w' where w: "s' = s\<lparr>world := w'\<rparr>" "mem w' = mem (world s)" "length b1 = length b"
    and b1: "(0 :: int) = 0 \<Longrightarrow> 0 \<le> int x \<and> (0 :: int) \<le> 0 \<and> 0 < int CPB_SIZE \<and> nat (int CPB_SIZE) \<le> length b \<and>
      0 + int CPB_SIZE \<le> part_len s (nat (int x)) \<and>
      b1 = region (mem (world s)) (part_addr s (nat (int x)) + 0) (nat (int CPB_SIZE)) @ drop (nat (int CPB_SIZE)) b"
    by (rule read_part_spec) blast
  have "take CPB_SIZE b1 = part_copy mem s x" using b1 by (simp add: part_copy_def)
  moreover have "take CPB_SIZE d = take CPB_SIZE b1" using d n w(3) by (simp add: overlay_def)
  moreover have "u32_at d CPB_SIZE = rsu_crc32 hal 0 (take CPB_SIZE b1)"
    unfolding d by (rule u32_at_overlay_same) (use n w(3) in simp)
  ultimately show ?thesis using n w d by simp
qed

lemma install_cpb_ok:
  assumes run: "install_cpb hal d s = Some (0, s')" and lay: "cpb_layout s" and v: "cpb_valid (spt s) (take CPB_SIZE d)"
    and l: "CPB_SIZE \<le> length d"
  shows "cpb_consistent mem s' \<and> cpb s' = take CPB_SIZE d \<and> \<not> cpb_corrupted s' \<and> cpb_fixed s' \<and> spt s' = spt s"
proof -
  let ?b = "take CPB_SIZE d"
  let ?u = "s\<lparr>cpb := ?b\<rparr>"
  have lb: "length ?b = 4096" using l by simp
  obtain v1 where w: "writeback_cpb hal ?u = Some (0, v1)"
    and s': "s' = (set_cpb_slots v1)\<lparr>cpb_corrupted := False, cpb_fixed := True\<rparr>"
    using run by (auto simp: install_cpb_def Option.bind_eq_Some_conv split: if_splits)
  have layu: "cpb_layout ?u" using lay cpb_layout_cong [of ?u s] by simp
  have "length (cpb ?u) = CPB_SIZE" "cpb_magic_number (cpb ?u) = CPB_MAGIC_NUMBER"
    using lb v cpb_valid_magic by simp_all
  from writeback_cpb_spec [OF w layu this] obtain w' c where v1: "v1 = ?u\<lparr>cpb := c, world := w'\<rparr>" "c = ?b"
    "\<forall>x \<in> set (cpb_parts (spt ?u)). part_copy mem v1 x = ?b" by auto
  have f: "cpb s' = ?b" "spt s' = spt s" "mtd_part_offset s' = mtd_part_offset s" "world s' = world v1"
    "cpb_slots s' = Some 32" "mtd_part_offset v1 = mtd_part_offset s" "spt v1 = spt s"
    using s' v1 cpb_valid_magic [OF v] by (simp_all add: set_cpb_slots_def)
  have "cpb_layout s'" using lay cpb_layout_cong [OF f(2,3)] by simp
  moreover have "cpb_inv s'" using f lb v by (simp add: cpb_inv_def cpb_count_def cpb_valid_def)
  moreover have "cpb_synced mem s'"
  proof -
    have "part_copy mem s' x = part_copy mem v1 x" for x using f by (intro part_copy_cong) simp_all
    then show ?thesis using v1(3) f by (simp add: cpb_synced_def)
  qed
  ultimately show ?thesis using f v s' by (simp add: cpb_consistent_def)
qed

lemma cpb_backup_roundtrip:
  assumes save: "save_cpb_to_buf hal (Some b) n s = Some (0, Some d, s1)" and x: "sint (cpb0_part s) = int x"
    and valid: "cpb_valid (spt t) (part_copy mem s x)" and lay: "cpb_layout t" and ok: "\<not> spt_corrupted t"
    and restore: "restore_cpb_from_buf hal (Some d) n t = Some (r, t')"
  shows "restore_cpb_from_buf hal (Some d) n t = install_cpb hal d t \<and>
    (r = 0 \<longrightarrow> cpb_consistent mem t' \<and> cpb t' = part_copy mem s x \<and> \<not> cpb_corrupted t')"
proof -
  note sv = save_cpb_to_buf_ok [OF save x]
  have "u32_at d 0 = u32_at (take CPB_SIZE d) 0" by (simp add: u32_at_take)
  also have "\<dots> = CPB_MAGIC_NUMBER" using cpb_valid_magic [OF valid] sv by (simp add: cpb_magic_number_def)
  finally have i: "restore_cpb_from_buf hal (Some d) n t = install_cpb hal d t"
    using sv ok by (auto simp: restore_cpb_from_buf_def)
  show ?thesis
  proof (cases "r = 0")
    case True
    then have "install_cpb hal d t = Some (0, t')" using restore i by simp
    from install_cpb_ok [OF this lay] show ?thesis using i sv valid by simp
  qed (use i in simp)
qed

end

end
