(* ===== verification/Rsu_Mock_Qspi.thy ===== *)
theory Rsu_Mock_Qspi
  imports Rsu_Platform
begin

text \<open>
  The platform of \<^verbatim>\<open>unit-test/test1/dependency\<close>: a static array stands for the flash
  (\<^verbatim>\<open>rsu_mock_qspi.c\<close>), the mailbox answers constants (\<^verbatim>\<open>rsu_mock_mailbox.c\<close>) and the heap is
  the C library's (\<^verbatim>\<open>rsu_malloc\<close> of \<^verbatim>\<open>RSU_osal_linux.c\<close>). It provides the flash contract:
  \<^const>\<open>nor_flash\<close> and \<^const>\<open>sized_flash\<close> are interpreted on it.

  \<open>g_arr\<close> is the static array. \<open>heap\<close> gives the outcomes of the calls of \<^verbatim>\<open>malloc\<close> still to
  come, NULL or a block of indeterminate bytes; \<open>stack\<close> is what an uninitialised
  \<^verbatim>\<open>struct mbox_status_info\<close> of the caller holds.
\<close>

record mock_world =
  g_arr :: "byte list"
  heap :: "nat \<Rightarrow> (nat \<Rightarrow> byte) option"
  stack :: mbox_status_info

definition bufferlength :: nat where
  "bufferlength = 100 * 1024"

text \<open>An access outside the array is undefined.\<close>

definition in_g_arr :: "mock_world \<Rightarrow> int \<Rightarrow> int \<Rightarrow> bool" where
  "in_g_arr w off len \<longleftrightarrow> 0 \<le> off \<and> 0 \<le> len \<and> off + len \<le> int (length (g_arr w))"

definition plat_qspi_read_mock :: "mock_world \<Rightarrow> int \<Rightarrow> byte list \<Rightarrow> (int \<times> byte list \<times> mock_world) option" where
  "plat_qspi_read_mock w off buf =
     (if in_g_arr w off (int (length buf)) then Some (0, chunk (g_arr w) (nat off) (length buf), w)
      else if buf = [] then Some (0, buf, w) else None)"

definition plat_qspi_write_mock :: "mock_world \<Rightarrow> int \<Rightarrow> byte list \<Rightarrow> (int \<times> mock_world) option" where
  "plat_qspi_write_mock w off bs =
     (if in_g_arr w off (int (length bs)) then
        Some (0, w\<lparr>g_arr := overlay (g_arr w) (nat off)
                   (map2 (AND) (chunk (g_arr w) (nat off) (length bs)) bs)\<rparr>)
      else if bs = [] then Some (0, w) else None)"

definition plat_qspi_erase_mock :: "mock_world \<Rightarrow> int \<Rightarrow> int \<Rightarrow> (int \<times> mock_world) option" where
  "plat_qspi_erase_mock w off len =
     (if in_g_arr w off len then
        Some (0, w\<lparr>g_arr := overlay (g_arr w) (nat off) (replicate (nat len) 0xFF)\<rparr>)
      else None)"

definition plat_qspi_init_mock :: "mock_world \<Rightarrow> mock_world" where
  "plat_qspi_init_mock w = w\<lparr>g_arr := replicate bufferlength 0xFF\<rparr>"

definition plat_mbox_get_rsu_status_mock :: "mock_world \<Rightarrow> int \<times> mbox_status_info \<times> mock_world" where
  "plat_mbox_get_rsu_status_mock w = (0, (stack w)\<lparr>st_version := 0x0808\<rparr>, w)"

definition plat_mbox_get_spt_addresses_mock :: "mock_world \<Rightarrow> int \<times> mbox_data_rsu_spt_address \<times> mock_world" where
  "plat_mbox_get_spt_addresses_mock w = (0, \<lparr>spt0_address = 0, spt1_address = 32 * 1024\<rparr>, w)"

definition malloc_mock :: "mock_world \<Rightarrow> nat \<Rightarrow> byte list option \<times> mock_world" where
  "malloc_mock w n =
     (map_option (\<lambda>f. map f [0..<n]) (heap w 0), w\<lparr>heap := \<lambda>i. heap w (Suc i)\<rparr>)"

text \<open>
  The platform: the remaining functions (files, DCMF queries, \<^verbatim>\<open>crc32\<close> of zlib) are those of
  \<open>base\<close>.
\<close>

definition mock_hal :: "mock_world librsu_ll_intf \<Rightarrow> mock_world librsu_ll_intf" where
  "mock_hal base = base\<lparr>
     rsu_malloc := malloc_mock,
     qspi_read := plat_qspi_read_mock,
     qspi_write := plat_qspi_write_mock,
     qspi_erase := plat_qspi_erase_mock,
     mbox_get_rsu_status := plat_mbox_get_rsu_status_mock,
     mbox_send_rsu_update := (\<lambda>w addr. (0, w)),
     mbox_get_spt_addresses := plat_mbox_get_spt_addresses_mock,
     mbox_rsu_notify := (\<lambda>w notify. (0, w))\<rparr>"

definition mock_mem :: "mock_world \<Rightarrow> int \<Rightarrow> byte" where
  "mock_mem w a = (if 0 \<le> a \<and> a < int (length (g_arr w)) then g_arr w ! nat a else 0)"

definition mock_dsize :: "mock_world \<Rightarrow> int" where
  "mock_dsize w = int (length (g_arr w))"

lemma mock_mem_heap [simp]: "mock_mem (w\<lparr>heap := h\<rparr>) = mock_mem w"
  by (simp add: mock_mem_def fun_eq_iff)

lemma region_mock:
  "0 \<le> off \<Longrightarrow> off + int n \<le> int (length (g_arr w)) \<Longrightarrow>
   region (mock_mem w) off n = chunk (g_arr w) (nat off) n"
  by (rule nth_equalityI) (auto simp: mock_mem_def nat_add_distrib)

lemma map2_programmable: "programmable old new \<Longrightarrow> map2 (AND) old new = new"
  unfolding programmable_def by (induction rule: list_all2_induct) auto

lemma write_mock_data:
  assumes "plat_qspi_write_mock w off bs = Some (r, w')"
    and "programmable (region (mock_mem w) off (length bs)) bs"
  shows "region (mock_mem w') off (length bs) = bs"
proof (cases "in_g_arr w off (int (length bs))")
  case True
  then have o: "0 \<le> off" "nat off + length bs \<le> length (g_arr w)" by (auto simp: in_g_arr_def)
  let ?d = "map2 (AND) (chunk (g_arr w) (nat off) (length bs)) bs"
  have d: "?d = bs" using assms(2) o by (simp add: region_mock map2_programmable)
  with True assms(1) have w': "w' = w\<lparr>g_arr := overlay (g_arr w) (nat off) bs\<rparr>"
    by (simp add: plat_qspi_write_mock_def)
  show ?thesis using o by (simp add: w' region_mock chunk_overlay_same)
next
  case False
  with assms show ?thesis by (auto simp: plat_qspi_write_mock_def region_def split: if_splits)
qed

lemma write_mock_frame:
  assumes "plat_qspi_write_mock w off bs = Some (r, w')"
    and "a < off \<or> off + int (length bs) \<le> a"
  shows "mock_mem w' a = mock_mem w a"
proof (cases "in_g_arr w off (int (length bs))")
  case True
  then have "nat off + length bs \<le> length (g_arr w)" "0 \<le> off" by (auto simp: in_g_arr_def)
  then show ?thesis
    using assms True by (auto simp: plat_qspi_write_mock_def mock_mem_def nth_overlay)
next
  case False
  with assms show ?thesis by (auto simp: plat_qspi_write_mock_def split: if_splits)
qed

lemma erase_mock_frame:
  assumes "plat_qspi_erase_mock w off len = Some (r, w')" and "a < off \<or> off + len \<le> a"
  shows "mock_mem w' a = mock_mem w a"
proof -
  from assms have "0 \<le> off" "0 \<le> len" "nat off + nat len \<le> length (g_arr w)"
    and "w' = w\<lparr>g_arr := overlay (g_arr w) (nat off) (replicate (nat len) 0xFF)\<rparr>"
    by (auto simp: plat_qspi_erase_mock_def in_g_arr_def split: if_splits)
  then show ?thesis using assms(2) by (auto simp: mock_mem_def nth_overlay)
qed

lemma erase_mock_data:
  assumes "plat_qspi_erase_mock w off len = Some (r, w')" and "off \<le> a" "a < off + len"
  shows "mock_mem w' a = 0xFF"
proof -
  from assms have g: "0 \<le> off" "0 \<le> len" "nat off + nat len \<le> length (g_arr w)"
    and w': "w' = w\<lparr>g_arr := overlay (g_arr w) (nat off) (replicate (nat len) 0xFF)\<rparr>"
    by (auto simp: plat_qspi_erase_mock_def in_g_arr_def split: if_splits)
  then show ?thesis using assms(2,3) by (auto simp: mock_mem_def nth_overlay)
qed

lemma erase_mock_ret: "plat_qspi_erase_mock w off len = Some (r, w') \<Longrightarrow> r \<le> 0"
  by (simp add: plat_qspi_erase_mock_def split: if_splits)

interpretation mock: nor_flash "mock_hal base" mock_mem for base
proof (unfold_locales, goal_cases)
  case (3 w off buf buf' w')
  then show ?case
    by (auto simp: mock_hal_def plat_qspi_read_mock_def in_g_arr_def region_mock split: if_splits)
qed (auto simp: mock_hal_def plat_qspi_read_mock_def in_g_arr_def malloc_mock_def
    plat_mbox_get_rsu_status_mock_def mock_mem_heap
    intro: write_mock_frame write_mock_data erase_mock_frame erase_mock_data erase_mock_ret split: if_splits)

interpretation mock: sized_flash "mock_hal base" mock_mem mock_dsize for base
  by unfold_locales
    (auto simp: mock_hal_def plat_qspi_read_mock_def plat_qspi_write_mock_def
      plat_qspi_erase_mock_def in_g_arr_def malloc_mock_def plat_mbox_get_rsu_status_mock_def
      mock_dsize_def split: if_splits)

text \<open>
  The array never fails an access; it works as long as no allocation returns NULL and the
  uninitialised status does not happen to report a corrupted CPB.
\<close>

definition mock_ok :: "mock_world \<Rightarrow> bool" where
  "mock_ok w \<longleftrightarrow> (\<forall>i. heap w i \<noteq> None) \<and>
     st_state (stack w) \<noteq> STATE_CPB0_CORRUPTED \<and> st_state (stack w) \<noteq> STATE_CPB0_CPB1_CORRUPTED"

interpretation mock: reliable_flash "mock_hal base" mock_mem mock_dsize mock_ok for base
  by unfold_locales
    (auto simp: mock_hal_def plat_qspi_read_mock_def plat_qspi_write_mock_def
      plat_qspi_erase_mock_def malloc_mock_def plat_mbox_get_rsu_status_mock_def
      mock_ok_def split: if_splits)

end
