(* ===== verification/Rsu_Spt_Commit.thy ===== *)
theory Rsu_Spt_Commit
  imports Rsu_Partition Rsu_Cpb_Total
begin

text \<open>
  The changes of the partition table on a device that works: each succeeds exactly where its
  documentation says it does. The argument has two halves, that both writers return 0 and that the
  changed table passes the checks of the load that follows.
\<close>

section \<open>The device\<close>

definition spt_in_device :: "('w \<Rightarrow> int) \<Rightarrow> 'w ops \<Rightarrow> bool" where
  "spt_in_device dsz s \<longleftrightarrow>
     in_device dsz s (sint (spt0_address (spt_addr s))) 32768 \<and> in_device dsz s (sint (spt1_address (spt_addr s))) 32768 \<and>
     sint (spt0_address (spt_addr s)) < 2 ^ 62 \<and> sint (spt1_address (spt_addr s)) < 2 ^ 62 \<and>
     (\<forall>p \<in> set (spt_entries (spt s)). int SPT_SIZE \<le> uint (p_length p) \<and>
        sint (mtd_part_offset s) \<le> sint (p_offset p) \<and>
        sint (p_offset p - mtd_part_offset s) + uint (p_length p) \<le> dsz (world s))"

lemma spt_in_device_cong:
  assumes "spt_entries t = spt_entries (spt s)" "dsz w = dsz (world s)"
  shows "spt_in_device dsz (s\<lparr>spt := t, world := w\<rparr>) = spt_in_device dsz s"
    "spt_in_device dsz (s\<lparr>spt := t\<rparr>) = spt_in_device dsz s"
  using assms by (simp_all add: spt_in_device_def in_device_def)

text \<open>A copy is a partition that fits, of at least the size of the table.\<close>

definition spt_copy_fits :: "('w \<Rightarrow> int) \<Rightarrow> 'w ops \<Rightarrow> nat \<Rightarrow> bool" where
  "spt_copy_fits dsz s x \<longleftrightarrow>
     part_fits s x \<and> in_device dsz s (part_addr s x) (part_len s x) \<and> int SPT_SIZE \<le> part_len s x"

lemma spt_copy_fits_cong:
  assumes "partition t = partition (spt s)" "partitions t = partitions (spt s)" "dsz w = dsz (world s)"
  shows "spt_copy_fits dsz (s\<lparr>spt := t, world := w\<rparr>) x = spt_copy_fits dsz s x"
    "spt_copy_fits dsz (s\<lparr>world := w, spt := t\<rparr>) x = spt_copy_fits dsz s x"
    "spt_copy_fits dsz (s\<lparr>world := w\<rparr>) x = spt_copy_fits dsz s x"
  using assms by (simp_all add: spt_copy_fits_def part_fits_def part_addr_def part_len_def in_device_def)

lemma spt_placed_fits:
  assumes "spt_base s" "spt_in_device dsz s" "x \<in> set (spt_parts (spt s))"
  shows "spt_copy_fits dsz s x"
proof -
  have n: "unat (partitions (spt s)) \<le> 127" "unat (partitions (spt s)) \<le> length (partition (spt s))"
    using assms(1) by (auto simp: spt_base_def wf_spt_def)
  have "spt_placed s" using assms(1) by (simp add: spt_base_def)
  then obtain a b where ab: "set (spt_parts (spt s)) = {a, b}" "part_addr s a = sint (spt0_address (spt_addr s))"
    "part_addr s b = sint (spt1_address (spt_addr s))" "part_len s a < 2 ^ 31" "part_len s b < 2 ^ 31"
    by (rule spt_placed_parts) (use n(2) in auto)
  have "partition (spt s) ! x \<in> set (spt_entries (spt s))"
    using assms(3) spt_entries_parts [OF n(2)] by (metis image_eqI list.set_map)
  then have e: "int SPT_SIZE \<le> part_len s x" "sint (mtd_part_offset s) \<le> sint (p_offset (partition (spt s) ! x))"
    "part_addr s x + part_len s x \<le> dsz (world s)"
    using assms(2) by (simp_all add: spt_in_device_def part_len_def part_addr_def)
  have x: "x < unat (partitions (spt s))" using assms(3) by (simp add: spt_parts_def)
  have "part_addr s x \<in> {sint (spt0_address (spt_addr s)), sint (spt1_address (spt_addr s))}" "part_len s x < 2 ^ 31"
    using ab assms(3) by auto
  then have "0 \<le> part_addr s x" "part_addr s x < 2 ^ 62"
    using assms(2) by (auto simp: spt_in_device_def in_device_def)
  then show ?thesis
    using e x n \<open>part_len s x < 2 ^ 31\<close> by (simp add: spt_copy_fits_def part_fits_def in_device_def)
qed

section \<open>The writers succeed\<close>

context reliable_flash begin

lemma rel_update_spt_checksum:
  assumes "ok (world s)" "wf_spt (spt s)"
  shows "\<exists>w'. update_spt_checksum hal s = (True, s\<lparr>spt := fresh_spt hal (spt s), world := w'\<rparr>) \<and>
    ok w' \<and> dsize w' = dsize (world s)"
proof (cases "version (spt s) > SPT_VERSION \<and> librsu_cfg_spt_checksum_enabled hal \<noteq> 0")
  case False
  then have "update_spt_checksum hal s = (True, s)" "fresh_spt hal (spt s) = spt s"
    by (simp_all only: update_spt_checksum_def fresh_spt_def if_False)
  then show ?thesis using assms by (intro exI [of _ "world s"]) simp
next
  case True
  obtain d w where m: "ops_malloc hal SPT_SIZE s = (Some d, s\<lparr>world := w\<rparr>)" "ok w" "dsize w = dsize (world s)"
    using rel_malloc [OF assms(1)] by blast
  obtain b s' where u: "update_spt_checksum hal s = (b, s')" by (metis surj_pair)
  then have b: "b" and ws: "world s' = w" using True m(1) by (auto simp: update_spt_checksum_def Let_def)
  from u assms(2) obtain w' where "s' = s\<lparr>spt := if b then fresh_spt hal (spt s) else spt s, world := w'\<rparr>"
    by (rule update_spt_checksum_spec)
  with b ws u m show ?thesis by auto
qed

lemma rel_writeback_spt_copy:
  assumes "ok (world s)" "wf_spt (spt s)" "magic_number (spt s) = SPT_MAGIC_NUMBER" "spt_copy_fits dsize s x"
  shows "\<exists>w'. writeback_spt_copy hal x s = Some (0, s\<lparr>spt := fresh_spt hal (spt s), world := w'\<rparr>) \<and>
    ok w' \<and> dsize w' = dsize (world s)"
proof -
  let ?t = "fresh_spt hal (spt s)"
  let ?u = "?t\<lparr>magic_number := 0xFFFFFFFF\<rparr>"
  have l: "length (spt_bytes ?u) = SPT_SIZE" using assms(2) by (intro length_spt_bytes) (simp add: wf_spt_def)
  have f: "part_fits s x" "in_device dsize s (part_addr s x) (part_len s x)" "int SPT_SIZE \<le> part_len s x"
    using assms(4) by (simp_all add: spt_copy_fits_def)
  have g: "wf_spt t" "part_fits (s\<lparr>spt := t, world := w\<rparr>) x"
    "in_device dsize (s\<lparr>spt := t, world := w\<rparr>) (part_addr (s\<lparr>spt := t, world := w\<rparr>) x) (part_len (s\<lparr>spt := t, world := w\<rparr>) x)"
    "int SPT_SIZE \<le> part_len (s\<lparr>spt := t, world := w\<rparr>) x"
    if "t = ?t \<or> t = ?u" "dsize w = dsize (world s)" for t w
    using that f assms(2)
    by (auto simp: part_fits_def part_addr_def part_len_def in_device_def wf_spt_def)
  obtain w1 where e: "erase_part hal (int x) s = Some (0, s\<lparr>world := w1\<rparr>)" "ok w1" "dsize w1 = dsize (world s)"
    using rel_erase_part [OF assms(1,2) f(1,2)] f(3) by auto
  obtain w2 where c: "update_spt_checksum hal (s\<lparr>world := w1\<rparr>) = (True, s\<lparr>spt := ?t, world := w2\<rparr>)"
    "ok w2" "dsize w2 = dsize (world s)"
    using rel_update_spt_checksum [of "s\<lparr>world := w1\<rparr>"] e assms(2) by auto
  obtain w3 where w3: "write_part hal (int x) 0 (Some (spt_bytes ?u)) (int SPT_SIZE) (s\<lparr>spt := ?u, world := w2\<rparr>) =
      Some (0, s\<lparr>spt := ?u, world := w3\<rparr>)" "ok w3" "dsize w3 = dsize (world s)"
    using rel_write_part [of "s\<lparr>spt := ?u, world := w2\<rparr>" x SPT_SIZE "spt_bytes ?u"] g [of ?u w2] c l by auto
  obtain w4 where w4: "write_part hal (int x) 0 (Some (le_bytes 4 SPT_MAGIC_NUMBER)) (int 4) (s\<lparr>spt := ?t, world := w3\<rparr>) =
      Some (0, s\<lparr>spt := ?t, world := w4\<rparr>)" "ok w4" "dsize w4 = dsize (world s)"
    using rel_write_part [of "s\<lparr>spt := ?t, world := w3\<rparr>" x 4 "le_bytes 4 SPT_MAGIC_NUMBER"] g [of ?t w3] w3 by auto
  have mg: "?t\<lparr>magic_number := SPT_MAGIC_NUMBER\<rparr> = ?t" using assms(3) by simp
  have sw: "s\<lparr>world := w, spt := t\<rparr> = s\<lparr>spt := t, world := w\<rparr>" for t w by simp
  show ?thesis
    using e(1) c(1) w3(1) w4 by (intro exI [of _ w4]) (simp add: writeback_spt_copy_def Let_def sw mg)
qed
lemma rel_writeback_spt_loop:
  assumes "ok (world s)" "wf_spt (spt s)" "magic_number (spt s) = SPT_MAGIC_NUMBER"
    "P = filter (is_spt_part (spt s)) xs" "\<And>x. x \<in> set P \<Longrightarrow> spt_copy_fits dsize s x"
  shows "\<exists>t w'. writeback_spt_loop hal xs u s =
      Some (if u + int (length P) \<noteq> 2 then - EADDRNOTAVAIL else 0, s\<lparr>spt := t, world := w'\<rparr>) \<and>
    ok w' \<and> dsize w' = dsize (world s)"
  using assms
proof (induction xs arbitrary: u s P)
  case Nil
  then show ?case by - (rule exI [of _ "spt s"], rule exI [of _ "world s"], simp)
next
  case (Cons x xs)
  have nm: "is_spt_part (spt s) x = (name_is (partition (spt s) ! x) ''SPT0'' \<or> name_is (partition (spt s) ! x) ''SPT1'')"
    by (simp add: is_spt_part_def)
  show ?case
  proof (cases "is_spt_part (spt s) x")
    case False
    then show ?thesis using Cons.IH [of s P u] Cons.prems nm by simp
  next
    case True
    let ?Q = "filter (is_spt_part (spt s)) xs" and ?t = "fresh_spt hal (spt s)"
    have P: "P = x # ?Q" using True Cons.prems(4) by simp
    obtain w where w: "writeback_spt_copy hal x s = Some (0, s\<lparr>spt := ?t, world := w\<rparr>)" "ok w" "dsize w = dsize (world s)"
      using rel_writeback_spt_copy [OF Cons.prems(1-3), of x] Cons.prems(5) [of x] P by auto
    let ?s = "s\<lparr>spt := ?t, world := w\<rparr>"
    have "\<exists>t w'. writeback_spt_loop hal xs (u + 1) ?s =
      Some (if u + 1 + int (length ?Q) \<noteq> 2 then - EADDRNOTAVAIL else 0, ?s\<lparr>spt := t, world := w'\<rparr>) \<and>
      ok w' \<and> dsize w' = dsize (world ?s)"
    proof (rule Cons.IH)
      show "?Q = filter (is_spt_part (spt ?s)) xs" by (simp add: is_spt_part_def [abs_def])
      show "spt_copy_fits dsize ?s y" if "y \<in> set ?Q" for y
        using Cons.prems(5) [of y] P that w(3) spt_copy_fits_cong(1) [of ?t s dsize w y] by auto
    qed (use Cons.prems(2,3) w in simp_all)
    then obtain t w' where r: "writeback_spt_loop hal xs (u + 1) ?s =
      Some (if u + 1 + int (length ?Q) \<noteq> 2 then - EADDRNOTAVAIL else 0, ?s\<lparr>spt := t, world := w'\<rparr>)"
      "ok w'" "dsize w' = dsize (world s)" using w by auto
    then show ?thesis using True w P nm by (intro exI [of _ t] exI [of _ w']) (simp add: algebra_simps)
  qed
qed

lemma rel_writeback_spt:
  assumes "ok (world s)" "spt_base s" "spt_in_device dsize s"
  shows "\<exists>s'. writeback_spt hal s = Some (0, s') \<and> ok (world s') \<and> dsize (world s') = dsize (world s)"
proof -
  have b: "wf_spt (spt s)" "magic_number (spt s) = SPT_MAGIC_NUMBER" "unat (partitions (spt s)) \<le> 127" "spt_placed s"
    using assms(2) by (simp_all add: spt_base_def)
  have "length (spt_parts (spt s)) = length (spt_entries (spt s))"
    using spt_entries_parts [of "spt s"] b by (metis length_map wf_spt_def)
  then have l: "length (spt_parts (spt s)) = 2" using b(4) by (auto simp: spt_placed_def)
  have "\<exists>t w'. writeback_spt_loop hal [0..<unat (partitions (spt s))] 0 s =
      Some (if 0 + int (length (spt_parts (spt s))) \<noteq> 2 then - EADDRNOTAVAIL else 0, s\<lparr>spt := t, world := w'\<rparr>) \<and>
    ok w' \<and> dsize w' = dsize (world s)"
    by (rule rel_writeback_spt_loop)
      (use assms b spt_placed_fits in \<open>auto simp: spt_parts_def\<close>)
  then show ?thesis using b l by (auto simp: writeback_spt_def)
qed

text \<open>Writing a table that passes the checks and loading it again succeeds.\<close>

lemma rel_commit_spt:
  assumes ok: "ok (world s)" and b: "spt_base s" and d: "spt_in_device dsize s" and v: "spt_ok (spt s)"
  shows "\<exists>s1 s'. writeback_spt hal s = Some (0, s1) \<and> load_spt hal s1 = Some (0, s')"
proof -
  let ?t = "fresh_spt hal (spt s)"
  obtain s1 where w: "writeback_spt hal s = Some (0, s1)" "ok (world s1)" "dsize (world s1) = dsize (world s)"
    using rel_writeback_spt [OF assms(1-3)] by blast
  have wf: "wf_spt (spt s)" "magic_number (spt s) = SPT_MAGIC_NUMBER" "names_terminated (spt s)"
    "unat (partitions (spt s)) \<le> 127" "spt_placed s" using b by (simp_all add: spt_base_def)
  obtain x y where xy: "set (spt_parts (spt s)) = {x, y}" "part_addr s x = sint (spt0_address (spt_addr s))"
    "part_addr s y = sint (spt1_address (spt_addr s))" "part_len s x < 2 ^ 31" "part_len s y < 2 ^ 31"
    "part_range s x \<inter> part_range s y = {}"
    by (rule spt_placed_parts [OF wf(5)]) (use wf(1,4) in \<open>auto simp: wf_spt_def\<close>)
  have rd: "ranges_disjoint s (set (spt_parts (spt s)))" and ln: "\<And>z. z \<in> set (spt_parts (spt s)) \<Longrightarrow> part_len s z < 2 ^ 31"
    using xy by (auto simp: ranges_disjoint_def)
  note ws = writeback_spt_spec [OF w(1) wf(1,2) ln rd]
  then obtain t v' where s1: "s1 = s\<lparr>spt := t, world := v'\<rparr>" by blast
  have t1: "spt s1 = ?t" and cp: "\<forall>z \<in> set (spt_parts (spt s)). region (mem (world s1)) (part_addr s z) SPT_SIZE = spt_bytes ?t"
    using ws by auto
  have c: "spt0_copy mem s1 = spt_bytes ?t" "spt1_copy mem s1 = spt_bytes ?t"
    using cp xy s1 by (auto simp: spt0_copy_def spt1_copy_def)
  have "term_names (spt s) = spt s" using wf by (simp add: term_names_terminated)
  then have val: "spt_valid hal (spt_bytes ?t)" using wf v by (intro fresh_spt_valid) simp_all
  have "wf_spt (spt s1)" using t1 wf by simp
  moreover have "in_device dsize s1 (sint (spt0_address (spt_addr s1))) 32768"
    "in_device dsize s1 (sint (spt1_address (spt_addr s1))) 32768"
    using d s1 w(3) by (simp_all add: spt_in_device_def in_device_def)
  ultimately obtain r s' where l: "load_spt hal s1 = Some (r, s')"
    "r = 0 \<longleftrightarrow> (spt_valid hal (spt0_copy mem s1) \<or> spt_valid hal (spt1_copy mem s1)) \<and>
       (spt_valid hal (spt0_copy mem s1) \<and> spt_valid hal (spt1_copy mem s1) \<longrightarrow> spt0_copy mem s1 = spt1_copy mem s1)"
    using rel_load_spt [OF w(2)] by blast
  then show ?thesis using w(1) val c by auto
qed

end

section \<open>Tables that pass the checks\<close>

lemma spt_ok_mono:
  assumes "spt_ok t" "unat (partitions t') \<le> SPT_MAX_PARTITIONS"
    "\<And>x y. x < unat (partitions t') \<Longrightarrow> y < unat (partitions t') \<Longrightarrow> x \<noteq> y \<Longrightarrow>
       \<not> same_name (partition t' ! x) (partition t' ! y) \<and> \<not> parts_overlap (partition t' ! x) (partition t' ! y)"
    "\<And>nm. nm \<in> {''SPT0'', ''SPT1'', ''CPB0'', ''CPB1''} \<Longrightarrow> has_part t nm \<Longrightarrow> has_part t' nm"
  shows "spt_ok t'"
  using assms by (simp add: spt_ok_def)

lemma spt_ok_pair:
  assumes "spt_ok t" "x < unat (partitions t)" "y < unat (partitions t)" "x \<noteq> y"
  shows "\<not> same_name (partition t ! x) (partition t ! y) \<and> \<not> parts_overlap (partition t ! x) (partition t ! y)"
  using assms by (simp add: spt_ok_def)

text \<open>A free name is the name of no entry.\<close>

lemma free_name_other:
  assumes "\<not> name_in_use t nm" "x < unat (partitions t)" "c_str (p_name e) = Some nm"
  shows "\<not> same_name (partition t ! x) e"
proof
  assume "same_name (partition t ! x) e"
  then have s: "strncmp (p_name (partition t ! x)) (p_name e) 16 = 0" by (simp add: same_name_def)
  have e1: "takeWhile (\<lambda>c. c \<noteq> 0) (p_name e) = nm" using assms(3) by (auto simp: c_str_def split: if_splits)
  then have e2: "takeWhile (\<lambda>c. c \<noteq> 0) nm = nm" by (auto dest: set_takeWhileD)
  have "strncmp (p_name (partition t ! x)) nm 16 = 0"
    using s unfolding strncmp_eq_0_iff takeWhile_take e1 e2 .
  then show False using assms(1,2) name_in_use_entry by blast
qed

text \<open>The changed tables pass the checks again.\<close>

lemma has_part_take:
  "unat (partitions t) \<le> length (partition t) \<Longrightarrow>
   has_part t nm \<longleftrightarrow> (\<exists>p \<in> set (take (unat (partitions t)) (partition t)). name_is p nm)"
  by (fastforce simp: has_part_def in_set_conv_nth)

lemma created_spt_ok:
  assumes inv: "spt_inv s" and n: "unat (partitions (spt s)) < 127"
    and nm: "strnlen nm 16 < 16" "0 \<notin> set nm" "\<not> name_in_use (spt s) nm" and sz: "uint sz < 2 ^ 32"
    and fr: "\<And>x. x < unat (partitions (spt s)) \<Longrightarrow>
      \<not> (start < part_end (partition (spt s) ! x) \<and> start + sz > p_offset (partition (spt s) ! x))"
  shows "spt_ok (created_table (spt s) nm start sz)"
proof -
  let ?n = "unat (partitions (spt s))" and ?t = "created_table (spt s) nm start sz"
  note cb = create_base [OF inv n nm, of start sz] and wf = spt_inv_wf [OF inv]
  have old: "partition ?t ! x = partition (spt s) ! x" if "x < ?n" for x
    using that by (simp add: created_table_def Let_def)
  let ?e = "partition ?t ! ?n"
  have "ucast (ucast sz :: u32) = sz"
    using sz by (intro word_uint_eqI) (simp add: unsigned_ucast_eq unsigned_take_bit_eq take_bit_int_eq_self)
  then have pe: "part_end ?e = start + sz" using cb(6,7) by (simp add: part_end_def)
  have new: "\<not> same_name (partition (spt s) ! x) ?e \<and> \<not> same_name ?e (partition (spt s) ! x) \<and>
      \<not> parts_overlap (partition (spt s) ! x) ?e \<and> \<not> parts_overlap ?e (partition (spt s) ! x)" if "x < ?n" for x
    using free_name_other [OF nm(3) that cb(4)] fr [OF that] same_name_sym [of ?e] pe cb(6)
    by (auto simp: parts_overlap_def)
  have ok: "spt_ok (spt s)" using inv by (simp add: spt_inv_def)
  show ?thesis
  proof (rule spt_ok_mono [OF ok])
    show "unat (partitions ?t) \<le> 127" using cb(3) n by simp
    fix x y assume "x < unat (partitions ?t)" "y < unat (partitions ?t)" "x \<noteq> y"
    then show "\<not> same_name (partition ?t ! x) (partition ?t ! y) \<and> \<not> parts_overlap (partition ?t ! x) (partition ?t ! y)"
      using ok new old cb(3) by (cases "x = ?n"; cases "y = ?n") (simp_all add: spt_ok_def)
  next
    fix nm' assume "has_part (spt s) nm'"
    then obtain x where "x < ?n" "name_is (partition (spt s) ! x) nm'" by (auto simp: has_part_def)
    then show "has_part ?t nm'" unfolding has_part_def using old cb(3) by (intro exI [of _ x]) simp
  qed
qed

lemma deleted_spt_ok:
  assumes inv: "spt_inv s" and k: "k < unat (partitions (spt s))"
    and ns: "\<not> is_spt_part (spt s) k" "\<not> is_cpb_part (spt s) k"
  shows "spt_ok (deleted_table (spt s) k)"
proof -
  let ?n = "unat (partitions (spt s))" and ?t = "deleted_table (spt s) k"
  let ?f = "\<lambda>i. if k \<le> i then i + 1 else i"
  note db = delete_base [OF inv k ns(1)]
  have ok: "spt_ok (spt s)" using inv by (simp add: spt_inv_def)
  show ?thesis
  proof (rule spt_ok_mono [OF ok])
    show "unat (partitions ?t) \<le> 127" using db(3) inv by (auto simp: spt_inv_def spt_base_def)
    fix x y assume xy: "x < unat (partitions ?t)" "y < unat (partitions ?t)" "x \<noteq> y"
    then have "?f x < ?n" "?f y < ?n" "?f x \<noteq> ?f y" using db(3) by auto
    then have "\<not> same_name (partition (spt s) ! ?f x) (partition (spt s) ! ?f y) \<and>
        \<not> parts_overlap (partition (spt s) ! ?f x) (partition (spt s) ! ?f y)"
      by (rule spt_ok_pair [OF ok])
    then show "\<not> same_name (partition ?t ! x) (partition ?t ! y) \<and> \<not> parts_overlap (partition ?t ! x) (partition ?t ! y)"
      using xy db(3) db(5) [of x] db(5) [of y] by simp
  next
    fix nm assume nm: "nm \<in> {''SPT0'', ''SPT1'', ''CPB0'', ''CPB1''}" "has_part (spt s) nm"
    then obtain x where x: "x < ?n" "name_is (partition (spt s) ! x) nm" by (auto simp: has_part_def)
    with nm ns have "x \<noteq> k" by (auto simp: is_spt_part_def is_cpb_part_def)
    let ?y = "if k < x then x - 1 else x"
    have "?y < ?n - 1" "?f ?y = x" using x(1) k \<open>x \<noteq> k\<close> by auto
    then show "has_part ?t nm" unfolding has_part_def using x db(3) db(5) [of ?y] by (intro exI [of _ ?y]) simp
  qed
qed

lemma renamed_spt_ok:
  assumes inv: "spt_inv s" and k: "k < unat (partitions (spt s))"
    and ns: "\<not> is_spt_part (spt s) k" "\<not> is_cpb_part (spt s) k"
    and nm: "strnlen nm 16 < 16" "0 \<notin> set nm" "\<not> name_in_use (spt s) nm"
  shows "spt_ok (set_partition (spt s) k (renamed_entry (partition (spt s) ! k) nm))"
proof -
  let ?n = "unat (partitions (spt s))" and ?e = "renamed_entry (partition (spt s) ! k) nm"
  let ?t = "set_partition (spt s) k ?e"
  note rb = rename_base [OF inv k ns(1) nm] and wf = spt_inv_wf [OF inv]
  have ok: "spt_ok (spt s)" and n: "?n \<le> 127" using inv by (simp_all add: spt_inv_def spt_base_def)
  have old: "partition ?t ! x = (if x = k then ?e else partition (spt s) ! x)" if "x < ?n" for x
    using that k n wf by (simp add: set_partition_def nth_list_update)
  have po: "parts_overlap ?e q = parts_overlap (partition (spt s) ! k) q"
    "parts_overlap q ?e = parts_overlap q (partition (spt s) ! k)" for q
    by (simp_all add: parts_overlap_def part_end_def renamed_entry_def)
  have new: "\<not> same_name (partition (spt s) ! x) ?e \<and> \<not> same_name ?e (partition (spt s) ! x)" if "x < ?n" for x
    using free_name_other [OF nm(3) that rb(3)] same_name_sym [of ?e] by simp
  show ?thesis
  proof (rule spt_ok_mono [OF ok])
    show "unat (partitions ?t) \<le> 127" using n by (simp add: set_partition_def)
    fix x y assume "x < unat (partitions ?t)" "y < unat (partitions ?t)" "x \<noteq> y"
    then have "x < ?n" "y < ?n" "x \<noteq> y" by (simp_all add: set_partition_def)
    then show "\<not> same_name (partition ?t ! x) (partition ?t ! y) \<and> \<not> parts_overlap (partition ?t ! x) (partition ?t ! y)"
      using ok new old po by (simp add: spt_ok_def)
  next
    fix nm' assume nm': "nm' \<in> {''SPT0'', ''SPT1'', ''CPB0'', ''CPB1''}" "has_part (spt s) nm'"
    then obtain x where x: "x < ?n" "name_is (partition (spt s) ! x) nm'" by (auto simp: has_part_def)
    with nm' ns have "x \<noteq> k" by (auto simp: is_spt_part_def is_cpb_part_def)
    then show "has_part ?t nm'" unfolding has_part_def using x old [OF x(1)]
      by (intro exI [of _ x]) (simp add: set_partition_def)
  qed
qed

section \<open>The operations succeed\<close>

context reliable_flash begin

lemma rel_partition_create:
  assumes "ok (world s)" "spt_inv s" "spt_in_device dsize s" "unat (partitions (spt s)) < 127"
    "strnlen nm 16 < 16" "0 \<notin> set nm" "\<not> name_in_use (spt s) nm" "uint sz < 2 ^ 32"
    "\<And>x. x < unat (partitions (spt s)) \<Longrightarrow>
      \<not> (start < part_end (partition (spt s) ! x) \<and> start + sz > p_offset (partition (spt s) ! x))"
  shows "\<exists>s'. partition_create hal nm start sz s = Some (0, s')"
proof -
  let ?s = "s\<lparr>spt := created_table (spt s) nm start sz\<rparr>"
  note cb = create_base [OF assms(2,4-7), of start sz]
  have "spt_ok (spt ?s)" using created_spt_ok [OF assms(2,4-9)] by simp
  moreover have "spt_in_device dsize ?s" using assms(3) cb(2) by (simp add: spt_in_device_cong)
  ultimately obtain s1 s' where "writeback_spt hal ?s = Some (0, s1)" "load_spt hal s1 = Some (0, s')"
    using rel_commit_spt [of ?s] assms(1) cb(1) by auto
  then show ?thesis by (subst partition_create_run [OF assms(2,6,4,5,7)]) (use assms(9) in auto)
qed

lemma rel_partition_rename:
  assumes "ok (world s)" "spt_inv s" "spt_in_device dsize s" "\<not> bad_part k s" "k < 2 ^ 31"
    "\<not> is_spt_part (spt s) (nat k)" "\<not> is_cpb_part (spt s) (nat k)"
    "strnlen nm 16 < 16" "0 \<notin> set nm" "\<not> name_in_use (spt s) nm"
  shows "\<exists>s'. partition_rename hal k nm s = Some (0, s')"
proof -
  let ?s = "s\<lparr>spt := set_partition (spt s) (nat k) (renamed_entry (partition (spt s) ! nat k) nm)\<rparr>"
  note k = bad_part_index(2) [OF assms(4,5)]
  note rb = rename_base [OF assms(2) k assms(6,8-10)]
  have "spt_ok (spt ?s)" using renamed_spt_ok [OF assms(2) k assms(6-10)] by simp
  moreover have "spt_in_device dsize ?s" using assms(3) rb(2) by (simp add: spt_in_device_cong)
  ultimately obtain s1 s' where "writeback_spt hal ?s = Some (0, s1)" "load_spt hal s1 = Some (0, s')"
    using rel_commit_spt [of ?s] assms(1) rb(1) by auto
  then show ?thesis using assms by (simp add: partition_rename_run)
qed

lemma rel_partition_delete:
  assumes "ok (world s)" "spt_inv s" "spt_in_device dsize s" "\<not> bad_part k s" "k < 2 ^ 31"
    "\<not> is_spt_part (spt s) (nat k)" "\<not> is_cpb_part (spt s) (nat k)"
  shows "\<exists>s'. partition_delete hal k s = Some (0, s')"
proof -
  let ?s = "s\<lparr>spt := deleted_table (spt s) (nat k)\<rparr>"
  note k = bad_part_index(2) [OF assms(4,5)]
  note db = delete_base [OF assms(2) k assms(6)]
  have "spt_ok (spt ?s)" using deleted_spt_ok [OF assms(2) k assms(6,7)] by simp
  moreover have "spt_in_device dsize ?s" using assms(3) db(2) by (simp add: spt_in_device_cong)
  ultimately obtain s1 s' where "writeback_spt hal ?s = Some (0, s1)" "load_spt hal s1 = Some (0, s')"
    using rel_commit_spt [of ?s] assms(1) db(1) by auto
  then show ?thesis using assms by (simp add: partition_delete_run)
qed

end

end
