(* ===== verification/Rsu_Example.thy ===== *)
theory Rsu_Example
  imports Rsu_Mock_Qspi Rsu_Spt_Commit
begin

text \<open>
  A concrete board, on which the properties with hypotheses are shown to apply: the flash of the
  unit tests (\<^verbatim>\<open>rsu_mock_qspi.c\<close>) holding a table with the four critical entries and two image
  partitions in both copies, and an empty CPB in both copies.
\<close>

section \<open>The table\<close>

definition ex_part :: "string \<Rightarrow> u64 \<Rightarrow> u32 \<Rightarrow> u32 \<Rightarrow> spt_partition" where
  "ex_part nm off len fl =
     \<lparr>p_name = chars nm @ replicate (16 - length nm) 0, p_offset = off, p_length = len, p_flags = fl\<rparr>"

definition ex_parts :: "spt_partition list" where
  "ex_parts =
     [ex_part ''SPT0'' 0 32768 1, ex_part ''SPT1'' 32768 32768 1,
      ex_part ''CPB0'' 65536 4096 1, ex_part ''CPB1'' 69632 4096 1,
      ex_part ''P1'' 73728 8192 0, ex_part ''P2'' 81920 8192 0]"

definition ex_spt :: SUB_PARTITION_TABLE where
  "ex_spt = \<lparr>magic_number = SPT_MAGIC_NUMBER, version = 0, partitions = 6, checksum = 0,
     RSVD = replicate 4 0, partition = ex_parts @ replicate 121 (ex_part '''' 0 0 0)\<rparr>"

lemma ex_name: "length nm \<le> 16 \<Longrightarrow> length (p_name (ex_part nm a b c)) = 16"
  by (simp add: ex_part_def chars_def)

lemma wf_ex_spt: "wf_spt ex_spt"
  by (auto simp: wf_spt_def ex_spt_def ex_parts_def ex_name)

lemma ex_spt_fields [simp]:
  "partitions ex_spt = 6" "magic_number ex_spt = SPT_MAGIC_NUMBER" "version ex_spt = 0"
  by (simp_all add: ex_spt_def)

lemma ex_spt_nth: "x < 6 \<Longrightarrow> partition ex_spt ! x = ex_parts ! x"
  unfolding ex_spt_def by (simp add: nth_append del: append_Cons) (simp add: ex_parts_def)

lemma less_6: "x < (6 :: nat) \<longleftrightarrow> x = 0 \<or> x = 1 \<or> x = 2 \<or> x = 3 \<or> x = 4 \<or> x = 5"
  by arith

lemma all_less_6: "(\<forall>x < 6. P x) \<longleftrightarrow> P 0 \<and> P 1 \<and> P 2 \<and> P 3 \<and> P 4 \<and> P (5 :: nat)"
  unfolding less_6 by blast

lemma ex_less_6: "(\<exists>x < 6. P x) \<longleftrightarrow> P 0 \<or> P 1 \<or> P 2 \<or> P 3 \<or> P 4 \<or> P (5 :: nat)"
  using all_less_6 [of "\<lambda>x. \<not> P x"] by blast

lemmas ex_eval = ex_spt_nth ex_parts_def ex_part_def chars_def same_name_def parts_overlap_def part_end_def name_is_def
  strncmp_eq_0_iff

lemma ex_has_part:
  "has_part ex_spt ''SPT0''" "has_part ex_spt ''SPT1''" "has_part ex_spt ''CPB0''" "has_part ex_spt ''CPB1''"
  by (simp_all add: has_part_def ex_less_6 ex_eval)

lemma spt_ok_ex: "spt_ok ex_spt"
  unfolding spt_ok_def ex_spt_fields
  by (simp add: ex_has_part all_less_6 ex_eval)

section \<open>The flash\<close>

definition ex_cpb :: "byte list" where
  "ex_cpb = overlay (replicate CPB_SIZE 0xFF) 0 empty_cpb_header"

definition ex_pad :: "byte list" where
  "ex_pad = replicate 28672 0xFF"

definition ex_flash :: "byte list" where
  "ex_flash = spt_bytes ex_spt @ ex_pad @ spt_bytes ex_spt @ ex_pad @ ex_cpb @ ex_cpb @ ex_pad"

lemma length_ex [simp]:
  "length (spt_bytes ex_spt) = 4096" "length ex_pad = 28672" "length ex_cpb = 4096" "length ex_flash = 102400"
  by (simp_all add: length_spt_bytes [OF wf_ex_spt] ex_pad_def ex_cpb_def empty_cpb_block ex_flash_def)

lemma ex_flash_chunks:
  "chunk ex_flash 0 4096 = spt_bytes ex_spt" "chunk ex_flash 32768 4096 = spt_bytes ex_spt"
  "chunk ex_flash 65536 4096 = ex_cpb" "chunk ex_flash 69632 4096 = ex_cpb"
  by (simp_all add: ex_flash_def chunk_append_right chunk_append_left)

definition ex_base :: "mock_world librsu_ll_intf" where
  "ex_base = \<lparr>rsu_malloc = malloc_mock, rsu_crc32 = (\<lambda>c bs. c), qspi_read = plat_qspi_read_mock,
     qspi_write = plat_qspi_write_mock, qspi_erase = plat_qspi_erase_mock,
     mbox_get_rsu_status = plat_mbox_get_rsu_status_mock, mbox_send_rsu_update = (\<lambda>w a. (0, w)),
     mbox_get_spt_addresses = plat_mbox_get_spt_addresses_mock, mbox_rsu_notify = (\<lambda>w v. (0, w)),
     file_open = (\<lambda>w f fl. (None, w)), file_read = (\<lambda>w b h. (- 1, b, w)), file_write = (\<lambda>w b h. (- 1, w)),
     file_fgets = (\<lambda>w b h. (- 1, b, w)), file_fseek = (\<lambda>w o' k h. (- 1, w)),
     file_ftruncate = (\<lambda>w n h. (- 1, w)), file_close = (\<lambda>w h. (0, w)),
     misc_get_dcmf_status = (\<lambda>w. (0, [0, 0, 0, 0], w)), misc_get_max_retry_count = (\<lambda>w. (0, 3, w)),
     misc_get_dcmf_version = (\<lambda>w. (0, [0, 0, 0, 0], w)), writeprotect = 0, spt_checksum_enabled = 0\<rparr>"

abbreviation ex_hal :: "mock_world librsu_ll_intf" where
  "ex_hal \<equiv> mock_hal ex_base"

definition ex_world :: mock_world where
  "ex_world = \<lparr>g_arr = ex_flash, heap = (\<lambda>i. Some (\<lambda>j. 0)),
     stack = \<lparr>st_version = 0, st_state = 0, st_current_image = 0, st_fail_image = 0, st_error_location = 0,
       st_error_details = 0, st_retry_counter = 0\<rparr>\<rparr>"

definition ex_db :: "mock_world ops" where
  "ex_db = \<lparr>spt_corrupted = False, cpb_corrupted = False, cpb_fixed = False, cpb0_part = 2, cpb1_part = 3,
     mtd_part_offset = 0, spt_addr = \<lparr>spt0_address = 0, spt1_address = 32768\<rparr>,
     spt = ex_spt, cpb = ex_cpb, cpb_slots = Some 32, world = ex_world\<rparr>"

lemma ex_db_fields [simp]:
  "spt ex_db = ex_spt" "cpb ex_db = ex_cpb" "cpb_slots ex_db = Some 32" "world ex_db = ex_world"
  "mtd_part_offset ex_db = 0" "spt_addr ex_db = \<lparr>spt0_address = 0, spt1_address = 32768\<rparr>"
  "spt_corrupted ex_db = False" "cpb_corrupted ex_db = False"
  by (simp_all add: ex_db_def)

lemma ex_ok: "mock_ok ex_world"
  by (simp add: mock_ok_def ex_world_def)

lemma ex_dsize: "mock_dsize ex_world = 102400"
  by (simp add: mock_dsize_def ex_world_def)

lemma ex_region:
  "0 \<le> a \<Longrightarrow> a + int n \<le> 102400 \<Longrightarrow> region (mock_mem ex_world) a n = chunk ex_flash (nat a) n"
  by (subst region_mock) (simp_all add: ex_world_def)

lemma ex_spt_copies: "spt0_copy mock_mem ex_db = spt_bytes ex_spt" "spt1_copy mock_mem ex_db = spt_bytes ex_spt"
  by (simp_all add: spt0_copy_def spt1_copy_def ex_region ex_flash_chunks)

lemma ex_names: "names_terminated ex_spt"
  unfolding names_terminated_def ex_spt_fields by (simp add: all_less_6 ex_eval)

lemma ex_term_names: "term_names ex_spt = ex_spt"
  by (rule term_names_terminated) (simp_all add: wf_ex_spt ex_names)

lemma ex_spt_valid: "spt_valid hal (spt_bytes ex_spt)"
  by (simp add: spt_valid_def spt_of_bytes_spt_bytes [OF wf_ex_spt] checksum_ok_def ex_term_names spt_ok_ex)

lemma ex_take: "take 6 (partition ex_spt) = ex_parts"
  by (simp add: ex_spt_def ex_parts_def)

lemma ex_entries: "spt_entries ex_spt = [ex_parts ! 0, ex_parts ! 1]"
  unfolding spt_entries_def ex_spt_fields by (simp add: ex_take) (simp add: ex_eval)

lemma ex_find_spt0: "find (\<lambda>x. name_is (partition ex_spt ! x) ''SPT0'') [0..<6] = Some 0"
  by (simp add: upt_rec [of 0 6]) (simp add: ex_eval)

lemma ex_spt_inv: "spt_inv ex_db"
proof -
  have "spt_placed ex_db"
    unfolding spt_placed_def by (intro exI [of _ "ex_parts ! 0"] exI [of _ "ex_parts ! 1"])
      (simp add: ex_entries, simp add: ex_eval)
  moreover have "spt0_mtd_offset ex_spt 0 = 0"
    unfolding spt0_mtd_offset_def by (simp add: ex_find_spt0 del: upt_Suc) (simp add: ex_eval)
  moreover have "spt_sectors_disjoint ex_db" by (simp add: spt_sectors_disjoint_def)
  ultimately show ?thesis
    by (simp add: spt_inv_def spt_base_def wf_ex_spt ex_names spt_ok_ex)
qed

lemma upt_6: "[0..<6] = [0, 1, 2, 3, 4, 5]"
  by (simp add: upt_rec)

lemma ex_cpb_parts: "cpb_parts ex_spt = [2, 3]" and ex_spt_parts: "spt_parts ex_spt = [0, 1]"
  by (simp_all add: cpb_parts_def spt_parts_def is_cpb_part_def is_spt_part_def upt_6 ex_eval)

lemma ex_addr [simp]:
  "part_addr ex_db 0 = 0" "part_addr ex_db 1 = 32768" "part_addr ex_db 2 = 65536" "part_addr ex_db 3 = 69632"
  "part_addr ex_db 4 = 73728" "part_addr ex_db 5 = 81920"
  "part_len ex_db 0 = 32768" "part_len ex_db 1 = 32768" "part_len ex_db 2 = 4096" "part_len ex_db 3 = 4096"
  "part_len ex_db 4 = 8192" "part_len ex_db 5 = 8192"
  by (simp_all add: part_addr_def part_len_def ex_eval)

lemma ex_cpb_valid: "cpb_valid ex_spt ex_cpb" and ex_slots: "slots_of_bytes ex_cpb = replicate 508 ERASED_ENTRY"
  and ex_cpb_header: "cpb_magic_number ex_cpb = CPB_MAGIC_NUMBER" "cpb_image_ptr_slots ex_cpb = CPB_IMAGE_PTR_NSLOTS"
  using empty_cpb_block by (simp_all add: cpb_valid_def ex_cpb_def cpb_live_def)

lemma ex_layout: "cpb_layout ex_db"
  by (simp add: cpb_layout_def wf_ex_spt spt_ok_ex ex_cpb_parts ranges_disjoint_def part_range_def)

lemma ex_consistent: "cpb_consistent mock_mem ex_db"
  using ex_layout ex_cpb_valid
  by (simp add: cpb_consistent_def cpb_inv_def cpb_count_def ex_cpb_header cpb_synced_def ex_cpb_parts
      part_copy_def ex_region ex_flash_chunks)

lemma ex_in_device: "0 \<le> a \<Longrightarrow> a + n \<le> 102400 \<Longrightarrow> in_device mock_dsize ex_db a n"
  by (simp add: in_device_def ex_dsize)

lemma ex_parts_in_device: "parts_in_device mock_dsize ex_db"
  by (simp add: parts_in_device_def ex_cpb_parts part_fits_def ex_in_device) (simp add: ex_eval)

lemma ex_spt_in_device: "spt_in_device mock_dsize ex_db"
  unfolding spt_in_device_def
  by (simp add: ex_in_device ex_entries ex_dsize) (simp add: ex_eval)

lemma ex_not_bad: "0 \<le> p \<Longrightarrow> p < 6 \<Longrightarrow> \<not> bad_part p ex_db"
  by (simp add: bad_part_def uint_of_int_small)

lemma ex_packed: "packed (slots ex_db)" and ex_live: "live ex_db = []" and ex_slots_db: "slots ex_db = replicate 508 ERASED_ENTRY"
  by (simp_all add: packed_def live_def slots_def ex_slots cpb_live_def)

lemma ex_offset: "p_offset (partition ex_spt ! 4) = 73728" "check_cpb_entry ex_spt 73728 = 0"
  by (simp_all add: check_cpb_entry_def upt_6 ex_eval)

lemma ex_room: "add_slot off (slots ex_db) \<noteq> None"
  by (simp add: add_slot_def ex_slots_db find_None_iff split: option.split) (rule exI [of _ 0], simp)

text \<open>The contract of the flash, on this board.\<close>

lemmas ex_nor = mock.nor_flash_axioms [of ex_base] and ex_rel = mock.reliable_flash_axioms [of ex_base]

end
