(* ===== verification/Rsu_Flash_Props.thy ===== *)
theory Rsu_Flash_Props
  imports Rsu_Example
begin

text \<open>
  The properties of the tables in flash: loading, committing and repairing the SPT and the CPB, the
  changes of the partition table and the priority list. Each is stated for every platform that
  keeps the flash contract; a witness applies it to the board of \<^verbatim>\<open>Rsu_Example\<close>.
\<close>

section \<open>The sub-partition table\<close>

lemma ex_load: "\<exists>s'. load_spt ex_hal ex_db = Some (0, s')"
  using reliable_flash.rel_load_spt [OF ex_rel, of ex_db] ex_ok wf_ex_spt
  by (auto simp: ex_in_device ex_spt_copies ex_spt_valid)

lemma ex_sectors: "spt_sectors_disjoint ex_db"
  by (simp add: spt_sectors_disjoint_def)

text \<open>C1: After a successful \<^verbatim>\<open>load_spt\<close> the table in memory passes the checks and is what a valid copy
  in flash held before (with its names terminated); both copies in flash then hold the table.\<close>

theorem load_spt_correct:
  assumes "nor_flash hal mem" "load_spt hal s = Some (0, s')" "wf_spt (spt s)" "spt_sectors_disjoint s"
  shows "wf_spt (spt s') \<and> spt_ok (spt s') \<and> magic_number (spt s') = SPT_MAGIC_NUMBER \<and>
    mtd_part_offset s' = spt0_mtd_offset (spt s') (spt0_address (spt_addr s)) \<and>
    (spt_valid hal (spt0_copy mem s) \<and> spt0_copy mem s' = spt0_copy mem s \<and>
       spt s' = term_names (spt_of_bytes (spt0_copy mem s)) \<and>
       (spt1_copy mem s' = spt0_copy mem s' \<or> spt1_copy mem s' = spt_bytes (spt s')) \<or>
     spt_valid hal (spt1_copy mem s) \<and> spt1_copy mem s' = spt1_copy mem s \<and>
       spt s' = term_names (spt_of_bytes (spt1_copy mem s)) \<and> spt0_copy mem s' = spt_bytes (spt s'))"
  by (rule nor_flash.load_spt_ok [OF assms])

theorem load_spt_correct_witness:
  "\<exists>s'. load_spt ex_hal ex_db = Some (0, s') \<and> spt s' = ex_spt \<and> spt0_copy mock_mem s' = spt_bytes ex_spt"
proof -
  obtain s' where l: "load_spt ex_hal ex_db = Some (0, s')" using ex_load by blast
  from load_spt_correct [OF ex_nor this] show ?thesis
    using l by (auto simp: wf_ex_spt ex_sectors ex_spt_copies ex_term_names spt_of_bytes_spt_bytes)
qed

text \<open>C2: Whatever \<^verbatim>\<open>load_spt\<close> returns, it touches flash only to repair: a sector of one copy changes only
  when the other copy is valid, and no other byte of the device changes.\<close>

theorem load_spt_repairs_only:
  assumes "nor_flash hal mem" "load_spt hal s = Some (r, s')" "wf_spt (spt s)" "spt_sectors_disjoint s"
  shows "mem (world s') = mem (world s) \<or>
     spt_valid hal (spt0_copy mem s) \<and> (\<forall>x. mem (world s') x \<noteq> mem (world s) x \<longrightarrow>
       sint (spt1_address (spt_addr s)) \<le> x \<and> x < sint (spt1_address (spt_addr s)) + 32768) \<or>
     spt_valid hal (spt1_copy mem s) \<and> (\<forall>x. mem (world s') x \<noteq> mem (world s) x \<longrightarrow>
       sint (spt0_address (spt_addr s)) \<le> x \<and> x < sint (spt0_address (spt_addr s)) + 32768)"
  using nor_flash.load_spt_frame [OF assms] by simp

theorem load_spt_repairs_only_witness:
  "\<exists>s'. load_spt ex_hal ex_db = Some (0, s') \<and> mock_mem (world s') 100000 = mock_mem ex_world 100000"
proof -
  obtain s' where l: "load_spt ex_hal ex_db = Some (0, s')" using ex_load by blast
  from load_spt_repairs_only [OF ex_nor this] show ?thesis
    using l by (auto simp: wf_ex_spt ex_sectors)
qed

text \<open>C3: On a device that works, \<^verbatim>\<open>load_spt\<close> returns; it succeeds exactly when some copy is valid and
  two valid copies agree, and otherwise reports \<^verbatim>\<open>-EFAULT\<close>, marks the table corrupted and leaves
  the flash alone.\<close>

theorem load_spt_decides:
  assumes "reliable_flash hal mem dsize ok" "ok (world s)" "wf_spt (spt s)"
    and "in_device dsize s (sint (spt0_address (spt_addr s))) 32768"
    and "in_device dsize s (sint (spt1_address (spt_addr s))) 32768"
  shows "\<exists>r s'. load_spt hal s = Some (r, s') \<and> ok (world s') \<and> dsize (world s') = dsize (world s) \<and>
    (r = 0 \<longleftrightarrow> (spt_valid hal (spt0_copy mem s) \<or> spt_valid hal (spt1_copy mem s)) \<and>
       (spt_valid hal (spt0_copy mem s) \<and> spt_valid hal (spt1_copy mem s) \<longrightarrow>
        spt0_copy mem s = spt1_copy mem s)) \<and>
    (r \<noteq> 0 \<longrightarrow> r = - EFAULT \<and> spt_corrupted s' \<and> mem (world s') = mem (world s)) \<and>
    (r = 0 \<longrightarrow> spt_corrupted s' = spt_corrupted s)"
  by (rule reliable_flash.rel_load_spt [OF assms])

theorem load_spt_decides_witness: "\<exists>s'. load_spt ex_hal ex_db = Some (0, s') \<and> \<not> spt_corrupted s'"
  using load_spt_decides [OF ex_rel, of ex_db] ex_ok wf_ex_spt
  by (auto simp: ex_in_device ex_spt_copies ex_spt_valid)

lemma ex_writeback: "\<exists>s'. writeback_spt ex_hal ex_db = Some (0, s')"
  using reliable_flash.rel_writeback_spt [OF ex_rel, of ex_db] ex_ok ex_spt_in_device ex_spt_inv
  by (auto simp: spt_inv_def)

text \<open>C4: \<^verbatim>\<open>writeback_spt\<close> never leaves the device without a whole copy: wherever it stops, the second copy
  was touched only if the first holds the new table completely; nothing outside the two
  partitions changes, and on success both hold it.\<close>

theorem writeback_spt_crash_safe:
  assumes "nor_flash hal mem" "writeback_spt hal s = Some (r, s')" "wf_spt (spt s)" "magic_number (spt s) = SPT_MAGIC_NUMBER"
    and "\<And>x. x \<in> set (spt_parts (spt s)) \<Longrightarrow> part_len s x < 2 ^ 31"
    and "ranges_disjoint s (set (spt_parts (spt s)))"
  shows "(\<forall>a. a \<notin> (\<Union>x \<in> set (spt_parts (spt s)). part_range s x) \<longrightarrow> mem (world s') a = mem (world s) a) \<and>
    (r = 0 \<longrightarrow> length (spt_parts (spt s)) = 2 \<and> spt s' = fresh_spt hal (spt s) \<and>
      (\<forall>x \<in> set (spt_parts (spt s)). region (mem (world s')) (part_addr s x) SPT_SIZE = spt_bytes (spt s'))) \<and>
    sorted_wrt (\<lambda>x y. (\<exists>a \<in> part_range s y. mem (world s') a \<noteq> mem (world s) a) \<longrightarrow>
      region (mem (world s')) (part_addr s x) SPT_SIZE = spt_bytes (fresh_spt hal (spt s))) (spt_parts (spt s))"
  using nor_flash.writeback_spt_spec [OF assms] by simp

theorem writeback_spt_crash_safe_witness:
  "\<exists>s'. writeback_spt ex_hal ex_db = Some (0, s') \<and>
    region (mock_mem (world s')) 0 4096 = spt_bytes ex_spt \<and> region (mock_mem (world s')) 32768 4096 = spt_bytes ex_spt"
proof -
  obtain s' where l: "writeback_spt ex_hal ex_db = Some (0, s')" using ex_writeback by blast
  have "part_len ex_db x < 2 ^ 31" if "x \<in> set (spt_parts (spt ex_db))" for x
    using that by (auto simp: ex_spt_parts simp flip: One_nat_def)
  from writeback_spt_crash_safe [OF ex_nor l _ _ this] show ?thesis
    using l by (simp add: wf_ex_spt ex_spt_parts ranges_disjoint_def part_range_def fresh_spt_def flip: One_nat_def)
qed

section \<open>The partition table as a component\<close>

lemma ex_p1_free:
  "\<not> is_spt_part ex_spt 4" "\<not> is_cpb_part ex_spt 4" "strnlen (chars ''NEW'') 16 < 16" "0 \<notin> set (chars ''NEW'')"
  "\<not> name_in_use ex_spt (chars ''NEW'')"
  by (simp_all add: is_spt_part_def is_cpb_part_def name_in_use_def upt_6 strnlen_def ex_eval)

text \<open>A successful \<^verbatim>\<open>partition_rename\<close> changes the name of that partition and nothing else of the
  table but its checksum; the table keeps its invariant and both copies in flash hold it.\<close>

theorem partition_rename_correct:
  assumes "nor_flash hal mem" "partition_rename hal k nm s = Some (0, s')" "k < 2 ^ 31" "spt_inv s"
    "\<not> is_spt_part (spt s) (nat k)" "0 \<notin> set nm"
  shows "spt_inv s' \<and> spt s' = fresh_spt hal (set_partition (spt s) (nat k) (renamed_entry (partition (spt s) ! nat k) nm)) \<and>
    c_str (p_name (partition (spt s') ! nat k)) = Some nm \<and>
    spt0_copy mem s' = spt_bytes (spt s') \<and> spt1_copy mem s' = spt_bytes (spt s')"
  by (rule nor_flash.partition_rename_spec [OF assms])

lemma ex_rename: "\<exists>s'. partition_rename ex_hal 4 (chars ''NEW'') ex_db = Some (0, s')"
  by (rule reliable_flash.rel_partition_rename [OF ex_rel])
    (use ex_ok ex_spt_inv ex_spt_in_device ex_p1_free ex_not_bad in simp_all)

theorem partition_rename_correct_witness:
  "\<exists>s'. partition_rename ex_hal 4 (chars ''NEW'') ex_db = Some (0, s') \<and>
    c_str (p_name (partition (spt s') ! 4)) = Some (chars ''NEW'')"
proof -
  obtain s' where r: "partition_rename ex_hal 4 (chars ''NEW'') ex_db = Some (0, s')" using ex_rename by blast
  have p: "(4 :: int) < 2 ^ 31" "\<not> is_spt_part (spt ex_db) (nat 4)" using ex_p1_free by simp_all
  have "c_str (p_name (partition (spt s') ! nat 4)) = Some (chars ''NEW'')"
    using partition_rename_correct [OF ex_nor r p(1) ex_spt_inv p(2) ex_p1_free(4)] by blast
  then show ?thesis using r by simp
qed

text \<open>C6: A successful \<^verbatim>\<open>partition_create\<close> appends one partition with the given name, address and
  length (cut to 32 bits) and no flags; the other entries stay, the table keeps its invariant, in
  particular the new partition overlaps no other, and both copies in flash hold it.\<close>

theorem partition_create_correct:
  assumes "nor_flash hal mem" "partition_create hal nm start sz s = Some (0, s')" "spt_inv s" "0 \<notin> set nm"
  shows "spt_inv s' \<and> spt s' = fresh_spt hal (created_table (spt s) nm start sz) \<and>
    unat (partitions (spt s')) = Suc (unat (partitions (spt s))) \<and>
    take (unat (partitions (spt s))) (partition (spt s')) = take (unat (partitions (spt s))) (partition (spt s)) \<and>
    (let p = partition (spt s') ! unat (partitions (spt s)) in
       c_str (p_name p) = Some nm \<and> p_offset p = start \<and> p_length p = ucast sz \<and> p_flags p = 0) \<and>
    spt0_copy mem s' = spt_bytes (spt s') \<and> spt1_copy mem s' = spt_bytes (spt s')"
  by (rule nor_flash.partition_create_spec [OF assms])

lemma ex_overlap_free:
  "x < 6 \<Longrightarrow> \<not> (90112 < part_end (partition ex_spt ! x) \<and> 90112 + (4096 :: u64) > p_offset (partition ex_spt ! x))"
  unfolding less_6 by (elim disjE) (simp_all add: ex_eval)

text \<open>C7: On a device that works \<^verbatim>\<open>partition_create\<close> succeeds whenever the name fits and is free, there
  is a free entry, the size fits 32 bits and the range overlaps no partition.\<close>

theorem partition_create_succeeds:
  assumes "reliable_flash hal mem dsize ok" "ok (world s)" "spt_inv s" "spt_in_device dsize s"
    "unat (partitions (spt s)) < SPT_MAX_PARTITIONS" "strnlen nm 16 < 16" "0 \<notin> set nm"
    "\<not> name_in_use (spt s) nm" "uint sz < 2 ^ 32"
    "\<And>x. x < unat (partitions (spt s)) \<Longrightarrow>
      \<not> (start < part_end (partition (spt s) ! x) \<and> start + sz > p_offset (partition (spt s) ! x))"
  shows "\<exists>s'. partition_create hal nm start sz s = Some (0, s')"
  by (rule reliable_flash.rel_partition_create [OF assms])

theorem partition_create_succeeds_witness: "\<exists>s'. partition_create ex_hal (chars ''NEW'') 90112 4096 ex_db = Some (0, s')"
  by (rule partition_create_succeeds [OF ex_rel])
    (use ex_ok ex_spt_inv ex_spt_in_device ex_p1_free ex_overlap_free in simp_all)

lemma ex_create: "\<exists>s'. partition_create ex_hal (chars ''NEW'') 90112 4096 ex_db = Some (0, s')"
  by (rule reliable_flash.rel_partition_create [OF ex_rel])
    (use ex_ok ex_spt_inv ex_spt_in_device ex_p1_free ex_overlap_free in simp_all)

theorem partition_create_correct_witness:
  "\<exists>s'. partition_create ex_hal (chars ''NEW'') 90112 4096 ex_db = Some (0, s') \<and> unat (partitions (spt s')) = 7"
proof -
  obtain s' where r: "partition_create ex_hal (chars ''NEW'') 90112 4096 ex_db = Some (0, s')" using ex_create by blast
  have "unat (partitions (spt s')) = Suc (unat (partitions (spt ex_db)))"
    using partition_create_correct [OF ex_nor r ex_spt_inv ex_p1_free(4)] by blast
  then show ?thesis using r by auto
qed

text \<open>C8: A successful \<^verbatim>\<open>partition_delete\<close> removes that entry and keeps the others in their order; the
  table keeps its invariant and both copies in flash hold it.\<close>

theorem partition_delete_correct:
  assumes "nor_flash hal mem" "partition_delete hal k s = Some (0, s')" "k < 2 ^ 31" "spt_inv s"
    "\<not> is_spt_part (spt s) (nat k)"
  shows "spt_inv s' \<and> unat (partitions (spt s')) = unat (partitions (spt s)) - 1 \<and>
    take (unat (partitions (spt s'))) (partition (spt s')) =
      take (nat k) (partition (spt s)) @ drop (Suc (nat k)) (take (unat (partitions (spt s))) (partition (spt s))) \<and>
    spt0_copy mem s' = spt_bytes (spt s') \<and> spt1_copy mem s' = spt_bytes (spt s')"
  by (rule nor_flash.partition_delete_spec [OF assms])

lemma ex_delete: "\<exists>s'. partition_delete ex_hal 4 ex_db = Some (0, s')"
  by (rule reliable_flash.rel_partition_delete [OF ex_rel])
    (use ex_ok ex_spt_inv ex_spt_in_device ex_p1_free ex_not_bad in simp_all)

theorem partition_delete_correct_witness:
  "\<exists>s'. partition_delete ex_hal 4 ex_db = Some (0, s') \<and> unat (partitions (spt s')) = 5"
proof -
  obtain s' where r: "partition_delete ex_hal 4 ex_db = Some (0, s')" using ex_delete by blast
  from partition_delete_correct [OF ex_nor r _ ex_spt_inv] show ?thesis using r ex_p1_free by simp
qed

section \<open>The configuration pointer block\<close>

lemma ex_load_cpb:
  "\<exists>s'. load_cpb ex_hal ex_db = Some (0, s') \<and> mock_ok (world s') \<and> mock_dsize (world s') = 102400 \<and> \<not> cpb_corrupted s'"
  using reliable_flash.rel_load_cpb [OF ex_rel, of ex_db] ex_ok ex_layout ex_parts_in_device ex_consistent ex_cpb_valid
  by (auto simp: cpb_consistent_def ex_dsize)

text \<open>C9: After a successful \<^verbatim>\<open>load_cpb\<close> the block is valid, is what one of the copies held before,
  and both copies hold it.\<close>

theorem load_cpb_correct:
  assumes "nor_flash hal mem" "load_cpb hal s = Some (0, s')" "cpb_layout s" "length (cpb s) = CPB_SIZE"
  shows "cpb_consistent mem s' \<and> spt s' = spt s \<and> mtd_part_offset s' = mtd_part_offset s \<and>
    (\<exists>x \<in> set (cpb_parts (spt s)). cpb s' = part_copy mem s x)"
  by (rule nor_flash.load_cpb_consistent [OF assms])

theorem load_cpb_correct_witness: "\<exists>s'. load_cpb ex_hal ex_db = Some (0, s') \<and> cpb s' = ex_cpb"
proof -
  obtain s' where l: "load_cpb ex_hal ex_db = Some (0, s')" using ex_load_cpb by blast
  from load_cpb_correct [OF ex_nor l ex_layout] show ?thesis
    using l by (auto simp: ex_cpb_parts part_copy_def ex_region ex_flash_chunks)
qed

lemma ex_writeback_cpb: "\<exists>s'. writeback_cpb ex_hal ex_db = Some (0, s')"
proof -
  have "\<exists>w' c. writeback_cpb_loop ex_hal [0..<6] 0 ex_db =
      Some (if 0 + int (length (cpb_parts ex_spt)) \<noteq> 2 then - EADDRNOTAVAIL else 0, ex_db\<lparr>cpb := c, world := w'\<rparr>) \<and>
    mock_ok w' \<and> mock_dsize w' = mock_dsize (world ex_db)"
    by (rule reliable_flash.rel_writeback_cpb_loop [OF ex_rel])
      (use ex_ok wf_ex_spt ex_parts_in_device ex_layout in \<open>auto simp: cpb_parts_def parts_in_device_def cpb_layout_def\<close>)
  then show ?thesis by (auto simp: writeback_cpb_def ex_cpb_parts)
qed

text \<open>C10: \<^verbatim>\<open>writeback_cpb\<close> never leaves the device without a whole copy, changes nothing outside the
  two partitions, and on success both hold the block.\<close>

theorem writeback_cpb_crash_safe:
  assumes "nor_flash hal mem" "writeback_cpb hal s = Some (r, s')" "cpb_layout s" "length (cpb s) = CPB_SIZE"
    "cpb_magic_number (cpb s) = CPB_MAGIC_NUMBER"
  shows "\<exists>w' c. s' = s\<lparr>cpb := c, world := w'\<rparr> \<and> length c = CPB_SIZE \<and>
    (\<forall>a. a \<notin> (\<Union>x \<in> set (cpb_parts (spt s)). part_range s x) \<longrightarrow> mem w' a = mem (world s) a) \<and>
    (r = 0 \<longrightarrow> c = cpb s \<and> (\<forall>x \<in> set (cpb_parts (spt s)). part_copy mem s' x = cpb s)) \<and>
    sorted_wrt (\<lambda>x y. (\<exists>a \<in> part_range s y. mem w' a \<noteq> mem (world s) a) \<longrightarrow> part_copy mem s' x = cpb s)
      (cpb_parts (spt s))"
  by (rule nor_flash.writeback_cpb_spec [OF assms])

theorem writeback_cpb_crash_safe_witness:
  "\<exists>s'. writeback_cpb ex_hal ex_db = Some (0, s') \<and> part_copy mock_mem s' 2 = ex_cpb \<and> part_copy mock_mem s' 3 = ex_cpb"
proof -
  obtain s' where l: "writeback_cpb ex_hal ex_db = Some (0, s')" using ex_writeback_cpb by blast
  from writeback_cpb_crash_safe [OF ex_nor l ex_layout] show ?thesis
    using l by (auto simp: ex_cpb_parts ex_cpb_header)
qed

section \<open>The priority list\<close>

text \<open>
  The list a user sees: the pointers in use, oldest first. \<open>packed\<close> says that no pointer is written
  behind an erased one, which the operations keep.
\<close>

lemma ex_add: "\<exists>s'. priority_add ex_hal 4 ex_db = Some (0, s')"
proof -
  show ?thesis
    using ex_room reliable_flash.rel_priority_add [OF ex_rel, of ex_db 4] ex_ok ex_consistent ex_parts_in_device ex_not_bad [of 4]
      ex_offset by auto
qed

text \<open>C11: A successful \<^verbatim>\<open>priority_add\<close> appends the partition's address to the list of pointers in use and
  changes nothing else of it; the block stays valid, packed and the same in both copies, and
  \<^verbatim>\<open>priority_get\<close> then reports the highest priority, 1.\<close>

theorem priority_add_correct:
  assumes "nor_flash hal mem" "priority_add hal p s = Some (0, s')" "cpb_consistent mem s" "packed (slots s)"
    "\<not> bad_part p s" "p < 2 ^ 31" "cpb_live (p_offset (partition (spt s) ! nat p))"
  shows "live s' = live s @ [p_offset (partition (spt s) ! nat p)] \<and> packed (slots s') \<and>
    cpb_consistent mem s' \<and> spt s' = spt s \<and> priority_get p s' = Some 1"
  by (rule nor_flash.priority_add_highest [OF assms])

theorem priority_add_correct_witness:
  "\<exists>s'. priority_add ex_hal 4 ex_db = Some (0, s') \<and> live s' = [73728] \<and> priority_get 4 s' = Some 1"
proof -
  obtain s' where a: "priority_add ex_hal 4 ex_db = Some (0, s')" using ex_add by blast
  from priority_add_correct [OF ex_nor a ex_consistent ex_packed] show ?thesis
    using a ex_not_bad [of 4] by (simp add: ex_offset ex_live cpb_live_def)
qed

text \<open>On a device that works \<^verbatim>\<open>priority_add\<close> succeeds whenever the block has a pointer that is not
  in use and the partition is not a reserved one.\<close>

theorem priority_add_succeeds:
  assumes "reliable_flash hal mem dsize ok" "ok (world s)" "cpb_consistent mem s" "parts_in_device dsize s"
    "\<not> bad_part p s" "p < 2 ^ 31"
    "cpb_live (p_offset (partition (spt s) ! nat p)) \<longrightarrow> check_cpb_entry (spt s) (p_offset (partition (spt s) ! nat p)) = 0"
    "add_slot (p_offset (partition (spt s) ! nat p)) (slots s) \<noteq> None"
  shows "\<exists>s'. priority_add hal p s = Some (0, s') \<and> ok (world s') \<and> dsize (world s') = dsize (world s)"
  by (rule reliable_flash.rel_priority_add [OF assms])

theorem priority_add_succeeds_witness: "\<exists>s'. priority_add ex_hal 5 ex_db = Some (0, s')"
proof -
  have "p_offset (partition ex_spt ! 5) = 81920" "check_cpb_entry ex_spt 81920 = 0"
    by (simp_all add: check_cpb_entry_def upt_6 ex_eval)
  then show ?thesis
    using ex_room priority_add_succeeds [OF ex_rel, of ex_db 5] ex_ok ex_consistent ex_parts_in_device ex_not_bad [of 5] by auto
qed

lemma ex_remove_loads: "priority_remove ex_hal 4 ex_db = load_cpb ex_hal ex_db"
proof -
  have np: "find (\<lambda>x. slots ex_db ! x = 73728) [0..<508] = None"
    by (simp add: ex_slots_db find_None_iff)
  have i: "cpb_inv ex_db" "wf_spt (spt ex_db)" "cpb_count ex_db = 508"
    using ex_consistent by (simp_all add: cpb_consistent_def wf_ex_spt cpb_count_def ex_cpb_header)
  show ?thesis
    using priority_remove_list [OF i(1,2), of 4 ex_hal] ex_not_bad [of 4] np
    by (simp add: ex_offset i(3) del: upt_Suc)
qed

text \<open>C13: A successful \<^verbatim>\<open>priority_remove\<close> removes the first pointer to the partition from the list of
  pointers in use and keeps the block valid, packed and the same in both copies.\<close>

theorem priority_remove_correct:
  assumes "nor_flash hal mem" "priority_remove hal p s = Some (0, s')" "cpb_consistent mem s" "packed (slots s)"
    "\<not> bad_part p s" "p < 2 ^ 31" "cpb_live (p_offset (partition (spt s) ! nat p))"
  shows "live s' = remove1 (p_offset (partition (spt s) ! nat p)) (live s) \<and> packed (slots s') \<and>
    cpb_consistent mem s' \<and> spt s' = spt s"
  by (rule nor_flash.priority_remove_live [OF assms])

theorem priority_remove_correct_witness:
  "\<exists>s'. priority_remove ex_hal 4 ex_db = Some (0, s') \<and> live s' = []"
proof -
  obtain s' where a: "priority_remove ex_hal 4 ex_db = Some (0, s')" using ex_load_cpb ex_remove_loads by auto
  from priority_remove_correct [OF ex_nor a ex_consistent ex_packed] show ?thesis
    using a ex_not_bad [of 4] by (simp add: ex_offset ex_live cpb_live_def)
qed

text \<open>C14: \<^verbatim>\<open>priority_get\<close> is the position of the partition's address from the end of the list of
  pointers in use, counted from 1, and 0 when the list does not hold it.\<close>

theorem priority_get_correct:
  assumes "cpb_inv s" "wf_spt (spt s)" "0 \<le> p" "p < 127" "p < uint (partitions (spt s))"
  shows "\<exists>r. priority_get p s = Some r \<and> 0 \<le> r \<and> r \<le> int (length (live s)) \<and>
    (r = 0 \<longleftrightarrow> p_offset (partition (spt s) ! nat p) \<notin> set (live s)) \<and>
    (r \<noteq> 0 \<longrightarrow> rev (live s) ! nat (r - 1) = p_offset (partition (spt s) ! nat p))"
proof -
  let ?v = "p_offset (partition (spt s) ! nat p)" and ?l = "rev (live s)"
  have "pos_from 0 ?v ?l = 0 \<longleftrightarrow> ?v \<notin> set (live s)" using pos_from_0 [of 0 ?v ?l] by simp
  moreover have "0 < pos_from 0 ?v ?l \<and> pos_from 0 ?v ?l \<le> int (length (live s))" if "pos_from 0 ?v ?l \<noteq> 0"
    using pos_from_bounds [OF order_refl that] by simp
  moreover have "?l ! nat (pos_from 0 ?v ?l - 1) = ?v" if "?v \<in> set (live s)"
    using pos_from_nth [of 0 ?v ?l] that by simp
  ultimately show ?thesis using priority_get_pos [OF assms]
    by (intro exI [of _ "pos_from 0 ?v ?l"]) auto
qed

theorem priority_get_correct_witness: "priority_get 4 ex_db = Some 0"
  using priority_get_correct [of ex_db 4] ex_consistent by (auto simp: cpb_consistent_def wf_ex_spt ex_live)

lemma ex_empty: "\<exists>s'. empty_cpb ex_hal ex_db = Some (0, s')"
proof -
  let ?w = "ex_world\<lparr>heap := \<lambda>i. heap ex_world (Suc i)\<rparr>"
  let ?s = "ex_db\<lparr>world := ?w, cpb := overlay (replicate CPB_SIZE 0xFF) 0 empty_cpb_header\<rparr>"
  have m: "rsu_malloc ex_hal (world ex_db) 24 = (Some (map (\<lambda>j. 0) [0..<24]), ?w)"
    by (simp add: mock_hal_def malloc_mock_def ex_world_def)
  have w: "mock_ok ?w" "mock_dsize ?w = mock_dsize ex_world"
    using ex_ok by (simp_all add: mock_ok_def mock_dsize_def)
  have pa: "part_fits ?s x = part_fits ex_db x" "part_addr ?s x = part_addr ex_db x" "part_len ?s x = part_len ex_db x" for x
    using part_fits_cong [of ?s ex_db x] by simp_all
  have "\<exists>w' c. writeback_cpb_loop ex_hal [0..<6] 0 ?s =
      Some (if 0 + int (length (cpb_parts ex_spt)) \<noteq> 2 then - EADDRNOTAVAIL else 0, ?s\<lparr>cpb := c, world := w'\<rparr>) \<and>
    mock_ok w' \<and> mock_dsize w' = mock_dsize (world ?s)"
    by (rule reliable_flash.rel_writeback_cpb_loop [OF ex_rel])
      (use w wf_ex_spt ex_parts_in_device ex_layout empty_cpb_block(1) pa in
        \<open>auto simp: cpb_parts_def parts_in_device_def cpb_layout_def in_device_def\<close>)
  then show ?thesis using m by (auto simp: empty_cpb_def writeback_cpb_def ex_cpb_parts)
qed

text \<open>A successful \<^verbatim>\<open>empty_cpb\<close> leaves a valid block with no pointer in use in memory and in both
  copies, and clears the corrupted state.\<close>

theorem empty_cpb_correct:
  assumes "nor_flash hal mem" "empty_cpb hal s = Some (0, s')" "cpb_layout s"
  shows "cpb_consistent mem s' \<and> live s' = [] \<and> cpb_fixed s' \<and> \<not> cpb_corrupted s' \<and> spt s' = spt s"
  by (rule nor_flash.empty_cpb_ok [OF assms])

theorem empty_cpb_correct_witness: "\<exists>s'. empty_cpb ex_hal ex_db = Some (0, s') \<and> live s' = []"
  using ex_empty empty_cpb_correct [OF ex_nor _ ex_layout] by blast

end
