(* ===== verification/Rsu_Backup_Props.thy ===== *)
theory Rsu_Backup_Props
  imports Rsu_Backup_Ok Rsu_Flash_Props
begin

text \<open>
  The properties of saving and restoring the tables: what was saved is what a restore puts back, in
  both copies. The witnesses save and restore the tables of the board of \<^verbatim>\<open>Rsu_Example\<close>.
\<close>

section \<open>The sub-partition table\<close>

lemma ex_save_spt:
  "\<exists>d s1. save_spt_to_buf ex_hal (Some (replicate 4100 0)) 4100 ex_db = Some (0, Some d, s1)"
proof -
  have "\<exists>w'. read_dev ex_hal 0 (Some (replicate 4100 0)) (int 4096) ex_db =
      Some (0, region (mock_mem ex_world) 0 4096 @ drop 4096 (replicate 4100 0), ex_db\<lparr>world := w'\<rparr>) \<and>
      mock_ok w' \<and> mock_mem w' = mock_mem ex_world \<and> mock_dsize w' = mock_dsize ex_world"
    using reliable_flash.rel_read_dev [OF ex_rel, of ex_db 0 4096 "replicate 4100 0"] ex_ok
    by (simp add: ex_in_device)
  then show ?thesis by (auto simp: save_spt_to_buf_def)
qed

lemma ex_image_state: "take 4096 d = spt_bytes ex_spt \<Longrightarrow> image_state d ex_db = ex_db"
proof -
  assume "take 4096 d = spt_bytes ex_spt"
  moreover have "spt0_mtd_offset ex_spt 0 = 0" using ex_spt_inv by (simp add: spt_inv_def spt_base_def)
  ultimately show ?thesis
    by (simp add: image_state_def Let_def spt_of_bytes_spt_bytes [OF wf_ex_spt] ex_db_def)
qed

lemma ex_restorable: "take 4096 d = spt_bytes ex_spt \<Longrightarrow> 4096 \<le> length d \<Longrightarrow> restorable ex_hal d ex_db"
  using ex_image_state [of d] ex_spt_inv ex_layout
  by (auto simp: restorable_def spt_inv_def spt_base_def checksum_ok_def ex_spt_parts ex_cpb_parts ranges_disjoint_def part_range_def
      simp flip: One_nat_def)

lemma ex_install:
  assumes "take 4096 d = spt_bytes ex_spt"
  shows "\<exists>t. install_spt ex_hal d ex_db = Some (0, t)"
proof -
  have s: "ex_db\<lparr>spt := spt_of_bytes (take SPT_SIZE d)\<rparr> = ex_db"
    using assms by (simp add: spt_of_bytes_spt_bytes [OF wf_ex_spt] ex_db_def)
  have "load_spt0_offset ex_db = (0, ex_db)"
    by (simp add: load_spt0_offset_def ex_find_spt0 del: upt_Suc) (simp add: ex_eval ex_db_def)
  moreover obtain v where v: "writeback_spt ex_hal ex_db = Some (0, v)" "mock_ok (world v)"
    "mock_dsize (world v) = mock_dsize ex_world"
    using reliable_flash.rel_writeback_spt [OF ex_rel, of ex_db] ex_ok ex_spt_in_device ex_spt_inv
    by (auto simp: spt_inv_def)
  let ?v = "v\<lparr>spt_corrupted := False, cpb_corrupted := False\<rparr>"
  have "\<exists>t. load_cpb ex_hal ?v = Some (0, t)"
  proof -
    have pl: "part_len ex_db x < 2 ^ 31" if "x \<in> set (spt_parts (spt ex_db))" for x
      using that by (auto simp: ex_spt_parts simp flip: One_nat_def)
    have rd: "ranges_disjoint ex_db (set (spt_parts (spt ex_db)))"
      by (simp add: ex_spt_parts ranges_disjoint_def part_range_def flip: One_nat_def)
    note W = nor_flash.writeback_spt_spec [OF ex_nor v(1) _ _ pl rd]
    have W1: "\<exists>t w. v = ex_db\<lparr>spt := t, world := w\<rparr>" "spt v = ex_spt"
      using W wf_ex_spt by (auto simp: fresh_spt_def)
    have fr: "mock_mem (world v) a = mock_mem ex_world a" if "65536 \<le> a" for a
      using W wf_ex_spt that by (auto simp: ex_spt_parts part_range_def simp flip: One_nat_def)
    have f: "spt ?v = spt ex_db" "mtd_part_offset ?v = mtd_part_offset ex_db" "cpb ?v = ex_cpb" using W1 by auto
    have lay: "cpb_layout ?v" using ex_layout cpb_layout_cong [OF f(1,2)] by simp
    have pa: "part_addr ?v x = part_addr ex_db x" "part_len ?v x = part_len ex_db x" "part_fits ?v x = part_fits ex_db x" for x
      using part_fits_cong [of ?v ex_db x] f by (simp_all add: part_addr_def part_len_def)
    have dev: "parts_in_device mock_dsize ?v"
      using ex_parts_in_device f pa v(3) by (simp add: parts_in_device_def in_device_def)
    have "cpb_synced mock_mem ?v"
    proof -
      have "part_copy mock_mem ?v x = part_copy mock_mem ex_db x" if "x \<in> {2, 3}" for x
        unfolding part_copy_def pa(1) using that by (intro region_frame) (auto intro: fr)
      then show ?thesis using ex_consistent f by (auto simp: cpb_synced_def cpb_consistent_def ex_cpb_parts)
    qed
    from reliable_flash.rel_load_cpb [OF ex_rel _ lay dev _ this] show ?thesis
      using v(2) f ex_cpb_valid by auto
  qed
  ultimately show ?thesis using v(1) s by (auto simp: install_spt_def Let_def)
qed

text \<open>C16: A table saved to a buffer and restored from it, in the same or a later state of the database, is
  accepted by every check of the restore; and when the restore succeeds both copies in flash are
  byte for byte the copy that was saved and the table counts as sound.\<close>

theorem spt_save_restore:
  assumes "nor_flash hal mem" "save_spt_to_buf hal (Some b) n s = Some (0, Some d, s1)"
    "restore_spt_from_buf hal (Some d) n t = Some (r, t')"
    "spt_valid hal (spt0_copy mem s)" "restorable hal d t" "length (cpb t) = CPB_SIZE"
  shows "restore_spt_from_buf hal (Some d) n t = install_spt hal d t \<and>
    (r = 0 \<longrightarrow> spt0_copy mem t' = spt0_copy mem s \<and> spt1_copy mem t' = spt0_copy mem s \<and> \<not> spt_corrupted t')"
  by (rule nor_flash.spt_backup_roundtrip [OF assms])

theorem spt_save_restore_witness:
  "\<exists>d s1 t. save_spt_to_buf ex_hal (Some (replicate 4100 0)) 4100 ex_db = Some (0, Some d, s1) \<and>
    restore_spt_from_buf ex_hal (Some d) 4100 ex_db = Some (0, t) \<and>
    spt0_copy mock_mem t = spt_bytes ex_spt \<and> spt1_copy mock_mem t = spt_bytes ex_spt"
proof -
  obtain d s1 where d: "save_spt_to_buf ex_hal (Some (replicate 4100 0)) 4100 ex_db = Some (0, Some d, s1)"
    using ex_save_spt by blast
  note sv = nor_flash.save_spt_to_buf_ok [OF ex_nor d]
  then have td: "take 4096 d = spt_bytes ex_spt" "4096 \<le> length d" by (simp_all add: ex_spt_copies)
  obtain t where t: "install_spt ex_hal d ex_db = Some (0, t)" using ex_install [OF td(1)] by blast
  have "u32_at d 0 = u32_at (take 4096 d) 0" by (simp add: u32_at_take)
  then have "u32_at d 0 = SPT_MAGIC_NUMBER"
    using td(1) spt_of_bytes_spt_bytes [OF wf_ex_spt, THEN arg_cong [of _ _ magic_number]]
    by (simp add: spt_of_bytes_def)
  then have r: "restore_spt_from_buf ex_hal (Some d) 4100 ex_db = Some (0, t)"
    using sv t by (simp add: restore_spt_from_buf_def)
  from spt_save_restore [OF ex_nor d r _ ex_restorable [OF td]] show ?thesis
    using d r by (intro exI [of _ d] exI [of _ s1] exI [of _ t]) (simp add: ex_spt_copies ex_spt_valid)
qed

section \<open>The configuration pointer block\<close>

lemma ex_save_cpb:
  "\<exists>d s1. save_cpb_to_buf ex_hal (Some (replicate 4100 0)) 4100 ex_db = Some (0, Some d, s1)"
proof -
  have "part_fits ex_db 2" "in_device mock_dsize ex_db (part_addr ex_db 2) (part_len ex_db 2)"
    using ex_parts_in_device by (simp_all add: parts_in_device_def ex_cpb_parts)
  then have "\<exists>w'. read_part ex_hal (int 2) 0 (Some (replicate 4100 0)) (int 4096) ex_db =
      Some (0, region (mock_mem ex_world) 65536 4096 @ drop 4096 (replicate 4100 0), ex_db\<lparr>world := w'\<rparr>) \<and>
      mock_ok w' \<and> mock_mem w' = mock_mem ex_world \<and> mock_dsize w' = mock_dsize ex_world"
    using reliable_flash.rel_read_part [OF ex_rel, of ex_db 2 4096 "replicate 4100 0"] ex_ok wf_ex_spt
    by simp
  moreover have "sint (cpb0_part ex_db) = 2" by (simp add: ex_db_def)
  ultimately show ?thesis by (auto simp: save_cpb_to_buf_def)
qed

text \<open>C17: A pointer block saved to a buffer and restored from it is accepted by every check of the restore;
  and when the restore succeeds the block is valid and the same in memory and in both copies, byte
  for byte the one saved, and the corrupted state is left.\<close>

theorem cpb_save_restore:
  assumes "nor_flash hal mem" "save_cpb_to_buf hal (Some b) n s = Some (0, Some d, s1)" "sint (cpb0_part s) = int x"
    "cpb_valid (spt t) (part_copy mem s x)" "cpb_layout t" "\<not> spt_corrupted t"
    "restore_cpb_from_buf hal (Some d) n t = Some (r, t')"
  shows "restore_cpb_from_buf hal (Some d) n t = install_cpb hal d t \<and>
    (r = 0 \<longrightarrow> cpb_consistent mem t' \<and> cpb t' = part_copy mem s x \<and> \<not> cpb_corrupted t')"
  by (rule nor_flash.cpb_backup_roundtrip [OF assms])

theorem cpb_save_restore_witness:
  "\<exists>d s1 t. save_cpb_to_buf ex_hal (Some (replicate 4100 0)) 4100 ex_db = Some (0, Some d, s1) \<and>
    restore_cpb_from_buf ex_hal (Some d) 4100 ex_db = Some (0, t) \<and> cpb t = ex_cpb \<and> cpb_consistent mock_mem t"
proof -
  have x: "sint (cpb0_part ex_db) = int 2" by (simp add: ex_db_def)
  have cp: "part_copy mock_mem ex_db 2 = ex_cpb" by (simp add: part_copy_def ex_region ex_flash_chunks)
  obtain d s1 where d: "save_cpb_to_buf ex_hal (Some (replicate 4100 0)) 4100 ex_db = Some (0, Some d, s1)"
    using ex_save_cpb by blast
  note sv = nor_flash.save_cpb_to_buf_ok [OF ex_nor d x]
  then have td: "take 4096 d = ex_cpb" by (simp add: cp)
  have s: "ex_db\<lparr>cpb := ex_cpb\<rparr> = ex_db" by (simp add: ex_db_def)
  have "\<exists>w' c. writeback_cpb_loop ex_hal [0..<6] 0 ex_db =
      Some (if 0 + int (length [2, 3 :: nat]) \<noteq> 2 then - EADDRNOTAVAIL else 0, ex_db\<lparr>cpb := c, world := w'\<rparr>) \<and>
      mock_ok w' \<and> mock_dsize w' = mock_dsize (world ex_db)"
  proof (rule reliable_flash.rel_writeback_cpb_loop [OF ex_rel])
    show "[2, 3] = filter (is_cpb_part (spt ex_db)) [0..<6]" using ex_cpb_parts by (simp add: cpb_parts_def)
  qed (use ex_ok wf_ex_spt ex_parts_in_device in \<open>auto simp: parts_in_device_def ex_cpb_parts\<close>)
  then obtain w' c where "writeback_cpb ex_hal ex_db = Some (0, ex_db\<lparr>cpb := c, world := w'\<rparr>)"
    by (auto simp: writeback_cpb_def)
  then obtain t where t: "install_cpb ex_hal d ex_db = Some (0, t)"
    using td by (auto simp: install_cpb_def s)
  have "u32_at d 0 = u32_at (take 4096 d) 0" by (simp add: u32_at_take)
  then have "u32_at d 0 = CPB_MAGIC_NUMBER" using td ex_cpb_header by (simp add: cpb_magic_number_def)
  then have r: "restore_cpb_from_buf ex_hal (Some d) 4100 ex_db = Some (0, t)"
    using sv t by (simp add: restore_cpb_from_buf_def)
  from cpb_save_restore [OF ex_nor d x _ ex_layout _ r] show ?thesis
    using d r cp ex_cpb_valid by (intro exI [of _ d] exI [of _ s1] exI [of _ t]) simp
qed

end
