(* ===== verification/Rsu_Image.thy ===== *)
theory Rsu_Image
  imports Rsu_Misc Rsu_Platform
begin

text \<open>
  \<^verbatim>\<open>src/libRSU_image.c\<close>: the state machine that walks the 4kB blocks of an image. A block at the
  offset of a known section may open a CMF section, whose next block is a signature block with up to
  four pointers to further sections; when an image is written these pointers are moved to the slot
  and the CRC of the block is computed anew, when it is compared the same is done to a copy of the
  user's data.

  A block is a buffer of \<^verbatim>\<open>IMAGE_BLOCK_SZ\<close> bytes. \<^const>\<open>None\<close> is a signed overflow of the offset, after
  2GB of blocks.
\<close>

abbreviation (input) IMAGE_BLOCK_SZ :: nat where "IMAGE_BLOCK_SZ \<equiv> 0x1000"
abbreviation (input) SIG_BLOCK_PTR_OFFS :: nat where "SIG_BLOCK_PTR_OFFS \<equiv> 0xF00"
abbreviation (input) SIG_BLOCK_CRC_OFFS :: nat where "SIG_BLOCK_CRC_OFFS \<equiv> 0xFFC"
abbreviation (input) CMF_MAGIC :: u32 where "CMF_MAGIC \<equiv> 0x62294895"
abbreviation (input) MAX_SECTIONS :: nat where "MAX_SECTIONS \<equiv> 64"

section \<open>Data\<close>

text \<open>\<^verbatim>\<open>struct rsu_slot_info\<close> of \<^verbatim>\<open>include/libRSU.h\<close>.\<close>

record rsu_slot_info =
  info_name :: "byte list"
  info_offset :: u64
  info_size :: int
  info_priority :: int

datatype rsu_block_type = SECTION_BLOCK | SIGNATURE_BLOCK | REGULAR_BLOCK

record rsu_image_state =
  img_offset :: int
  block_type :: rsu_block_type
  sections :: "u64 list"
  no_sections :: nat
  absolute :: bool

text \<open>\<^verbatim>\<open>struct pointer_block\<close>, which lies over the last 256 bytes of a signature block.\<close>

definition ptr_offs :: "nat \<Rightarrow> nat" where
  "ptr_offs x = SIG_BLOCK_PTR_OFFS + 8 + 8 * x"

definition blk_ptr :: "byte list \<Rightarrow> nat \<Rightarrow> u64" where
  "blk_ptr block x = u64_at block (ptr_offs x)"

definition set_blk_ptr :: "byte list \<Rightarrow> nat \<Rightarrow> u64 \<Rightarrow> byte list" where
  "set_blk_ptr block x v = overlay block (ptr_offs x) (le_bytes 8 v)"

definition blk_crc :: "byte list \<Rightarrow> u32" where
  "blk_crc block = u32_at block SIG_BLOCK_CRC_OFFS"

definition set_blk_crc :: "byte list \<Rightarrow> u32 \<Rightarrow> byte list" where
  "set_blk_crc block v = overlay block SIG_BLOCK_CRC_OFFS (le_bytes 4 v)"

section \<open>The list of sections\<close>

definition find_section :: "rsu_image_state \<Rightarrow> u64 \<Rightarrow> bool" where
  "find_section st sec = list_ex (\<lambda>x. sec = sections st ! x) [0..<no_sections st]"

definition add_section :: "rsu_image_state \<Rightarrow> u64 \<Rightarrow> int \<times> rsu_image_state" where
  "add_section st sec =
     (if find_section st sec then (0, st)
      else if no_sections st \<ge> MAX_SECTIONS then (- 1, st)
      else (0, st\<lparr>sections := (sections st)[no_sections st := sec], no_sections := no_sections st + 1\<rparr>))"

section \<open>Signature blocks\<close>

definition sig_block_process :: "rsu_image_state \<Rightarrow> byte list \<Rightarrow> rsu_slot_info \<Rightarrow> int \<times> rsu_image_state" where
  "sig_block_process st block info =
     (let st = (if img_offset st = int IMAGE_BLOCK_SZ \<and>
                   list_ex (\<lambda>x. blk_ptr block x > word_of_int (info_size info)) [0..<4]
                then st\<lparr>absolute := True\<rparr> else st)
      in (0, fold (\<lambda>x st. if blk_ptr block x \<noteq> 0
               then snd (add_section st (if absolute st then blk_ptr block x - info_offset info else blk_ptr block x))
               else st) [0..<4] st))"

text \<open>The two steps by which a block is moved to a slot: its pointers, then its CRC.\<close>

definition move_pointers :: "byte list \<Rightarrow> rsu_slot_info \<Rightarrow> byte list" where
  "move_pointers block info =
     fold (\<lambda>x b. if blk_ptr b x \<noteq> 0 then set_blk_ptr b x (blk_ptr b x + info_offset info) else b) [0..<4] block"

definition update_block_crc :: "'w librsu_ll_intf \<Rightarrow> byte list \<Rightarrow> byte list" where
  "update_block_crc hal block =
     (let b = swap_bits block IMAGE_BLOCK_SZ;
          calc_crc = rsu_crc32 hal 0 (take SIG_BLOCK_CRC_OFFS b);
          b = set_blk_crc b (swap_endian32 calc_crc)
      in swap_bits b IMAGE_BLOCK_SZ)"

definition sig_block_adjust ::
    "'w librsu_ll_intf \<Rightarrow> rsu_image_state \<Rightarrow> byte list \<Rightarrow> rsu_slot_info \<Rightarrow> int \<times> byte list" where
  "sig_block_adjust hal st block info =
     (let b = swap_bits block IMAGE_BLOCK_SZ;
          calc_crc = rsu_crc32 hal 0 (take SIG_BLOCK_CRC_OFFS b)
      in if swap_endian32 (blk_crc b) \<noteq> calc_crc then (- 1, b)
      else let b = swap_bits b IMAGE_BLOCK_SZ
      in if list_ex (\<lambda>x. blk_ptr b x \<noteq> 0 \<and>
              info_size info < sint (if absolute st then blk_ptr b x - info_offset info else blk_ptr b x)) [0..<4]
         then (- 1, b)
      else if absolute st then (0, b)
      else (0, update_block_crc hal (move_pointers b info)))"

section \<open>Comparing\<close>

definition block_compare :: "byte list \<Rightarrow> byte list \<Rightarrow> int" where
  "block_compare block vblock =
     (if list_ex (\<lambda>x. vblock ! x \<noteq> block ! x) [0..<IMAGE_BLOCK_SZ] then - ECMP else 0)"

definition sig_block_compare ::
    "'w librsu_ll_intf \<Rightarrow> rsu_image_state \<Rightarrow> byte list \<Rightarrow> byte list \<Rightarrow> rsu_slot_info \<Rightarrow> 'w \<Rightarrow> int \<times> 'w" where
  "sig_block_compare hal st ublock vblock info w =
     (case rsu_malloc hal w IMAGE_BLOCK_SZ of
        (None, w) \<Rightarrow> (- ENOMEM, w)
      | (Some block, w) \<Rightarrow>
          let block = overlay block 0 (take IMAGE_BLOCK_SZ ublock);
              block = (if absolute st then block else update_block_crc hal (move_pointers block info))
          in (block_compare block vblock, w))"

section \<open>The state machine\<close>

definition librsu_image_block_init :: "rsu_image_state \<Rightarrow> int \<times> rsu_image_state" where
  "librsu_image_block_init st =
     (0, (snd (add_section (st\<lparr>no_sections := 0\<rparr>) 0))
       \<lparr>block_type := REGULAR_BLOCK, absolute := False, img_offset := - int IMAGE_BLOCK_SZ\<rparr>)"

text \<open>The step to the next block: its offset, and whether a section begins there.\<close>

definition enter_block :: "rsu_image_state \<Rightarrow> rsu_image_state" where
  "enter_block st = (let st = st\<lparr>img_offset := img_offset st + int IMAGE_BLOCK_SZ\<rparr>
     in if find_section st (word_of_int (img_offset st)) then st\<lparr>block_type := SECTION_BLOCK\<rparr> else st)"

definition librsu_image_block_process ::
    "'w librsu_ll_intf \<Rightarrow> rsu_image_state \<Rightarrow> byte list \<Rightarrow> byte list option \<Rightarrow> rsu_slot_info \<Rightarrow> 'w \<Rightarrow>
     (int \<times> rsu_image_state \<times> byte list \<times> 'w) option" where
  "librsu_image_block_process hal st block vblock info w =
     (if img_offset st + int IMAGE_BLOCK_SZ \<ge> 2 ^ 31 then None
      else let st = enter_block st
      in case block_type st of
        SECTION_BLOCK \<Rightarrow>
          let st = (if u32_at block 0 = CMF_MAGIC then st\<lparr>block_type := SIGNATURE_BLOCK\<rparr>
                    else st\<lparr>block_type := REGULAR_BLOCK\<rparr>)
          in (case vblock of Some v \<Rightarrow> Some (block_compare block v, st, block, w) | None \<Rightarrow> Some (0, st, block, w))
      | SIGNATURE_BLOCK \<Rightarrow>
          (case sig_block_process st block info of (ret, st) \<Rightarrow>
           if ret \<noteq> 0 then Some (- 1, st, block, w)
           else let st = st\<lparr>block_type := REGULAR_BLOCK\<rparr>
           in case vblock of
             Some v \<Rightarrow> (case sig_block_compare hal st block v info w of (ret, w) \<Rightarrow> Some (ret, st, block, w))
           | None \<Rightarrow>
              (case sig_block_adjust hal st block info of (ret, block) \<Rightarrow>
               if ret \<noteq> 0 then Some (- 1, st, block, w) else Some (0, st, block, w)))
      | REGULAR_BLOCK \<Rightarrow>
          (case vblock of Some v \<Rightarrow> Some (block_compare block v, st, block, w) | None \<Rightarrow> Some (0, st, block, w)))"

section \<open>Blocks as data\<close>

lemma ptr_offs_less: "x < 4 \<Longrightarrow> ptr_offs x + 8 \<le> 0xFFC"
  by (simp add: ptr_offs_def)

lemma length_set_blk [simp]:
  "length b = 4096 \<Longrightarrow> x < 4 \<Longrightarrow> length (set_blk_ptr b x v) = 4096"
  "length b = 4096 \<Longrightarrow> length (set_blk_crc b c) = 4096"
  by (simp_all add: set_blk_ptr_def set_blk_crc_def ptr_offs_def)

lemma blk_ptr_set [simp]:
  assumes "length b = 4096" "x < 4" "y < 4"
  shows "blk_ptr (set_blk_ptr b x v) y = (if x = y then v else blk_ptr b y)"
proof (cases "x = y")
  case True
  then show ?thesis using assms by (simp add: blk_ptr_def set_blk_ptr_def u64_at_overlay_same ptr_offs_def)
next
  case False
  then have "ptr_offs y + 8 \<le> ptr_offs x \<or> ptr_offs x + 8 \<le> ptr_offs y" by (auto simp: ptr_offs_def)
  then show ?thesis using False assms
    by (simp add: blk_ptr_def set_blk_ptr_def u64_at_overlay_other ptr_offs_def)
qed

lemma upt_4: "[0..<4] = [0, 1, 2, 3 :: nat]"
  by (simp add: upt_rec)

lemma less_4: "x < (4 :: nat) \<longleftrightarrow> x = 0 \<or> x = 1 \<or> x = 2 \<or> x = 3"
  by arith

lemma length_move_pointers [simp]: "length b = 4096 \<Longrightarrow> length (move_pointers b info) = 4096"
  by (simp add: move_pointers_def upt_4)

lemma blk_ptr_move_pointers:
  assumes "length b = 4096" "x < 4"
  shows "blk_ptr (move_pointers b info) x = (if blk_ptr b x = 0 then 0 else blk_ptr b x + info_offset info)"
  using assms unfolding less_4 by (elim disjE) (simp_all add: move_pointers_def upt_4 del: One_nat_def)

lemma length_update_block_crc [simp]: "length b = 4096 \<Longrightarrow> length (update_block_crc hal b) = 4096"
  by (simp add: update_block_crc_def Let_def)

text \<open>A signature block whose stored CRC is that of its content.\<close>

definition block_crc_ok :: "'w librsu_ll_intf \<Rightarrow> byte list \<Rightarrow> bool" where
  "block_crc_ok hal block \<longleftrightarrow>
     (let b = swap_bits block IMAGE_BLOCK_SZ
      in swap_endian32 (blk_crc b) = rsu_crc32 hal 0 (take SIG_BLOCK_CRC_OFFS b))"

lemma block_crc_ok_update:
  assumes "length b = 4096" shows "block_crc_ok hal (update_block_crc hal b)"
proof -
  let ?b = "swap_bits b 4096" and ?c = "le_bytes 4 (swap_endian32 (rsu_crc32 hal 0 (take 0xFFC (swap_bits b 4096))))"
  have "take 0xFFC (overlay ?b 0xFFC ?c) = take 0xFFC ?b" using assms by (simp add: overlay_def)
  moreover have "u32_at (overlay ?b 0xFFC ?c) 0xFFC = swap_endian32 (rsu_crc32 hal 0 (take 0xFFC ?b))"
    by (rule u32_at_overlay_same) (use assms in simp)
  ultimately show ?thesis
    by (simp add: block_crc_ok_def update_block_crc_def Let_def blk_crc_def set_blk_crc_def)
qed

lemma take_update_block_crc:
  assumes "length b = 4096" shows "take 0xFFC (update_block_crc hal b) = take 0xFFC b"
proof -
  have "take 0xFFC (update_block_crc hal b) = take 0xFFC (swap_bits (swap_bits b 4096) 4096)"
    unfolding update_block_crc_def Let_def set_blk_crc_def
    using assms by (simp add: swap_bits_def overlay_def take_map)
  then show ?thesis by simp
qed

lemma blk_ptr_update_block_crc:
  assumes "length b = 4096" "x < 4" shows "blk_ptr (update_block_crc hal b) x = blk_ptr b x"
proof -
  have "chunk c (ptr_offs x) 8 = chunk (take 0xFFC c) (ptr_offs x) 8" for c :: "byte list"
    using ptr_offs_less [OF assms(2)] by (simp add: chunk_def drop_take min_def)
  then show ?thesis using take_update_block_crc [OF assms(1), of hal] by (metis blk_ptr_def u64_at_def)
qed

lemma block_compare_0_iff:
  "length b = 4096 \<Longrightarrow> length v = 4096 \<Longrightarrow> block_compare b v = 0 \<longleftrightarrow> v = b"
  by (auto simp: block_compare_def list_ex_iff list_eq_iff_nth_eq)

section \<open>The invariant of the state\<close>

text \<open>The sections found so far, in the order they were found.\<close>

definition known_sections :: "rsu_image_state \<Rightarrow> u64 list" where
  "known_sections st = take (no_sections st) (sections st)"

definition img_inv :: "rsu_image_state \<Rightarrow> bool" where
  "img_inv st \<longleftrightarrow> length (sections st) = MAX_SECTIONS \<and> no_sections st \<le> MAX_SECTIONS \<and>
     distinct (known_sections st) \<and> - int IMAGE_BLOCK_SZ \<le> img_offset st \<and> img_offset st < 2 ^ 31 \<and>
     img_offset st mod int IMAGE_BLOCK_SZ = 0"

lemma find_section_iff: "img_inv st \<Longrightarrow> find_section st v \<longleftrightarrow> v \<in> set (known_sections st)"
  by (auto simp: find_section_def known_sections_def img_inv_def list_ex_iff in_set_conv_nth)

lemma add_section_known:
  assumes "img_inv st"
  shows "img_inv (snd (add_section st v)) \<and>
    known_sections (snd (add_section st v)) =
      (if v \<in> set (known_sections st) \<or> length (known_sections st) = MAX_SECTIONS then known_sections st
       else known_sections st @ [v])"
proof (cases "v \<notin> set (known_sections st) \<and> no_sections st < 64")
  case True
  let ?s = "snd (add_section st v)"
  have a: "?s = st\<lparr>sections := (sections st)[no_sections st := v], no_sections := no_sections st + 1\<rparr>"
    using True find_section_iff [OF assms, of v] by (simp add: add_section_def)
  have l: "length (sections st) = 64" using assms by (simp add: img_inv_def)
  have "known_sections ?s = known_sections st @ [v]"
    using True l by (simp add: a known_sections_def take_Suc_conv_app_nth)
  then show ?thesis using True assms a l by (auto simp: img_inv_def known_sections_def)
next
  case False
  then show ?thesis using assms find_section_iff [OF assms, of v]
    by (auto simp: add_section_def known_sections_def img_inv_def)
qed

end
