(* ===== verification/Rsu_Cb.thy ===== *)
theory Rsu_Cb
  imports Rsu_Cfg Rsu_Partition Rsu_Cpb Rsu_Image
begin

text \<open>
  \<^verbatim>\<open>src/libRSU_cb.c\<close>: the two data sources, a file and a buffer, and the loops that program a slot
  from a data source and verify a slot against one.

  A data source is a callback \<^verbatim>\<open>int callback(void *buf, int len)\<close>: it takes the buffer it may fill
  (its length is \<open>len\<close>) and returns the number of bytes it filled in, 0 at the end, negative on an
  error. A callback that hands back a buffer of another length has written outside it, \<^const>\<open>None\<close>.
\<close>

section \<open>State\<close>

text \<open>
  The static variables of the file, beside the database. \<open>cb_buffer\<close> is what lies behind the
  pointer, up to the end of the caller's buffer.
\<close>

record 'w cb_state =
  cb_datafile :: "nat option"
  cb_buffer :: "byte list option"
  cb_buffer_togo :: int
  db :: "'w ops"

type_synonym 'w rsu_data_callback = "byte list \<Rightarrow> 'w cb_state \<Rightarrow> (int \<times> byte list \<times> 'w cb_state) option"

definition on_db :: "('w ops \<Rightarrow> 'a \<times> 'w ops) \<Rightarrow> 'w cb_state \<Rightarrow> 'a \<times> 'w cb_state" where
  "on_db f c = (case f (db c) of (r, d) \<Rightarrow> (r, c\<lparr>db := d\<rparr>))"

abbreviation set_world :: "'w cb_state \<Rightarrow> 'w \<Rightarrow> 'w cb_state" where
  "set_world c w \<equiv> c\<lparr>db := (db c)\<lparr>world := w\<rparr>\<rparr>"

section \<open>The file\<close>

definition librsu_cb_file_init ::
    "'w librsu_ll_intf option \<Rightarrow> byte list option \<Rightarrow> 'w cb_state \<Rightarrow> int \<times> 'w cb_state" where
  "librsu_cb_file_init h filename c =
     (case h of None \<Rightarrow> (- EINVAL, c)
      | Some hal \<Rightarrow>
          let c = (case cb_datafile c of None \<Rightarrow> c
                   | Some fp \<Rightarrow> (set_world c (snd (file_close hal (world (db c)) fp)))\<lparr>cb_datafile := None\<rparr>)
          in case filename of None \<Rightarrow> (- EEXIST, c)
             | Some name \<Rightarrow>
                 (case file_open hal (world (db c)) name RSU_FILE_READ of (fp, w) \<Rightarrow>
                  let c = (set_world c w)\<lparr>cb_datafile := fp\<rparr>
                  in if fp = None then (- ENFILE, c) else (0, c)))"

definition librsu_cb_file_cleanup :: "'w librsu_ll_intf option \<Rightarrow> 'w cb_state \<Rightarrow> 'w cb_state" where
  "librsu_cb_file_cleanup h c =
     (case h of None \<Rightarrow> c
      | Some hal \<Rightarrow>
          (case cb_datafile c of None \<Rightarrow> c
           | Some fp \<Rightarrow> set_world c (snd (file_close hal (world (db c)) fp)))\<lparr>cb_datafile := None\<rparr>)"

text \<open>What the platform makes of a NULL file is not the library's; it is never asked.\<close>

definition librsu_cb_file :: "'w librsu_ll_intf option \<Rightarrow> 'w rsu_data_callback" where
  "librsu_cb_file h buf c =
     (case h of None \<Rightarrow> Some (- EINVAL, buf, c)
      | Some hal \<Rightarrow> do {
          fp \<leftarrow> cb_datafile c;
          (case file_read hal (world (db c)) buf fp of (n, buf, w) \<Rightarrow> Some (n, buf, set_world c w))
        })"

section \<open>The buffer\<close>

definition librsu_cb_buf_init :: "byte list option \<Rightarrow> int \<Rightarrow> 'w cb_state \<Rightarrow> int \<times> 'w cb_state" where
  "librsu_cb_buf_init buf sz c =
     (if buf = None \<or> sz \<le> 0 then (- EINVAL, c) else (0, c\<lparr>cb_buffer := buf, cb_buffer_togo := sz\<rparr>))"

definition librsu_cb_buf_cleanup :: "'w cb_state \<Rightarrow> 'w cb_state" where
  "librsu_cb_buf_cleanup c = c\<lparr>cb_buffer := None, cb_buffer_togo := - 1\<rparr>"

definition librsu_cb_buf :: "'w rsu_data_callback" where
  "librsu_cb_buf buf c =
     (if cb_buffer_togo c = 0 then Some (0, buf, c)
      else case cb_buffer c of None \<Rightarrow> Some (- 1, buf, c)
      | Some b \<Rightarrow>
          if cb_buffer_togo c < 0 then Some (- 1, buf, c)
          else let read_len = (if cb_buffer_togo c < int (length buf) then nat (cb_buffer_togo c) else length buf)
          in if length b < read_len then None
          else Some (int read_len, overlay buf 0 (take read_len b),
                 c\<lparr>cb_buffer_togo := cb_buffer_togo c - int read_len,
                   cb_buffer := if cb_buffer_togo c - int read_len = 0 then None else Some (drop read_len b)\<rparr>))"

section \<open>Filling a block\<close>

text \<open>
  The inner loop of both functions: the callback is called until the block is full or the data ends.
  The result is the state behind a failed call, or the buffer, the count, whether the data ended, and
  the state.
\<close>

function fill_block ::
    "'w rsu_data_callback \<Rightarrow> byte list \<Rightarrow> int \<Rightarrow> 'w cb_state \<Rightarrow>
     ('w cb_state + byte list \<times> int \<times> bool \<times> 'w cb_state) option" where
  "fill_block callback buf cnt c =
     (if cnt \<ge> int IMAGE_BLOCK_SZ then Some (Inr (buf, cnt, False, c))
      else case callback (drop (nat cnt) buf) c of
        None \<Rightarrow> None
      | Some (n, seg, c) \<Rightarrow>
          if length seg \<noteq> length (drop (nat cnt) buf) then None
          else let buf = take (nat cnt) buf @ seg
          in if n = 0 then Some (Inr (buf, cnt, True, c))
          else if n < 0 then Some (Inl c)
          else fill_block callback buf (cnt + n) c)"
  by pat_completeness auto
termination
  by (relation "measure (\<lambda>(callback, buf, cnt, c). nat (int IMAGE_BLOCK_SZ - cnt))") auto

declare fill_block.simps [simp del]

text \<open>A \<^verbatim>\<open>RSU_OSAL_U32\<close> passed as \<^verbatim>\<open>RSU_OSAL_INT\<close>, and the comparison of the two buffers.\<close>

definition as_int :: "int \<Rightarrow> int" where
  "as_int n = sint (word_of_int n :: u32)"

definition differ :: "byte list \<Rightarrow> byte list \<Rightarrow> int \<Rightarrow> bool" where
  "differ vbuf buf cnt = list_ex (\<lambda>x. vbuf ! x \<noteq> buf ! x) [0..<nat cnt]"

text \<open>
  The description of the slot that both functions make. Of the local variable only what is
  read again matters: the bytes of the name behind its NUL are taken as 0.
\<close>

definition slot_info :: "int \<Rightarrow> 'w ops \<Rightarrow> (int + rsu_slot_info) option" where
  "slot_info part_num s = do {
     name \<leftarrow> SAFE_STRCPY (replicate 16 0) 16 (Some (partition_name part_num s)) 16;
     (ret, offset) \<leftarrow> partition_offset part_num (Some 0) s;
     if ret < 0 then Some (Inl (- EBADF))
     else do {
       prio \<leftarrow> priority_get part_num s;
       Some (Inr \<lparr>info_name = name, info_offset = (case offset of Some v \<Rightarrow> v | None \<Rightarrow> 0),
         info_size = partition_size part_num s, info_priority = prio\<rparr>)
     }
   }"

section \<open>Programming\<close>

text \<open>The outer loop. It ends when the data does; data without end runs into the end of the slot.\<close>

partial_function (option) program_loop ::
    "'w librsu_ll_intf \<Rightarrow> 'w rsu_data_callback \<Rightarrow> bool \<Rightarrow> int \<Rightarrow> rsu_slot_info \<Rightarrow> rsu_image_state \<Rightarrow>
     byte list \<Rightarrow> byte list \<Rightarrow> int \<Rightarrow> 'w cb_state \<Rightarrow> (int \<times> 'w cb_state) option" where
  "program_loop hal callback rawdata part_num info st buf vbuf offset c = do {
     f \<leftarrow> fill_block callback buf 0 c;
     (case f of Inl c \<Rightarrow> Some (- ECALLBACK, c)
      | Inr (buf, cnt, over, c) \<Rightarrow>
        if cnt = 0 then Some (0, c)
        else do {
          (ret, st, buf, w) \<leftarrow> (if rawdata then Some (0, st, buf, world (db c))
                               else librsu_image_block_process hal st buf None info (world (db c)));
          let c = set_world c w;
          if ret \<noteq> 0 then Some (- EPROGRAM, c)
          else if partition_size part_num (db c) < 0 then Some (- ELOWLEVEL, c)
          else if (offset + cnt) mod 2 ^ 32 > partition_size part_num (db c) then Some (- ESIZE, c)
          else do {
            (ret, d) \<leftarrow> data_write hal part_num offset (as_int cnt) (Some buf) (db c);
            if ret \<noteq> 0 then Some (- ELOWLEVEL, c\<lparr>db := d\<rparr>)
            else do {
              (ret, vbuf, d) \<leftarrow> data_read hal part_num offset (as_int cnt) (Some vbuf) d;
              let c = c\<lparr>db := d\<rparr>;
              if ret \<noteq> 0 then Some (- ELOWLEVEL, c)
              else if differ vbuf buf cnt then Some (- ECMP, c)
              else if over then Some (0, c)
              else program_loop hal callback rawdata part_num info st buf vbuf (as_int (offset + cnt)) c
            }
          }
        })
   }"

text \<open>The state of the walk is a local variable that \<^verbatim>\<open>librsu_image_block_init\<close> fills; \<open>st0\<close> is what it holds before.\<close>

definition librsu_cb_program_common ::
    "'w librsu_ll_intf \<Rightarrow> rsu_image_state \<Rightarrow> int \<Rightarrow> 'w rsu_data_callback option \<Rightarrow> bool \<Rightarrow> 'w cb_state \<Rightarrow>
     (int \<times> 'w cb_state) option" where
  "librsu_cb_program_common hal st0 slot callback rawdata c =
     (if librsu_cfg_writeprotected hal slot \<noteq> 0 then Some (- EWRPROT, c)
      else do {
        part_num \<leftarrow> librsu_misc_slot2part partition_ops (db c) slot;
        if part_num < 0 then Some (- ESLOTNUM, c)
        else do {
          i \<leftarrow> slot_info part_num (db c);
          (case i of Inl e \<Rightarrow> Some (e, c)
           | Inr info \<Rightarrow> do {
               prio \<leftarrow> priority_get part_num (db c);
               if prio > 0 then Some (- EPROGRAM, c)
               else (case callback of None \<Rightarrow> Some (- EARGS, c)
                 | Some callback \<Rightarrow>
                   (case librsu_image_block_init st0 of (ret, st) \<Rightarrow>
                    if ret \<noteq> 0 then Some (- ELIB, c)
                    else case rsu_malloc hal (world (db c)) IMAGE_BLOCK_SZ of
                      (None, w) \<Rightarrow> Some (- EARGS, set_world c w)
                    | (Some vbuf, w) \<Rightarrow>
                      (case rsu_malloc hal w IMAGE_BLOCK_SZ of
                         (None, w) \<Rightarrow> Some (- EARGS, set_world c w)
                       | (Some buf, w) \<Rightarrow> do {
                           (ret, c) \<leftarrow> program_loop hal callback rawdata part_num info st buf vbuf 0 (set_world c w);
                           if ret \<noteq> 0 then Some (ret, c)
                           else if rawdata then Some (0, c)
                           else do {
                             (ret, d) \<leftarrow> priority_add hal part_num (db c);
                             if ret \<noteq> 0 then Some (- ELOWLEVEL, c\<lparr>db := d\<rparr>) else Some (0, c\<lparr>db := d\<rparr>)
                           }
                         })))
             })
        }
      })"

section \<open>Verifying\<close>

partial_function (option) verify_loop ::
    "'w librsu_ll_intf \<Rightarrow> 'w rsu_data_callback \<Rightarrow> bool \<Rightarrow> int \<Rightarrow> rsu_slot_info \<Rightarrow> rsu_image_state \<Rightarrow>
     byte list \<Rightarrow> byte list \<Rightarrow> int \<Rightarrow> 'w cb_state \<Rightarrow> (int \<times> 'w cb_state) option" where
  "verify_loop hal callback rawdata part_num info st buf vbuf offset c = do {
     f \<leftarrow> fill_block callback buf 0 c;
     (case f of Inl c \<Rightarrow> Some (- ECALLBACK, c)
      | Inr (buf, cnt, over, c) \<Rightarrow>
        if cnt \<ge> 2 ^ 31 then None
        else if cnt = 0 then Some (0, c)
        else do {
          (ret, vbuf, d) \<leftarrow> data_read hal part_num (as_int offset) cnt (Some vbuf) (db c);
          let c = c\<lparr>db := d\<rparr>;
          if ret \<noteq> 0 then Some (- ELOWLEVEL, c)
          else if rawdata then
            (if differ vbuf buf cnt then Some (- ECMP, c)
             else if over then Some (0, c)
             else verify_loop hal callback rawdata part_num info st buf vbuf ((offset + cnt) mod 2 ^ 32) c)
          else do {
            (ret, st, buf, w) \<leftarrow> librsu_image_block_process hal st buf (Some vbuf) info (world (db c));
            let c = set_world c w;
            if ret \<noteq> 0 then Some (- ECMP, c)
            else if over then Some (0, c)
            else verify_loop hal callback rawdata part_num info st buf vbuf ((offset + cnt) mod 2 ^ 32) c
          }
        })
   }"

definition librsu_cb_verify_common ::
    "'w librsu_ll_intf \<Rightarrow> rsu_image_state \<Rightarrow> int \<Rightarrow> 'w rsu_data_callback option \<Rightarrow> bool \<Rightarrow> 'w cb_state \<Rightarrow>
     (int \<times> 'w cb_state) option" where
  "librsu_cb_verify_common hal st0 slot callback rawdata c = do {
     part_num \<leftarrow> librsu_misc_slot2part partition_ops (db c) slot;
     if part_num < 0 then Some (- ESLOTNUM, c)
     else do {
       i \<leftarrow> slot_info part_num (db c);
       (case i of Inl e \<Rightarrow> Some (e, c)
        | Inr info \<Rightarrow> do {
            prio \<leftarrow> (if rawdata then Some 1 else priority_get part_num (db c));
            if prio \<le> 0 then Some (- EERASE, c)
            else (case callback of None \<Rightarrow> Some (- EARGS, c)
              | Some callback \<Rightarrow>
                (case librsu_image_block_init st0 of (ret, st) \<Rightarrow>
                 if ret \<noteq> 0 then Some (- ELIB, c)
                 else case rsu_malloc hal (world (db c)) IMAGE_BLOCK_SZ of
                   (None, w) \<Rightarrow> Some (- EARGS, set_world c w)
                 | (Some vbuf, w) \<Rightarrow>
                   (case rsu_malloc hal w IMAGE_BLOCK_SZ of
                      (None, w) \<Rightarrow> Some (- EARGS, set_world c w)
                    | (Some buf, w) \<Rightarrow> verify_loop hal callback rawdata part_num info st buf vbuf 0 (set_world c w))))
          })
     }
   }"

end
