(* ===== verification/Rsu_Image_Ok.thy ===== *)
theory Rsu_Image_Ok
  imports Rsu_Image
begin

text \<open>
  What the walk over an image guarantees: the state keeps its invariant; a signature block written to
  a slot has its pointers moved by the offset of the slot and a CRC that fits; and comparing the
  user's block with what is in flash succeeds exactly when flash holds what writing the same block
  puts there.
\<close>

section \<open>Signature blocks\<close>

lemma sig_block_process_ret [simp]: "fst (sig_block_process st b info) = 0"
  by (simp add: sig_block_process_def)

lemma sig_block_process_run:
  "sig_block_process st b info = (r, t) \<longleftrightarrow> r = 0 \<and> t = snd (sig_block_process st b info)"
  by (metis prod.collapse prod.inject sig_block_process_ret)

lemma fold_add_section:
  assumes "img_inv st"
  shows "let t = fold (\<lambda>x st. if P x then snd (add_section st (f (absolute st) x)) else st) xs st
    in img_inv t \<and> img_offset t = img_offset st \<and> block_type t = block_type st \<and> absolute t = absolute st \<and>
      (\<exists>ys. known_sections t = known_sections st @ ys)"
  using assms
proof (induction xs arbitrary: st)
  case Nil
  then show ?case by simp
next
  case (Cons x xs)
  let ?u = "if P x then snd (add_section st (f (absolute st) x)) else st"
  have u: "img_inv ?u \<and> img_offset ?u = img_offset st \<and> block_type ?u = block_type st \<and> absolute ?u = absolute st \<and>
      (\<exists>ys. known_sections ?u = known_sections st @ ys)"
    using add_section_known [OF Cons.prems, of "f (absolute st) x"] Cons.prems by (auto simp: add_section_def)
  with Cons.IH [of ?u] show ?case by (auto simp: Let_def)
qed

lemma img_inv_absolute [simp]:
  "img_inv (st\<lparr>absolute := a\<rparr>) = img_inv st" "img_inv (st\<lparr>block_type := k\<rparr>) = img_inv st"
  "known_sections (st\<lparr>absolute := a\<rparr>) = known_sections st" "known_sections (st\<lparr>block_type := k\<rparr>) = known_sections st"
  "known_sections (st\<lparr>img_offset := n\<rparr>) = known_sections st"
  by (simp_all add: img_inv_def known_sections_def)

lemma sig_block_process_inv:
  assumes "img_inv st"
  shows "img_inv (snd (sig_block_process st b info)) \<and>
    img_offset (snd (sig_block_process st b info)) = img_offset st \<and>
    (\<exists>ys. known_sections (snd (sig_block_process st b info)) = known_sections st @ ys)"
proof -
  let ?s = "if img_offset st = 4096 \<and> list_ex (\<lambda>x. blk_ptr b x > word_of_int (info_size info)) [0..<4]
      then st\<lparr>absolute := True\<rparr> else st"
  have s: "img_inv ?s" "img_offset ?s = img_offset st" "known_sections ?s = known_sections st" using assms by simp_all
  show ?thesis
    using fold_add_section [OF s(1), where P = "\<lambda>x. blk_ptr b x \<noteq> 0" and xs = "[0..<4]"
        and f = "\<lambda>a x. if a then blk_ptr b x - info_offset info else blk_ptr b x"] s
    unfolding sig_block_process_def Let_def by simp
qed

text \<open>What a signature block becomes in the slot.\<close>

definition moved_block :: "'w librsu_ll_intf \<Rightarrow> bool \<Rightarrow> rsu_slot_info \<Rightarrow> byte list \<Rightarrow> byte list" where
  "moved_block hal ab info b = (if ab then b else update_block_crc hal (move_pointers b info))"

lemma length_moved_block [simp]: "length b = 4096 \<Longrightarrow> length (moved_block hal ab info b) = 4096"
  by (simp add: moved_block_def)

lemma blk_ptr_moved_block:
  "length b = 4096 \<Longrightarrow> x < 4 \<Longrightarrow> blk_ptr (moved_block hal ab info b) x =
     (if ab \<or> blk_ptr b x = 0 then blk_ptr b x else blk_ptr b x + info_offset info)"
  by (simp add: moved_block_def blk_ptr_update_block_crc blk_ptr_move_pointers)

text \<open>The bytes a move changes are the pointers and the CRC.\<close>

lemma move_pointers_frame:
  assumes "length b = 4096" "i < 4096" "i < 0xF08 \<or> 0xF28 \<le> i"
  shows "move_pointers b info ! i = b ! i"
proof -
  have s: "set_blk_ptr c x v ! i = c ! i" if "length c = 4096" "x < 4" for c x v
    using that assms by (auto simp: set_blk_ptr_def nth_overlay ptr_offs_def)
  show ?thesis using assms(1) by (simp add: move_pointers_def upt_4 s)
qed

lemma moved_block_frame:
  assumes "length b = 4096" "i < 0xF08 \<or> 0xF28 \<le> i" "i < 0xFFC"
  shows "moved_block hal ab info b ! i = b ! i"
proof -
  have "update_block_crc hal c ! i = c ! i" if "length c = 4096" for c
    using take_update_block_crc [OF that, of hal] assms(3) by (metis nth_take)
  then show ?thesis using move_pointers_frame [of b i info] assms by (simp add: moved_block_def)
qed

lemma sig_block_adjust_ok:
  assumes "sig_block_adjust hal st b info = (0, b')" "length b = 4096"
  shows "b' = moved_block hal (absolute st) info b \<and> block_crc_ok hal b \<and> block_crc_ok hal b' \<and>
    (\<forall>x < 4. blk_ptr b x \<noteq> 0 \<longrightarrow>
       sint (if absolute st then blk_ptr b x - info_offset info else blk_ptr b x) \<le> info_size info)"
proof -
  have c: "block_crc_ok hal b" and b': "b' = moved_block hal (absolute st) info b"
    using assms(1) by (auto simp: sig_block_adjust_def Let_def block_crc_ok_def moved_block_def split: if_splits)
  moreover have "block_crc_ok hal b'"
    using c b' assms(2) block_crc_ok_update [of "move_pointers b info" hal] by (simp add: moved_block_def)
  moreover have "\<forall>x < 4. blk_ptr b x \<noteq> 0 \<longrightarrow>
       sint (if absolute st then blk_ptr b x - info_offset info else blk_ptr b x) \<le> info_size info"
    using assms(1) by (auto simp: sig_block_adjust_def Let_def list_ex_iff not_less split: if_splits)
  ultimately show ?thesis by blast
qed

lemma sig_block_compare_run:
  assumes "length ub = 4096" "length v = 4096" "\<And>p w'. rsu_malloc hal w 4096 = (Some p, w') \<Longrightarrow> length p = 4096"
  shows "\<exists>r w'. sig_block_compare hal st ub v info w = (r, w') \<and>
    (r = 0 \<longrightarrow> v = moved_block hal (absolute st) info ub) \<and>
    (v = moved_block hal (absolute st) info ub \<longrightarrow> r = 0 \<or> r = - ENOMEM \<and> fst (rsu_malloc hal w 4096) = None) \<and>
    w' = snd (rsu_malloc hal w 4096)"
proof -
  obtain p w' where m: "rsu_malloc hal w 4096 = (p, w')" by fastforce
  show ?thesis
  proof (cases p)
    case None
    then show ?thesis using m by (simp add: sig_block_compare_def)
  next
    case (Some c)
    then have "length c = 4096" using m assms(3) by simp
    then have "overlay c 0 (take 4096 ub) = ub" using assms(1) by (simp add: overlay_def)
    then have "sig_block_compare hal st ub v info w = (block_compare (moved_block hal (absolute st) info ub) v, w')"
      using m Some by (simp add: sig_block_compare_def Let_def moved_block_def)
    then show ?thesis using assms(1,2) m by (simp add: block_compare_0_iff)
  qed
qed

section \<open>The state machine\<close>

text \<open>The state behind a block: the same for writing and comparing.\<close>

definition leave_block :: "rsu_image_state \<Rightarrow> byte list \<Rightarrow> rsu_slot_info \<Rightarrow> rsu_image_state" where
  "leave_block st b info = (case block_type st of
       SECTION_BLOCK \<Rightarrow> st\<lparr>block_type := if u32_at b 0 = CMF_MAGIC then SIGNATURE_BLOCK else REGULAR_BLOCK\<rparr>
     | SIGNATURE_BLOCK \<Rightarrow> (snd (sig_block_process st b info))\<lparr>block_type := REGULAR_BLOCK\<rparr>
     | REGULAR_BLOCK \<Rightarrow> st)"

text \<open>What writing puts in the place of a block.\<close>

definition placed_block ::
    "'w librsu_ll_intf \<Rightarrow> rsu_image_state \<Rightarrow> byte list \<Rightarrow> rsu_slot_info \<Rightarrow> byte list" where
  "placed_block hal st b info =
     (if block_type (enter_block st) = SIGNATURE_BLOCK
      then moved_block hal (absolute (leave_block (enter_block st) b info)) info b else b)"

lemma length_placed_block [simp]: "length b = 4096 \<Longrightarrow> length (placed_block hal st b info) = 4096"
  by (simp add: placed_block_def)

lemma process_write:
  "librsu_image_block_process hal st b None info w = Some (r, st', b', w') \<Longrightarrow> length b = 4096 \<Longrightarrow>
   img_offset st + 4096 < 2 ^ 31 \<and> st' = leave_block (enter_block st) b info \<and> w' = w \<and>
   (r = 0 \<longrightarrow> b' = placed_block hal st b info)"
  by (auto simp: librsu_image_block_process_def leave_block_def placed_block_def Let_def
      sig_block_process_run split: if_splits rsu_block_type.splits prod.splits dest!: sig_block_adjust_ok)

lemma process_compare:
  assumes "img_offset st + 4096 < 2 ^ 31" "length b = 4096" "length v = 4096"
    "\<And>p w'. rsu_malloc hal w 4096 = (Some p, w') \<Longrightarrow> length p = 4096"
  shows "\<exists>r w'. librsu_image_block_process hal st b (Some v) info w = Some (r, leave_block (enter_block st) b info, b, w') \<and>
    (r = 0 \<longrightarrow> v = placed_block hal st b info) \<and>
    (v = placed_block hal st b info \<longrightarrow> r = 0 \<or> r = - ENOMEM \<and> fst (rsu_malloc hal w 4096) = None) \<and>
    (w' = w \<or> w' = snd (rsu_malloc hal w 4096))"
proof (cases "block_type (enter_block st) = SIGNATURE_BLOCK")
  case True
  let ?t = "leave_block (enter_block st) b info"
  have "\<exists>r w'. sig_block_compare hal ?t b v info w = (r, w') \<and>
    (r = 0 \<longrightarrow> v = moved_block hal (absolute ?t) info b) \<and>
    (v = moved_block hal (absolute ?t) info b \<longrightarrow> r = 0 \<or> r = - ENOMEM \<and> fst (rsu_malloc hal w 4096) = None) \<and>
    w' = snd (rsu_malloc hal w 4096)"
    by (rule sig_block_compare_run [OF assms(2,3)]) (use assms(4) in blast)
  then obtain r w' where c: "sig_block_compare hal ?t b v info w = (r, w')"
    "r = 0 \<longrightarrow> v = moved_block hal (absolute ?t) info b"
    "v = moved_block hal (absolute ?t) info b \<longrightarrow> r = 0 \<or> r = - ENOMEM \<and> fst (rsu_malloc hal w 4096) = None"
    "w' = snd (rsu_malloc hal w 4096)"
    by blast
  moreover obtain q where q: "sig_block_process (enter_block st) b info = (0, q)" "?t = q\<lparr>block_type := REGULAR_BLOCK\<rparr>"
    using True by (simp add: leave_block_def sig_block_process_run)
  ultimately have "librsu_image_block_process hal st b (Some v) info w = Some (r, ?t, b, w')"
    using True assms(1) by (simp add: librsu_image_block_process_def Let_def)
  then show ?thesis using c True by (simp add: placed_block_def)
next
  case False
  then show ?thesis using assms(1-3)
    by (cases "block_type (enter_block st)")
      (auto simp: librsu_image_block_process_def leave_block_def placed_block_def Let_def
        block_compare_0_iff)
qed

lemma img_inv_enter:
  assumes "img_inv st" "img_offset st + 4096 < 2 ^ 31"
  shows "img_inv (enter_block st) \<and> img_offset (enter_block st) = img_offset st + 4096 \<and>
    known_sections (enter_block st) = known_sections st"
proof -
  have "img_inv (st\<lparr>img_offset := img_offset st + 4096\<rparr>)" using assms by (auto simp: img_inv_def)
  then show ?thesis by (simp add: enter_block_def Let_def)
qed

lemma img_inv_leave:
  assumes "img_inv st"
  shows "img_inv (leave_block st b info) \<and> img_offset (leave_block st b info) = img_offset st \<and>
    (\<exists>ys. known_sections (leave_block st b info) = known_sections st @ ys)"
  using sig_block_process_inv [OF assms, of b info] assms
  by (cases "block_type st") (auto simp: leave_block_def)

lemma init_inv:
  assumes "length (sections st) = MAX_SECTIONS" "librsu_image_block_init st = (r, t)"
  shows "r = 0 \<and> img_inv t \<and> known_sections t = [0] \<and> img_offset t = - 4096 \<and> block_type t = REGULAR_BLOCK \<and>
    \<not> absolute t"
proof -
  have "find_section (st\<lparr>no_sections := 0\<rparr>) 0 = False" by (simp add: find_section_def)
  then show ?thesis using assms
    by (cases "sections st") (auto simp: librsu_image_block_init_def add_section_def img_inv_def known_sections_def)
qed

end
