(* ===== verification/Rsu_Cb_Ok.thy ===== *)
theory Rsu_Cb_Ok
  imports Rsu_Cb Rsu_Image_Ok
begin

text \<open>
  What programming and verifying achieve. The contract of a data source is the locale
  \<open>data_source\<close>: it hands out, piece by piece, the bytes it has left. The buffer of
  \<^verbatim>\<open>libRSU_cb.c\<close> keeps it. The two loops are proved against it: after a successful programming
  the slot holds the image of the data, and verifying accepts exactly that.
\<close>

section \<open>Data sources\<close>

locale data_source =
  fixes get :: "'w rsu_data_callback" and left :: "'w cb_state \<Rightarrow> byte list" and good :: "'w cb_state \<Rightarrow> bool"
  assumes get_end: "good c \<Longrightarrow> left c = [] \<Longrightarrow> get b c = Some (0, b, c)"
    and get_more: "good c \<Longrightarrow> left c \<noteq> [] \<Longrightarrow> b \<noteq> [] \<Longrightarrow>
      \<exists>n c'. get b c = Some (int n, take n (left c) @ drop n b, c') \<and> 0 < n \<and> n \<le> length b \<and> n \<le> length (left c) \<and>
        left c' = drop n (left c) \<and> good c' \<and> db c' = db c"
    and good_db: "good (c\<lparr>db := d\<rparr>) = good c"
    and left_db: "left (c\<lparr>db := d\<rparr>) = left c"
begin

lemma fill_block_source:
  assumes "good c" "length buf = 4096" "k \<le> 4096" "n = min (4096 - k) (length (left c))"
  shows "\<exists>c'. fill_block get buf (int k) c =
      Some (Inr (take k buf @ take n (left c) @ drop (k + n) buf, int (k + n), k + n < 4096, c')) \<and>
    left c' = drop n (left c) \<and> good c' \<and> db c' = db c"
  using assms
proof (induction "4096 - k" arbitrary: k n c buf rule: less_induct)
  case less
  show ?case
  proof (cases "k = 4096")
    case True
    then show ?thesis using less.prems by (simp add: fill_block.simps)
  next
    case False
    then have k: "k < 4096" using less.prems by simp
    show ?thesis
    proof (cases "left c = []")
      case True
      then show ?thesis using k less.prems get_end [OF less.prems(1)]
        by (subst fill_block.simps) (simp add: Let_def)
    next
      case more: False
      have "drop k buf \<noteq> []" using k less.prems by simp
      from get_more [OF less.prems(1) more this] obtain m c1 where
        g: "get (drop k buf) c = Some (int m, take m (left c) @ drop m (drop k buf), c1)"
        and m: "0 < m" "m \<le> 4096 - k" "m \<le> length (left c)"
        and c1: "left c1 = drop m (left c)" "good c1" "db c1 = db c"
        using less.prems(2) by auto
      let ?b = "take k buf @ take m (left c) @ drop (k + m) buf"
      have b: "length ?b = 4096" using less.prems(2) m k by simp
      have step: "fill_block get buf (int k) c = fill_block get ?b (int (k + m)) c1"
      proof -
        have "\<not> int 4096 \<le> int k" "nat (int k) = k" "length (take m (left c) @ drop m (drop k buf)) = length (drop k buf)"
          "int m \<noteq> 0" "\<not> int m < 0" using k m less.prems(2) by simp_all
        then have "fill_block get buf (int k) c = fill_block get (take k buf @ take m (left c) @ drop m (drop k buf)) (int k + int m) c1"
          by (subst fill_block.simps) (simp only: g Let_def if_False option.case prod.case simp_thms not_True_eq_False)
        then show ?thesis by (simp add: drop_drop add.commute)
      qed
      have mn: "m \<le> n" using m less.prems(4) by simp
      obtain c2 where c2: "fill_block get ?b (int (k + m)) c1 =
          Some (Inr (take (k + m) ?b @ take (n - m) (left c1) @ drop (k + m + (n - m)) ?b,
            int (k + m + (n - m)), k + m + (n - m) < 4096, c2))"
          "left c2 = drop (n - m) (left c1)" "good c2" "db c2 = db c1"
      proof -
        have "4096 - (k + m) < 4096 - k" "k + m \<le> 4096" using m k by linarith+
        moreover have "n - m = min (4096 - (k + m)) (length (left c1))" using m c1(1) less.prems(4) by simp
        ultimately show thesis using less.hyps [OF _ c1(2) b, of "k + m" "n - m"] that by blast
      qed
      have "take (k + m) ?b = take k buf @ take m (left c)" "drop (k + n) ?b = drop (k + n) buf"
        using m k less.prems(2) mn by (simp_all add: min_def add.commute)
      moreover have "take m (left c) @ take (n - m) (left c1) = take n (left c)"
        using c1(1) mn by (simp add: take_add [symmetric])
      moreover have "k + m + (n - m) = k + n" using mn by simp
      ultimately have "take (k + m) ?b @ take (n - m) (left c1) @ drop (k + m + (n - m)) ?b =
          take k buf @ take n (left c) @ drop (k + n) buf" by (metis append_assoc)
      moreover have "left c2 = drop n (left c)" using c2(2) c1(1) mn by simp
      ultimately show ?thesis using step c2 c1(3) \<open>k + m + (n - m) = k + n\<close>
        by (intro exI [of _ c2]) (simp only: simp_thms)
    qed
  qed
qed

lemma fill_block_0:
  assumes "good c" "length buf = 4096" "n = min 4096 (length (left c))"
  obtains c' where "fill_block get buf 0 c = Some (Inr (take n (left c) @ drop n buf, int n, n < 4096, c'))"
    "left c' = drop n (left c)" "good c'" "db c' = db c"
  using fill_block_source [OF assms(1,2), of 0 n] assms(3) by auto

end

text \<open>The buffer of \<^verbatim>\<open>libRSU_cb.c\<close> is a data source of the bytes it has to go.\<close>

definition buf_left :: "'w cb_state \<Rightarrow> byte list" where
  "buf_left c = (case cb_buffer c of None \<Rightarrow> [] | Some b \<Rightarrow> take (nat (cb_buffer_togo c)) b)"

definition buf_good :: "'w cb_state \<Rightarrow> bool" where
  "buf_good c \<longleftrightarrow> 0 \<le> cb_buffer_togo c \<and>
     (case cb_buffer c of None \<Rightarrow> cb_buffer_togo c = 0 | Some b \<Rightarrow> cb_buffer_togo c \<le> int (length b))"

lemma librsu_cb_buf_more:
  assumes "buf_good c" "buf_left c \<noteq> []" "b \<noteq> []"
  shows "\<exists>n c'. librsu_cb_buf b c = Some (int n, take n (buf_left c) @ drop n b, c') \<and> 0 < n \<and> n \<le> length b \<and>
    n \<le> length (buf_left c) \<and> buf_left c' = drop n (buf_left c) \<and> buf_good c' \<and> db c' = db c"
proof -
  obtain x where x: "cb_buffer c = Some x" using assms(2) by (cases "cb_buffer c") (auto simp: buf_left_def)
  define t where "t = nat (cb_buffer_togo c)"
  have t: "cb_buffer_togo c = int t" "t \<noteq> 0" "t \<le> length x" "buf_left c = take t x"
    using assms x by (auto simp: buf_good_def buf_left_def t_def)
  define n where "n = min t (length b)"
  have n: "n \<le> t" "n \<le> length b" "0 < n" using t(2) assms(3) by (auto simp: n_def)
  let ?c = "c\<lparr>cb_buffer_togo := int t - int n, cb_buffer := if int t - int n = 0 then None else Some (drop n x)\<rparr>"
  have r: "(if int t < int (length b) then nat (int t) else length b) = n" by (simp add: n_def)
  have "int t \<noteq> 0" "\<not> int t < 0" "\<not> length x < n" using n t by simp_all
  then have "librsu_cb_buf b c = Some (int n, overlay b 0 (take n x), ?c)"
    unfolding librsu_cb_buf_def x t(1) r Let_def option.case by simp
  moreover have "overlay b 0 (take n x) = take n (buf_left c) @ drop n b"
    using t n by (simp add: overlay_def min_absorb1)
  moreover have "nat (int t - int n) = t - n" by simp
  then have "buf_left ?c = drop n (buf_left c)" "buf_good ?c"
    using t n x by (auto simp: buf_left_def buf_good_def drop_take)
  ultimately show ?thesis using n t by (intro exI [of _ n] exI [of _ ?c]) simp
qed

interpretation buf_source: data_source librsu_cb_buf buf_left buf_good
proof unfold_locales
  fix c :: "'w cb_state" and b
  assume "buf_good c" "buf_left c = []"
  then show "librsu_cb_buf b c = Some (0, b, c)"
    by (auto simp: librsu_cb_buf_def buf_left_def buf_good_def split: option.splits)
next
  fix c :: "'w cb_state" and d
  show "buf_good (c\<lparr>db := d\<rparr>) = buf_good c" "buf_left (c\<lparr>db := d\<rparr>) = buf_left c"
    by (simp_all add: buf_left_def buf_good_def split: option.split)
qed (rule librsu_cb_buf_more)

end
