(* ===== verification/Rsu_Cb_Loops.thy ===== *)
theory Rsu_Cb_Loops
  imports Rsu_Cb_Ok
begin

text \<open>
  The loops of programming and verifying against a data source. \<open>placed_image\<close> is what the data
  become in the slot, block by block.
\<close>

section \<open>The image of the data\<close>

function placed_image ::
    "'w librsu_ll_intf \<Rightarrow> bool \<Rightarrow> rsu_slot_info \<Rightarrow> rsu_image_state \<Rightarrow> byte list \<Rightarrow> byte list" where
  "placed_image hal raw info st ds =
     (if ds = [] then []
      else (if raw then take 4096 ds else placed_block hal st (take 4096 ds) info) @
        placed_image hal raw info (if raw then st else leave_block (enter_block st) (take 4096 ds) info) (drop 4096 ds))"
  by pat_completeness auto
termination
  by (relation "measure (\<lambda>(hal, raw, info, st, ds). length ds)") auto

declare placed_image.simps [simp del]

lemma placed_image_Nil [simp]: "placed_image hal raw info st [] = []"
  by (simp add: placed_image.simps)

lemma placed_image_raw [simp]: "placed_image hal True info st ds = ds"
  by (induction hal "True" info st ds rule: placed_image.induct)
    (simp add: placed_image.simps)

text \<open>The data come in whole blocks, or are written as they are.\<close>

definition whole :: "bool \<Rightarrow> byte list \<Rightarrow> bool" where
  "whole raw ds \<longleftrightarrow> raw \<or> 4096 dvd length ds"

lemma whole_long: "whole False ds \<Longrightarrow> ds \<noteq> [] \<Longrightarrow> 4096 \<le> length ds"
  by (auto simp: whole_def dest: dvd_imp_le)

lemma whole_drop: "whole raw ds \<Longrightarrow> whole raw (drop 4096 ds)"
  by (auto simp: whole_def intro: dvd_diff_nat)

lemma length_placed_image: "whole raw ds \<Longrightarrow> length (placed_image hal raw info st ds) = length ds"
proof (induction hal raw info st ds rule: placed_image.induct)
  case (1 hal raw info st ds)
  show ?case
  proof (cases "ds = [] \<or> raw")
    case True
    then show ?thesis by (cases raw) auto
  next
    case False
    then have l: "4096 \<le> length ds" using whole_long "1.prems" by auto
    then show ?thesis using False 1 whole_drop [OF "1.prems"]
      by (subst placed_image.simps) simp
  qed
qed

section \<open>Arithmetic of the loops\<close>

lemma as_int_small: "0 \<le> n \<Longrightarrow> n < 2 ^ 31 \<Longrightarrow> as_int n = n"
  by (simp add: as_int_def sint_uint_small uint_of_int_small)

lemma partition_size_less: "partition_size p s < 2 ^ 31"
  using sint_less [of "p_length (partition (spt s) ! nat p)"] by (auto simp: partition_size_def)

lemma partition_size_world [simp]: "partition_size p (s\<lparr>world := w\<rparr>) = partition_size p s"
  by (simp add: partition_size_def bad_part_def)

lemma differ_iff: "k \<le> length a \<Longrightarrow> k \<le> length b \<Longrightarrow> differ a b (int k) \<longleftrightarrow> take k a \<noteq> take k b"
  by (auto simp: differ_def list_ex_iff list_eq_iff_nth_eq)

section \<open>Programming\<close>

context data_source begin

lemma program_loop_step:
  assumes nor: "nor_flash hal mem"
    and run: "program_loop hal get raw p info st buf vbuf (int off) c = Some (0, c')"
    and src: "good c" "left c \<noteq> []" "length buf = 4096" "length vbuf = 4096" and off: "off < 2 ^ 31"
    and wh: "whole raw (left c)" and n: "n = min 4096 (length (left c))"
  obtains w c1 buf' vbuf' where "left c1 = drop n (left c)" "good c1" "db c1 = (db c)\<lparr>world := w\<rparr>"
    "length buf' = 4096" "length vbuf' = 4096" "int (off + n) \<le> part_len (db c) (nat p)" "off + n < 2 ^ 31"
    "\<And>a. a < part_addr (db c) (nat p) + int off \<or> part_addr (db c) (nat p) + int (off + n) \<le> a \<Longrightarrow>
       mem w a = mem (world (db c)) a"
    "region (mem w) (part_addr (db c) (nat p) + int off) n =
       (if raw then take n (left c) else placed_block hal st (take 4096 (left c)) info)"
    "n < 4096 \<Longrightarrow> c' = c1"
    "n = 4096 \<Longrightarrow> program_loop hal get raw p info (if raw then st else leave_block (enter_block st) (take 4096 (left c)) info)
       buf' vbuf' (int (off + n)) c1 = Some (0, c')"
proof -
  obtain c1 where f: "fill_block get buf 0 c = Some (Inr (take n (left c) @ drop n buf, int n, n < 4096, c1))"
    and c1: "left c1 = drop n (left c)" "good c1" "db c1 = db c"
    by (rule fill_block_0 [OF src(1,3) n])
  let ?b = "take n (left c) @ drop n buf"
  have n0: "0 < n" "n \<le> 4096" "length ?b = 4096" using n src(2,3) by auto
  have an: "as_int (int n) = int n" using n0 by (intro as_int_small) auto
  have "int n \<noteq> 0" using n0 by simp
  with run obtain st1 b1 w0 d1 vb d2 where
    P: "(if raw then Some (0, st, ?b, world (db c)) else librsu_image_block_process hal st ?b None info (world (db c))) =
      Some (0, st1, b1, w0)"
    and S: "(int off + int n) mod 2 ^ 32 \<le> partition_size p (db c)"
    and W: "data_write hal p (int off) (int n) (Some b1) ((db c)\<lparr>world := w0\<rparr>) = Some (0, d1)"
    and R: "data_read hal p (int off) (int n) (Some vbuf) d1 = Some (0, vb, d2)"
    and D: "\<not> differ vb b1 (int n)"
    and T: "if n < 4096 then c' = c1\<lparr>db := d2\<rparr>
      else program_loop hal get raw p info st1 b1 vb (as_int (int off + int n)) (c1\<lparr>db := d2\<rparr>) = Some (0, c')"
    by (subst (asm) program_loop.simps)
      (auto simp: f c1(3) an bind_splits Let_def not_less split: if_splits)
  have P': "w0 = world (db c)" "b1 = (if raw then ?b else placed_block hal st ?b info)"
    "st1 = (if raw then st else leave_block (enter_block st) ?b info)"
    using P process_write [of hal st ?b info "world (db c)" 0 st1 b1 w0] n0(3) by (auto split: if_splits)
  have lb: "length b1 = 4096" using P'(2) n0(3) by simp
  have nl: "int n < 2 ^ 31" using n0 by simp
  obtain w1 where w1: "d1 = ((db c)\<lparr>world := w0\<rparr>)\<lparr>world := w1\<rparr>"
    "\<And>x. x < part_addr (db c) (nat p) + int off \<or> part_addr (db c) (nat p) + int off + int n \<le> x \<Longrightarrow>
       mem w1 x = mem (world (db c)) x"
    "int off + int n \<le> part_len (db c) (nat p)"
    by (rule nor_flash.write_part_spec [OF nor W [unfolded data_write_def] nl]) (use P'(1) in auto)
  obtain w2 where w2: "d2 = d1\<lparr>world := w2\<rparr>" "mem w2 = mem w1" "length vb = length vbuf"
    "vb = region (mem w1) (part_addr (db c) (nat p) + int off) n @ drop n vbuf"
    by (rule nor_flash.read_part_spec [OF nor R [unfolded data_read_def] nl]) (use w1(1) in auto)
  have "take n vb = take n b1" using D w2(3) lb n0(2) src(4) by (subst (asm) differ_iff) auto
  then have eq: "region (mem w2) (part_addr (db c) (nat p) + int off) n = take n b1" using w2(2,4) by simp
  have b: "take n b1 = (if raw then take n (left c) else placed_block hal st (take 4096 (left c)) info)"
    "\<not> raw \<Longrightarrow> ?b = take 4096 (left c)"
  proof -
    have "n = 4096" if "\<not> raw" using that wh whole_long [of "left c"] src(2) n by simp
    then show "take n b1 = (if raw then take n (left c) else placed_block hal st (take 4096 (left c)) info)"
      "\<not> raw \<Longrightarrow> ?b = take 4096 (left c)" using P'(2) n0 n src(3) by auto
  qed
  have lim: "off + n < 2 ^ 31"
  proof -
    have "(int off + int n) mod 2 ^ 32 = int off + int n" using off n0(2) by simp
    then show ?thesis using S partition_size_less [of p "db c"] by simp
  qed
  then have ao: "as_int (int off + int n) = int (off + n)" by (subst as_int_small) auto
  let ?c = "c1\<lparr>db := d2\<rparr>"
  show thesis
  proof (rule that [of ?c w2 b1 vb])
    show "left ?c = drop n (left c)" "good ?c" "db ?c = (db c)\<lparr>world := w2\<rparr>"
      using c1 w1(1) w2(1) good_db left_db by simp_all
    show "n < 4096 \<Longrightarrow> c' = ?c" using T by simp
    show "n = 4096 \<Longrightarrow> program_loop hal get raw p info (if raw then st else leave_block (enter_block st) (take 4096 (left c)) info)
       b1 vb (int (off + n)) ?c = Some (0, c')"
      using T P'(3) b(2) ao by (auto split: if_splits)
    show "length vb = 4096" using w2(3) src(4) by simp
  qed (use lb w2(2) w1 eq b(1) lim in auto)
qed

lemma program_loop_ok:
  assumes nor: "nor_flash hal mem"
    and run: "program_loop hal get raw p info st buf vbuf (int off) c = Some (0, c')"
    and src: "good c" "length buf = 4096" "length vbuf = 4096" and off: "off < 2 ^ 31" and wh: "whole raw (left c)"
  shows "\<exists>w. db c' = (db c)\<lparr>world := w\<rparr> \<and> good c' \<and> left c' = [] \<and>
    (left c \<noteq> [] \<longrightarrow> int (off + length (left c)) \<le> part_len (db c) (nat p)) \<and>
    (\<forall>a. a < part_addr (db c) (nat p) + int off \<or> part_addr (db c) (nat p) + int (off + length (left c)) \<le> a \<longrightarrow>
       mem w a = mem (world (db c)) a) \<and>
    region (mem w) (part_addr (db c) (nat p) + int off) (length (left c)) = placed_image hal raw info st (left c)"
  using run src off wh
proof (induction "length (left c)" arbitrary: st buf vbuf off c rule: less_induct)
  case less
  show ?case
  proof (cases "left c = []")
    case True
    obtain c1 where "fill_block get buf 0 c = Some (Inr (drop 0 buf, int 0, True, c1))"
      "left c1 = []" "good c1" "db c1 = db c"
      by (rule fill_block_0 [OF less.prems(2,3), of 0]) (use True in auto)
    then have "c' = c1" using less.prems(1) by (subst (asm) program_loop.simps) auto
    then show ?thesis using True \<open>good c1\<close> \<open>left c1 = []\<close> \<open>db c1 = db c\<close> by (intro exI [of _ "world (db c)"]) simp
  next
    case False
    let ?A = "part_addr (db c) (nat p)" and ?st = "if raw then st else leave_block (enter_block st) (take 4096 (left c)) info"
    define n where "n = min 4096 (length (left c))"
    obtain w c1 buf' vbuf' where S: "left c1 = drop n (left c)" "good c1" "db c1 = (db c)\<lparr>world := w\<rparr>"
      "length buf' = 4096" "length vbuf' = 4096" "int (off + n) \<le> part_len (db c) (nat p)" "off + n < 2 ^ 31"
      "\<And>a. a < ?A + int off \<or> ?A + int (off + n) \<le> a \<Longrightarrow> mem w a = mem (world (db c)) a"
      "region (mem w) (?A + int off) n = (if raw then take n (left c) else placed_block hal st (take 4096 (left c)) info)"
      "n < 4096 \<Longrightarrow> c' = c1"
      "n = 4096 \<Longrightarrow> program_loop hal get raw p info ?st buf' vbuf' (int (off + n)) c1 = Some (0, c')"
      by (rule program_loop_step [OF nor less.prems(1,2) False less.prems(3,4,5,6) n_def]) blast
    have pi: "placed_image hal raw info st (left c) =
        region (mem w) (?A + int off) n @ placed_image hal raw info ?st (drop n (left c))"
    proof (cases "n = 4096")
      case True
      then show ?thesis using S(9) False by (subst placed_image.simps) simp
    next
      case nn: False
      then have "n = length (left c)" by (auto simp: n_def)
      moreover have raw
      proof (rule ccontr)
        assume "\<not> raw"
        then have "4096 \<le> length (left c)" using whole_long [of "left c"] less.prems(6) False by simp
        then show False using nn by (simp add: n_def)
      qed
      ultimately show ?thesis using S(9) by simp
    qed
    show ?thesis
    proof (cases "n = 4096")
      case True
      have le: "n \<le> length (left c)" by (simp add: n_def)
      have "whole raw (left c1)" using S(1) True whole_drop less.prems(6) by simp
      with less.hyps [OF _ S(11) S(2,4,5,7)] True S(1) False obtain w' where w': "db c' = (db c1)\<lparr>world := w'\<rparr>" "good c'"
        "left c' = []" "left c1 \<noteq> [] \<longrightarrow> int (off + n + length (left c1)) \<le> part_len (db c1) (nat p)"
        "\<forall>a. a < ?A + int (off + n) \<or> ?A + int (off + n + length (left c1)) \<le> a \<longrightarrow> mem w' a = mem (world (db c1)) a"
        "region (mem w') (?A + int (off + n)) (length (left c1)) = placed_image hal raw info ?st (left c1)"
        using S(3) by auto
      have l: "off + n + length (left c1) = off + length (left c)" "length (left c) = n + length (left c1)"
        using S(1) le by simp_all
      have "region (mem w') (?A + int off) n = region (mem w) (?A + int off) n"
        using w'(5) S(3) by (intro region_frame) auto
      then have "region (mem w') (?A + int off) (length (left c)) = placed_image hal raw info st (left c)"
        unfolding l(2) region_append pi using w'(6) S(1) by (simp add: add.assoc)
      moreover have "mem w' a = mem (world (db c)) a" if "a < ?A + int off \<or> ?A + int (off + length (left c)) \<le> a" for a
      proof -
        have "mem w' a = mem (world (db c1)) a" using w'(5) that l(1) by auto
        also have "\<dots> = mem (world (db c)) a" using S(3) S(8) [of a] that le by auto
        finally show ?thesis .
      qed
      ultimately show ?thesis using w' S(3,6) l by (intro exI [of _ w']) auto
    next
      case nn: False
      then have n: "n = length (left c)" by (auto simp: n_def)
      then have "c' = c1" using S(10) nn by (auto simp: n_def)
      then show ?thesis using S n pi by (intro exI [of _ w]) auto
    qed
  qed
qed


section \<open>Verifying\<close>

text \<open>One round: the data read, and the comparison.\<close>

lemma verify_loop_step:
  assumes nor: "nor_flash hal mem"
    and run: "verify_loop hal get raw p info st buf vbuf (int off) c = Some (r, c')"
    and src: "good c" "left c \<noteq> []" "length buf = 4096" "length vbuf = 4096" and off: "off < 2 ^ 31"
    and wh: "whole raw (left c)" and n: "n = min 4096 (length (left c))"
  obtains (failed) w c1 where "r \<noteq> 0" "mem w = mem (world (db c))" "c' = c1\<lparr>db := (db c)\<lparr>world := w\<rparr>\<rparr>"
  | (matched) w c1 buf' vbuf' where "left c1 = drop n (left c)" "good c1" "db c1 = (db c)\<lparr>world := w\<rparr>"
    "mem w = mem (world (db c))" "length buf' = 4096" "length vbuf' = 4096"
    "int (off + n) \<le> part_len (db c) (nat p)"
    "region (mem w) (part_addr (db c) (nat p) + int off) n =
       (if raw then take n (left c) else placed_block hal st (take 4096 (left c)) info)"
    "n < 4096 \<Longrightarrow> r = 0 \<and> c' = c1"
    "n = 4096 \<Longrightarrow> verify_loop hal get raw p info (if raw then st else leave_block (enter_block st) (take 4096 (left c)) info)
       buf' vbuf' (int (off + n)) c1 = Some (r, c')"
proof -
  obtain c1 where f: "fill_block get buf 0 c = Some (Inr (take n (left c) @ drop n buf, int n, n < 4096, c1))"
    and c1: "left c1 = drop n (left c)" "good c1" "db c1 = db c"
    by (rule fill_block_0 [OF src(1,3) n])
  let ?b = "take n (left c) @ drop n buf" and ?A = "part_addr (db c) (nat p)"
  have n0: "0 < n" "n \<le> 4096" "length ?b = 4096" using n src(2,3) by auto
  have nl: "int n < 2 ^ 31" "int n \<noteq> 0" using n0 by simp_all
  have ao: "as_int (int off) = int off" "(int off + int n) mod 4294967296 = int off + int n"
    using off n0(2) by (simp_all add: as_int_small)
  from run obtain q vb d where R: "data_read hal p (int off) (int n) (Some vbuf) (db c) = Some (q, vb, d)"
    using nl by (subst (asm) verify_loop.simps) (auto simp: f c1(3) ao bind_splits Let_def split: if_splits)
  obtain w where w: "d = (db c)\<lparr>world := w\<rparr>" "mem w = mem (world (db c))" "length vb = length vbuf"
    "q = 0 \<Longrightarrow> int off + int n \<le> part_len (db c) (nat p) \<and> vb = region (mem (world (db c))) (?A + int off) n @ drop n vbuf"
    by (rule nor_flash.read_part_spec [OF nor R [unfolded data_read_def] nl(1)]) auto
  let ?c = "c1\<lparr>db := (db c)\<lparr>world := w\<rparr>\<rparr>"
  have g: "left ?c = drop n (left c)" "good ?c" using c1 good_db left_db by simp_all
  show thesis
  proof (cases "q = 0")
    case False
    then have "r \<noteq> 0" "c' = ?c" using run nl R w(1)
      by (subst (asm) verify_loop.simps, auto simp: f c1(3) ao bind_splits Let_def split: if_splits)+
    then show thesis using w(2) by (intro failed [of w c1]) auto
  next
    case q: True
    have vb: "length vb = 4096" "take n vb = region (mem w) (?A + int off) n" using w src(4) q by auto
    show thesis
    proof (cases raw)
      case True
      have E: "verify_loop hal get raw p info st buf vbuf (int off) c =
          (if differ vb ?b (int n) then Some (- ECMP, ?c) else if n < 4096 then Some (0, ?c)
           else verify_loop hal get raw p info st ?b vb (int (off + n)) ?c)"
        using nl R w(1) True q by (subst verify_loop.simps) (simp add: f c1(3) ao Let_def)
      show thesis
      proof (cases "differ vb ?b (int n)")
        case True
        then show thesis using E run w(2) by (intro failed [of w c1]) auto
      next
        case False
        then have "take n vb = take n ?b" using vb(1) n0(2,3) by (subst (asm) differ_iff) auto
        also have "\<dots> = take n (left c)" using n by simp
        finally show thesis using E run False g w(2,4) vb n0 q True
          by (intro matched [of ?c w ?b vb]) (auto split: if_splits)
      qed
    next
      case raw: False
      then have n4: "n = 4096" using wh whole_long [of "left c"] src(2) n by simp
      then have b: "?b = take 4096 (left c)" using src(3) by simp
      obtain q1 st1 b1 w1 where P: "librsu_image_block_process hal st ?b (Some vb) info w = Some (q1, st1, b1, w1)"
        using run nl R w(1) raw q
        by (subst (asm) verify_loop.simps) (auto simp: f c1(3) ao bind_splits Let_def split: if_splits)
      then have io: "img_offset st + 4096 < 2 ^ 31"
        by (auto simp: librsu_image_block_process_def split: if_splits)
      have "\<exists>r w'. librsu_image_block_process hal st ?b (Some vb) info w =
          Some (r, leave_block (enter_block st) ?b info, ?b, w') \<and> (r = 0 \<longrightarrow> vb = placed_block hal st ?b info) \<and>
          (vb = placed_block hal st ?b info \<longrightarrow> r = 0 \<or> r = - ENOMEM \<and> fst (rsu_malloc hal w 4096) = None) \<and>
          (w' = w \<or> w' = snd (rsu_malloc hal w 4096))"
        by (rule process_compare [OF io n0(3) vb(1)]) (use nor_flash.malloc_len [OF nor] in blast)
      with P have P1: "st1 = leave_block (enter_block st) ?b info" "b1 = ?b" "q1 = 0 \<longrightarrow> vb = placed_block hal st ?b info"
        and w1: "w1 = w \<or> w1 = snd (rsu_malloc hal w 4096)" by auto
      have m1: "mem w1 = mem (world (db c))"
        using w1 w(2) nor_flash.malloc_mem [OF nor, of w 4096] by (metis prod.collapse)
      let ?c1 = "c1\<lparr>db := (db c)\<lparr>world := w1\<rparr>\<rparr>"
      have E: "verify_loop hal get raw p info st buf vbuf (int off) c =
          (if q1 \<noteq> 0 then Some (- ECMP, ?c1)
           else verify_loop hal get raw p info st1 ?b vb (int (off + n)) ?c1)"
        using nl R w(1) raw q P P1(2) n4
        by (subst verify_loop.simps) (simp add: f c1(3) ao(1) ao(2) [unfolded n4, simplified] Let_def)
      show thesis
      proof (cases "q1 = 0")
        case False
        then show thesis using E run m1 by (intro failed [of w1 c1]) auto
      next
        case True
        then have "region (mem w1) (?A + int off) n = placed_block hal st (take 4096 (left c)) info"
          using P1(3) vb m1 w(2) b n4 by simp
        then show thesis using E run True g(1) c1 good_db left_db m1 w(4) vb n0 q P1(1) b n4 raw
          by (intro matched [of ?c1 w1 ?b vb]) (auto split: if_splits)
      qed
    qed
  qed
qed

text \<open>Verifying never changes the flash, and accepts only the image of the data.\<close>

lemma verify_loop_sound:
  assumes nor: "nor_flash hal mem"
    and run: "verify_loop hal get raw p info st buf vbuf (int off) c = Some (r, c')"
    and src: "good c" "length buf = 4096" "length vbuf = 4096" and off: "off < 2 ^ 31" and wh: "whole raw (left c)"
    and pl: "part_len (db c) (nat p) < 2 ^ 31"
  shows "(\<exists>w. db c' = (db c)\<lparr>world := w\<rparr> \<and> mem w = mem (world (db c))) \<and>
    (r = 0 \<longrightarrow> region (mem (world (db c))) (part_addr (db c) (nat p) + int off) (length (left c)) =
       placed_image hal raw info st (left c))"
  using run src off wh pl
proof (induction "length (left c)" arbitrary: st buf vbuf off c rule: less_induct)
  case less
  let ?A = "part_addr (db c) (nat p)" and ?st = "if raw then st else leave_block (enter_block st) (take 4096 (left c)) info"
  show ?case
  proof (cases "left c = []")
    case True
    obtain c1 where "fill_block get buf 0 c = Some (Inr (drop 0 buf, int 0, True, c1))" and c1: "db c1 = db c"
      by (rule fill_block_0 [OF less.prems(2,3), of 0]) (use True in auto)
    then have "c' = c1" using less.prems(1) by (subst (asm) verify_loop.simps) auto
    then show ?thesis using True c1 by (auto intro!: exI [of _ "world (db c)"])
  next
    case False
    define n where "n = min 4096 (length (left c))"
    from nor less.prems(1,2) False less.prems(3,4,5,6) n_def show ?thesis
    proof (cases rule: verify_loop_step)
      case (failed w c1)
      then show ?thesis by auto
    next
      case (matched w c1 buf' vbuf')
      show ?thesis
      proof (cases "n = 4096")
        case True
        have le: "n \<le> length (left c)" by (simp add: n_def)
        have lim: "off + n < 2 ^ 31" using matched(7) less.prems(7) by simp
        have wh1: "whole raw (left c1)" using matched(1) True whole_drop less.prems(6) by simp
        have l1: "length (left c1) < length (left c)" "part_len (db c1) (nat p) < 2 ^ 31"
          using matched(1,3) True False less.prems(7) by simp_all
        have IH: "(\<exists>w'. db c' = (db c1)\<lparr>world := w'\<rparr> \<and> mem w' = mem (world (db c1))) \<and>
          (r = 0 \<longrightarrow> region (mem (world (db c1))) (?A + int (off + n)) (length (left c1)) = placed_image hal raw info ?st (left c1))"
          using less.hyps [OF l1(1) matched(10) [OF True] matched(2,5,6) lim wh1 l1(2)] matched(3) by simp
        have l: "length (left c) = n + length (left c1)" using matched(1) le by simp
        have "region (mem (world (db c))) (?A + int off) (length (left c)) = placed_image hal raw info st (left c)" if "r = 0"
          unfolding l region_append using IH that matched(1,3,4,8) True False
          by (subst placed_image.simps) (simp add: add.assoc)
        then show ?thesis using IH matched(3,4) by auto
      next
        case nn: False
        then have n: "n = length (left c)" "n < 4096" by (auto simp: n_def)
        have raw
        proof (rule ccontr)
          assume "\<not> raw"
          then have "4096 \<le> length (left c)" using whole_long [of "left c"] less.prems(6) False by simp
          then show False using n by simp
        qed
        then show ?thesis using matched n by auto
      qed
    qed
  qed
qed

end

end
