(* ===== verification/Rsu_Cb_Total.thy ===== *)
theory Rsu_Cb_Total
  imports Rsu_Cb_Loops Rsu_Cpb_Total
begin

text \<open>
  On a device that works the two loops end. Programming succeeds when the image fits in the slot, the
  slot is erased and every signature block is accepted; verifying succeeds when the slot holds the
  image of the data.
\<close>

section \<open>Blocks that are accepted\<close>

definition block_accepted :: "'w librsu_ll_intf \<Rightarrow> rsu_slot_info \<Rightarrow> rsu_image_state \<Rightarrow> byte list \<Rightarrow> bool" where
  "block_accepted hal info st b \<longleftrightarrow> block_type (enter_block st) \<noteq> SIGNATURE_BLOCK \<or>
     fst (sig_block_adjust hal (leave_block (enter_block st) b info) b info) = 0"

function image_accepted :: "'w librsu_ll_intf \<Rightarrow> rsu_slot_info \<Rightarrow> rsu_image_state \<Rightarrow> byte list \<Rightarrow> bool" where
  "image_accepted hal info st ds =
     (if ds = [] then True
      else block_accepted hal info st (take 4096 ds) \<and>
        image_accepted hal info (leave_block (enter_block st) (take 4096 ds) info) (drop 4096 ds))"
  by pat_completeness auto
termination
  by (relation "measure (\<lambda>(hal, info, st, ds). length ds)") auto

declare image_accepted.simps [simp del]

lemma image_accepted_step:
  "ds \<noteq> [] \<Longrightarrow> image_accepted hal info st ds \<longleftrightarrow> block_accepted hal info st (take 4096 ds) \<and>
     image_accepted hal info (leave_block (enter_block st) (take 4096 ds) info) (drop 4096 ds)"
  by (subst image_accepted.simps) simp

lemma process_write_returns:
  assumes "img_offset st + 4096 < 2 ^ 31"
  shows "\<exists>r st' b'. librsu_image_block_process hal st b None info w = Some (r, st', b', w) \<and>
    (r = 0 \<longleftrightarrow> block_accepted hal info st b)"
proof (cases "block_type (enter_block st)")
  case SIGNATURE_BLOCK
  let ?t = "leave_block (enter_block st) b info"
  obtain q where "sig_block_process (enter_block st) b info = (0, q)" "?t = q\<lparr>block_type := REGULAR_BLOCK\<rparr>"
    using SIGNATURE_BLOCK by (simp add: leave_block_def sig_block_process_run)
  moreover obtain r b' where "sig_block_adjust hal ?t b info = (r, b')" by fastforce
  ultimately show ?thesis using assms SIGNATURE_BLOCK
    by (simp add: librsu_image_block_process_def block_accepted_def Let_def)
qed (use assms in \<open>simp_all add: librsu_image_block_process_def block_accepted_def Let_def\<close>)

text \<open>The offset of the walk is that of the loop.\<close>

definition walk_at :: "bool \<Rightarrow> rsu_image_state \<Rightarrow> nat \<Rightarrow> bool" where
  "walk_at raw st off \<longleftrightarrow> raw \<or> img_inv st \<and> img_offset st + 4096 = int off"

lemma walk_at_next:
  assumes "walk_at raw st off" "off < 2 ^ 31"
  shows "walk_at raw (if raw then st else leave_block (enter_block st) b info) (off + 4096)"
proof (cases raw)
  case False
  then have s: "img_inv st" "img_offset st + 4096 = int off" using assms(1) by (simp_all add: walk_at_def)
  have "img_inv (enter_block st) \<and> img_offset (enter_block st) = int off"
    using img_inv_enter [OF s(1)] s(2) assms(2) by simp
  then show ?thesis using img_inv_leave [of "enter_block st" b info] False by (simp add: walk_at_def)
qed (simp add: walk_at_def)

lemma partition_size_fits:
  assumes "part_fits s x" "wf_spt (spt s)"
  shows "partition_size (int x) s = part_len s x" "\<not> bad_part (int x) s"
proof -
  have x: "x < unat (partitions (spt s))" "x < 127" "unat (partitions (spt s)) \<le> 127" using assms(1) by (auto simp: part_fits_def)
  have "int x < uint (partitions (spt s))" using x(1) uint_nat [of "partitions (spt s)"] by linarith
  then show b: "\<not> bad_part (int x) s" using x(2,3) uint_of_int_small [of "int x"] by (simp add: bad_part_def)
  have "sint (p_length (partition (spt s) ! x)) = part_len s x"
    using part_fits_bounds(1) [OF assms(1)] unfolding part_len_def by (rule sint_uint_small)
  with b show "partition_size (int x) s = part_len s x" by (simp add: partition_size_def)
qed

text \<open>What a partition must be for accesses to it to return.\<close>

definition usable :: "('w \<Rightarrow> int) \<Rightarrow> 'w ops \<Rightarrow> nat \<Rightarrow> bool" where
  "usable dsz s x \<longleftrightarrow> wf_spt (spt s) \<and> part_fits s x \<and> in_device dsz s (part_addr s x) (part_len s x)"

lemma usable_world: "dsz w = dsz (world s) \<Longrightarrow> usable dsz (s\<lparr>world := w\<rparr>) x = usable dsz s x"
  by (simp add: usable_def in_device_def)

lemmas reliable_nor = sized_flash.axioms(1) [OF reliable_flash.axioms(1)]

section \<open>Programming\<close>

lemma erased_region_prefix:
  assumes "set (region m a k) \<subseteq> {0xFF}" "n \<le> k" shows "set (region m a n) \<subseteq> {0xFF}"
proof -
  have "region m a k = region m a n @ region m (a + int n) (k - n)" using assms(2) region_append [of m a n "k - n"] by simp
  then show ?thesis using assms(1) by simp
qed

text \<open>When programming \<open>ds\<close> at an offset of a partition succeeds.\<close>

definition programs :: "'w librsu_ll_intf \<Rightarrow> ('w \<Rightarrow> int \<Rightarrow> byte) \<Rightarrow> bool \<Rightarrow> rsu_slot_info \<Rightarrow> rsu_image_state \<Rightarrow> nat \<Rightarrow> nat \<Rightarrow>
    'w ops \<Rightarrow> byte list \<Rightarrow> bool" where
  "programs hal mem raw info st x off s ds \<longleftrightarrow> int (off + length ds) \<le> part_len s x \<and>
     set (region (mem (world s)) (part_addr s x + int off) (length ds)) \<subseteq> {0xFF} \<and>
     (raw \<or> image_accepted hal info st ds)"

context data_source begin

lemma rel_program_step:
  assumes rel: "reliable_flash hal mem dsize ok" and ok: "ok (world (db c))" and us: "usable dsize (db c) x"
    and src: "good c" "left c \<noteq> []" "length buf = 4096" "length vbuf = 4096" and off: "off < 2 ^ 31"
    and wh: "whole raw (left c)" and at: "walk_at raw st off" and n: "n = min 4096 (length (left c))"
  obtains (stop) r c' where "program_loop hal get raw (int x) info st buf vbuf (int off) c = Some (r, c')" "r \<noteq> 0"
      "ok (world (db c'))" "dsize (world (db c')) = dsize (world (db c))" "\<exists>w. db c' = (db c)\<lparr>world := w\<rparr>"
      "\<not> programs hal mem raw info st x off (db c) (left c)"
  | (go) w c1 buf' vbuf' where "program_loop hal get raw (int x) info st buf vbuf (int off) c =
      (if n < 4096 then Some (0, c1) else program_loop hal get raw (int x) info
         (if raw then st else leave_block (enter_block st) (take 4096 (left c)) info) buf' vbuf' (int (off + n)) c1)"
      "left c1 = drop n (left c)" "good c1" "db c1 = (db c)\<lparr>world := w\<rparr>" "length buf' = 4096" "length vbuf' = 4096"
      "ok w" "dsize w = dsize (world (db c))" "off + n < 2 ^ 31"
      "\<And>a. a < part_addr (db c) x + int off \<or> part_addr (db c) x + int (off + n) \<le> a \<Longrightarrow> mem w a = mem (world (db c)) a"
proof -
  note nor = reliable_nor [OF rel]
  let ?A = "part_addr (db c) x" and ?w = "world (db c)"
  have us': "wf_spt (spt (db c))" "part_fits (db c) x" "in_device dsize (db c) ?A (part_len (db c) x)"
    using us by (simp_all add: usable_def)
  have psz: "partition_size (int x) (db c) = part_len (db c) x" "part_len (db c) x < 2 ^ 31" "0 \<le> part_len (db c) x"
    using partition_size_fits(1) [OF us'(2,1)] part_fits_bounds [OF us'(2)] by (simp_all add: part_len_def)
  obtain c1 where f: "fill_block get buf 0 c = Some (Inr (take n (left c) @ drop n buf, int n, n < 4096, c1))"
    and c1: "left c1 = drop n (left c)" "good c1" "db c1 = db c"
    by (rule fill_block_0 [OF src(1,3) n])
  let ?b = "take n (left c) @ drop n buf"
  have n0: "0 < n" "n \<le> 4096" "length ?b = 4096" "n \<le> length (left c)" using n src(2,3) by auto
  have an: "as_int (int n) = int n" "int n \<noteq> 0" using n0 by (auto intro!: as_int_small)
  have am: "(int off + int n) mod 4294967296 = int off + int n" using off n0(2) by simp
  have bb: "\<not> raw \<Longrightarrow> ?b = take 4096 (left c)"
    using wh whole_long [of "left c"] src(2,3) n by simp
  have "\<exists>q st1 b1. (if raw then Some (0, st, ?b, ?w) else librsu_image_block_process hal st ?b None info ?w) = Some (q, st1, b1, ?w) \<and>
      (q = 0 \<longleftrightarrow> raw \<or> block_accepted hal info st ?b)"
    using process_write_returns [of st hal ?b info ?w] at off by (auto simp: walk_at_def)
  then obtain q st1 b1 where P: "(if raw then Some (0, st, ?b, ?w) else librsu_image_block_process hal st ?b None info ?w) =
      Some (q, st1, b1, ?w)" and Pq: "q = 0 \<longleftrightarrow> raw \<or> block_accepted hal info st ?b" by blast
  have sb: "st1 = (if raw then st else leave_block (enter_block st) ?b info) \<and>
      (q = 0 \<longrightarrow> b1 = (if raw then ?b else placed_block hal st ?b info))"
    using P process_write [OF _ n0(3), of hal st info ?w q st1 b1 ?w] by (cases raw) auto
  then have s1: "st1 = (if raw then st else leave_block (enter_block st) (take 4096 (left c)) info)"
    using bb by auto
  have lb: "q = 0 \<Longrightarrow> length b1 = 4096" using sb n0(3) length_placed_block by (metis (no_types, lifting))
  have run: "program_loop hal get raw (int x) info st buf vbuf (int off) c =
     (if q \<noteq> 0 then Some (- EPROGRAM, c1)
      else if int off + int n > part_len (db c) x then Some (- ESIZE, c1)
      else do {
        (ret, d) \<leftarrow> data_write hal (int x) (int off) (int n) (Some b1) (db c);
        if ret \<noteq> 0 then Some (- ELOWLEVEL, c1\<lparr>db := d\<rparr>)
        else do {
          (ret, vbuf, d) \<leftarrow> data_read hal (int x) (int off) (int n) (Some vbuf) d;
          let c = c1\<lparr>db := d\<rparr>;
          if ret \<noteq> 0 then Some (- ELOWLEVEL, c)
          else if differ vbuf b1 (int n) then Some (- ECMP, c)
          else if n < 4096 then Some (0, c)
          else program_loop hal get raw (int x) info st1 b1 vbuf (as_int (int off + int n)) c
        }
      })"
  proof -
    have w: "db c\<lparr>world := ?w\<rparr> = db c" "c1\<lparr>db := db c\<rparr> = c1" using c1(3) by simp_all
    have "n \<noteq> 0" using n0(1) by simp
    then show ?thesis using psz
      by (subst program_loop.simps) (simp add: f an(1) c1(3) P w am not_less Let_def cong: if_cong)
  qed
  show thesis
  proof (cases "q = 0 \<and> int off + int n \<le> part_len (db c) x")
    case False
    have "\<not> programs hal mem raw info st x off (db c) (left c)"
      using False Pq n0(4) bb image_accepted_step [OF src(2), of hal info st] by (auto simp: programs_def)
    then show thesis using False run ok c1(3)
      by (intro stop [of "if q \<noteq> 0 then - EPROGRAM else - ESIZE" c1]) (auto intro: exI [of _ ?w])
  next
    case True
    then have le: "int (off + n) \<le> part_len (db c) x" by simp
    obtain w1 where W: "data_write hal (int x) (int off) (int n) (Some b1) (db c) = Some (0, (db c)\<lparr>world := w1\<rparr>)"
      "ok w1" "dsize w1 = dsize ?w"
      using reliable_flash.rel_write_part_at [OF rel ok us' n0(1) _ le, of b1] lb True n0(2) by (auto simp: data_write_def)
    obtain w2 where R: "data_read hal (int x) (int off) (int n) (Some vbuf) ((db c)\<lparr>world := w1\<rparr>) =
        Some (0, region (mem w1) (?A + int off) n @ drop n vbuf, (db c)\<lparr>world := w2\<rparr>)"
      "ok w2" "dsize w2 = dsize w1" "mem w2 = mem w1"
      using reliable_flash.rel_read_part_at [OF rel, of "(db c)\<lparr>world := w1\<rparr>" x n vbuf off] W us us' le n0 src(4)
      by (auto simp: data_read_def in_device_def)
    let ?v = "region (mem w1) (?A + int off) n @ drop n vbuf" and ?c = "c1\<lparr>db := (db c)\<lparr>world := w2\<rparr>\<rparr>"
    have nl: "int n < 2 ^ 31" using n0(2) by simp
    obtain w3 where w3: "(db c)\<lparr>world := w1\<rparr> = (db c)\<lparr>world := w3\<rparr>"
      "\<And>y. y < ?A + int off \<or> ?A + int off + int n \<le> y \<Longrightarrow> mem w3 y = mem ?w y"
      "programmable (region (mem ?w) (?A + int off) n) (take n b1) \<longrightarrow> region (mem w3) (?A + int off) n = take n b1"
      by (rule nor_flash.write_part_spec [OF nor W(1) [unfolded data_write_def] nl]) auto
    then have fr: "mem w1 y = mem ?w y" if "y < ?A + int off \<or> ?A + int off + int n \<le> y" for y using that by simp
    have lim: "off + n < 2 ^ 31" using le psz(2) by simp
    have E: "program_loop hal get raw (int x) info st buf vbuf (int off) c =
      (if differ ?v b1 (int n) then Some (- ECMP, ?c) else if n < 4096 then Some (0, ?c)
       else program_loop hal get raw (int x) info st1 b1 ?v (int (off + n)) ?c)"
      using run True W(1) R(1) lim as_int_small [of "int (off + n)"] by (simp add: Let_def)
    show thesis
    proof (cases "differ ?v b1 (int n)")
      case d: True
      have "\<not> programs hal mem raw info st x off (db c) (left c)"
      proof
        assume "programs hal mem raw info st x off (db c) (left c)"
        then have "set (region (mem ?w) (?A + int off) (length (left c))) \<subseteq> {0xFF}" by (simp add: programs_def)
        then have "set (region (mem ?w) (?A + int off) n) \<subseteq> {0xFF}"
          by (rule erased_region_prefix) (rule n0(4))
        then have "region (mem w1) (?A + int off) n = take n b1"
          using w3(1,3) programmable_erased [of "region (mem ?w) (?A + int off) n" "take n b1"] lb True n0(2) by simp
        then show False using d lb True n0(2) src(4) by (subst (asm) differ_iff) auto
      qed
      then show thesis using d E W R by (intro stop [of "- ECMP" ?c]) auto
    next
      case False
      then show thesis using E s1 c1 good_db left_db lb True src(4) n0(2) W R fr lim
        by (intro go [of ?c b1 ?v w2]) auto
    qed
  qed
qed

lemma programs_next:
  assumes "programs hal mem raw info st x off s ds" "ds \<noteq> []" "4096 \<le> length ds"
    and "\<And>a. a < part_addr s x + int off \<or> part_addr s x + int (off + 4096) \<le> a \<Longrightarrow> mem w a = mem (world s) a"
  shows "programs hal mem raw info (if raw then st else leave_block (enter_block st) (take 4096 ds) info) x (off + 4096)
    (s\<lparr>world := w\<rparr>) (drop 4096 ds)"
proof -
  let ?A = "part_addr s x"
  have "length ds = 4096 + (length ds - 4096)" using assms(3) by simp
  then have "region (mem (world s)) (?A + int off) (length ds) = region (mem (world s)) (?A + int off) 4096 @
      region (mem (world s)) (?A + int off + int 4096) (length ds - 4096)" by (metis region_append)
  moreover have "region (mem w) (?A + int off + int 4096) (length ds - 4096) =
      region (mem (world s)) (?A + int off + int 4096) (length ds - 4096)"
    by (rule region_frame) (auto intro: assms(4))
  ultimately have "set (region (mem w) (?A + int (off + 4096)) (length ds - 4096)) \<subseteq> {0xFF}"
    using assms(1) by (auto simp: programs_def add.assoc)
  moreover have "int (off + 4096 + length (drop 4096 ds)) \<le> part_len s x" using assms(1,3) by (simp add: programs_def)
  ultimately show ?thesis using assms(1) image_accepted_step [OF assms(2), of hal info st]
    by (auto simp: programs_def)
qed

text \<open>Programming ends, and it succeeds when it can.\<close>

lemma rel_program_loop:
  assumes rel: "reliable_flash hal mem dsize ok"
    and "ok (world (db c))" "usable dsize (db c) x" "good c" "length buf = 4096" "length vbuf = 4096" "off < 2 ^ 31"
      "whole raw (left c)" "walk_at raw st off"
  shows "\<exists>r c'. program_loop hal get raw (int x) info st buf vbuf (int off) c = Some (r, c') \<and> ok (world (db c')) \<and>
    dsize (world (db c')) = dsize (world (db c)) \<and> (\<exists>w. db c' = (db c)\<lparr>world := w\<rparr>) \<and>
    (programs hal mem raw info st x off (db c) (left c) \<longrightarrow> r = 0)"
  using assms(2-)
proof (induction "length (left c)" arbitrary: st buf vbuf off c rule: less_induct)
  case less
  show ?case
  proof (cases "left c = []")
    case True
    obtain c1 where "fill_block get buf 0 c = Some (Inr (drop 0 buf, int 0, True, c1))" "db c1 = db c"
      by (rule fill_block_0 [OF less.prems(3,4), of 0]) (use True in auto)
    then show ?thesis using less.prems(1) by (subst program_loop.simps) (auto intro: exI [of _ "world (db c)"])
  next
    case False
    define n where "n = min 4096 (length (left c))"
    from rel less.prems(1,2,3) False less.prems(4-8) n_def show ?thesis
    proof (cases rule: rel_program_step [where info = info])
      case (stop r c')
      then show ?thesis by auto
    next
      case (go w c1 buf' vbuf')
      show ?thesis
      proof (cases "n < 4096")
        case True
        then show ?thesis using go by (intro exI [of _ 0] exI [of _ c1]) auto
      next
        case n: False
        then have n: "n = 4096" "4096 \<le> length (left c)" by (auto simp: n_def)
        let ?st = "if raw then st else leave_block (enter_block st) (take 4096 (left c)) info"
        have us: "usable dsize (db c1) x" using less.prems(2) go(4,8) usable_world by metis
        have wk: "walk_at raw ?st (off + n)" unfolding n(1) by (rule walk_at_next [OF less.prems(8,6)])
        have wh: "whole raw (left c1)" "length (left c1) < length (left c)"
          using go(2) n whole_drop [OF less.prems(7)] False by simp_all
        obtain r c' where R: "program_loop hal get raw (int x) info ?st buf' vbuf' (int (off + n)) c1 = Some (r, c')"
          "ok (world (db c'))" "dsize (world (db c')) = dsize (world (db c1))" "\<exists>w. db c' = (db c1)\<lparr>world := w\<rparr>"
          "programs hal mem raw info ?st x (off + n) (db c1) (left c1) \<longrightarrow> r = 0"
          using less.hyps [OF wh(2) _ us go(3,5,6,9) wh(1) wk] go(4,7) by auto
        have "programs hal mem raw info ?st x (off + n) (db c1) (left c1)"
          if "programs hal mem raw info st x off (db c) (left c)"
          using programs_next [OF that False n(2), of w] go(2,4,10) n(1) by simp
        then show ?thesis using R go(1,4,8) n(1) by (intro exI [of _ r] exI [of _ c']) auto
      qed
    qed
  qed
qed

section \<open>Verifying\<close>

lemma rel_verify_step:
  assumes rel: "reliable_flash hal mem dsize ok" and ok: "ok (world (db c))" and us: "usable dsize (db c) x"
    and src: "good c" "left c \<noteq> []" "length buf = 4096" "length vbuf = 4096" and off: "off < 2 ^ 31"
    and wh: "whole raw (left c)" and at: "walk_at raw st off" and n: "n = min 4096 (length (left c))"
    and le: "int (off + n) \<le> part_len (db c) x"
    and eq: "region (mem (world (db c))) (part_addr (db c) x + int off) n =
      (if raw then take n (left c) else placed_block hal st (take 4096 (left c)) info)"
  obtains w c1 buf' vbuf' where "verify_loop hal get raw (int x) info st buf vbuf (int off) c =
      (if n < 4096 then Some (0, c1) else verify_loop hal get raw (int x) info
         (if raw then st else leave_block (enter_block st) (take 4096 (left c)) info) buf' vbuf' (int (off + n)) c1)"
      "left c1 = drop n (left c)" "good c1" "db c1 = (db c)\<lparr>world := w\<rparr>" "length buf' = 4096" "length vbuf' = 4096"
      "ok w" "dsize w = dsize (world (db c))" "mem w = mem (world (db c))"
proof -
  note nor = reliable_nor [OF rel]
  let ?A = "part_addr (db c) x" and ?w = "world (db c)"
  have us': "wf_spt (spt (db c))" "part_fits (db c) x" "in_device dsize (db c) ?A (part_len (db c) x)"
    using us by (simp_all add: usable_def)
  obtain c1 where f: "fill_block get buf 0 c = Some (Inr (take n (left c) @ drop n buf, int n, n < 4096, c1))"
    and c1: "left c1 = drop n (left c)" "good c1" "db c1 = db c"
    by (rule fill_block_0 [OF src(1,3) n])
  let ?b = "take n (left c) @ drop n buf"
  have n0: "0 < n" "n \<le> 4096" "length ?b = 4096" "n \<le> length (left c)" using n src(2,3) by auto
  have nl: "\<not> 2 ^ 31 \<le> int n" "n \<noteq> 0" "as_int (int off) = int off" "(int off + int n) mod 4294967296 = int off + int n"
    using n0 off by (simp_all add: as_int_small)
  obtain w1 where R: "data_read hal (int x) (int off) (int n) (Some vbuf) (db c) =
        Some (0, region (mem ?w) (?A + int off) n @ drop n vbuf, (db c)\<lparr>world := w1\<rparr>)"
      "ok w1" "mem w1 = mem ?w" "dsize w1 = dsize ?w"
    using reliable_flash.rel_read_part_at [OF rel ok us' n0(1) _ le, of vbuf] n0(2) src(4) by (auto simp: data_read_def)
  let ?v = "region (mem ?w) (?A + int off) n @ drop n vbuf" and ?c = "c1\<lparr>db := (db c)\<lparr>world := w1\<rparr>\<rparr>"
  have lv: "length ?v = 4096" using n0(2) src(4) by simp
  show thesis
  proof (cases raw)
    case True
    have "\<not> differ ?v ?b (int n)" using eq True n0 lv by (subst differ_iff) auto
    then have "verify_loop hal get raw (int x) info st buf vbuf (int off) c =
        (if n < 4096 then Some (0, ?c) else verify_loop hal get raw (int x) info st ?b ?v (int (off + n)) ?c)"
      using nl R(1) True by (subst verify_loop.simps) (simp add: f c1(3) Let_def)
    then show thesis using True c1 good_db left_db n0(3) lv R by (intro that [of ?c ?b ?v w1]) auto
  next
    case False
    then have n4: "n = 4096" using wh whole_long [of "left c"] src(2) n by simp
    then have b: "?b = take 4096 (left c)" "?v = placed_block hal st ?b info" using src(3,4) eq False by simp_all
    have io: "img_offset st + 4096 < 2 ^ 31" using at off False by (simp add: walk_at_def)
    let ?st = "leave_block (enter_block st) ?b info"
    have "\<exists>r w'. librsu_image_block_process hal st ?b (Some ?v) info w1 = Some (r, ?st, ?b, w') \<and>
        (r = 0 \<longrightarrow> ?v = placed_block hal st ?b info) \<and>
        (?v = placed_block hal st ?b info \<longrightarrow> r = 0 \<or> r = - ENOMEM \<and> fst (rsu_malloc hal w1 4096) = None) \<and>
        (w' = w1 \<or> w' = snd (rsu_malloc hal w1 4096))"
      by (rule process_compare [OF io n0(3) lv]) (use nor_flash.malloc_len [OF nor] in blast)
    then obtain r w2 where P: "librsu_image_block_process hal st ?b (Some ?v) info w1 = Some (r, ?st, ?b, w2)"
      "r = 0 \<or> fst (rsu_malloc hal w1 4096) = None" "w2 = w1 \<or> w2 = snd (rsu_malloc hal w1 4096)"
      using b(2) by blast
    obtain q w3 where m: "rsu_malloc hal w1 4096 = (q, w3)" by fastforce
    then have "q \<noteq> None" "ok w3" "mem w3 = mem w1" "dsize w3 = dsize w1"
      using reliable_flash.ok_malloc [OF rel R(2) m] nor_flash.malloc_mem [OF nor m]
        sized_flash.malloc_dsize [OF reliable_flash.axioms(1) [OF rel] m] by auto
    then have w2: "r = 0" "ok w2" "mem w2 = mem ?w" "dsize w2 = dsize ?w" using P(2,3) m R by auto
    let ?c1 = "c1\<lparr>db := (db c)\<lparr>world := w2\<rparr>\<rparr>"
    have "verify_loop hal get raw (int x) info st buf vbuf (int off) c =
        verify_loop hal get raw (int x) info ?st ?b ?v (int (off + n)) ?c1"
      using nl(1-3) R(1) False P(1) w2(1) n4
      by (subst verify_loop.simps) (simp add: f c1(3) nl(4) [unfolded n4, simplified] Let_def)
    then show thesis using False b(1) n4 c1 good_db left_db n0(3) lv w2 by (intro that [of ?c1 ?b ?v w2]) auto
  qed
qed

text \<open>Verifying succeeds when the slot holds the image.\<close>

lemma rel_verify_loop:
  assumes rel: "reliable_flash hal mem dsize ok"
    and "ok (world (db c))" "usable dsize (db c) x" "good c" "length buf = 4096" "length vbuf = 4096" "off < 2 ^ 31"
      "whole raw (left c)" "walk_at raw st off" "int (off + length (left c)) \<le> part_len (db c) x"
      "region (mem (world (db c))) (part_addr (db c) x + int off) (length (left c)) = placed_image hal raw info st (left c)"
  shows "\<exists>c'. verify_loop hal get raw (int x) info st buf vbuf (int off) c = Some (0, c') \<and> ok (world (db c')) \<and>
    (\<exists>w. db c' = (db c)\<lparr>world := w\<rparr> \<and> mem w = mem (world (db c)) \<and> dsize w = dsize (world (db c)))"
  using assms(2-)
proof (induction "length (left c)" arbitrary: st buf vbuf off c rule: less_induct)
  case less
  show ?case
  proof (cases "left c = []")
    case True
    obtain c1 where "fill_block get buf 0 c = Some (Inr (drop 0 buf, int 0, True, c1))" "db c1 = db c"
      by (rule fill_block_0 [OF less.prems(3,4), of 0]) (use True in auto)
    then show ?thesis using less.prems(1) by (subst verify_loop.simps) (auto intro: exI [of _ "world (db c)"])
  next
    case False
    let ?A = "part_addr (db c) x" and ?w = "world (db c)"
    let ?st = "if raw then st else leave_block (enter_block st) (take 4096 (left c)) info"
    define n where "n = min 4096 (length (left c))"
    have nle: "n \<le> length (left c)" by (simp add: n_def)
    have le: "int (off + n) \<le> part_len (db c) x" using less.prems(9) nle by simp
    have n_raw: "raw \<or> n = 4096" using less.prems(7) False whole_long [of "left c"] by (auto simp: n_def whole_def)
    have sp: "region (mem ?w) (?A + int off) (length (left c)) =
        region (mem ?w) (?A + int off) n @ region (mem ?w) (?A + int off + int n) (length (left c) - n)"
      using region_append [of "mem ?w" "?A + int off" n "length (left c) - n"] nle by simp
    have pi: "placed_image hal raw info st (left c) =
        (if raw then take n (left c) else placed_block hal st (take 4096 (left c)) info) @
        placed_image hal raw info ?st (drop n (left c))"
    proof (cases raw)
      case r: False
      then show ?thesis using n_raw False by (subst placed_image.simps) simp
    qed simp
    have lp: "length (if raw then take n (left c) else placed_block hal st (take 4096 (left c)) info) = n"
      using n_raw nle by (cases raw) auto
    have "length (region (mem ?w) (?A + int off) n) =
        length (if raw then take n (left c) else placed_block hal st (take 4096 (left c)) info)" unfolding lp by simp
    note ap = append_eq_append_conv [OF disjI1 [OF this], THEN iffD1, OF less.prems(10) [unfolded sp pi]]
    have eq: "region (mem ?w) (?A + int off) n = (if raw then take n (left c) else placed_block hal st (take 4096 (left c)) info)"
      and eq': "region (mem ?w) (?A + int off + int n) (length (left c) - n) = placed_image hal raw info ?st (drop n (left c))"
      using ap by (rule conjunct1, rule conjunct2)
    from rel less.prems(1,2,3) False less.prems(4-8) n_def le eq obtain w c1 buf' vbuf' where
      go: "verify_loop hal get raw (int x) info st buf vbuf (int off) c =
        (if n < 4096 then Some (0, c1) else verify_loop hal get raw (int x) info ?st buf' vbuf' (int (off + n)) c1)"
      "left c1 = drop n (left c)" "good c1" "db c1 = (db c)\<lparr>world := w\<rparr>" "length buf' = 4096" "length vbuf' = 4096"
      "ok w" "dsize w = dsize ?w" "mem w = mem ?w" by (rule rel_verify_step)
    show ?thesis
    proof (cases "n < 4096")
      case True
      then show ?thesis using go by (intro exI [of _ c1]) auto
    next
      case n: False
      then have n: "n = 4096" "4096 \<le> length (left c)" by (auto simp: n_def)
      have us: "usable dsize (db c1) x" using less.prems(2) go(4,8) usable_world by metis
      have wk: "walk_at raw ?st (off + n)" unfolding n(1) by (rule walk_at_next [OF less.prems(8,6)])
      have wh: "whole raw (left c1)" "length (left c1) < length (left c)"
        using go(2) n whole_drop [OF less.prems(7)] False by simp_all
      have lim: "off + n < 2 ^ 31"
        using le part_fits_bounds(1) [of "db c" x] less.prems(2) by (simp add: usable_def)
      have "int (off + n + length (left c1)) \<le> part_len (db c1) x" using go(2,4) less.prems(9) nle by simp
      moreover have "region (mem (world (db c1))) (part_addr (db c1) x + int (off + n)) (length (left c1)) =
          placed_image hal raw info ?st (left c1)"
        using eq' go(2,4,9) by (simp add: add.assoc)
      ultimately have "\<exists>c'. verify_loop hal get raw (int x) info ?st buf' vbuf' (int (off + n)) c1 = Some (0, c') \<and>
        ok (world (db c')) \<and> (\<exists>w'. db c' = (db c1)\<lparr>world := w'\<rparr> \<and> mem w' = mem (world (db c1)) \<and> dsize w' = dsize (world (db c1)))"
        using less.hyps [OF wh(2) _ us go(3,5,6) lim wh(1) wk] go(4,7) by simp
      then show ?thesis using go(1,4,8,9) n(1) by auto
    qed
  qed
qed

end

end
