(* ===== verification/Rsu_Cpb_Frame.thy ===== *)
theory Rsu_Cpb_Frame
  imports Rsu_Backup_Ok
begin

text \<open>
  What a change of the priorities leaves alone, whatever it returns: the partition table, and every
  byte of the flash outside the CPB partitions.
\<close>

definition cpb_range :: "'w ops \<Rightarrow> int set" where
  "cpb_range s = (\<Union>x \<in> set (cpb_parts (spt s)). part_range s x)"

definition only_cpb :: "('w \<Rightarrow> int \<Rightarrow> byte) \<Rightarrow> 'w ops \<Rightarrow> 'w ops \<Rightarrow> bool" where
  "only_cpb mem s t \<longleftrightarrow> same_static s t \<and> (\<forall>a. a \<notin> cpb_range s \<longrightarrow> mem (world t) a = mem (world s) a)"

lemma cpb_range_static: "same_static s t \<Longrightarrow> cpb_range t = cpb_range s"
  by (simp add: cpb_range_def same_static_def part_range_def part_addr_def part_len_def)

lemma only_cpb_refl [simp]: "only_cpb mem s s"
  by (simp add: only_cpb_def)

lemma only_cpb_trans: "only_cpb mem s t \<Longrightarrow> only_cpb mem t u \<Longrightarrow> only_cpb mem s u"
  unfolding only_cpb_def by (metis cpb_range_static same_static_trans)

lemma only_cpb_part:
  assumes "only_cpb mem s t" "part_range s x \<inter> cpb_range s = {}" "int (off + n) \<le> part_len s x"
  shows "region (mem (world t)) (part_addr s x + int off) n = region (mem (world s)) (part_addr s x + int off) n"
proof (rule region_frame)
  fix a assume "a \<in> {part_addr s x + int off..<part_addr s x + int off + int n}"
  then have "a \<in> part_range s x" using assms(3) by (auto simp: part_range_def)
  then show "mem (world t) a = mem (world s) a" using assms(1,2) by (auto simp: only_cpb_def)
qed

context nor_flash begin

lemma load_cpb_only:
  assumes "load_cpb hal s = Some (r, s')" "cpb_layout s" "length (cpb s) = CPB_SIZE"
  shows "only_cpb mem s s'"
  using load_cpb_static [OF assms(1)] load_cpb_frame [OF assms]
  by (simp add: only_cpb_def cpb_range_def same_static_def)

lemma update_cpb_only:
  assumes "update_cpb hal (int x) ptr s = Some (r, s')" "cpb_consistent mem s" "x < cpb_count s"
  shows "only_cpb mem s s' \<and> cpb_layout s' \<and> length (cpb s') = CPB_SIZE"
proof -
  from update_cpb_run [OF assms] obtain c w where u: "s' = s\<lparr>cpb := c, world := w\<rparr>" "length c = CPB_SIZE"
    "\<forall>a. a \<notin> (\<Union>x \<in> set (cpb_parts (spt s)). part_range s x) \<longrightarrow> mem w a = mem (world s) a" by auto
  then have "cpb_layout s'" using assms(2) cpb_layout_cong [of s' s] by (simp add: cpb_consistent_def)
  then show ?thesis using u by (simp add: only_cpb_def cpb_range_def same_static_def)
qed

lemma writeback_cpb_only:
  assumes "writeback_cpb hal s = Some (r, s')" "cpb_layout s" "length (cpb s) = CPB_SIZE"
    "cpb_magic_number (cpb s) = CPB_MAGIC_NUMBER"
  shows "only_cpb mem s s' \<and> cpb_layout s' \<and> length (cpb s') = CPB_SIZE"
proof -
  from writeback_cpb_spec [OF assms] obtain c w where u: "s' = s\<lparr>cpb := c, world := w\<rparr>" "length c = CPB_SIZE"
    "\<forall>a. a \<notin> (\<Union>x \<in> set (cpb_parts (spt s)). part_range s x) \<longrightarrow> mem w a = mem (world s) a" by auto
  then have "cpb_layout s'" using assms(2) cpb_layout_cong [of s' s] by simp
  then show ?thesis using u by (simp add: only_cpb_def cpb_range_def same_static_def)
qed

lemma with_slots_only: "only_cpb mem s (with_slots s vs)"
  by (simp add: only_cpb_def same_static_def)

lemma priority_add_only:
  assumes run: "priority_add hal p s = Some (r, s')" and con: "cpb_consistent mem s" and p: "\<not> bad_part p s" "p < 2 ^ 31"
  shows "only_cpb mem s s'"
proof -
  have inv: "cpb_inv s" and lay: "cpb_layout s" using con by (simp_all add: cpb_consistent_def)
  have c: "length (cpb s) = CPB_SIZE" "cpb_count s \<le> 508" using inv by (simp_all add: cpb_inv_def)
  let ?off = "p_offset (partition (spt s) ! nat p)"
  note run' = run [unfolded priority_add_list [OF inv cpb_layout_parts(3) [OF lay] p]]
  show ?thesis
  proof (cases "find (\<lambda>x. slots s ! x = ERASED_ENTRY) [0..<cpb_count s]")
    case (Some x)
    have x: "x < cpb_count s" using find_upt_SomeD [OF Some] by simp
    obtain e t q where u: "update_cpb hal (int x) ?off s = Some (e, t)" and l: "load_cpb hal t = Some (q, s')"
      using run' Some by (auto simp: Option.bind_eq_Some_conv split: if_splits)
    have "only_cpb mem s t" "cpb_layout t" "length (cpb t) = CPB_SIZE" using update_cpb_only [OF u con x] by simp_all
    then show ?thesis using load_cpb_only [OF l] only_cpb_trans by blast
  next
    case None
    let ?vs = "live s @ ?off # replicate (cpb_count s - length (live s) - 1) ERASED_ENTRY"
    show ?thesis
    proof (cases "length (live s) < cpb_count s")
      case False
      then obtain vs where "s' = with_slots s vs" using run' None by auto
      then show ?thesis using with_slots_only by simp
    next
      case True
      then have lv: "length ?vs = cpb_count s" by simp
      have k: "cpb_layout (with_slots s ?vs)" "length (cpb (with_slots s ?vs)) = CPB_SIZE"
        "cpb_magic_number (cpb (with_slots s ?vs)) = CPB_MAGIC_NUMBER"
        using lv inv c lay con cpb_layout_cong [of "with_slots s ?vs" s]
        by (simp_all add: with_slots_header cpb_consistent_def cpb_valid_def)
      obtain e t where wb: "writeback_cpb hal (with_slots s ?vs) = Some (e, t)"
        and l: "s' = t \<or> (\<exists>q. load_cpb hal t = Some (q, s'))"
        using run' None True by (auto simp: Option.bind_eq_Some_conv split: if_splits)
      have "only_cpb mem s t" "cpb_layout t" "length (cpb t) = CPB_SIZE"
        using writeback_cpb_only [OF wb k] only_cpb_trans [OF with_slots_only] by blast+
      then show ?thesis using l load_cpb_only only_cpb_trans by blast
    qed
  qed
qed

lemma priority_remove_only:
  assumes run: "priority_remove hal p s = Some (r, s')" and con: "cpb_consistent mem s" and p: "\<not> bad_part p s" "p < 2 ^ 31"
  shows "only_cpb mem s s'"
proof -
  have inv: "cpb_inv s" and lay: "cpb_layout s" using con by (simp_all add: cpb_consistent_def)
  have c: "length (cpb s) = CPB_SIZE" using inv by (simp add: cpb_inv_def)
  note run' = run [unfolded priority_remove_list [OF inv cpb_layout_parts(3) [OF lay] p]]
  show ?thesis
  proof (cases "find (\<lambda>x. slots s ! x = p_offset (partition (spt s) ! nat p)) [0..<cpb_count s]")
    case (Some x)
    have x: "x < cpb_count s" using find_upt_SomeD [OF Some] by simp
    obtain e t q where u: "update_cpb hal (int x) SPENT_ENTRY s = Some (e, t)" and l: "load_cpb hal t = Some (q, s')"
      using run' Some by (auto simp: Option.bind_eq_Some_conv split: if_splits)
    have "only_cpb mem s t" "cpb_layout t" "length (cpb t) = CPB_SIZE" using update_cpb_only [OF u con x] by simp_all
    then show ?thesis using load_cpb_only [OF l] only_cpb_trans by blast
  next
    case None
    then show ?thesis using run' load_cpb_only [OF _ lay c] by simp
  qed
qed

end

end
