(* ===== verification/Rsu_Slot_Image.thy ===== *)
theory Rsu_Slot_Image
  imports Rsu_Cb_Total Rsu_Cpb_Frame
begin

text \<open>
  Programming and verifying a slot as a whole, \<^verbatim>\<open>librsu_cb_program_common\<close> and
  \<^verbatim>\<open>librsu_cb_verify_common\<close>: which partition a slot is, what a successful programming leaves in
  flash, and that verifying with the same data accepts it.
\<close>

section \<open>The partition of a slot\<close>

lemma reserved_name:
  assumes "name_is p nm" "length (p_name p) = 16" "c_str (p_name p) = Some n" "length nm \<le> 15"
    "list_all (\<lambda>c. of_char c \<noteq> (0 :: byte)) nm"
  shows "n = chars nm"
proof -
  have c: "takeWhile (\<lambda>c. c \<noteq> 0) (chars nm) = chars nm"
    using assms(5) by (auto simp: chars_def list_all_iff takeWhile_eq_all_conv)
  have "takeWhile (\<lambda>c. c \<noteq> 0) (take 16 (p_name p)) = takeWhile (\<lambda>c. c \<noteq> 0) (take 16 (chars nm))"
    using assms(1) by (simp add: name_is_def strncmp_eq_0_iff)
  moreover have "take 16 (chars nm) = chars nm" using assms(4) by (simp add: chars_def)
  ultimately show ?thesis using assms(2,3) c by (auto simp: c_str_def split: if_splits)
qed

lemma slot_not_reserved:
  assumes "librsu_misc_is_slot partition_ops s p = Some True" "\<not> bad_part p s" "length (p_name (partition (spt s) ! nat p)) = 16"
  shows "\<not> is_cpb_part (spt s) (nat p)" "\<not> is_spt_part (spt s) (nat p)"
proof -
  obtain n where n: "c_str (p_name (partition (spt s) ! nat p)) = Some n" "\<not> librsu_misc_is_rsvd_name n"
    using assms(1,2) by (auto simp: librsu_misc_is_slot_def partition_ops_def partition_name_def bind_splits split: if_splits)
  have "\<not> name_is (partition (spt s) ! nat p) nm" if "nm \<in> {''SPT0'', ''SPT1'', ''CPB0'', ''CPB1''}" for nm
  proof
    assume "name_is (partition (spt s) ! nat p) nm"
    then have "n = chars nm" using reserved_name [OF _ assms(3) n(1)] that by (auto simp: of_char_def)
    then show False using n(2) that by (auto simp: librsu_misc_is_rsvd_name_def reserved_names_def)
  qed
  then show "\<not> is_cpb_part (spt s) (nat p)" "\<not> is_spt_part (spt s) (nat p)"
    by (auto simp: is_cpb_part_def is_spt_part_def)
qed

lemma slot2part_facts:
  assumes inv: "spt_inv s" and sp: "librsu_misc_slot2part partition_ops s slot = Some p" "0 \<le> p"
  shows "\<not> bad_part p s" "p < 127" "nat p < unat (partitions (spt s))"
    "nat p \<notin> set (cpb_parts (spt s))" "nat p \<notin> set (spt_parts (spt s))"
proof -
  have c: "p < partition_count s" "librsu_misc_is_slot partition_ops s p = Some True"
    using part_slots.slot2part_is_slot [OF assms] by (simp_all add: partition_ops_def)
  have u: "unat (partitions (spt s)) \<le> 127" "wf_spt (spt s)" using inv by (simp_all add: spt_inv_def spt_base_def)
  have lt: "p < uint (partitions (spt s))" using c(1) u(1) by (simp add: partition_count_def sint_eq_uint)
  then show n: "nat p < unat (partitions (spt s))" using sp(2) uint_nat [of "partitions (spt s)"] by linarith
  then show p: "p < 127" using u(1) by linarith
  show b: "\<not> bad_part p s" using lt p u(1) sp(2) by (simp add: bad_part_def uint_of_int_small)
  have "length (p_name (partition (spt s) ! nat p)) = 16" using u n by (simp add: wf_spt_def)
  from slot_not_reserved [OF c(2) b this] show "nat p \<notin> set (cpb_parts (spt s))" "nat p \<notin> set (spt_parts (spt s))"
    by (simp_all add: cpb_parts_def spt_parts_def)
qed

lemma sint_eq_uint_64: "uint (w :: u64) < 2 ^ 63 \<Longrightarrow> sint w = uint w"
  unfolding sint_uint by (intro signed_take_bit_int_eq_self order_trans [OF _ uint_ge_0]) auto

lemma sint_nonneg:
  assumes "0 \<le> sint (w :: u64)" shows "sint w = uint w"
proof -
  have nb: "\<not> bit (uint w) 63" using assms by (simp add: sint_uint signed_take_bit_nonnegative_iff)
  have "take_bit 63 (uint w) = uint w"
  proof (rule bit_eqI)
    fix k
    show "bit (take_bit 63 (uint w)) k \<longleftrightarrow> bit (uint w) k"
    proof (cases "k < 63 \<or> k = 63")
      case True
      then show ?thesis using nb by (auto simp: bit_take_bit_iff)
    next
      case False
      then show ?thesis by (auto simp: bit_take_bit_iff bit_uint_iff)
    qed
  qed
  then show ?thesis using signed_take_bit_eq_if_positive [OF nb] by (simp add: sint_uint)
qed

text \<open>Partitions that do not overlap in the table do not overlap in flash.\<close>

lemma parts_disjoint:
  assumes "0 \<le> sint (mtd_part_offset s)" "part_fits s x" "part_fits s y"
    "\<not> parts_overlap (partition (spt s) ! x) (partition (spt s) ! y)"
  shows "part_range s x \<inter> part_range s y = {}"
proof -
  have a: "uint (p_offset (partition (spt s) ! z)) = part_addr s z + sint (mtd_part_offset s)"
    "uint (part_end (partition (spt s) ! z)) = part_addr s z + sint (mtd_part_offset s) + part_len s z" if "part_fits s z" for z
  proof -
    let ?o = "p_offset (partition (spt s) ! z)" and ?m = "mtd_part_offset s" and ?l = "p_length (partition (spt s) ! z)"
    have le: "sint ?m \<le> sint ?o" "part_len s z < 2 ^ 31" using that by (simp_all add: part_fits_def)
    have "0 \<le> sint ?o" using le(1) assms(1) by (rule order_trans [rotated])
    note u = sint_nonneg [OF assms(1)] sint_nonneg [OF this]
    have o63: "uint ?o < 2 ^ 63" using sint_less [of ?o] u(2) by simp
    have "uint (?o - ?m) = uint ?o - uint ?m" using le(1) u by (simp add: uint_sub_if')
    moreover have "uint ?o - uint ?m < 2 ^ 63" using o63 uint_ge_0 [of ?m] by linarith
    ultimately have "sint (?o - ?m) = uint ?o - uint ?m" using sint_eq_uint_64 [of "?o - ?m"] by simp
    then show "uint ?o = part_addr s z + sint ?m" using u by (simp add: part_addr_def)
    have ul: "uint (ucast ?l :: u64) = uint ?l" by (simp add: uint_up_ucast is_up)
    have "uint ?o + uint ?l < 2 ^ 64" using o63 le(2) by (simp add: part_len_def)
    then have "uint (part_end (partition (spt s) ! z)) = uint ?o + uint ?l"
      unfolding part_end_def using ul by (simp add: uint_add_lem [THEN iffD1])
    then show "uint (part_end (partition (spt s) ! z)) = part_addr s z + sint ?m + part_len s z"
      using \<open>uint ?o = part_addr s z + sint ?m\<close> by (simp add: part_len_def)
  qed
  show ?thesis using assms(4) a [OF assms(2)] a [OF assms(3)]
    by (auto simp: parts_overlap_def part_range_def word_less_def)
qed

section \<open>Programming a slot\<close>

text \<open>The walk as \<^verbatim>\<open>librsu_image_block_init\<close> starts it; what the local variable held before is gone.\<close>

definition walk_start :: "rsu_image_state \<Rightarrow> rsu_image_state" where
  "walk_start st0 = snd (librsu_image_block_init st0)"

lemma walk_start_run: "librsu_image_block_init st0 = (0, walk_start st0)"
  by (simp add: walk_start_def librsu_image_block_init_def)

lemma slot_info_fields:
  assumes "slot_info p s = Some (Inr info)" "\<not> bad_part p s"
  shows "info_offset info = p_offset (partition (spt s) ! nat p)" "info_size info = partition_size p s"
  using assms by (auto simp: slot_info_def partition_offset_def bad_part_def part_at_def bind_splits split: if_splits)

lemma slot_info_error: "slot_info p s = Some (Inl e) \<Longrightarrow> e = - EBADF"
  by (auto simp: slot_info_def bind_splits split: if_splits)

context data_source begin

lemma program_common_ok:
  assumes nor: "nor_flash hal mem"
    and run: "librsu_cb_program_common hal st0 slot (Some get) raw c = Some (0, c')"
    and src: "good c" "whole raw (left c)"
  obtains p info w q where "librsu_misc_slot2part partition_ops (db c) slot = Some p" "0 \<le> p"
    "librsu_cfg_writeprotected hal slot = 0" "slot_info p (db c) = Some (Inr info)" "priority_get p (db c) = Some q" "q \<le> 0"
    "region (mem w) (part_addr (db c) (nat p)) (length (left c)) = placed_image hal raw info (walk_start st0) (left c)"
    "left c \<noteq> [] \<Longrightarrow> int (length (left c)) \<le> part_len (db c) (nat p)"
    "\<And>a. a < part_addr (db c) (nat p) \<or> part_addr (db c) (nat p) + int (length (left c)) \<le> a \<Longrightarrow> mem w a = mem (world (db c)) a"
    "raw \<Longrightarrow> db c' = (db c)\<lparr>world := w\<rparr>"
    "\<not> raw \<Longrightarrow> priority_add hal p ((db c)\<lparr>world := w\<rparr>) = Some (0, db c')"
proof -
  from run obtain p i where sp1: "librsu_misc_slot2part partition_ops (db c) slot = Some p" "0 \<le> p"
    "librsu_cfg_writeprotected hal slot = 0" "slot_info p (db c) = Some i"
    by (auto simp: librsu_cb_program_common_def bind_splits not_less split: if_splits)
  obtain info where i: "i = Inr info" using run sp1 slot_info_error [of p "db c"]
    by (cases i) (auto simp: librsu_cb_program_common_def)
  obtain q where "priority_get p (db c) = Some q" "q \<le> 0" using run sp1 i
    by (auto simp: librsu_cb_program_common_def bind_splits not_less split: if_splits)
  note sp = sp1 [unfolded i] this
  obtain v0 w0 where m0: "rsu_malloc hal (world (db c)) 4096 = (v0, w0)" by fastforce
  obtain v1 w1 where m1: "rsu_malloc hal w0 4096 = (v1, w1)" by fastforce
  from run sp m0 m1 obtain vbuf buf c1 where b: "v0 = Some vbuf" "v1 = Some buf"
    and loop: "program_loop hal get raw p info (walk_start st0) buf vbuf 0 (set_world c w1) = Some (0, c1)"
    and fin0: "raw \<longrightarrow> c' = c1" "\<not> raw \<longrightarrow> (\<exists>d. priority_add hal p (db c1) = Some (0, d) \<and> c' = c1\<lparr>db := d\<rparr>)"
    by (fastforce simp: librsu_cb_program_common_def walk_start_run bind_splits split: if_splits option.splits)
  have fin: "priority_add hal p (db c1) = Some (0, db c')" if nr: "\<not> raw"
  proof -
    obtain d where d: "priority_add hal p (db c1) = Some (0, d)" "c' = c1\<lparr>db := d\<rparr>" using fin0(2) nr by blast
    have "db c' = d" unfolding d(2) by simp
    then show ?thesis using d(1) by simp
  qed
  have mm: "mem w1 = mem (world (db c))" "length vbuf = 4096" "length buf = 4096"
    using nor_flash.malloc_mem [OF nor m0] nor_flash.malloc_mem [OF nor m1] nor_flash.malloc_len [OF nor] m0 m1 b by auto
  let ?c = "set_world c w1"
  have c: "good ?c" "left ?c = left c" "db ?c = (db c)\<lparr>world := w1\<rparr>" using src(1) good_db left_db by simp_all
  from loop have "program_loop hal get raw p info (walk_start st0) buf vbuf (int 0) ?c = Some (0, c1)" by simp
  from program_loop_ok [OF nor this c(1) mm(3,2) _ src(2) [folded c(2)]] obtain w where
    w: "db c1 = (db ?c)\<lparr>world := w\<rparr>"
    "left ?c \<noteq> [] \<longrightarrow> int (0 + length (left ?c)) \<le> part_len (db ?c) (nat p)"
    "\<forall>a. a < part_addr (db ?c) (nat p) + int 0 \<or> part_addr (db ?c) (nat p) + int (0 + length (left ?c)) \<le> a \<longrightarrow>
       mem w a = mem (world (db ?c)) a"
    "region (mem w) (part_addr (db ?c) (nat p) + int 0) (length (left ?c)) = placed_image hal raw info (walk_start st0) (left ?c)"
    by auto
  show thesis
    by (rule that [of p info q w]) (use sp w c mm(1) fin fin0(1) in auto)
qed

end

section \<open>What the image depends on\<close>

text \<open>States of the walk that differ only behind the sections found, and slots that differ only in name and priority.\<close>

definition walk_eq :: "rsu_image_state \<Rightarrow> rsu_image_state \<Rightarrow> bool" where
  "walk_eq s t \<longleftrightarrow> img_inv s \<and> img_inv t \<and> known_sections s = known_sections t \<and> img_offset s = img_offset t \<and>
     block_type s = block_type t \<and> absolute s = absolute t"

definition info_eq :: "rsu_slot_info \<Rightarrow> rsu_slot_info \<Rightarrow> bool" where
  "info_eq i j \<longleftrightarrow> info_offset i = info_offset j \<and> info_size i = info_size j"

lemma walk_eq_add:
  assumes "walk_eq s t" shows "walk_eq (snd (add_section s v)) (snd (add_section t v))"
proof -
  have f: "img_offset (snd (add_section u v)) = img_offset u \<and> block_type (snd (add_section u v)) = block_type u \<and>
      absolute (snd (add_section u v)) = absolute u" for u by (simp add: add_section_def)
  show ?thesis using assms f [of s] f [of t] add_section_known [of s v] add_section_known [of t v]
    by (simp add: walk_eq_def)
qed

lemma walk_eq_fold:
  "walk_eq s t \<Longrightarrow> walk_eq (fold (\<lambda>x st. if P x then snd (add_section st (f (absolute st) x)) else st) xs s)
     (fold (\<lambda>x st. if P x then snd (add_section st (f (absolute st) x)) else st) xs t)"
proof (induction xs arbitrary: s t)
  case (Cons x xs)
  have "absolute s = absolute t" using Cons.prems by (simp add: walk_eq_def)
  then show ?case using Cons walk_eq_add by simp
qed simp

lemma walk_eq_process:
  assumes "walk_eq s t" "info_eq i j"
  shows "walk_eq (snd (sig_block_process s b i)) (snd (sig_block_process t b j))"
proof -
  have a: "walk_eq (if c then s\<lparr>absolute := True\<rparr> else s) (if c then t\<lparr>absolute := True\<rparr> else t)" for c
    using assms(1) by (auto simp: walk_eq_def)
  have e: "img_offset s = img_offset t" "info_offset i = info_offset j" "info_size i = info_size j"
    using assms by (simp_all add: walk_eq_def info_eq_def)
  show ?thesis unfolding sig_block_process_def Let_def e snd_conv by (rule walk_eq_fold [OF a])
qed

lemma walk_eq_enter:
  assumes "walk_eq s t" "img_offset s + 4096 < 2 ^ 31" shows "walk_eq (enter_block s) (enter_block t)"
proof -
  have t: "img_offset t + 4096 < 2 ^ 31" using assms by (simp add: walk_eq_def)
  have "img_inv (s\<lparr>img_offset := img_offset s + 4096\<rparr>)" "img_inv (t\<lparr>img_offset := img_offset t + 4096\<rparr>)"
    using assms t by (auto simp: walk_eq_def img_inv_def)
  then have "find_section (s\<lparr>img_offset := img_offset s + 4096\<rparr>) v = find_section (t\<lparr>img_offset := img_offset t + 4096\<rparr>) v" for v
    using find_section_iff assms(1) by (simp add: walk_eq_def)
  then show ?thesis using assms img_inv_enter [OF _ assms(2)] img_inv_enter [OF _ t]
    by (auto simp: walk_eq_def enter_block_def Let_def)
qed

lemma walk_eq_leave:
  assumes "walk_eq s t" "info_eq i j" shows "walk_eq (leave_block s b i) (leave_block t b j)"
proof -
  have "block_type s = block_type t" using assms(1) by (simp add: walk_eq_def)
  then show ?thesis using assms walk_eq_process [OF assms, of b]
    by (cases "block_type t") (auto simp: leave_block_def walk_eq_def)
qed

lemma placed_block_eq:
  assumes "walk_eq s t" "info_eq i j" "img_offset s + 4096 < 2 ^ 31"
  shows "placed_block hal s b i = placed_block hal t b j"
proof -
  have e: "info_offset i = info_offset j" using assms(2) by (simp add: info_eq_def)
  have "move_pointers b i = move_pointers b j" unfolding move_pointers_def e by (rule refl)
  then show ?thesis
    using walk_eq_enter [OF assms(1,3)] walk_eq_leave [OF walk_eq_enter [OF assms(1,3)] assms(2), of b]
    by (simp add: placed_block_def walk_eq_def moved_block_def)
qed

lemma placed_image_eq:
  assumes "walk_eq s t" "info_eq i j" "img_offset s + 4096 + int (length ds) < 2 ^ 31"
  shows "placed_image hal raw i s ds = placed_image hal raw j t ds"
  using assms
proof (induction "length ds" arbitrary: s t ds rule: less_induct)
  case less
  show ?case
  proof (cases "raw \<or> ds = []")
    case True
    then show ?thesis by auto
  next
    case False
    have o: "img_offset s + 4096 < 2 ^ 31" using less.prems(3) False by simp
    let ?s = "leave_block (enter_block s) (take 4096 ds) i" and ?t = "leave_block (enter_block t) (take 4096 ds) j"
    have st: "walk_eq ?s ?t" using less.prems walk_eq_enter [OF _ o] by (intro walk_eq_leave) auto
    have iv: "img_inv s" using less.prems(1) by (simp add: walk_eq_def)
    then have "img_offset ?s = img_offset s + 4096"
      using img_inv_enter [OF iv o] img_inv_leave [of "enter_block s" "take 4096 ds" i] by simp
    then have "placed_image hal raw i ?s (drop 4096 ds) = placed_image hal raw j ?t (drop 4096 ds)"
      if "4096 < length ds" using less.hyps [of "drop 4096 ds" ?s ?t] st less.prems(2,3) that False by simp
    moreover have "drop 4096 ds = []" if "\<not> 4096 < length ds" using that by simp
    ultimately have "placed_image hal raw i ?s (drop 4096 ds) = placed_image hal raw j ?t (drop 4096 ds)"
      by (metis placed_image_Nil)
    then show ?thesis using False placed_block_eq [OF less.prems(1,2) o]
      by (subst (1 2) placed_image.simps) simp
  qed
qed

lemma walk_eq_start:
  "length (sections a) = 64 \<Longrightarrow> length (sections b) = 64 \<Longrightarrow> walk_eq (walk_start a) (walk_start b)"
  using init_inv [OF _ walk_start_run [of a]] init_inv [OF _ walk_start_run [of b]] by (simp add: walk_eq_def)

section \<open>Verifying a slot\<close>

context data_source begin

lemma rel_verify_common:
  assumes rel: "reliable_flash hal mem dsize ok" and ok: "ok (world (db c))" and us: "usable dsize (db c) (nat p)"
    and sp: "librsu_misc_slot2part partition_ops (db c) slot = Some p" "0 \<le> p" "slot_info p (db c) = Some (Inr info)"
    and pr: "raw \<or> (\<exists>q > 0. priority_get p (db c) = Some q)"
    and src: "good c" "whole raw (left c)" and st0: "length (sections st0) = MAX_SECTIONS"
    and fit: "int (length (left c)) \<le> part_len (db c) (nat p)"
    and eq: "region (mem (world (db c))) (part_addr (db c) (nat p)) (length (left c)) =
      placed_image hal raw info (walk_start st0) (left c)"
  shows "\<exists>c'. librsu_cb_verify_common hal st0 slot (Some get) raw c = Some (0, c') \<and>
    mem (world (db c')) = mem (world (db c))"
proof -
  note nor = reliable_nor [OF rel]
  obtain v0 w0 where m0: "rsu_malloc hal (world (db c)) 4096 = (v0, w0)" by fastforce
  obtain v1 w1 where m1: "rsu_malloc hal w0 4096 = (v1, w1)" by fastforce
  have o0: "v0 \<noteq> None" "ok w0" using reliable_flash.ok_malloc [OF rel ok m0] by auto
  have o1: "v1 \<noteq> None" "ok w1" using reliable_flash.ok_malloc [OF rel o0(2) m1] by auto
  obtain vbuf buf where b: "v0 = Some vbuf" "v1 = Some buf" using o0 o1 by auto
  have l: "length vbuf = 4096" "length buf = 4096" using nor_flash.malloc_len [OF nor] m0 m1 b by auto
  have mm: "mem w1 = mem (world (db c))" "dsize w1 = dsize (world (db c))"
    using nor_flash.malloc_mem [OF nor m0] nor_flash.malloc_mem [OF nor m1]
      sized_flash.malloc_dsize [OF reliable_flash.axioms(1) [OF rel] m0]
      sized_flash.malloc_dsize [OF reliable_flash.axioms(1) [OF rel] m1] by simp_all
  let ?c = "set_world c w1"
  have c: "good ?c" "left ?c = left c" "db ?c = (db c)\<lparr>world := w1\<rparr>" using src(1) good_db left_db by simp_all
  have wk: "walk_at raw (walk_start st0) 0" using init_inv [OF st0 walk_start_run] by (simp add: walk_at_def)
  have us': "usable dsize (db ?c) (nat p)" using us usable_world [of dsize w1 "db c"] mm(2) by simp
  have "\<exists>c'. verify_loop hal get raw (int (nat p)) info (walk_start st0) buf vbuf (int 0) ?c = Some (0, c') \<and> ok (world (db c')) \<and>
    (\<exists>w. db c' = (db ?c)\<lparr>world := w\<rparr> \<and> mem w = mem (world (db ?c)) \<and> dsize w = dsize (world (db ?c)))"
    by (rule rel_verify_loop [OF rel _ us' c(1) l(2,1)]) (use o1 src wk fit eq mm c in auto)
  then obtain c' w where v: "verify_loop hal get raw p info (walk_start st0) buf vbuf 0 ?c = Some (0, c')"
    "db c' = (db ?c)\<lparr>world := w\<rparr>" "mem w = mem w1" using sp(2) by auto
  have "librsu_cb_verify_common hal st0 slot (Some get) raw c = Some (0, c')"
    using sp pr m0 m1 b v(1) walk_start_run [of st0] by (auto simp: librsu_cb_verify_common_def)
  then show ?thesis using v mm by auto
qed

end

section \<open>Programming an image\<close>

text \<open>Changes of the flash outside the CPB partitions do not concern the pointer block.\<close>

lemma cpb_consistent_frame:
  assumes "cpb_consistent mem s" "\<And>a. a \<in> cpb_range s \<Longrightarrow> mem w a = mem (world s) a"
  shows "cpb_consistent mem (s\<lparr>world := w\<rparr>)"
proof -
  let ?t = "s\<lparr>world := w\<rparr>"
  have lay: "cpb_layout s" using assms(1) by (simp add: cpb_consistent_def)
  have "part_copy mem ?t x = part_copy mem s x" if x: "x \<in> set (cpb_parts (spt s))" for x
  proof -
    have "region (mem w) (part_addr s x) 4096 = region (mem (world s)) (part_addr s x) 4096"
    proof (rule region_frame)
      fix a assume "a \<in> {part_addr s x..<part_addr s x + int 4096}"
      then have "a \<in> part_range s x" using cpb_layout_parts(5) [OF lay x] by (auto simp: part_range_def)
      then show "mem w a = mem (world s) a" using x by (intro assms(2)) (auto simp: cpb_range_def)
    qed
    then show ?thesis by (simp add: part_copy_def)
  qed
  moreover have "cpb_layout ?t" using lay cpb_layout_cong [of ?t s] by simp
  ultimately show ?thesis using assms(1) by (simp add: cpb_consistent_def cpb_synced_def cpb_inv_def cpb_count_def)
qed

text \<open>The partitions of the table lie in the device where the table says: what the frame of a slot needs.\<close>

definition slots_apart :: "'w ops \<Rightarrow> bool" where
  "slots_apart s \<longleftrightarrow> 0 \<le> sint (mtd_part_offset s) \<and> (\<forall>x < unat (partitions (spt s)). part_fits s x)"

lemma slot_outside_cpb:
  assumes "spt_inv s" "slots_apart s" "librsu_misc_slot2part partition_ops s slot = Some p" "0 \<le> p"
  shows "part_range s (nat p) \<inter> cpb_range s = {}"
proof -
  note f = slot2part_facts [OF assms(1,3,4)]
  have "part_range s (nat p) \<inter> part_range s y = {}" if "y \<in> set (cpb_parts (spt s))" for y
  proof (rule parts_disjoint)
    have y: "y < unat (partitions (spt s))" "nat p \<noteq> y" using that f(4) by (auto simp: cpb_parts_def)
    show "part_fits s (nat p)" "part_fits s y" "0 \<le> sint (mtd_part_offset s)"
      using assms(2) f(3) y(1) by (simp_all add: slots_apart_def)
    show "\<not> parts_overlap (partition (spt s) ! nat p) (partition (spt s) ! y)"
      using assms(1) f(3) y by (simp add: spt_inv_def spt_ok_def)
  qed
  then show ?thesis by (auto simp: cpb_range_def)
qed

context data_source begin

lemma program_image_ok:
  assumes nor: "nor_flash hal mem"
    and run: "librsu_cb_program_common hal st0 slot (Some get) False c = Some (0, c')"
    and src: "good c" "4096 dvd length (left c)"
    and inv: "spt_inv (db c)" "slots_apart (db c)" "cpb_consistent mem (db c)" "packed (slots (db c))"
    and sp: "librsu_misc_slot2part partition_ops (db c) slot = Some p"
    and lv: "cpb_live (p_offset (partition (spt (db c)) ! nat p))"
  obtains info where "0 \<le> p" "slot_info p (db c) = Some (Inr info)"
    "region (mem (world (db c'))) (part_addr (db c) (nat p)) (length (left c)) =
      placed_image hal False info (walk_start st0) (left c)"
    "left c \<noteq> [] \<Longrightarrow> int (length (left c)) \<le> part_len (db c) (nat p)"
    "\<And>a. a \<notin> part_range (db c) (nat p) \<Longrightarrow> a \<notin> cpb_range (db c) \<Longrightarrow> mem (world (db c')) a = mem (world (db c)) a"
    "live (db c') = live (db c) @ [p_offset (partition (spt (db c)) ! nat p)]" "priority_get p (db c') = Some 1"
    "cpb_consistent mem (db c')" "packed (slots (db c'))" "same_static (db c) (db c')"
proof -
  have wh: "whole False (left c)" using src(2) by (simp add: whole_def)
  from nor run src(1) wh obtain p' info w q where P: "librsu_misc_slot2part partition_ops (db c) slot = Some p'" "0 \<le> p'"
    "slot_info p' (db c) = Some (Inr info)"
    "region (mem w) (part_addr (db c) (nat p')) (length (left c)) = placed_image hal False info (walk_start st0) (left c)"
    "left c \<noteq> [] \<Longrightarrow> int (length (left c)) \<le> part_len (db c) (nat p')"
    "\<And>a. a < part_addr (db c) (nat p') \<or> part_addr (db c) (nat p') + int (length (left c)) \<le> a \<Longrightarrow> mem w a = mem (world (db c)) a"
    "priority_add hal p' ((db c)\<lparr>world := w\<rparr>) = Some (0, db c')" by (rule program_common_ok) auto
  have pp: "p' = p" using P(1) sp by simp
  let ?s = "(db c)\<lparr>world := w\<rparr>" and ?x = "nat p"
  have add: "priority_add hal p ?s = Some (0, db c')" and p0: "0 \<le> p" using P(2,7) pp by simp_all
  note f = slot2part_facts [OF inv(1) sp p0]
  note dj = slot_outside_cpb [OF inv(1,2) sp p0]
  have out: "mem w a = mem (world (db c)) a" if "a \<notin> part_range (db c) ?x" for a
  proof (cases "left c = []")
    case True
    then show ?thesis using P(6) [of a] pp by (cases "a < part_addr (db c) ?x") auto
  next
    case False
    then show ?thesis using P(6) [of a] P(5) pp that by (fastforce simp: part_range_def)
  qed
  have con: "cpb_consistent mem ?s" by (rule cpb_consistent_frame [OF inv(3)]) (use dj out in blast)
  have st: "\<not> bad_part p ?s" "p < 2 ^ 31" "packed (slots ?s)" "spt ?s = spt (db c)" "live ?s = live (db c)"
    using f(1,2) inv(4) by (simp_all add: bad_part_def slots_def live_def)
  note A = nor_flash.priority_add_highest [OF nor add con st(3,1,2)] nor_flash.priority_add_only [OF nor add con st(1,2)]
  have cr: "cpb_range ?s = cpb_range (db c)" by (rule cpb_range_static) (simp add: same_static_def)
  have rg: "region (mem (world (db c'))) (part_addr (db c) ?x) (length (left c)) = placed_image hal False info (walk_start st0) (left c)"
  proof (cases "left c = []")
    case False
    then have "int (0 + length (left c)) \<le> part_len ?s ?x" using P(5) pp by simp
    from only_cpb_part [OF A(2) _ this] show ?thesis using P(4) pp dj cr
      by (simp add: part_range_def)
  qed simp
  show thesis
  proof (rule that [of info])
    show "mem (world (db c')) a = mem (world (db c)) a" if "a \<notin> part_range (db c) ?x" "a \<notin> cpb_range (db c)" for a
      using A(2) cr out [OF that(1)] that(2) by (simp add: only_cpb_def)
    show "same_static (db c) (db c')" using A(2) by (simp add: only_cpb_def same_static_def)
  qed (use P(3,5) pp p0 rg A(1) lv st in auto)
qed

end

section \<open>Verifying what was programmed\<close>

lemma slot2part_loop_spt:
  assumes "spt t = spt s" shows "slot2part_loop partition_ops t slot xs n = slot2part_loop partition_ops s slot xs n"
proof -
  have "librsu_misc_is_slot partition_ops t x = librsu_misc_is_slot partition_ops s x" for x
    using assms by (simp add: librsu_misc_is_slot_def partition_ops_def partition_name_def partition_reserved_def
        partition_readonly_def bad_part_def)
  then show ?thesis by (induction xs arbitrary: n) (simp_all cong: if_cong)
qed

lemma slot2part_spt:
  "spt t = spt s \<Longrightarrow> librsu_misc_slot2part partition_ops t slot = librsu_misc_slot2part partition_ops s slot"
  using slot2part_loop_spt [of t s] by (simp add: librsu_misc_slot2part_def) (simp add: partition_ops_def partition_count_def)

lemma slot_info_spt:
  assumes "slot_info p s = Some (Inr i)" "spt t = spt s" "priority_get p t = Some q"
  shows "\<exists>j. slot_info p t = Some (Inr j) \<and> info_eq i j"
proof -
  have e: "partition_name p t = partition_name p s" "partition_offset p o' t = partition_offset p o' s"
    "partition_size p t = partition_size p s" for o'
    using assms(2) by (simp_all add: partition_name_def partition_offset_def partition_size_def bad_part_def)
  from assms(1) obtain n r v k where "SAFE_STRCPY (replicate 16 0) 16 (Some (partition_name p s)) 16 = Some n"
    "partition_offset p (Some 0) s = Some (r, v)" "\<not> r < 0"
    and i: "i = \<lparr>info_name = n, info_offset = (case v of Some v \<Rightarrow> v | None \<Rightarrow> 0),
      info_size = partition_size p s, info_priority = k\<rparr>"
    by (auto simp: slot_info_def bind_splits split: if_splits)
  then have "slot_info p t = Some (Inr (i\<lparr>info_priority := q\<rparr>))" using assms(3) by (simp add: slot_info_def e)
  then show ?thesis by (auto simp: info_eq_def)
qed

context data_source begin

lemma program_verify_ok:
  assumes rel: "reliable_flash hal mem dsize ok"
    and run: "librsu_cb_program_common hal st0 slot (Some get) False c = Some (0, c')"
    and src: "good c" "4096 dvd length (left c)"
    and inv: "spt_inv (db c)" "slots_apart (db c)" "cpb_consistent mem (db c)" "packed (slots (db c))"
    and sp: "librsu_misc_slot2part partition_ops (db c) slot = Some p"
    and lv: "cpb_live (p_offset (partition (spt (db c)) ! nat p))"
    and st0: "length (sections st0) = MAX_SECTIONS" "length (sections st1) = MAX_SECTIONS"
    and ok: "ok (world (db c'))" and us: "usable dsize (db c') (nat p)"
    and v: "db v = db c'" "good v" "left v = left c"
  shows "\<exists>v'. librsu_cb_verify_common hal st1 slot (Some get) False v = Some (0, v') \<and>
    mem (world (db v')) = mem (world (db v))"
proof -
  note nor = reliable_nor [OF rel]
  from nor run src inv sp lv obtain info where P: "0 \<le> p" "slot_info p (db c) = Some (Inr info)"
    "region (mem (world (db c'))) (part_addr (db c) (nat p)) (length (left c)) =
      placed_image hal False info (walk_start st0) (left c)"
    "left c \<noteq> [] \<Longrightarrow> int (length (left c)) \<le> part_len (db c) (nat p)"
    "priority_get p (db c') = Some 1" "same_static (db c) (db c')" by (rule program_image_ok) blast
  have s: "spt (db v) = spt (db c)" "part_addr (db v) x = part_addr (db c) x" "part_len (db v) x = part_len (db c) x" for x
    using P(6) v(1) by (simp_all add: same_static_def part_addr_def part_len_def)
  have sp': "librsu_misc_slot2part partition_ops (db v) slot = Some p" using slot2part_spt [OF s(1)] sp by simp
  obtain j where j: "slot_info p (db v) = Some (Inr j)" "info_eq info j"
    using slot_info_spt [OF P(2) s(1)] P(5) v(1) by auto
  have len: "int (length (left v)) \<le> part_len (db v) (nat p)" using P(4) s(3) v(3) by (cases "left c = []") (simp_all add: part_len_def)
  have "part_len (db v) (nat p) < 2 ^ 31" using us v(1) part_fits_bounds(1) [of "db c'" "nat p"] by (simp add: usable_def)
  moreover have "img_offset (walk_start st0) = - 4096" using init_inv [OF st0(1) walk_start_run] by simp
  ultimately have "placed_image hal False info (walk_start st0) (left c) = placed_image hal False j (walk_start st1) (left c)"
    using len v(3) by (intro placed_image_eq [OF walk_eq_start [OF st0] j(2)]) simp
  then have eq: "region (mem (world (db v))) (part_addr (db v) (nat p)) (length (left v)) =
      placed_image hal False j (walk_start st1) (left v)" using P(3) s(2) v by simp
  show ?thesis
    by (rule rel_verify_common [OF rel _ _ sp' P(1) j(1) _ v(2) _ st0(2) len eq])
      (use ok us v P(5) src(2) in \<open>auto simp: whole_def\<close>)
qed

end

end
