(* ===== verification/Rsu_Slot_Total.thy ===== *)
theory Rsu_Slot_Total
  imports Rsu_Slot_Image
begin

text \<open>
  On a device that works, programming an erased slot that is not in use succeeds, raw data and
  images alike; and verifying is sound on every device.
\<close>

text \<open>What adding the slot to the pointer block needs.\<close>

definition can_enable :: "('w \<Rightarrow> int \<Rightarrow> byte) \<Rightarrow> ('w \<Rightarrow> int) \<Rightarrow> int \<Rightarrow> 'w ops \<Rightarrow> bool" where
  "can_enable mem dsz p s \<longleftrightarrow> spt_inv s \<and> slots_apart s \<and> cpb_consistent mem s \<and> parts_in_device dsz s \<and>
     add_slot (p_offset (partition (spt s) ! nat p)) (slots s) \<noteq> None \<and>
     (cpb_live (p_offset (partition (spt s) ! nat p)) \<longrightarrow>
       check_cpb_entry (spt s) (p_offset (partition (spt s) ! nat p)) = 0)"

context data_source begin

lemma rel_program_common:
  assumes rel: "reliable_flash hal mem dsize ok" and ok: "ok (world (db c))" and us: "usable dsize (db c) (nat p)"
    and sp: "librsu_misc_slot2part partition_ops (db c) slot = Some p" "0 \<le> p" "slot_info p (db c) = Some (Inr info)"
    and wp: "librsu_cfg_writeprotected hal slot = 0" and pr: "priority_get p (db c) = Some q" "q \<le> 0"
    and src: "good c" "whole raw (left c)" and st0: "length (sections st0) = MAX_SECTIONS"
    and pg: "programs hal mem raw info (walk_start st0) (nat p) 0 (db c) (left c)"
    and en: "raw \<or> can_enable mem dsize p (db c)"
  shows "\<exists>c'. librsu_cb_program_common hal st0 slot (Some get) raw c = Some (0, c') \<and> ok (world (db c')) \<and>
    dsize (world (db c')) = dsize (world (db c))"
proof -
  note nor = reliable_nor [OF rel]
  obtain v0 w0 where m0: "rsu_malloc hal (world (db c)) 4096 = (v0, w0)" by fastforce
  obtain v1 w1 where m1: "rsu_malloc hal w0 4096 = (v1, w1)" by fastforce
  have o0: "v0 \<noteq> None" "ok w0" using reliable_flash.ok_malloc [OF rel ok m0] by auto
  have o1: "v1 \<noteq> None" "ok w1" using reliable_flash.ok_malloc [OF rel o0(2) m1] by auto
  obtain vbuf buf where b: "v0 = Some vbuf" "v1 = Some buf" using o0 o1 by auto
  have l: "length vbuf = 4096" "length buf = 4096" using nor_flash.malloc_len [OF nor] m0 m1 b by auto
  have mm: "mem w1 = mem (world (db c))" "dsize w1 = dsize (world (db c))"
    using nor_flash.malloc_mem [OF nor m0] nor_flash.malloc_mem [OF nor m1]
      sized_flash.malloc_dsize [OF reliable_flash.axioms(1) [OF rel] m0]
      sized_flash.malloc_dsize [OF reliable_flash.axioms(1) [OF rel] m1] by simp_all
  let ?c = "set_world c w1" and ?x = "nat p"
  have c: "good ?c" "left ?c = left c" "db ?c = (db c)\<lparr>world := w1\<rparr>" using src(1) good_db left_db by simp_all
  have wk: "walk_at raw (walk_start st0) 0" using init_inv [OF st0 walk_start_run] by (simp add: walk_at_def)
  have us': "usable dsize (db ?c) ?x" using us usable_world [of dsize w1 "db c"] mm(2) by simp
  have pg': "programs hal mem raw info (walk_start st0) ?x 0 (db ?c) (left ?c)" using pg c(2) mm(1) by (simp add: programs_def)
  have "\<exists>r c'. program_loop hal get raw (int ?x) info (walk_start st0) buf vbuf (int 0) ?c = Some (r, c') \<and> ok (world (db c')) \<and>
    dsize (world (db c')) = dsize (world (db ?c)) \<and> (\<exists>w. db c' = (db ?c)\<lparr>world := w\<rparr>) \<and>
    (programs hal mem raw info (walk_start st0) ?x 0 (db ?c) (left ?c) \<longrightarrow> r = 0)"
    by (rule rel_program_loop [OF rel _ us' c(1) l(2,1)]) (use o1 src wk c(2) in auto)
  then obtain c1 w where L: "program_loop hal get raw p info (walk_start st0) buf vbuf (int 0) ?c = Some (0, c1)"
    "ok (world (db c1))" "dsize (world (db c1)) = dsize w1" "db c1 = (db ?c)\<lparr>world := w\<rparr>"
    using pg' sp(2) by auto
  have run: "librsu_cb_program_common hal st0 slot (Some get) raw c = (if raw then Some (0, c1) else do {
      (ret, d) \<leftarrow> priority_add hal p (db c1);
      if ret \<noteq> 0 then Some (- ELOWLEVEL, c1\<lparr>db := d\<rparr>) else Some (0, c1\<lparr>db := d\<rparr>) })"
    using sp wp pr m0 m1 b L(1) walk_start_run [of st0] by (simp add: librsu_cb_program_common_def)
  show ?thesis
  proof (cases raw)
    case True
    then show ?thesis using run L(2,3) mm(2) by simp
  next
    case False
    then have en': "spt_inv (db c)" "slots_apart (db c)" "cpb_consistent mem (db c)" "parts_in_device dsize (db c)"
      "add_slot (p_offset (partition (spt (db c)) ! ?x)) (slots (db c)) \<noteq> None"
      "cpb_live (p_offset (partition (spt (db c)) ! ?x)) \<longrightarrow> check_cpb_entry (spt (db c)) (p_offset (partition (spt (db c)) ! ?x)) = 0"
      using en by (simp_all add: can_enable_def)
    note f = slot2part_facts [OF en'(1) sp(1,2)]
    from program_loop_ok [OF nor L(1) c(1) l(2,1) _ src(2) [folded c(2)]] have
      W: "left c \<noteq> [] \<longrightarrow> int (length (left c)) \<le> part_len (db c) ?x"
      "\<forall>a. a < part_addr (db c) ?x \<or> part_addr (db c) ?x + int (length (left c)) \<le> a \<longrightarrow> mem w a = mem (world (db c)) a"
      using c(2) mm(1) L(4) by auto
    let ?s = "(db c)\<lparr>world := w\<rparr>"
    have d1: "db c1 = ?s" using L(4) by simp
    have con: "cpb_consistent mem ?s"
    proof (rule cpb_consistent_frame [OF en'(3)])
      fix a assume "a \<in> cpb_range (db c)"
      then have "a \<notin> part_range (db c) ?x" using slot_outside_cpb [OF en'(1,2) sp(1,2)] by blast
      then show "mem w a = mem (world (db c)) a" using W
        by (cases "left c = []") (force simp: part_range_def)+
    qed
    have "\<exists>s'. priority_add hal p ?s = Some (0, s') \<and> ok (world s') \<and> dsize (world s') = dsize (world ?s)"
    proof (rule reliable_flash.rel_priority_add [OF rel _ con])
      show "parts_in_device dsize ?s"
        using en'(4) L(3,4) mm(2) parts_in_device_cong [of ?s "db c" dsize] by simp
    qed (use L(2,4) f(1,2) en'(5,6) in \<open>simp_all add: bad_part_def slots_def\<close>)
    then show ?thesis using run d1 False L(3,4) mm(2) by auto
  qed
qed

text \<open>Whatever verifying returns, it leaves the flash alone; and it accepts only the image of the data.\<close>

lemma verify_common_sound:
  assumes nor: "nor_flash hal mem"
    and run: "librsu_cb_verify_common hal st0 slot (Some get) raw c = Some (r, c')"
    and src: "good c" "whole raw (left c)"
    and len: "\<And>p. librsu_misc_slot2part partition_ops (db c) slot = Some p \<Longrightarrow> part_len (db c) (nat p) < 2 ^ 31"
  shows "mem (world (db c')) = mem (world (db c)) \<and>
    (r = 0 \<longrightarrow> (\<exists>p info. librsu_misc_slot2part partition_ops (db c) slot = Some p \<and> 0 \<le> p \<and>
       slot_info p (db c) = Some (Inr info) \<and> (raw \<or> (\<exists>q > 0. priority_get p (db c) = Some q)) \<and>
       region (mem (world (db c))) (part_addr (db c) (nat p)) (length (left c)) =
         placed_image hal raw info (walk_start st0) (left c)))"
proof -
  obtain v0 w0 where m0: "rsu_malloc hal (world (db c)) 4096 = (v0, w0)" by fastforce
  obtain v1 w1 where m1: "rsu_malloc hal w0 4096 = (v1, w1)" by fastforce
  note mm = nor_flash.malloc_mem [OF nor m0] nor_flash.malloc_mem [OF nor m1]
  from run obtain p where p: "librsu_misc_slot2part partition_ops (db c) slot = Some p"
    by (auto simp: librsu_cb_verify_common_def bind_splits)
  show ?thesis
  proof (cases "p < 0 \<or> (\<exists>e. slot_info p (db c) = Some (Inl e)) \<or> \<not> raw \<and> (\<exists>q \<le> 0. priority_get p (db c) = Some q) \<or>
      v0 = None \<or> v1 = None")
    case True
    from run p obtain i where i: "\<not> p < 0 \<Longrightarrow> slot_info p (db c) = Some i"
      by (auto simp: librsu_cb_verify_common_def bind_splits split: if_splits)
    have "r \<noteq> 0 \<and> (c' = c \<or> c' = set_world c w0 \<or> c' = set_world c w1)"
    proof (cases "p < 0")
      case False
      show ?thesis
      proof (cases i)
        case (Inl e)
        then show ?thesis using run p i False slot_info_error [of p "db c"] by (auto simp: librsu_cb_verify_common_def)
      next
        case (Inr info)
        then show ?thesis using run p i False m0 m1 True walk_start_run [of st0]
          by (auto simp: librsu_cb_verify_common_def bind_splits split: if_splits option.splits)
      qed
    qed (use run p in \<open>auto simp: librsu_cb_verify_common_def\<close>)
    then show ?thesis using mm by auto
  next
    case False
    then obtain vbuf buf where b: "v0 = Some vbuf" "v1 = Some buf" and p0: "0 \<le> p" by auto
    from run p p0 obtain i where i: "slot_info p (db c) = Some i"
      by (auto simp: librsu_cb_verify_common_def bind_splits split: if_splits)
    then obtain info where i: "slot_info p (db c) = Some (Inr info)" using False by (cases i) auto
    have pr: "raw \<or> (\<exists>q > 0. priority_get p (db c) = Some q)"
    proof (cases raw)
      case False
      with run p p0 i obtain q where "priority_get p (db c) = Some q"
        by (auto simp: librsu_cb_verify_common_def bind_splits split: if_splits)
      then show ?thesis using \<open>\<not> (p < 0 \<or> _)\<close> False by auto
    qed simp
    let ?c = "set_world c w1"
    have c: "good ?c" "left ?c = left c" "db ?c = (db c)\<lparr>world := w1\<rparr>" using src(1) good_db left_db by simp_all
    have l: "length vbuf = 4096" "length buf = 4096" using nor_flash.malloc_len [OF nor] m0 m1 b by auto
    have "verify_loop hal get raw p info (walk_start st0) buf vbuf (int 0) ?c = Some (r, c')"
      using run p p0 i pr m0 m1 b walk_start_run [of st0] by (auto simp: librsu_cb_verify_common_def split: if_splits)
    from verify_loop_sound [OF nor this c(1) l(2,1)] have
      "(\<exists>w. db c' = (db ?c)\<lparr>world := w\<rparr> \<and> mem w = mem (world (db ?c))) \<and>
       (r = 0 \<longrightarrow> region (mem (world (db ?c))) (part_addr (db ?c) (nat p) + int 0) (length (left ?c)) =
         placed_image hal raw info (walk_start st0) (left ?c))" using src(2) c len [OF p] by simp
    then show ?thesis using c mm p p0 i pr by auto
  qed
qed

end

end
