(* ===== verification/Rsu_Slot_Example.thy ===== *)
theory Rsu_Slot_Example
  imports Rsu_Slot_Total Rsu_Example
begin

text \<open>
  A concrete image for the board of \<^verbatim>\<open>Rsu_Example\<close>: one CMF section with its signature block, which
  fits in the first slot of the board, partition 4. It is the input of the properties of images and slots.
\<close>

section \<open>An image\<close>

definition ex_sig :: "byte list" where
  "ex_sig = set_blk_ptr (replicate 4096 0) 0 0x1000"

definition ex_main :: "byte list" where
  "ex_main = le_bytes 4 CMF_MAGIC @ replicate 4092 0"

definition ex_image :: "byte list" where
  "ex_image = ex_main @ ex_sig"

definition ex_walk :: rsu_image_state where
  "ex_walk = \<lparr>img_offset = 0, block_type = REGULAR_BLOCK, sections = replicate 64 0, no_sections = 0, absolute = False\<rparr>"

definition ex_cb :: "byte list \<Rightarrow> mock_world cb_state" where
  "ex_cb ds = \<lparr>cb_datafile = None, cb_buffer = Some ds, cb_buffer_togo = int (length ds), db = ex_db\<rparr>"

lemma length_ex_image [simp]: "length ex_sig = 4096" "length ex_main = 4096" "length ex_image = 8192"
  by (simp_all add: ex_sig_def ex_main_def ex_image_def)

lemma ex_image_blocks: "take 4096 ex_image = ex_main" "drop 4096 ex_image = ex_sig"
  by (simp_all add: ex_image_def)

lemma ex_cb_source [simp]: "buf_good (ex_cb ds)" "buf_left (ex_cb ds) = ds" "db (ex_cb ds) = ex_db"
  by (simp_all add: ex_cb_def buf_good_def buf_left_def)

lemma swap_byte_0: "swap_byte 0 = 0"
  by (rule bit_word_eqI) (simp add: bit_swap_byte)

lemma ex_sig_crc: "block_crc_ok ex_hal ex_sig"
proof -
  have "chunk (map swap_byte ex_sig) 0xFFC 4 = map swap_byte (chunk ex_sig 0xFFC 4)"
    by (simp add: chunk_def take_map drop_map)
  also have "chunk ex_sig 0xFFC 4 = replicate 4 0"
    by (simp add: ex_sig_def set_blk_ptr_def ptr_offs_def chunk_overlay_other) (simp add: chunk_def)
  finally have "blk_crc (swap_bits ex_sig 4096) = le_word (replicate 4 0)"
    by (simp add: blk_crc_def u32_at_def swap_bits_def swap_byte_0)
  also have "\<dots> = 0" by (simp add: numeral_eq_Suc)
  finally have "blk_crc (swap_bits ex_sig 4096) = 0" .
  moreover have "swap_endian32 0 = 0" by (simp add: swap_endian32_def le_bytes_def upt_rec)
  moreover have "rsu_crc32 ex_hal 0 d = 0" for d by (simp add: mock_hal_def ex_base_def)
  ultimately show ?thesis by (simp add: block_crc_ok_def Let_def)
qed

lemma ex_sig_ptr: "x < 4 \<Longrightarrow> blk_ptr ex_sig x = (if x = 0 then 0x1000 else 0)"
proof -
  assume x: "x < 4"
  have "chunk (replicate 4096 0) (ptr_offs x) 8 = replicate 8 (0 :: byte)"
    using x by (simp add: chunk_def ptr_offs_def)
  moreover have "(le_word (replicate 8 0) :: u64) = 0" by (simp add: numeral_eq_Suc)
  ultimately have "u64_at (replicate 4096 0) (ptr_offs x) = 0" by (simp add: u64_at_def)
  then show ?thesis using x by (auto simp: ex_sig_def) (simp add: blk_ptr_def)
qed

lemma ex_slot_name:
  "librsu_misc_is_slot partition_ops ex_db (int x) = Some (4 \<le> x)" if "x < 6" for x
  using that unfolding less_6
  by (elim disjE) (simp_all add: librsu_misc_is_slot_def partition_ops_def partition_name_def partition_reserved_def
      partition_readonly_def ex_not_bad c_str_def ex_eval librsu_misc_is_rsvd_name_def reserved_names_def)

lemma ex_slot: "librsu_misc_slot2part partition_ops ex_db 0 = Some 4"
proof -
  have "intf_count partition_ops ex_db = 6" by (simp add: partition_ops_def partition_count_def)
  moreover have "[0..5] = [0, 1, 2, 3, 4, 5 :: int]" by (simp add: upto_rec1)
  moreover note ex_slot_name [of 0] ex_slot_name [of 1] ex_slot_name [of 2] ex_slot_name [of 3] ex_slot_name [of 4]
  ultimately show ?thesis by (simp add: librsu_misc_slot2part_def)
qed

lemma ex_priority: "priority_get 4 ex_db = Some 0"
  using priority_get_pos [of ex_db 4] ex_consistent by (simp add: cpb_consistent_def wf_ex_spt ex_live)

definition ex_info :: rsu_slot_info where
  "ex_info = \<lparr>info_name = chars ''P1'' @ replicate 14 0, info_offset = 73728, info_size = 8192, info_priority = 0\<rparr>"

lemma ex_slot_info: "slot_info 4 ex_db = Some (Inr ex_info)"
proof -
  have "4 < length (partition ex_spt)" using wf_ex_spt by (simp add: wf_spt_def)
  then have b: "partition_name 4 ex_db = chars ''P1'' @ replicate 14 0" "partition_offset 4 (Some 0) ex_db = Some (0, Some 73728)"
    "partition_size 4 ex_db = 8192"
    by (simp_all add: partition_name_def partition_offset_def partition_size_def part_at_def ex_not_bad ex_eval)
  have "SAFE_STRCPY (replicate 16 0) 16 (Some (chars ''P1'' @ replicate 14 0)) 16 = Some (chars ''P1'' @ replicate 14 0)"
    by (simp add: SAFE_STRCPY_def strnlen_def chars_def overlay_def) (simp add: numeral_eq_Suc)
  then show ?thesis by (simp add: slot_info_def b ex_priority ex_info_def)
qed

lemma ex_fits: "x < 6 \<Longrightarrow> part_fits ex_db x"
  unfolding less_6 by (elim disjE) (simp_all add: part_fits_def ex_eval del: One_nat_def)

lemma ex_apart: "slots_apart ex_db"
  by (simp add: slots_apart_def ex_fits)

lemma ex_usable: "usable mock_dsize ex_db 4"
  by (simp add: usable_def wf_ex_spt ex_fits ex_in_device)

lemma ex_can_enable: "can_enable mock_mem mock_dsize 4 ex_db"
  using ex_offset ex_room ex_apart ex_spt_inv ex_consistent ex_parts_in_device by (simp add: can_enable_def)

lemma ex_walk_fields [simp]:
  "img_offset ex_walk = 0" "sections ex_walk = replicate 64 0" "no_sections ex_walk = 0" "absolute ex_walk = False"
  by (simp_all add: ex_walk_def)

lemma ex_walk_start: "walk_start ex_walk = ex_walk\<lparr>img_offset := - 4096, no_sections := 1\<rparr>"
proof -
  have "(replicate 64 0)[0 := 0] = replicate 64 (0 :: u64)" using list_update_id [of "replicate 64 0" 0] by simp
  then show ?thesis by (simp add: walk_start_def librsu_image_block_init_def ex_walk_def add_section_def find_section_def)
qed

lemma ex_enter:
  "enter_block (walk_start ex_walk) = ex_walk\<lparr>block_type := SECTION_BLOCK, no_sections := 1\<rparr>"
  "enter_block (leave_block (enter_block (walk_start ex_walk)) ex_main info) =
     ex_walk\<lparr>img_offset := 4096, block_type := SIGNATURE_BLOCK, no_sections := 1\<rparr>"
proof -
  show e: "enter_block (walk_start ex_walk) = ex_walk\<lparr>block_type := SECTION_BLOCK, no_sections := 1\<rparr>"
    by (simp add: ex_walk_start enter_block_def find_section_def)
  have "chunk ex_main 0 4 = le_bytes 4 CMF_MAGIC" by (simp add: ex_main_def chunk_def)
  then have "u32_at ex_main 0 = CMF_MAGIC" by (simp add: u32_at_def le_word_le_bytes)
  then show "enter_block (leave_block (enter_block (walk_start ex_walk)) ex_main info) =
     ex_walk\<lparr>img_offset := 4096, block_type := SIGNATURE_BLOCK, no_sections := 1\<rparr>"
    unfolding e by (simp add: leave_block_def enter_block_def find_section_def)
qed

lemma ex_leave_absolute:
  "absolute (leave_block (ex_walk\<lparr>img_offset := 4096, block_type := SIGNATURE_BLOCK, no_sections := 1\<rparr>) ex_sig ex_info) = False"
  "block_type (leave_block (ex_walk\<lparr>img_offset := 4096, block_type := SIGNATURE_BLOCK, no_sections := 1\<rparr>) ex_sig ex_info) =
    REGULAR_BLOCK"
  by (simp_all add: leave_block_def sig_block_process_def upt_4 ex_sig_ptr add_section_def find_section_def ex_info_def ex_walk_def)

lemma ex_sig_accepted: "block_accepted ex_hal ex_info (leave_block (enter_block (walk_start ex_walk)) ex_main ex_info) ex_sig"
  using ex_sig_crc
  by (simp add: block_accepted_def ex_enter sig_block_adjust_def ex_leave_absolute block_crc_ok_def Let_def upt_4 ex_sig_ptr ex_info_def)

lemma ex_image_accepted: "image_accepted ex_hal ex_info (walk_start ex_walk) ex_image"
proof -
  have n: "ex_image \<noteq> []" "ex_sig \<noteq> []" using length_ex_image by (metis list.size(3) zero_neq_numeral)+
  have m: "block_accepted ex_hal ex_info (walk_start ex_walk) ex_main"
    by (simp add: block_accepted_def ex_enter)
  show ?thesis
    by (subst image_accepted_step [OF n(1)], subst image_accepted_step)
      (use n m ex_sig_accepted in \<open>simp_all add: ex_image_blocks image_accepted.simps\<close>)
qed

definition ex_moved :: "byte list" where
  "ex_moved = moved_block ex_hal False ex_info ex_sig"

lemma ex_placed: "placed_image ex_hal False ex_info (walk_start ex_walk) ex_image = ex_main @ ex_moved"
proof -
  have n: "ex_image \<noteq> []" "ex_sig \<noteq> []" using length_ex_image by (metis list.size(3) zero_neq_numeral)+
  have "placed_block ex_hal (walk_start ex_walk) ex_main ex_info = ex_main" by (simp add: placed_block_def ex_enter)
  moreover have "placed_block ex_hal (leave_block (enter_block (walk_start ex_walk)) ex_main ex_info) ex_sig ex_info = ex_moved"
    unfolding placed_block_def ex_enter(2) ex_leave_absolute ex_moved_def by simp
  ultimately show ?thesis
    by (subst placed_image.simps, subst placed_image.simps) (use n in \<open>simp add: ex_image_blocks\<close>)
qed

lemma ex_erased: "set (region (mock_mem ex_world) 73728 8192) \<subseteq> {0xFF}"
proof -
  have "chunk ex_flash 73728 8192 = replicate 8192 0xFF"
    by (simp add: ex_flash_def chunk_append_right ex_pad_def) (simp add: chunk_def)
  then show ?thesis by (simp add: ex_region)
qed

end
