(* ===== verification/Rsu_Slot_Props.thy ===== *)
theory Rsu_Slot_Props
  imports Rsu_Slot_Example Rsu_Flash_Props
begin

text \<open>
  The properties of images and slots: the walk over the blocks of an image, and programming and
  verifying a slot from a buffer. The witnesses use the image of \<^verbatim>\<open>Rsu_Slot_Example\<close>.
\<close>

section \<open>Blocks of an image\<close>

text \<open>C18: Comparing a block with \<open>v\<close> accepts it exactly when \<open>v\<close> is what writing the same block would
  put in its place (it may refuse for want of memory), and both leave the same state behind.\<close>

theorem image_compare_accepts_written:
  assumes "librsu_image_block_process hal st b None info w = Some (0, st', b', w1)" "length b = 4096" "length v = 4096"
    "\<And>p w'. rsu_malloc hal w2 4096 = (Some p, w') \<Longrightarrow> length p = 4096"
  shows "\<exists>r w3. librsu_image_block_process hal st b (Some v) info w2 = Some (r, st', b, w3) \<and>
    (r = 0 \<longrightarrow> v = b') \<and> (v = b' \<longrightarrow> r = 0 \<or> r = - ENOMEM \<and> fst (rsu_malloc hal w2 4096) = None)"
proof -
  note W = process_write [OF assms(1,2)]
  then have "img_offset st + 4096 < 2 ^ 31" by blast
  from process_compare [OF this assms(2,3), of hal w2 info] assms(4) obtain r w3 where
    "librsu_image_block_process hal st b (Some v) info w2 = Some (r, leave_block (enter_block st) b info, b, w3)"
    "r = 0 \<longrightarrow> v = placed_block hal st b info"
    "v = placed_block hal st b info \<longrightarrow> r = 0 \<or> r = - ENOMEM \<and> fst (rsu_malloc hal w2 4096) = None" by blast
  then show ?thesis using W by (intro exI [of _ r] exI [of _ w3]) simp
qed

text \<open>C19: A signature block that \<^verbatim>\<open>sig_block_adjust\<close> accepts has a CRC that fits before and after; each
  pointer of it that is not 0 moves by the offset of the slot (unless the image is built for an
  absolute address), and no byte but the pointers and the CRC changes.\<close>

theorem sig_block_adjust_relocates:
  assumes "sig_block_adjust hal st b info = (0, b')" "length b = 4096"
  shows "block_crc_ok hal b \<and> block_crc_ok hal b' \<and> length b' = 4096 \<and>
    (\<forall>x < 4. blk_ptr b' x = (if absolute st \<or> blk_ptr b x = 0 then blk_ptr b x else blk_ptr b x + info_offset info)) \<and>
    (\<forall>i. (i < 0xF08 \<or> 0xF28 \<le> i) \<and> i < 0xFFC \<longrightarrow> b' ! i = b ! i)"
proof -
  note A = sig_block_adjust_ok [OF assms]
  then have b': "b' = moved_block hal (absolute st) info b" by blast
  have "block_crc_ok hal b \<and> block_crc_ok hal b'" using A by blast
  then show ?thesis using assms(2) b' by (simp add: blk_ptr_moved_block moved_block_frame)
qed

lemma ex_adjust: "sig_block_adjust ex_hal ex_walk ex_sig ex_info = (0, ex_moved)"
  using ex_sig_crc by (simp add: sig_block_adjust_def block_crc_ok_def Let_def upt_4 ex_sig_ptr ex_info_def ex_moved_def
      moved_block_def)

theorem sig_block_adjust_relocates_witness:
  "sig_block_adjust ex_hal ex_walk ex_sig ex_info = (0, ex_moved) \<and> blk_ptr ex_moved 0 = 0x1000 + 73728"
  using sig_block_adjust_relocates [OF ex_adjust] ex_adjust ex_sig_ptr [of 0] by (auto simp: ex_info_def)

text \<open>C20: The walk keeps its invariant: at most 64 distinct known sections, the offset that of the block.
  A block adds sections behind the known ones and forgets none.\<close>

theorem image_walk_invariant:
  assumes "img_inv st" "librsu_image_block_process hal st b None info w = Some (r, st', b', w')" "length b = 4096"
  shows "img_inv st' \<and> img_offset st' = img_offset st + 4096 \<and> w' = w \<and>
    (\<exists>new. known_sections st' = known_sections st @ new)"
proof -
  note W = process_write [OF assms(2,3)]
  then have "img_offset st + 4096 < 2 ^ 31" by blast
  note E = img_inv_enter [OF assms(1) this]
  then show ?thesis using W img_inv_leave [of "enter_block st" b info] by simp
qed

abbreviation ex_sig_walk :: rsu_image_state where
  "ex_sig_walk \<equiv> leave_block (enter_block (walk_start ex_walk)) ex_main ex_info"

lemma ex_process: "\<exists>st'. librsu_image_block_process ex_hal ex_sig_walk ex_sig None ex_info ex_world = Some (0, st', ex_moved, ex_world)"
  "img_inv ex_sig_walk"
proof -
  have i: "img_inv (walk_start ex_walk)" "img_offset (walk_start ex_walk) = - 4096"
    using init_inv [OF _ walk_start_run [of ex_walk]] by simp_all
  have e: "img_inv (enter_block (walk_start ex_walk))" "img_offset (enter_block (walk_start ex_walk)) = 0"
    using img_inv_enter [OF i(1)] i(2) by simp_all
  have l: "img_inv ex_sig_walk \<and> img_offset ex_sig_walk = 0" using img_inv_leave [OF e(1)] e(2) by simp
  then show "img_inv ex_sig_walk" by blast
  obtain st' b' where p: "librsu_image_block_process ex_hal ex_sig_walk ex_sig None ex_info ex_world = Some (0, st', b', ex_world)"
    using process_write_returns [of ex_sig_walk ex_hal ex_sig ex_info ex_world] l ex_sig_accepted by auto
  then have "b' = placed_block ex_hal ex_sig_walk ex_sig ex_info" using process_write [OF p] by simp
  then have "b' = ex_moved" unfolding placed_block_def ex_enter(2) ex_leave_absolute ex_moved_def by simp
  then show "\<exists>st'. librsu_image_block_process ex_hal ex_sig_walk ex_sig None ex_info ex_world = Some (0, st', ex_moved, ex_world)"
    using p by blast
qed

theorem image_walk_invariant_witness:
  "\<exists>st'. librsu_image_block_process ex_hal ex_sig_walk ex_sig None ex_info ex_world = Some (0, st', ex_moved, ex_world) \<and> img_inv st'"
proof -
  obtain st' where p: "librsu_image_block_process ex_hal ex_sig_walk ex_sig None ex_info ex_world = Some (0, st', ex_moved, ex_world)"
    using ex_process by blast
  from image_walk_invariant [OF ex_process(2) p] p show ?thesis by auto
qed

lemma ex_malloc_len: "rsu_malloc ex_hal ex_world n = (Some p, w) \<Longrightarrow> length p = n"
  using nor_flash.malloc_len [OF ex_nor] by blast

theorem image_compare_accepts_written_witness:
  "\<exists>st' r w. librsu_image_block_process ex_hal ex_sig_walk ex_sig (Some ex_moved) ex_info ex_world = Some (r, st', ex_sig, w) \<and> r = 0"
proof -
  obtain st' where p: "librsu_image_block_process ex_hal ex_sig_walk ex_sig None ex_info ex_world = Some (0, st', ex_moved, ex_world)"
    using ex_process by blast
  have m: "length ex_moved = 4096" "fst (rsu_malloc ex_hal ex_world 4096) \<noteq> None"
    by (simp_all add: ex_moved_def mock_hal_def malloc_mock_def ex_world_def)
  have "\<exists>r w3. librsu_image_block_process ex_hal ex_sig_walk ex_sig (Some ex_moved) ex_info ex_world = Some (r, st', ex_sig, w3) \<and>
    (r = 0 \<longrightarrow> ex_moved = ex_moved) \<and>
    (ex_moved = ex_moved \<longrightarrow> r = 0 \<or> r = - ENOMEM \<and> fst (rsu_malloc ex_hal ex_world 4096) = None)"
    by (rule image_compare_accepts_written [OF p length_ex_image(1) m(1)]) (rule ex_malloc_len)
  then show ?thesis using m(2) by auto
qed

section \<open>Programming and verifying a slot\<close>

text \<open>The data are those of a buffer that was set with \<^verbatim>\<open>librsu_cb_buf_init\<close>.\<close>

lemma buf_source_of:
  assumes "cb_buffer c = Some ds" "cb_buffer_togo c = int (length ds)" shows "buf_good c" "buf_left c = ds"
  using assms by (simp_all add: buf_good_def buf_left_def)

lemma buf_init_source:
  assumes "librsu_cb_buf_init (Some ds) (int (length ds)) c = (0, c')"
  shows "cb_buffer c' = Some ds" "cb_buffer_togo c' = int (length ds)" "db c' = db c"
  using assms by (auto simp: librsu_cb_buf_init_def split: if_splits)

text \<open>C21: A successful programming of raw data puts the data at the start of the slot, changes no byte of
  flash outside them and leaves the tables alone; the slot was neither write-protected nor in use,
  and the data fit.\<close>

theorem program_raw_correct:
  assumes "nor_flash hal mem" "librsu_cb_program_common hal st0 slot (Some librsu_cb_buf) True c = Some (0, c')"
    "cb_buffer c = Some ds" "cb_buffer_togo c = int (length ds)"
  shows "\<exists>p w. librsu_misc_slot2part partition_ops (db c) slot = Some p \<and> 0 \<le> p \<and>
    librsu_cfg_writeprotected hal slot = 0 \<and> (\<exists>q \<le> 0. priority_get p (db c) = Some q) \<and>
    db c' = (db c)\<lparr>world := w\<rparr> \<and> region (mem w) (part_addr (db c) (nat p)) (length ds) = ds \<and>
    (ds \<noteq> [] \<longrightarrow> int (length ds) \<le> part_len (db c) (nat p)) \<and>
    (\<forall>a. a < part_addr (db c) (nat p) \<or> part_addr (db c) (nat p) + int (length ds) \<le> a \<longrightarrow> mem w a = mem (world (db c)) a)"
proof -
  note b = buf_source_of [OF assms(3,4)]
  show ?thesis
    by (rule buf_source.program_common_ok [OF assms(1,2) b(1)]) (use b(2) in \<open>auto simp: whole_def\<close>)
qed

text \<open>C22: A successful programming of an image whose length is a multiple of 4096 bytes puts the image, with
  its signature blocks moved to the address of the slot, at the start of the slot, and enters the slot into
  the pointer block with the highest priority; no byte of flash changes outside the slot and the two CPB
  partitions.\<close>

theorem program_image_correct:
  assumes "nor_flash hal mem" "librsu_cb_program_common hal st0 slot (Some librsu_cb_buf) False c = Some (0, c')"
    "cb_buffer c = Some ds" "cb_buffer_togo c = int (length ds)" "4096 dvd length ds"
    "spt_inv (db c)" "slots_apart (db c)" "cpb_consistent mem (db c)" "packed (slots (db c))"
    "librsu_misc_slot2part partition_ops (db c) slot = Some p"
    "cpb_live (p_offset (partition (spt (db c)) ! nat p))"
  shows "\<exists>info. slot_info p (db c) = Some (Inr info) \<and>
    region (mem (world (db c'))) (part_addr (db c) (nat p)) (length ds) = placed_image hal False info (walk_start st0) ds \<and>
    (\<forall>a. a \<notin> part_range (db c) (nat p) \<and> a \<notin> cpb_range (db c) \<longrightarrow> mem (world (db c')) a = mem (world (db c)) a) \<and>
    live (db c') = live (db c) @ [p_offset (partition (spt (db c)) ! nat p)] \<and> priority_get p (db c') = Some 1 \<and>
    cpb_consistent mem (db c') \<and> packed (slots (db c'))"
proof -
  note b = buf_source_of [OF assms(3,4)]
  show ?thesis
    by (rule buf_source.program_image_ok [OF assms(1,2) b(1) _ assms(6-11)]) (use b(2) assms(5) in auto)
qed

text \<open>C23: On a device that works, programming succeeds for every slot that exists, is writable, is not in
  use and is erased where the data go, when the data fit and, for an image, every signature block is
  accepted and the pointer block has room.\<close>

theorem program_succeeds:
  assumes "reliable_flash hal mem dsize ok" "ok (world (db c))" "usable dsize (db c) (nat p)"
    "librsu_misc_slot2part partition_ops (db c) slot = Some p" "0 \<le> p" "slot_info p (db c) = Some (Inr info)"
    "librsu_cfg_writeprotected hal slot = 0" "priority_get p (db c) = Some q" "q \<le> 0"
    "cb_buffer c = Some ds" "cb_buffer_togo c = int (length ds)" "raw \<or> 4096 dvd length ds"
    "length (sections st0) = MAX_SECTIONS" "int (length ds) \<le> part_len (db c) (nat p)"
    "set (region (mem (world (db c))) (part_addr (db c) (nat p)) (length ds)) \<subseteq> {0xFF}"
    "raw \<or> image_accepted hal info (walk_start st0) ds" "raw \<or> can_enable mem dsize p (db c)"
  shows "\<exists>c'. librsu_cb_program_common hal st0 slot (Some librsu_cb_buf) raw c = Some (0, c') \<and> ok (world (db c')) \<and>
    dsize (world (db c')) = dsize (world (db c))"
proof -
  note b = buf_source_of [OF assms(10,11)]
  show ?thesis
    by (rule buf_source.rel_program_common [OF assms(1-9) b(1) _ assms(13) _ assms(17)])
      (use b(2) assms(12,14-16) in \<open>simp_all add: whole_def programs_def\<close>)
qed

lemma ex_program:
  "\<exists>c'. librsu_cb_program_common ex_hal ex_walk 0 (Some librsu_cb_buf) raw (ex_cb ex_image) = Some (0, c') \<and>
    mock_ok (world (db c')) \<and> mock_dsize (world (db c')) = mock_dsize (world (db (ex_cb ex_image)))"
proof (rule buf_source.rel_program_common [OF ex_rel, where p = 4 and q = 0 and info = ex_info])
  show "librsu_cfg_writeprotected ex_hal 0 = 0" by (simp add: librsu_cfg_writeprotected_def mock_hal_def ex_base_def)
  show "programs ex_hal mock_mem raw ex_info (walk_start ex_walk) (nat 4) 0 (db (ex_cb ex_image)) (buf_left (ex_cb ex_image))"
    using ex_erased ex_image_accepted by (simp add: programs_def)
qed (use ex_ok ex_usable ex_slot ex_slot_info ex_priority ex_can_enable in \<open>simp_all add: whole_def\<close>)

lemma ex_cb_buffer: "cb_buffer (ex_cb ds) = Some ds" "cb_buffer_togo (ex_cb ds) = int (length ds)"
  by (simp_all add: ex_cb_def)

theorem program_raw_correct_witness:
  "\<exists>c'. librsu_cb_program_common ex_hal ex_walk 0 (Some librsu_cb_buf) True (ex_cb ex_image) = Some (0, c') \<and>
    region (mock_mem (world (db c'))) 73728 8192 = ex_image"
proof -
  obtain c' where r: "librsu_cb_program_common ex_hal ex_walk 0 (Some librsu_cb_buf) True (ex_cb ex_image) = Some (0, c')"
    using ex_program by blast
  from program_raw_correct [OF ex_nor r ex_cb_buffer] r show ?thesis by (auto simp: ex_slot)
qed

theorem program_image_correct_witness:
  "\<exists>c'. librsu_cb_program_common ex_hal ex_walk 0 (Some librsu_cb_buf) False (ex_cb ex_image) = Some (0, c') \<and>
    region (mock_mem (world (db c'))) 73728 8192 = ex_main @ ex_moved \<and> live (db c') = [73728]"
proof -
  obtain c' where r: "librsu_cb_program_common ex_hal ex_walk 0 (Some librsu_cb_buf) False (ex_cb ex_image) = Some (0, c')"
    using ex_program by blast
  have l: "cpb_live (p_offset (partition (spt (db (ex_cb ex_image))) ! nat 4))" by (simp add: ex_offset cpb_live_def)
  from program_image_correct [OF ex_nor r ex_cb_buffer _ _ _ _ _ _ l] r show ?thesis
    using ex_spt_inv ex_apart ex_consistent ex_packed
    by (auto simp: ex_slot ex_slot_info ex_placed ex_live ex_offset)
qed

theorem program_succeeds_witness:
  "\<exists>c'. librsu_cb_program_common ex_hal ex_walk 0 (Some librsu_cb_buf) False (ex_cb ex_image) = Some (0, c')"
proof -
  have w: "librsu_cfg_writeprotected ex_hal 0 = 0" by (simp add: librsu_cfg_writeprotected_def mock_hal_def ex_base_def)
  have "\<exists>c'. librsu_cb_program_common ex_hal ex_walk 0 (Some librsu_cb_buf) False (ex_cb ex_image) = Some (0, c') \<and>
    mock_ok (world (db c')) \<and> mock_dsize (world (db c')) = mock_dsize (world (db (ex_cb ex_image)))"
    by (rule program_succeeds [OF ex_rel, where p = 4 and q = 0 and info = ex_info])
      (use ex_ok ex_usable ex_slot ex_slot_info ex_priority w ex_cb_buffer ex_erased ex_image_accepted ex_can_enable in simp_all)
  then show ?thesis by blast
qed

text \<open>Round trip: a slot programmed with an image verifies against the same data, on a device that
  works.\<close>

theorem program_then_verify:
  assumes "reliable_flash hal mem dsize ok" "librsu_cb_program_common hal st0 slot (Some librsu_cb_buf) False c = Some (0, c')"
    "cb_buffer c = Some ds" "cb_buffer_togo c = int (length ds)" "4096 dvd length ds"
    "spt_inv (db c)" "slots_apart (db c)" "cpb_consistent mem (db c)" "packed (slots (db c))"
    "librsu_misc_slot2part partition_ops (db c) slot = Some p" "cpb_live (p_offset (partition (spt (db c)) ! nat p))"
    "length (sections st0) = MAX_SECTIONS" "length (sections st1) = MAX_SECTIONS"
    "ok (world (db c'))" "usable dsize (db c') (nat p)" "librsu_cb_buf_init (Some ds) (int (length ds)) c' = (0, v)"
  shows "\<exists>v'. librsu_cb_verify_common hal st1 slot (Some librsu_cb_buf) False v = Some (0, v') \<and>
    mem (world (db v')) = mem (world (db c'))"
proof -
  note b = buf_source_of [OF assms(3,4)]
  note i = buf_init_source [OF assms(16)]
  note d = buf_source_of [OF i(1,2)]
  have l: "buf_left v = buf_left c" using b(2) d(2) by simp
  show ?thesis
    using buf_source.program_verify_ok [OF assms(1,2) b(1) _ assms(6-15) i(3) d(1) l] b(2) assms(5) i(3) by simp
qed

theorem program_then_verify_witness:
  "\<exists>c' v v'. librsu_cb_program_common ex_hal ex_walk 0 (Some librsu_cb_buf) False (ex_cb ex_image) = Some (0, c') \<and>
    librsu_cb_buf_init (Some ex_image) 8192 c' = (0, v) \<and>
    librsu_cb_verify_common ex_hal ex_walk 0 (Some librsu_cb_buf) False v = Some (0, v')"
proof -
  obtain c' where r: "librsu_cb_program_common ex_hal ex_walk 0 (Some librsu_cb_buf) False (ex_cb ex_image) = Some (0, c')"
    and o: "mock_ok (world (db c'))" "mock_dsize (world (db c')) = mock_dsize ex_world" using ex_program by auto
  obtain v where v: "librsu_cb_buf_init (Some ex_image) (int (length ex_image)) c' = (0, v)"
    by (simp add: librsu_cb_buf_init_def)
  have l: "cpb_live (p_offset (partition (spt (db (ex_cb ex_image))) ! nat 4))" by (simp add: ex_offset cpb_live_def)
  have st: "same_static (db (ex_cb ex_image)) (db c')"
    by (rule buf_source.program_image_ok [OF ex_nor r _ _ _ _ _ _ _ l])
      (use ex_spt_inv ex_apart ex_consistent ex_packed ex_slot in simp_all)
  have u: "usable mock_dsize (db c') (nat 4)"
    using ex_usable st o(2) part_fits_cong [of "db c'" ex_db 4]
    by (simp add: usable_def in_device_def same_static_def part_addr_def part_len_def)
  have "\<exists>v'. librsu_cb_verify_common ex_hal ex_walk 0 (Some librsu_cb_buf) False v = Some (0, v') \<and>
    mock_mem (world (db v')) = mock_mem (world (db c'))"
    by (rule program_then_verify [OF ex_rel r ex_cb_buffer _ _ _ _ _ _ l _ _ o(1) u v])
      (use ex_spt_inv ex_apart ex_consistent ex_packed ex_slot in simp_all)
  then show ?thesis using r v by auto
qed

text \<open>C25: Verifying never changes the flash, whatever it returns; and it returns 0 only when the slot holds
  the data, or for an image its image, and then an image's slot is in use.\<close>

theorem verify_sound:
  assumes "nor_flash hal mem" "librsu_cb_verify_common hal st0 slot (Some librsu_cb_buf) raw c = Some (r, c')"
    "cb_buffer c = Some ds" "cb_buffer_togo c = int (length ds)" "raw \<or> 4096 dvd length ds"
    "\<And>p. librsu_misc_slot2part partition_ops (db c) slot = Some p \<Longrightarrow> part_len (db c) (nat p) < 2 ^ 31"
  shows "mem (world (db c')) = mem (world (db c)) \<and>
    (r = 0 \<longrightarrow> (\<exists>p info. librsu_misc_slot2part partition_ops (db c) slot = Some p \<and> 0 \<le> p \<and>
       slot_info p (db c) = Some (Inr info) \<and> (raw \<or> (\<exists>q > 0. priority_get p (db c) = Some q)) \<and>
       region (mem (world (db c))) (part_addr (db c) (nat p)) (length ds) = placed_image hal raw info (walk_start st0) ds))"
proof -
  note b = buf_source_of [OF assms(3,4)]
  show ?thesis
    using buf_source.verify_common_sound [OF assms(1,2) b(1) _ assms(6)] b(2) assms(5) by (simp add: whole_def)
qed

theorem verify_sound_witness:
  "\<exists>c'. librsu_cb_verify_common ex_hal ex_walk 0 (Some librsu_cb_buf) True (ex_cb (replicate 16 0xFF)) = Some (0, c') \<and>
    mock_mem (world (db c')) = mock_mem ex_world"
proof -
  let ?d = "replicate 16 0xFF :: byte list"
  have "region (mock_mem ex_world) 73728 8192 = region (mock_mem ex_world) 73728 16 @ region (mock_mem ex_world) (73728 + int 16) 8176"
    using region_append [of "mock_mem ex_world" 73728 16 8176] by simp
  then have "set (region (mock_mem ex_world) 73728 16) \<subseteq> {0xFF}" using ex_erased by simp
  then have e: "region (mock_mem ex_world) 73728 16 = ?d" using replicate_eqI [of "region (mock_mem ex_world) 73728 16" 16 "0xFF"] by auto
  have "\<exists>c'. librsu_cb_verify_common ex_hal ex_walk 0 (Some librsu_cb_buf) True (ex_cb ?d) = Some (0, c') \<and>
    mock_mem (world (db c')) = mock_mem (world (db (ex_cb ?d)))"
    by (rule buf_source.rel_verify_common [OF ex_rel, where p = 4 and info = ex_info])
      (use ex_ok ex_usable ex_slot ex_slot_info e in \<open>simp_all add: whole_def\<close>)
  then obtain c' where r: "librsu_cb_verify_common ex_hal ex_walk 0 (Some librsu_cb_buf) True (ex_cb ?d) = Some (0, c')" by blast
  have "mock_mem (world (db c')) = mock_mem (world (db (ex_cb ?d)))"
    using verify_sound [OF ex_nor r ex_cb_buffer] ex_slot by simp
  then show ?thesis using r by simp
qed

end
