(* ===== verification/Rsu_Open.thy ===== *)
theory Rsu_Open
  imports Rsu_Spt Rsu_Cpb
begin

text \<open>
  Opening and closing the database, \<^verbatim>\<open>rsu_qspi_open\<close> and \<^verbatim>\<open>rsu_qspi_close\<close> of
  \<^verbatim>\<open>src/libRSU_ops.c\<close>, with the static pointer \<^verbatim>\<open>plat_database\<close>.

  The pointer is NULL, points to the database, or points to memory that was freed: the error paths
  of \<^verbatim>\<open>rsu_qspi_open\<close> free the database without resetting the pointer. What the pointer points to
  is the rest of the state; behind a freed pointer only \<open>world\<close> means anything.
\<close>

datatype db_ptr = DB_NULL | DB_LIVE | DB_FREED

text \<open>The size of \<^verbatim>\<open>struct database\<close> with 64-bit pointers.\<close>

abbreviation (input) DATABASE_SIZE :: nat where "DATABASE_SIZE \<equiv> 72"

text \<open>
  The database behind the \<^verbatim>\<open>memset\<close>, the two allocations and the call that fills in the addresses.
  What the two blocks hold is what \<^verbatim>\<open>rsu_malloc\<close> left in them.
\<close>

definition fresh_database :: "mbox_data_rsu_spt_address \<Rightarrow> byte list \<Rightarrow> byte list \<Rightarrow> 'w \<Rightarrow> 'w ops" where
  "fresh_database addr t b w =
     \<lparr>spt_corrupted = False, cpb_corrupted = False, cpb_fixed = False, cpb0_part = 0, cpb1_part = 0,
      mtd_part_offset = 0, spt_addr = addr, spt = spt_of_bytes t, cpb = b, cpb_slots = None, world = w\<rparr>"

text \<open>Closing frees the memory; through a freed pointer that is undefined.\<close>

definition rsu_qspi_close :: "db_ptr \<Rightarrow> db_ptr option" where
  "rsu_qspi_close p = (case p of DB_NULL \<Rightarrow> Some DB_NULL | DB_LIVE \<Rightarrow> Some DB_NULL | DB_FREED \<Rightarrow> None)"

text \<open>The two steps that read the tables.\<close>

definition open_tables :: "'w librsu_ll_intf \<Rightarrow> 'w ops \<Rightarrow> (int \<times> db_ptr \<times> 'w ops) option" where
  "open_tables hal s = do {
     (ret, s) \<leftarrow> load_spt hal s;
     if ret \<noteq> 0 \<and> \<not> spt_corrupted s then do {
       p \<leftarrow> rsu_qspi_close DB_LIVE;
       Some (- EFAULT, p, s)
     }
     else if spt_corrupted s then Some (0, DB_LIVE, s\<lparr>cpb_corrupted := True\<rparr>)
     else do {
       (ret, s) \<leftarrow> load_cpb hal s;
       if ret \<noteq> 0 \<and> \<not> cpb_corrupted s then do {
         p \<leftarrow> rsu_qspi_close DB_LIVE;
         Some (- EFAULT, p, s)
       }
       else Some (0, DB_LIVE, s)
     }
   }"

text \<open>\<open>hl\<close> tells whether the caller's \<^verbatim>\<open>hl_ptr\<close> is a pointer; on success it is set to \<^verbatim>\<open>&hl_intf\<close>.\<close>

definition rsu_qspi_open ::
    "'w librsu_ll_intf option \<Rightarrow> bool \<Rightarrow> db_ptr \<Rightarrow> 'w ops \<Rightarrow> (int \<times> db_ptr \<times> 'w ops) option" where
  "rsu_qspi_open h hl p s =
     (case h of None \<Rightarrow> Some (- EINVAL, p, s)
      | Some hal \<Rightarrow>
        if \<not> hl then Some (- EINVAL, p, s)
        else if p \<noteq> DB_NULL then Some (- EADDRINUSE, p, s)
        else case ops_malloc hal DATABASE_SIZE s of
          (None, s) \<Rightarrow> Some (- ENOMEM, DB_NULL, s)
        | (Some _, s) \<Rightarrow>
          (case ops_malloc hal SPT_SIZE s of
             (None, s) \<Rightarrow> Some (- ENOMEM, DB_FREED, s)
           | (Some t, s) \<Rightarrow>
             (case ops_malloc hal CPB_BLOCK_SIZE s of
                (None, s) \<Rightarrow> Some (- ENOMEM, DB_FREED, s)
              | (Some b, s) \<Rightarrow>
                (case mbox_get_spt_addresses hal (world s) of (ret, addr, w) \<Rightarrow>
                   let s = fresh_database addr t b w
                   in if ret \<noteq> 0 then Some (- ENODEV, DB_FREED, s)
                   else open_tables hal s))))"

section \<open>What opening achieves\<close>

lemma fresh_database_fields [simp]:
  "spt_corrupted (fresh_database a t b w) = False" "cpb_corrupted (fresh_database a t b w) = False"
  "spt_addr (fresh_database a t b w) = a" "spt (fresh_database a t b w) = spt_of_bytes t"
  "cpb (fresh_database a t b w) = b" "world (fresh_database a t b w) = w" "mtd_part_offset (fresh_database a t b w) = 0"
  by (simp_all add: fresh_database_def)

text \<open>Every failure before the tables are read leaves the pointer as it was, or dangling.\<close>

lemma rsu_qspi_open_cases:
  assumes "rsu_qspi_open (Some hal) True p s = Some (r, p', s')"
  obtains (busy) "p \<noteq> DB_NULL" "r = - EADDRINUSE" "p' = p" "s' = s"
  | (failed) "p = DB_NULL" "r \<noteq> 0" "p' = DB_NULL \<or> p' = DB_FREED"
  | (loaded) t b addr w where "p = DB_NULL" "length t = SPT_SIZE \<or> \<not> (\<forall>w b' w'. rsu_malloc hal w SPT_SIZE = (Some b', w') \<longrightarrow> length b' = SPT_SIZE)"
      "open_tables hal (fresh_database addr t b w) = Some (r, p', s')"
  using assms
  by (fastforce simp: rsu_qspi_open_def Let_def ops_malloc_def split: if_splits option.splits prod.splits)

end
