(* ===== verification/Rsu_Lib.thy ===== *)
theory Rsu_Lib
  imports Rsu_Open Rsu_Cfg Rsu_Cb
begin

text \<open>
  The library as a whole: its static state, the configuration (\<^verbatim>\<open>src/libRSU_cfg.c\<close> and
  \<^verbatim>\<open>src/libRSU_utils.c\<close>), and starting and stopping it (\<^verbatim>\<open>librsu_init\<close> and \<^verbatim>\<open>librsu_exit\<close> of
  \<^verbatim>\<open>src/libRSU.c\<close>).
\<close>

section \<open>The platform\<close>

text \<open>
  What the library calls to get the platform's tables and to give them back. \<open>tables\<close> are the
  functions that the four \<^verbatim>\<open>plat_*_init\<close> fill in. \<^const>\<open>None\<close> is a call that does not return or is
  undefined.
\<close>

record 'w platform =
  tables :: "'w librsu_ll_intf"
  RSU_logging_init :: "'w \<Rightarrow> byte list \<Rightarrow> (int \<times> 'w) option"
  RSU_logging_exit :: "'w \<Rightarrow> 'w option"
  plat_filesys_init :: "'w \<Rightarrow> int \<times> 'w"
  plat_mbox_init :: "'w \<Rightarrow> byte list \<Rightarrow> (int \<times> 'w) option"
  plat_qspi_init :: "'w \<Rightarrow> byte list \<Rightarrow> (int \<times> 'w) option"
  plat_rsu_misc_init :: "'w \<Rightarrow> byte list \<Rightarrow> (int \<times> 'w) option"
  file_terminate :: "'w \<Rightarrow> 'w"
  mbox_terminate :: "'w \<Rightarrow> 'w"
  qspi_terminate :: "'w \<Rightarrow> 'w"
  misc_terminate :: "'w \<Rightarrow> 'w"
  rsu_mutex_init :: "'w \<Rightarrow> int \<times> 'w"

text \<open>The size of \<^verbatim>\<open>struct librsu_ll_intf\<close> with 64-bit pointers.\<close>

abbreviation (input) LL_INTF_SIZE :: nat where "LL_INTF_SIZE \<equiv> 176"

section \<open>Splitting a line\<close>

text \<open>
  \<^verbatim>\<open>split_line\<close>: the words of a line, at most \<open>cnt\<close>. A character up to the blank separates (\<^verbatim>\<open>char\<close> is
  unsigned on the platform's ARM). The NULs the function writes into the line end the words, and are
  seen through them only.
\<close>

function split_words :: "byte list \<Rightarrow> nat \<Rightarrow> byte list list" where
  "split_words c cnt =
     (if c = [] \<or> cnt = 0 then []
      else case dropWhile (\<lambda>x. x \<le> 32) c of [] \<Rightarrow> []
      | x # xs \<Rightarrow> takeWhile (\<lambda>x. x > 32) (x # xs) # split_words (drop 1 (dropWhile (\<lambda>x. x > 32) (x # xs))) (cnt - 1))"
  by pat_completeness auto
termination
  by (relation "measure snd") auto

declare split_words.simps [simp del]

definition split_line :: "byte list \<Rightarrow> nat \<Rightarrow> byte list list option" where
  "split_line line cnt = do { s \<leftarrow> c_str line; Some (split_words s cnt) }"

section \<open>Reading the configuration\<close>

text \<open>
  \<^verbatim>\<open>strtoul\<close> of the C library in base 10, with a 64-bit \<^verbatim>\<open>long\<close>: leading white space, a sign, digits;
  \<^verbatim>\<open>ULONG_MAX\<close> when they do not fit.
\<close>

definition digit :: "byte \<Rightarrow> bool" where
  "digit c \<longleftrightarrow> 48 \<le> c \<and> c \<le> 57"

definition decimal :: "byte list \<Rightarrow> nat" where
  "decimal ds = foldl (\<lambda>v c. 10 * v + unat (c - 48)) 0 ds"

definition strtoul10 :: "byte list \<Rightarrow> u64" where
  "strtoul10 s =
     (let s = dropWhile (\<lambda>c. c = 32 \<or> 9 \<le> c \<and> c \<le> 13) s;
          neg = (s \<noteq> [] \<and> hd s = 45);
          s = (if s \<noteq> [] \<and> (hd s = 45 \<or> hd s = 43) then tl s else s);
          v = decimal (takeWhile digit s)
      in if v \<ge> 2 ^ 64 then - 1 else if neg then - of_nat v else of_nat v)"

text \<open>The loop over the lines; it ends when the file does.\<close>

partial_function (option) cfg_lines ::
    "'w librsu_ll_intf \<Rightarrow> nat \<Rightarrow> byte list \<Rightarrow> 'w \<Rightarrow> (int \<times> 'w librsu_ll_intf \<times> 'w) option" where
  "cfg_lines intf file line w =
     (case file_fgets intf w line file of (ret, line, w) \<Rightarrow>
      if ret \<noteq> 0 then Some (0, intf, snd (file_close intf w file))
      else do {
        argv \<leftarrow> split_line line 16;
        if length argv < 1 then cfg_lines intf file line w
        else if argv ! 0 ! 0 = 35 then cfg_lines intf file line w
        else if argv ! 0 = chars ''write-protect'' then
          (if length argv \<noteq> 2 then Some (- EINVAL, intf, snd (file_close intf w file))
           else let slot = ucast (strtoul10 (argv ! 1)) :: u32
           in if slot > 31 then Some (- EINVAL, intf, snd (file_close intf w file))
           else cfg_lines (intf\<lparr>writeprotect := writeprotect intf OR push_bit (unat slot) 1\<rparr>) file line w)
        else if argv ! 0 = chars ''rsu-spt-checksum'' then
          (if length argv \<noteq> 2 then Some (- EINVAL, intf, snd (file_close intf w file))
           else cfg_lines (intf\<lparr>spt_checksum_enabled := ucast (strtoul10 (argv ! 1))\<rparr>) file line w)
        else cfg_lines intf file line w
      })"

text \<open>\<open>junk\<close> is what the local line buffer holds before it is read into.\<close>

definition librsu_common_cfg_parse ::
    "byte list \<Rightarrow> byte list option \<Rightarrow> 'w librsu_ll_intf option \<Rightarrow> 'w \<Rightarrow>
     (int \<times> 'w librsu_ll_intf option \<times> 'w) option" where
  "librsu_common_cfg_parse junk filename h w =
     (case (filename, h) of
        (Some name, Some intf) \<Rightarrow>
          let intf = intf\<lparr>spt_checksum_enabled := 1\<rparr>
          in (case file_open intf w name RSU_FILE_READ of
                (None, w) \<Rightarrow> Some (- ENOENT, Some intf, w)
              | (Some file, w) \<Rightarrow> do {
                  (ret, intf, w) \<leftarrow> cfg_lines intf file junk w;
                  Some (ret, Some intf, w)
                })
      | _ \<Rightarrow> Some (- EINVAL, h, w))"

section \<open>The state of the library\<close>

datatype rsu_state = un_initialized | in_progress | initialized

datatype mutex = MUTEX_NONE | MUTEX_FREE | MUTEX_LOCKED

text \<open>
  \<^verbatim>\<open>ctx\<close> and \<^verbatim>\<open>intf\<close> of \<^verbatim>\<open>libRSU.c\<close> (whether it is \<^verbatim>\<open>&hl_intf\<close> or NULL), \<^verbatim>\<open>hal\<close> of \<^verbatim>\<open>libRSU_cfg.c\<close>,
  \<^verbatim>\<open>plat_database\<close> of \<^verbatim>\<open>libRSU_ops.c\<close>, and the statics of \<^verbatim>\<open>libRSU_cb.c\<close> with the database.
\<close>

record 'w lib =
  ctx_state :: rsu_state
  ctx_mutex :: mutex
  hl_set :: bool
  ll_intf :: "'w librsu_ll_intf option"
  plat_database :: db_ptr
  core :: "'w cb_state"

abbreviation lib_world :: "'w lib \<Rightarrow> 'w" where
  "lib_world l \<equiv> world (db (core l))"

abbreviation set_lib_world :: "'w lib \<Rightarrow> 'w \<Rightarrow> 'w lib" where
  "set_lib_world l w \<equiv> l\<lparr>core := set_world (core l) w\<rparr>"

section \<open>Configuring the library\<close>

text \<open>Giving back what \<^verbatim>\<open>librsu_cfg_parse\<close> took; a NULL \<^verbatim>\<open>hal\<close> is dereferenced.\<close>

definition librsu_cfg_reset :: "'w platform \<Rightarrow> 'w lib \<Rightarrow> 'w lib option" where
  "librsu_cfg_reset pl l =
     (case ll_intf l of None \<Rightarrow> None
      | Some _ \<Rightarrow> do {
          w \<leftarrow> RSU_logging_exit pl (misc_terminate pl (file_terminate pl (qspi_terminate pl (mbox_terminate pl (lib_world l)))));
          Some ((set_lib_world l w)\<lparr>ll_intf := None\<rparr>)
        })"

text \<open>Setting up the platform: the error code of a part that fails, with those before it terminated, or 0.\<close>

definition platform_setup :: "'w platform \<Rightarrow> byte list \<Rightarrow> 'w \<Rightarrow> (int \<times> 'w) option" where
  "platform_setup pl name w =
     (let fail = (\<lambda>w. do { w \<leftarrow> RSU_logging_exit pl w; Some (- ENXIO, w) })
      in do {
        (ret, w) \<leftarrow> RSU_logging_init pl w name;
        if ret \<noteq> 0 then Some (- EINVAL, w)
        else case plat_filesys_init pl w of (ret, w) \<Rightarrow>
        if ret \<noteq> 0 then fail w
        else do {
          (ret, w) \<leftarrow> plat_mbox_init pl w name;
          if ret \<noteq> 0 then fail (file_terminate pl w)
          else do {
            (ret, w) \<leftarrow> plat_qspi_init pl w name;
            if ret \<noteq> 0 then fail (file_terminate pl (mbox_terminate pl w))
            else do {
              (ret, w) \<leftarrow> plat_rsu_misc_init pl w name;
              if ret \<noteq> 0 then fail (qspi_terminate pl (file_terminate pl (mbox_terminate pl w))) else Some (0, w)
            }
          }
        }
      })"

definition librsu_cfg_parse ::
    "'w platform \<Rightarrow> byte list \<Rightarrow> byte list option \<Rightarrow> 'w lib \<Rightarrow> (int \<times> 'w lib) option" where
  "librsu_cfg_parse pl junk filename l =
     (case filename of None \<Rightarrow> Some (- EINVAL, l)
      | Some name \<Rightarrow>
        (case rsu_malloc (tables pl) (lib_world l) LL_INTF_SIZE of
           (None, w) \<Rightarrow> Some (- ENOMEM, (set_lib_world l w)\<lparr>ll_intf := None\<rparr>)
         | (Some _, w) \<Rightarrow> do {
             let hal = (tables pl)\<lparr>writeprotect := 0, spt_checksum_enabled := 0\<rparr>;
             (ret, w) \<leftarrow> platform_setup pl name w;
             if ret \<noteq> 0 then Some (ret, (set_lib_world l w)\<lparr>ll_intf := None\<rparr>)
             else do {
               (ret, h, w) \<leftarrow> librsu_common_cfg_parse junk (Some name) (Some hal) w;
               (ret, p, d) \<leftarrow> rsu_qspi_open h True (plat_database l) (db (set_world (core l) w));
               let l = l\<lparr>ll_intf := h, plat_database := p, core := (core l)\<lparr>db := d\<rparr>\<rparr>;
               if ret \<noteq> 0 then do {
                 l \<leftarrow> librsu_cfg_reset pl l;
                 Some (- ENODEV, l)
               }
               else Some (0, l\<lparr>hl_set := True\<rparr>)
             }
           }))"

section \<open>Starting and stopping\<close>

definition DEFAULT_CFG_FILENAME :: "byte list" where
  "DEFAULT_CFG_FILENAME = chars ''/etc/librsu.rc''"

text \<open>
  The file name is a string, NULL is \<^const>\<open>None\<close>. Only a negative result of \<^verbatim>\<open>rsu_mutex_init\<close> is an error
  to the code; a positive one, as POSIX has them, leaves a mutex that cannot be locked.
\<close>

definition librsu_init :: "'w platform \<Rightarrow> byte list \<Rightarrow> byte list option \<Rightarrow> 'w lib \<Rightarrow> (int \<times> 'w lib) option" where
  "librsu_init pl junk filename l =
     (if ctx_state l \<noteq> un_initialized then Some (- ELIB, l)
      else
        let l = l\<lparr>ctx_state := in_progress\<rparr>;
            cfg_filename = (case filename of None \<Rightarrow> DEFAULT_CFG_FILENAME
              | Some f \<Rightarrow> if f = [] then DEFAULT_CFG_FILENAME else f)
        in (case rsu_mutex_init pl (lib_world l) of (ret, w) \<Rightarrow>
          if ret < 0 then Some (- ECFG, (set_lib_world l w)\<lparr>ctx_state := un_initialized\<rparr>)
          else do {
            (ret, l) \<leftarrow> librsu_cfg_parse pl junk (Some cfg_filename) ((set_lib_world l w)\<lparr>ctx_mutex := if ret = 0 then MUTEX_FREE else MUTEX_NONE\<rparr>);
            if ret \<noteq> 0 then Some (- ECFG, l\<lparr>ctx_state := un_initialized\<rparr>)
            else Some (0, l\<lparr>ctx_state := initialized\<rparr>)
          }))"

definition librsu_exit :: "'w platform \<Rightarrow> 'w lib \<Rightarrow> 'w lib option" where
  "librsu_exit pl l =
     (if ctx_state l \<noteq> initialized then Some l
      else do {
        let l = l\<lparr>ctx_state := in_progress, ctx_mutex := MUTEX_NONE\<rparr>;
        (if \<not> hl_set l then None else do {
          p \<leftarrow> rsu_qspi_close (plat_database l);
          l \<leftarrow> librsu_cfg_reset pl (l\<lparr>plat_database := p, hl_set := False\<rparr>);
          Some (l\<lparr>ctx_state := un_initialized\<rparr>)
        })
      })"

end
