(* ===== verification/Rsu_Api.thy ===== *)
theory Rsu_Api
  imports Rsu_Lib Rsu_Backup
begin

text \<open>
  \<^verbatim>\<open>src/libRSU.c\<close>: the functions a client calls. Each checks that the library is initialized and its
  arguments are not NULL, takes the mutex, refuses when a table it needs is corrupted, does its work
  on the database and gives the mutex back.

  A function's result is its return value, with what it stores through its pointer arguments beside
  it. A name is a string without its NUL.
\<close>

section \<open>The frame of a call\<close>

text \<open>Locking a mutex that is locked waits for ever; one that does not exist is undefined.\<close>

definition MUTEX_LOCK :: "'w lib \<Rightarrow> 'w lib option" where
  "MUTEX_LOCK l = (if ctx_mutex l = MUTEX_FREE then Some (l\<lparr>ctx_mutex := MUTEX_LOCKED\<rparr>) else None)"

definition MUTEX_UNLOCK :: "'w lib \<Rightarrow> 'w lib option" where
  "MUTEX_UNLOCK l = (if ctx_mutex l = MUTEX_LOCKED then Some (l\<lparr>ctx_mutex := MUTEX_FREE\<rparr>) else None)"

type_synonym ('w, 'a) call = "'w librsu_ll_intf \<Rightarrow> 'w cb_state \<Rightarrow> ('a \<times> 'w cb_state) option"

text \<open>What is done between locking and unlocking needs \<^verbatim>\<open>intf\<close>, the platform and the database.\<close>

definition locked :: "('w, 'a) call \<Rightarrow> 'w lib \<Rightarrow> ('a \<times> 'w lib) option" where
  "locked body l = do {
     l \<leftarrow> MUTEX_LOCK l;
     (if \<not> hl_set l \<or> plat_database l \<noteq> DB_LIVE then None else do {
       hal \<leftarrow> ll_intf l;
       (r, c) \<leftarrow> body hal (core l);
       l \<leftarrow> MUTEX_UNLOCK (l\<lparr>core := c\<rparr>);
       Some (r, l)
     })
   }"

text \<open>The checks; \<open>err\<close> makes the result of a failed call from its code.\<close>

definition if_initialized :: "(int \<Rightarrow> 'a) \<Rightarrow> ('w lib \<Rightarrow> ('a \<times> 'w lib) option) \<Rightarrow> 'w lib \<Rightarrow> ('a \<times> 'w lib) option" where
  "if_initialized err f l = (if ctx_state l \<noteq> initialized then Some (err (- ELIB), l) else f l)"

definition need_args :: "(int \<Rightarrow> 'a) \<Rightarrow> bool \<Rightarrow> ('w lib \<Rightarrow> ('a \<times> 'w lib) option) \<Rightarrow> 'w lib \<Rightarrow> ('a \<times> 'w lib) option" where
  "need_args err given f l = (if \<not> given then Some (err (- EARGS), l) else f l)"

definition need_spt :: "(int \<Rightarrow> 'a) \<Rightarrow> ('w, 'a) call \<Rightarrow> ('w, 'a) call" where
  "need_spt err k hal c = (if corrupted_spt (db c) \<noteq> 0 then Some (err (- ECORRUPTED_SPT), c) else k hal c)"

definition need_cpb :: "(int \<Rightarrow> 'a) \<Rightarrow> ('w, 'a) call \<Rightarrow> ('w, 'a) call" where
  "need_cpb err k hal c = (if corrupted_cpb (db c) \<noteq> 0 then Some (err (- ECORRUPTED_CPB), c) else k hal c)"

definition need_writable :: "(int \<Rightarrow> 'a) \<Rightarrow> int \<Rightarrow> ('w, 'a) call \<Rightarrow> ('w, 'a) call" where
  "need_writable err slot k hal c =
     (if librsu_cfg_writeprotected hal slot \<noteq> 0 then Some (err (- EWRPROT), c) else k hal c)"

definition with_slot :: "(int \<Rightarrow> 'a) \<Rightarrow> int \<Rightarrow> (int \<Rightarrow> ('w, 'a) call) \<Rightarrow> ('w, 'a) call" where
  "with_slot err slot k hal c = do {
     part_num \<leftarrow> librsu_misc_slot2part partition_ops (db c) slot;
     if part_num < 0 then Some (err (- ESLOTNUM), c) else k part_num hal c
   }"

text \<open>An operation on the database, and one whose failure ends the call with the code \<open>e\<close>.\<close>

definition db_call :: "('w librsu_ll_intf \<Rightarrow> 'w ops \<Rightarrow> ('a \<times> 'w ops) option) \<Rightarrow> ('w, 'a) call" where
  "db_call f hal c = do { (r, d) \<leftarrow> f hal (db c); Some (r, c\<lparr>db := d\<rparr>) }"

definition or_fail :: "('w librsu_ll_intf \<Rightarrow> 'w ops \<Rightarrow> (int \<times> 'w ops) option) \<Rightarrow> 'a \<Rightarrow> ('w, 'a) call \<Rightarrow> ('w, 'a) call" where
  "or_fail f e k hal c = do {
     (ret, d) \<leftarrow> f hal (db c);
     if ret \<noteq> 0 then Some (e, c\<lparr>db := d\<rparr>) else k hal (c\<lparr>db := d\<rparr>)
   }"

definition give :: "'a \<Rightarrow> ('w, 'a) call" where
  "give r hal c = Some (r, c)"

section \<open>Version, notification and status\<close>

text \<open>The version is a pair of constants that the build generates.\<close>

definition rsu_get_version :: "u32 \<Rightarrow> u32 \<Rightarrow> u32" where
  "rsu_get_version rsu_poc_verion_major rsu_poc_verion_minor =
     push_bit 16 (rsu_poc_verion_major AND 0xFFFF) OR (rsu_poc_verion_minor AND 0xFFFF)"

definition RSU_NOTIFY_RESET_RETRY_COUNTER :: u32 where "RSU_NOTIFY_RESET_RETRY_COUNTER = push_bit 16 1"
definition RSU_NOTIFY_CLEAR_ERROR_STATUS :: u32 where "RSU_NOTIFY_CLEAR_ERROR_STATUS = push_bit 17 1"
definition RSU_NOTIFY_IGNORE_STAGE :: u32 where "RSU_NOTIFY_IGNORE_STAGE = push_bit 18 1"

definition notify_call :: "u32 \<Rightarrow> ('w, int) call" where
  "notify_call v = or_fail (\<lambda>hal d. Some (notify_sdm hal v d)) (- EFILEIO) (give 0)"

definition rsu_notify :: "int \<Rightarrow> 'w lib \<Rightarrow> (int \<times> 'w lib) option" where
  "rsu_notify value = if_initialized id (locked (notify_call (word_of_int value AND 0xFFFF)))"

definition RSU_VERSION_ACMF_VERSION :: "u64 \<Rightarrow> u64" where
  "RSU_VERSION_ACMF_VERSION v = drop_bit 8 (v AND 0xFF00)"

definition RSU_VERSION_DCMF_VERSION :: "u64 \<Rightarrow> u64" where
  "RSU_VERSION_DCMF_VERSION v = v AND 0xFF"

text \<open>\<^verbatim>\<open>struct rsu_status_info\<close> has the members of \<^verbatim>\<open>struct mbox_status_info\<close>.\<close>

definition rsu_status_log ::
    "mbox_status_info option \<Rightarrow> 'w lib \<Rightarrow> ((int \<times> mbox_status_info option) \<times> 'w lib) option" where
  "rsu_status_log info =
     if_initialized (\<lambda>e. (e, info)) (need_args (\<lambda>e. (e, info)) (info \<noteq> None) (locked (\<lambda>hal c.
       case rsu_status hal (db c) of ((ret, data), d) \<Rightarrow>
       let c = c\<lparr>db := d\<rparr>
       in if ret \<noteq> 0 then Some ((- EFILEIO, info), c)
       else if RSU_VERSION_ACMF_VERSION (st_version data) = 0 \<or> RSU_VERSION_DCMF_VERSION (st_version data) = 0
         then Some ((0, Some (data\<lparr>st_retry_counter := 0\<rparr>)), c)
       else Some ((0, Some data), c))))"

text \<open>\<open>junk\<close> is what the local variable holds.\<close>

definition rsu_clear_error_status :: "mbox_status_info \<Rightarrow> 'w lib \<Rightarrow> (int \<times> 'w lib) option" where
  "rsu_clear_error_status junk = if_initialized id (\<lambda>l. do {
     ((ret, info), l) \<leftarrow> rsu_status_log (Some junk) l;
     if ret \<noteq> 0 then Some (- EFILEIO, l)
     else do {
       info \<leftarrow> info;
       if RSU_VERSION_ACMF_VERSION (st_version info) = 0 then Some (- EFILEIO, l)
       else locked (notify_call (RSU_NOTIFY_IGNORE_STAGE OR RSU_NOTIFY_CLEAR_ERROR_STATUS)) l
     }
   })"

definition rsu_reset_retry_counter :: "mbox_status_info \<Rightarrow> 'w lib \<Rightarrow> (int \<times> 'w lib) option" where
  "rsu_reset_retry_counter junk = if_initialized id (\<lambda>l. do {
     ((ret, info), l) \<leftarrow> rsu_status_log (Some junk) l;
     if ret \<noteq> 0 then Some (- EFILEIO, l)
     else do {
       info \<leftarrow> info;
       if RSU_VERSION_ACMF_VERSION (st_version info) = 0 \<or> RSU_VERSION_DCMF_VERSION (st_version info) = 0
         then Some (- EFILEIO, l)
       else locked (notify_call (RSU_NOTIFY_IGNORE_STAGE OR RSU_NOTIFY_RESET_RETRY_COUNTER)) l
     }
   })"

section \<open>Slots\<close>

fun slot_count_loop :: "'w ops \<Rightarrow> int list \<Rightarrow> int \<Rightarrow> int option" where
  "slot_count_loop d [] cnt = Some cnt"
| "slot_count_loop d (x # xs) cnt = do {
     b \<leftarrow> librsu_misc_is_slot partition_ops d x;
     slot_count_loop d xs (if b then cnt + 1 else cnt)
   }"

definition rsu_slot_count :: "'w lib \<Rightarrow> (int \<times> 'w lib) option" where
  "rsu_slot_count = if_initialized id (locked (need_spt id (\<lambda>hal c. do {
     cnt \<leftarrow> slot_count_loop (db c) [0..partition_count (db c) - 1] 0;
     Some (cnt, c)
   })))"

fun slot_by_name_loop :: "'w ops \<Rightarrow> byte list \<Rightarrow> int list \<Rightarrow> int \<Rightarrow> int option" where
  "slot_by_name_loop d name [] cnt = Some (- ENAME)"
| "slot_by_name_loop d name (x # xs) cnt = do {
     b \<leftarrow> librsu_misc_is_slot partition_ops d x;
     if b then do {
       n \<leftarrow> c_str (partition_name x d);
       if name = n then Some cnt else slot_by_name_loop d name xs (cnt + 1)
     }
     else slot_by_name_loop d name xs cnt
   }"

definition rsu_slot_by_name :: "byte list option \<Rightarrow> 'w lib \<Rightarrow> (int \<times> 'w lib) option" where
  "rsu_slot_by_name name = if_initialized id (need_args id (name \<noteq> None) (locked (need_spt id (\<lambda>hal c. do {
     name \<leftarrow> name;
     r \<leftarrow> slot_by_name_loop (db c) name [0..partition_count (db c) - 1] 0;
     Some (r, c)
   }))))"

definition rsu_slot_get_info ::
    "int \<Rightarrow> rsu_slot_info option \<Rightarrow> 'w lib \<Rightarrow> ((int \<times> rsu_slot_info option) \<times> 'w lib) option" where
  "rsu_slot_get_info slot info =
     (let err = (\<lambda>e. (e, info)) in
      if_initialized err (need_args err (info \<noteq> None) (locked (need_spt err (need_cpb err
        (with_slot err slot (\<lambda>part_num hal c. do {
           i \<leftarrow> info;
           name \<leftarrow> SAFE_STRCPY (info_name i) 16 (Some (partition_name part_num (db c))) 16;
           (ret, offset) \<leftarrow> partition_offset part_num (Some (info_offset i)) (db c);
           let i = i\<lparr>info_name := name, info_offset := (case offset of Some v \<Rightarrow> v | None \<Rightarrow> info_offset i)\<rparr>;
           if ret \<noteq> 0 then Some ((- EBADF, Some i), c)
           else do {
             prio \<leftarrow> priority_get part_num (db c);
             Some ((0, Some (i\<lparr>info_size := partition_size part_num (db c), info_priority := prio\<rparr>)), c)
           }
         })))))))"

definition rsu_slot_size :: "int \<Rightarrow> 'w lib \<Rightarrow> (int \<times> 'w lib) option" where
  "rsu_slot_size slot = if_initialized id (locked (need_spt id
     (with_slot id slot (\<lambda>part_num hal c. Some (partition_size part_num (db c), c)))))"

definition rsu_slot_priority :: "int \<Rightarrow> 'w lib \<Rightarrow> (int \<times> 'w lib) option" where
  "rsu_slot_priority slot = if_initialized id (locked (need_spt id (need_cpb id
     (with_slot id slot (\<lambda>part_num hal c. do {
        priority \<leftarrow> priority_get part_num (db c);
        Some (priority, c)
      })))))"

definition rsu_slot_erase :: "int \<Rightarrow> 'w lib \<Rightarrow> (int \<times> 'w lib) option" where
  "rsu_slot_erase slot = if_initialized id (locked (need_spt id (need_cpb id (need_writable id slot
     (with_slot id slot (\<lambda>part_num.
        or_fail (\<lambda>hal. priority_remove hal part_num) (- ELOWLEVEL)
        (or_fail (\<lambda>hal. data_erase hal part_num) (- ELOWLEVEL) (give 0))))))))"

definition rsu_slot_disable :: "int \<Rightarrow> 'w lib \<Rightarrow> (int \<times> 'w lib) option" where
  "rsu_slot_disable slot = if_initialized id (locked (need_spt id (need_cpb id
     (with_slot id slot (\<lambda>_. with_slot id slot (\<lambda>part_num.
        or_fail (\<lambda>hal. priority_remove hal part_num) (- ELOWLEVEL) (give 0)))))))"

definition rsu_slot_enable :: "int \<Rightarrow> 'w lib \<Rightarrow> (int \<times> 'w lib) option" where
  "rsu_slot_enable slot = if_initialized id (locked (need_spt id (need_cpb id
     (with_slot id slot (\<lambda>_. with_slot id slot (\<lambda>part_num.
        or_fail (\<lambda>hal. priority_remove hal part_num) (- ELOWLEVEL)
        (or_fail (\<lambda>hal. priority_add hal part_num) (- ELOWLEVEL) (give 0))))))))"

definition set_address_call :: "u64 \<Rightarrow> ('w, int) call" where
  "set_address_call offset = or_fail (\<lambda>hal d. Some (rsu_set_address hal offset d)) (- EFILEIO) (give 0)"

text \<open>\<open>junk\<close> is what the local \<^verbatim>\<open>offset\<close> holds.\<close>

definition rsu_slot_load_after_reboot :: "u64 \<Rightarrow> int \<Rightarrow> 'w lib \<Rightarrow> (int \<times> 'w lib) option" where
  "rsu_slot_load_after_reboot junk slot = if_initialized id (locked (need_spt id (need_cpb id
     (with_slot id slot (\<lambda>_. with_slot id slot (\<lambda>part_num hal c. do {
        (ret, offset) \<leftarrow> partition_offset part_num (Some junk) (db c);
        if ret < 0 then Some (- ESLOTNUM, c)
        else do { offset \<leftarrow> offset; set_address_call offset hal c }
      }))))))"

fun find_name_loop :: "'w ops \<Rightarrow> byte list \<Rightarrow> int list \<Rightarrow> int option option" where
  "find_name_loop d name [] = Some None"
| "find_name_loop d name (x # xs) = do {
     n \<leftarrow> c_str (partition_name x d);
     if name = n then Some (Some x) else find_name_loop d name xs
   }"

definition rsu_slot_load_factory_after_reboot :: "u64 \<Rightarrow> 'w lib \<Rightarrow> (int \<times> 'w lib) option" where
  "rsu_slot_load_factory_after_reboot junk = if_initialized id (locked (need_spt id (\<lambda>hal c. do {
     p \<leftarrow> find_name_loop (db c) (chars ''FACTORY_IMAGE'') [0..partition_count (db c) - 1];
     (case p of None \<Rightarrow> Some (- EFORMAT, c)
      | Some part_num \<Rightarrow> do {
          (ret, offset) \<leftarrow> partition_offset part_num (Some junk) (db c);
          if ret < 0 then Some (- ESLOTNUM, c)
          else do { offset \<leftarrow> offset; set_address_call offset hal c }
        })
   })))"

definition rsu_slot_rename :: "int \<Rightarrow> byte list option \<Rightarrow> 'w lib \<Rightarrow> (int \<times> 'w lib) option" where
  "rsu_slot_rename slot name = if_initialized id (need_args id (name \<noteq> None) (locked (need_spt id
     (with_slot id slot (\<lambda>part_num hal c. do {
        name \<leftarrow> name;
        if librsu_misc_is_rsvd_name name then Some (- ENAME, c)
        else or_fail (\<lambda>hal. partition_rename hal part_num name) (- ENAME) (give 0) hal c
      })))))"

definition rsu_slot_delete :: "int \<Rightarrow> 'w lib \<Rightarrow> (int \<times> 'w lib) option" where
  "rsu_slot_delete slot = if_initialized id (locked (need_spt id (need_cpb id (need_writable id slot
     (with_slot id slot (\<lambda>part_num.
        or_fail (\<lambda>hal. priority_remove hal part_num) (- ELOWLEVEL)
        (or_fail (\<lambda>hal. data_erase hal part_num) (- ELOWLEVEL)
        (or_fail (\<lambda>hal. partition_delete hal part_num) (- ELOWLEVEL) (give 0)))))))))"

definition rsu_slot_create :: "byte list option \<Rightarrow> u64 \<Rightarrow> u32 \<Rightarrow> 'w lib \<Rightarrow> (int \<times> 'w lib) option" where
  "rsu_slot_create name address sz = if_initialized id (need_args id (name \<noteq> None) (locked (need_spt id (\<lambda>hal c. do {
     name \<leftarrow> name;
     if librsu_misc_is_rsvd_name name then Some (- ENAME, c)
     else or_fail (\<lambda>hal. partition_create hal name address (ucast sz)) (- ELOWLEVEL) (give 0) hal c
   }))))"

end
