(* ===== verification/Rsu_Api_Data.thy ===== *)
theory Rsu_Api_Data
  imports Rsu_Api
begin

text \<open>
  \<^verbatim>\<open>src/libRSU.c\<close>, continued: the functions that move data into slots and out of them, compare, and
  save and restore the tables. \<open>st0\<close> and \<open>junk\<close> are what local variables hold before they are set.
\<close>

section \<open>Programming and verifying\<close>

text \<open>A call of \<^verbatim>\<open>librsu_cb_program_common\<close> or \<^verbatim>\<open>librsu_cb_verify_common\<close> with the buffer, and with a file.\<close>

definition buf_call ::
    "('w rsu_data_callback option \<Rightarrow> ('w, int) call) \<Rightarrow> byte list option \<Rightarrow> int \<Rightarrow> ('w, int) call" where
  "buf_call common buf sz hal c =
     (case librsu_cb_buf_init buf sz c of (ret, c) \<Rightarrow>
      if ret \<noteq> 0 then Some (- EARGS, c)
      else do {
        (rtn, c) \<leftarrow> common (Some librsu_cb_buf) hal c;
        Some (rtn, librsu_cb_buf_cleanup c)
      })"

definition file_call :: "('w rsu_data_callback option \<Rightarrow> ('w, int) call) \<Rightarrow> byte list option \<Rightarrow> ('w, int) call" where
  "file_call common filename hal c =
     (case librsu_cb_file_init (Some hal) filename c of (ret, c) \<Rightarrow>
      if ret \<noteq> 0 then Some (- EFILEIO, c)
      else do {
        (rtn, c) \<leftarrow> common (Some (librsu_cb_file (Some hal))) hal c;
        Some (rtn, librsu_cb_file_cleanup (Some hal) c)
      })"

definition program_call ::
    "rsu_image_state \<Rightarrow> int \<Rightarrow> bool \<Rightarrow> 'w rsu_data_callback option \<Rightarrow> ('w, int) call" where
  "program_call st0 slot raw callback hal = librsu_cb_program_common hal st0 slot callback raw"

definition verify_call ::
    "rsu_image_state \<Rightarrow> int \<Rightarrow> bool \<Rightarrow> 'w rsu_data_callback option \<Rightarrow> ('w, int) call" where
  "verify_call st0 slot raw callback hal = librsu_cb_verify_common hal st0 slot callback raw"

definition rsu_slot_program_buf ::
    "rsu_image_state \<Rightarrow> int \<Rightarrow> byte list option \<Rightarrow> int \<Rightarrow> 'w lib \<Rightarrow> (int \<times> 'w lib) option" where
  "rsu_slot_program_buf st0 slot buf sz = if_initialized id (locked (need_spt id (need_cpb id
     (buf_call (program_call st0 slot False) buf sz))))"

definition rsu_slot_program_factory_update_buf ::
    "rsu_image_state \<Rightarrow> int \<Rightarrow> byte list option \<Rightarrow> int \<Rightarrow> 'w lib \<Rightarrow> (int \<times> 'w lib) option" where
  "rsu_slot_program_factory_update_buf st0 slot buf sz = if_initialized id (rsu_slot_program_buf st0 slot buf sz)"

definition rsu_slot_program_file ::
    "rsu_image_state \<Rightarrow> int \<Rightarrow> byte list option \<Rightarrow> 'w lib \<Rightarrow> (int \<times> 'w lib) option" where
  "rsu_slot_program_file st0 slot filename = if_initialized id (locked (need_spt id (need_cpb id
     (file_call (program_call st0 slot False) filename))))"

definition rsu_slot_program_factory_update_file ::
    "rsu_image_state \<Rightarrow> int \<Rightarrow> byte list option \<Rightarrow> 'w lib \<Rightarrow> (int \<times> 'w lib) option" where
  "rsu_slot_program_factory_update_file st0 slot filename = if_initialized id (rsu_slot_program_file st0 slot filename)"

definition rsu_slot_program_buf_raw ::
    "rsu_image_state \<Rightarrow> int \<Rightarrow> byte list option \<Rightarrow> int \<Rightarrow> 'w lib \<Rightarrow> (int \<times> 'w lib) option" where
  "rsu_slot_program_buf_raw st0 slot buf sz = if_initialized id (locked (need_spt id
     (buf_call (program_call st0 slot True) buf sz)))"

definition rsu_slot_program_file_raw ::
    "rsu_image_state \<Rightarrow> int \<Rightarrow> byte list option \<Rightarrow> 'w lib \<Rightarrow> (int \<times> 'w lib) option" where
  "rsu_slot_program_file_raw st0 slot filename = if_initialized id (locked (need_spt id
     (file_call (program_call st0 slot True) filename)))"

definition rsu_slot_verify_buf ::
    "rsu_image_state \<Rightarrow> int \<Rightarrow> byte list option \<Rightarrow> int \<Rightarrow> 'w lib \<Rightarrow> (int \<times> 'w lib) option" where
  "rsu_slot_verify_buf st0 slot buf sz = if_initialized id (locked (need_spt id (need_cpb id
     (buf_call (verify_call st0 slot False) buf sz))))"

definition rsu_slot_verify_file ::
    "rsu_image_state \<Rightarrow> int \<Rightarrow> byte list option \<Rightarrow> 'w lib \<Rightarrow> (int \<times> 'w lib) option" where
  "rsu_slot_verify_file st0 slot filename = if_initialized id (locked (need_spt id (need_cpb id
     (file_call (verify_call st0 slot False) filename))))"

definition rsu_slot_verify_buf_raw ::
    "rsu_image_state \<Rightarrow> int \<Rightarrow> byte list option \<Rightarrow> int \<Rightarrow> 'w lib \<Rightarrow> (int \<times> 'w lib) option" where
  "rsu_slot_verify_buf_raw st0 slot buf sz = if_initialized id (locked (need_spt id
     (buf_call (verify_call st0 slot True) buf sz)))"

definition rsu_slot_verify_file_raw ::
    "rsu_image_state \<Rightarrow> int \<Rightarrow> byte list option \<Rightarrow> 'w lib \<Rightarrow> (int \<times> 'w lib) option" where
  "rsu_slot_verify_file_raw st0 slot filename = if_initialized id (locked (need_spt id
     (file_call (verify_call st0 slot True) filename)))"

text \<open>The functions that take the client's callback do not look whether a table is corrupted.\<close>

definition rsu_slot_program_callback ::
    "rsu_image_state \<Rightarrow> int \<Rightarrow> 'w rsu_data_callback option \<Rightarrow> 'w lib \<Rightarrow> (int \<times> 'w lib) option" where
  "rsu_slot_program_callback st0 slot callback = if_initialized id (locked (program_call st0 slot False callback))"

definition rsu_slot_program_callback_raw ::
    "rsu_image_state \<Rightarrow> int \<Rightarrow> 'w rsu_data_callback option \<Rightarrow> 'w lib \<Rightarrow> (int \<times> 'w lib) option" where
  "rsu_slot_program_callback_raw st0 slot callback = if_initialized id (locked (program_call st0 slot True callback))"

definition rsu_slot_verify_callback ::
    "rsu_image_state \<Rightarrow> int \<Rightarrow> 'w rsu_data_callback option \<Rightarrow> 'w lib \<Rightarrow> (int \<times> 'w lib) option" where
  "rsu_slot_verify_callback st0 slot callback = if_initialized id (locked (verify_call st0 slot False callback))"

definition rsu_slot_verify_callback_raw ::
    "rsu_image_state \<Rightarrow> int \<Rightarrow> 'w rsu_data_callback option \<Rightarrow> 'w lib \<Rightarrow> (int \<times> 'w lib) option" where
  "rsu_slot_verify_callback_raw st0 slot callback = if_initialized id (locked (verify_call st0 slot True callback))"

section \<open>Copying a slot out\<close>

abbreviation (input) RSU_BUFFER_CHUNK_SIZE :: nat where "RSU_BUFFER_CHUNK_SIZE \<equiv> 4096"

text \<open>The loop that writes a block of 0xFF for every block left out so far.\<close>

function fill_gap ::
    "'w librsu_ll_intf \<Rightarrow> nat \<Rightarrow> byte list \<Rightarrow> int \<Rightarrow> int \<Rightarrow> 'w ops \<Rightarrow> bool \<times> int \<times> 'w ops" where
  "fill_gap hal df fill last_write offset d =
     (if last_write < offset
      then case rsu_write hal fill df d of (n, d) \<Rightarrow>
        if n \<noteq> int RSU_BUFFER_CHUNK_SIZE then (False, last_write, d)
        else fill_gap hal df fill (last_write + int RSU_BUFFER_CHUNK_SIZE) offset d
      else (True, last_write, d))"
  by pat_completeness auto
termination
  by (relation "measure (\<lambda>(hal, df, fill, last_write, offset, d). nat (offset - last_write))") auto

declare fill_gap.simps [simp del]

text \<open>The loop over the blocks of the slot. An offset that leaves the range of \<^verbatim>\<open>int\<close> is undefined.\<close>

partial_function (option) copy_loop ::
    "'w librsu_ll_intf \<Rightarrow> int \<Rightarrow> nat \<Rightarrow> byte list \<Rightarrow> byte list \<Rightarrow> int \<Rightarrow> int \<Rightarrow> 'w ops \<Rightarrow> (int \<times> 'w ops) option" where
  "copy_loop hal part_num df buf fill offset last_write d =
     (if offset < partition_size part_num d then do {
        (ret, buf, d) \<leftarrow> data_read hal part_num offset (int RSU_BUFFER_CHUNK_SIZE) (Some buf) d;
        if ret \<noteq> 0 then Some (close_ret hal df (- ELOWLEVEL) d)
        else if offset + int RSU_BUFFER_CHUNK_SIZE \<ge> 2 ^ 31 then None
        else if list_all (\<lambda>b. b = 0xFF) buf
          then copy_loop hal part_num df buf fill (offset + int RSU_BUFFER_CHUNK_SIZE) last_write d
        else (case fill_gap hal df fill last_write offset d of (written, last_write, d) \<Rightarrow>
          if \<not> written then Some (close_ret hal df (- EFILEIO) d)
          else case rsu_write hal buf df d of (n, d) \<Rightarrow>
          if n \<noteq> int RSU_BUFFER_CHUNK_SIZE then Some (close_ret hal df (- EFILEIO) d)
          else copy_loop hal part_num df buf fill (offset + int RSU_BUFFER_CHUNK_SIZE)
                 (last_write + int RSU_BUFFER_CHUNK_SIZE) d)
      }
      else Some (close_ret hal df 0 d))"

definition copy_to_file :: "int \<Rightarrow> byte list \<Rightarrow> byte list \<Rightarrow> ('w, int) call" where
  "copy_to_file part_num name buf hal c =
     (case rsu_fopen hal name RSU_FILE_WRITE (db c) of
        (None, d) \<Rightarrow> Some (- EFILEIO, c\<lparr>db := d\<rparr>)
      | (Some df, d) \<Rightarrow>
        (case rsu_ftruncate hal 0 df d of (ret, d) \<Rightarrow>
         if ret < 0 then (case close_ret hal df (- EFILEIO) d of (r, d) \<Rightarrow> Some (r, c\<lparr>db := d\<rparr>))
         else do {
           (r, d) \<leftarrow> copy_loop hal part_num df buf (replicate RSU_BUFFER_CHUNK_SIZE 0xFF) 0 0 d;
           Some (r, c\<lparr>db := d\<rparr>)
         }))"

definition rsu_slot_copy_to_file :: "int \<Rightarrow> byte list option \<Rightarrow> 'w lib \<Rightarrow> (int \<times> 'w lib) option" where
  "rsu_slot_copy_to_file slot filename = if_initialized id (locked (\<lambda>hal c.
     (case rsu_malloc hal (world (db c)) RSU_BUFFER_CHUNK_SIZE of
        (None, w) \<Rightarrow> Some (- ENOMEM, set_world c w)
      | (Some buf, w) \<Rightarrow>
        (case rsu_malloc hal w RSU_BUFFER_CHUNK_SIZE of
           (None, w) \<Rightarrow> Some (- ENOMEM, set_world c w)
         | (Some fill, w) \<Rightarrow>
           (case filename of None \<Rightarrow> Some (- EARGS, set_world c w)
            | Some name \<Rightarrow>
              with_slot id slot (\<lambda>part_num. need_spt id (need_cpb id (\<lambda>hal c. do {
                prio \<leftarrow> priority_get part_num (db c);
                if prio \<le> 0 then Some (- EERASE, c) else copy_to_file part_num name buf hal c
              }))) hal (set_world c w))))))"

text \<open>The buffer is as long as its size argument promises, \<^const>\<open>None\<close> otherwise.\<close>

definition rsu_slot_copy_to_buf ::
    "int \<Rightarrow> byte list option \<Rightarrow> nat \<Rightarrow> 'w lib \<Rightarrow> ((int \<times> byte list option) \<times> 'w lib) option" where
  "rsu_slot_copy_to_buf slot buffer sz =
     (let err = (\<lambda>e. (e, buffer)) in
      if_initialized err (locked (\<lambda>hal c.
        if buffer = None then Some (err (- EARGS), c)
        else with_slot err slot (\<lambda>part_num hal c.
          if partition_size part_num (db c) < 0 then Some (err (- ELOWLEVEL), c)
          else if nat (partition_size part_num (db c)) > sz \<or> sz = 0 then Some (err (- EARGS), c)
          else need_spt err (need_cpb err (\<lambda>hal c. do {
            prio \<leftarrow> priority_get part_num (db c);
            if prio \<le> 0 then Some (err (- EERASE), c)
            else do {
              b \<leftarrow> buffer;
              if length b < sz then None
              else do {
                (ret, b, d) \<leftarrow> data_read hal part_num 0 (partition_size part_num (db c)) (Some b) (db c);
                let c = c\<lparr>db := d\<rparr>;
                if ret < 0 then Some ((- ELOWLEVEL, Some b), c) else Some ((0, Some b), c)
              }
            }
          })) hal c) hal c)))"

section \<open>Saving and restoring the tables\<close>

definition rsu_restore_spt :: "byte list \<Rightarrow> byte list option \<Rightarrow> 'w lib \<Rightarrow> (int \<times> 'w lib) option" where
  "rsu_restore_spt junk filename = if_initialized id (need_args id (filename \<noteq> None)
     (locked (db_call (\<lambda>hal d. do { name \<leftarrow> filename; restore_spt_from_file hal junk name d }))))"

definition rsu_save_spt :: "byte list option \<Rightarrow> 'w lib \<Rightarrow> (int \<times> 'w lib) option" where
  "rsu_save_spt filename = if_initialized id (need_args id (filename \<noteq> None)
     (locked (need_spt id (db_call (\<lambda>hal d. do { name \<leftarrow> filename; save_spt_to_file hal name d })))))"

definition rsu_create_empty_cpb :: "'w lib \<Rightarrow> (int \<times> 'w lib) option" where
  "rsu_create_empty_cpb = if_initialized id (locked (db_call empty_cpb))"

definition rsu_restore_cpb :: "byte list \<Rightarrow> byte list option \<Rightarrow> 'w lib \<Rightarrow> (int \<times> 'w lib) option" where
  "rsu_restore_cpb junk filename = if_initialized id (need_args id (filename \<noteq> None)
     (locked (db_call (\<lambda>hal d. do { name \<leftarrow> filename; restore_cpb_from_file hal junk name d }))))"

definition rsu_save_cpb :: "byte list option \<Rightarrow> 'w lib \<Rightarrow> (int \<times> 'w lib) option" where
  "rsu_save_cpb filename = if_initialized id (need_args id (filename \<noteq> None)
     (locked (need_cpb id (db_call (\<lambda>hal d. do { name \<leftarrow> filename; save_cpb_to_file hal name d })))))"

definition buf_result ::
    "('w librsu_ll_intf \<Rightarrow> 'w ops \<Rightarrow> (int \<times> byte list option \<times> 'w ops) option) \<Rightarrow> ('w, int \<times> byte list option) call" where
  "buf_result f hal c = do { (r, b, d) \<leftarrow> f hal (db c); Some ((r, b), c\<lparr>db := d\<rparr>) }"

definition rsu_save_spt_to_buf ::
    "byte list option \<Rightarrow> nat \<Rightarrow> 'w lib \<Rightarrow> ((int \<times> byte list option) \<times> 'w lib) option" where
  "rsu_save_spt_to_buf buffer sz =
     (let err = (\<lambda>e. (e, buffer)) in
      if_initialized err (need_args err (buffer \<noteq> None \<and> sz \<noteq> 0)
        (locked (need_spt err (buf_result (\<lambda>hal. save_spt_to_buf hal buffer sz))))))"

definition rsu_restore_spt_from_buf :: "byte list option \<Rightarrow> nat \<Rightarrow> 'w lib \<Rightarrow> (int \<times> 'w lib) option" where
  "rsu_restore_spt_from_buf buffer sz = if_initialized id (need_args id (buffer \<noteq> None \<and> sz \<noteq> 0)
     (locked (db_call (\<lambda>hal. restore_spt_from_buf hal buffer sz))))"

definition rsu_save_cpb_to_buf ::
    "byte list option \<Rightarrow> nat \<Rightarrow> 'w lib \<Rightarrow> ((int \<times> byte list option) \<times> 'w lib) option" where
  "rsu_save_cpb_to_buf buffer sz =
     (let err = (\<lambda>e. (e, buffer)) in
      if_initialized err (need_args err (buffer \<noteq> None \<and> sz \<noteq> 0)
        (locked (need_cpb err (buf_result (\<lambda>hal. save_cpb_to_buf hal buffer sz))))))"

definition rsu_restore_cpb_from_buf :: "byte list option \<Rightarrow> nat \<Rightarrow> 'w lib \<Rightarrow> (int \<times> 'w lib) option" where
  "rsu_restore_cpb_from_buf buffer sz = if_initialized id (need_args id (buffer \<noteq> None \<and> sz \<noteq> 0)
     (locked (need_cpb id (db_call (\<lambda>hal. restore_cpb_from_buf hal buffer sz)))))"

section \<open>What runs, and what the firmware reports\<close>

text \<open>The value behind the pointer, and what the local \<^verbatim>\<open>factory_offset\<close> holds.\<close>

definition rsu_running_factory :: "u64 \<Rightarrow> int option \<Rightarrow> 'w lib \<Rightarrow> ((int \<times> int option) \<times> 'w lib) option" where
  "rsu_running_factory junk factory =
     (let err = (\<lambda>e. (e, factory)) in
      if_initialized err (need_args err (factory \<noteq> None) (locked (need_spt err (\<lambda>hal c.
        case factory_offset (Some junk) (db c) of (ret, off) \<Rightarrow>
        if ret < 0 then Some (err (- ELOWLEVEL), c)
        else case rsu_status hal (db c) of ((ret, data), d) \<Rightarrow>
        if ret \<noteq> 0 then Some (err (- EFILEIO), c\<lparr>db := d\<rparr>)
        else Some ((0, Some (if off = Some (st_current_image data) then 1 else 0)), c\<lparr>db := d\<rparr>))))))"

definition rsu_dcmf_version :: "u32 list option \<Rightarrow> 'w lib \<Rightarrow> ((int \<times> u32 list option) \<times> 'w lib) option" where
  "rsu_dcmf_version versions =
     (let err = (\<lambda>e. (e, versions)) in
      if_initialized err (need_args err (versions \<noteq> None) (locked (\<lambda>hal c.
        case rsu_get_dcmf_version hal (db c) of ((ret, ver), d) \<Rightarrow>
        if ret < 0 then Some (err ret, c\<lparr>db := d\<rparr>)
        else Some ((ret, Some (map (\<lambda>i. word_of_int (ver ! i)) [0..<4])), c\<lparr>db := d\<rparr>)))))"

definition rsu_max_retry :: "byte option \<Rightarrow> 'w lib \<Rightarrow> ((int \<times> byte option) \<times> 'w lib) option" where
  "rsu_max_retry value' =
     (let err = (\<lambda>e. (e, value')) in
      if_initialized err (need_args err (value' \<noteq> None) (locked (\<lambda>hal c.
        case rsu_get_max_retry_count hal (db c) of ((ret, v), d) \<Rightarrow>
        Some ((if ret \<noteq> 0 then - EFILEIO else 0, Some v), c\<lparr>db := d\<rparr>)))))"

definition rsu_dcmf_status :: "int list option \<Rightarrow> 'w lib \<Rightarrow> ((int \<times> int list option) \<times> 'w lib) option" where
  "rsu_dcmf_status status =
     (let err = (\<lambda>e. (e, status)) in
      if_initialized err (need_args err (status \<noteq> None) (locked (\<lambda>hal c.
        case rsu_get_dcmf_status hal (db c) of ((ret, s), d) \<Rightarrow>
        if ret < 0 then Some (err (- EFILEIO), c\<lparr>db := d\<rparr>)
        else Some ((0, Some (map (\<lambda>i. sint (s ! i)) [0..<4])), c\<lparr>db := d\<rparr>)))))"

end
