(* ===== verification/Rsu_Api_Ok.thy ===== *)
theory Rsu_Api_Ok
  imports Rsu_Api_Data
begin

text \<open>
  What every call of the library keeps: a call changes nothing of the library's own state but what
  lies behind the database and the data sources, takes the mutex only to give it back, and on a
  library that is not initialized does nothing at all. \<open>api_call\<close> is the type of the calls a client
  can make, \<open>lib_step\<close> a step of a client: starting, stopping, or a call.
\<close>

section \<open>The frame of a call\<close>

definition same_frame :: "'w lib \<Rightarrow> 'w lib \<Rightarrow> bool" where
  "same_frame l l' \<longleftrightarrow> (\<exists>c. l' = l\<lparr>core := c\<rparr>)"

definition keeps_frame :: "('w lib \<Rightarrow> ('a \<times> 'w lib) option) \<Rightarrow> bool" where
  "keeps_frame f \<longleftrightarrow> (\<forall>l r l'. f l = Some (r, l') \<longrightarrow> same_frame l l')"

lemma same_frame_refl [simp]: "same_frame l l"
  unfolding same_frame_def by (rule exI [of _ "core l"]) simp

lemma same_frame_trans: "same_frame l m \<Longrightarrow> same_frame m n \<Longrightarrow> same_frame l n"
  by (auto simp: same_frame_def)

lemma same_frame_fields:
  "same_frame l l' \<Longrightarrow> ctx_state l' = ctx_state l \<and> ctx_mutex l' = ctx_mutex l \<and> hl_set l' = hl_set l \<and>
     ll_intf l' = ll_intf l \<and> plat_database l' = plat_database l"
  by (auto simp: same_frame_def)

text \<open>A locked call is its body on the database, when the library is ready and the mutex free.\<close>

definition ready :: "'w lib \<Rightarrow> 'w librsu_ll_intf \<Rightarrow> bool" where
  "ready l hal \<longleftrightarrow> hl_set l \<and> plat_database l = DB_LIVE \<and> ll_intf l = Some hal \<and> ctx_mutex l = MUTEX_FREE"

lemma locked_run:
  "locked body l = Some (r, l') \<longleftrightarrow> (\<exists>hal c. ready l hal \<and> body hal (core l) = Some (r, c) \<and> l' = l\<lparr>core := c\<rparr>)"
proof (cases "\<exists>hal. ready l hal")
  case True
  then obtain hal where h: "ready l hal" by blast
  then have "locked body l = do { (r, c) \<leftarrow> body hal (core l); Some (r, l\<lparr>core := c\<rparr>) }"
    by (cases l) (simp add: locked_def ready_def MUTEX_LOCK_def MUTEX_UNLOCK_def)
  then show ?thesis using h by (auto simp: bind_splits ready_def)
next
  case False
  then have "locked body l = None"
    by (cases "ll_intf l") (auto simp: locked_def ready_def MUTEX_LOCK_def)
  then show ?thesis using False by simp
qed

lemma locked_ready:
  assumes "ready l hal" "body hal (core l) = Some (r, c)" shows "locked body l = Some (r, l\<lparr>core := c\<rparr>)"
  unfolding locked_run using assms by (intro exI conjI) auto

lemma if_initialized_run:
  "if_initialized err f l = Some (r, l') \<longleftrightarrow>
     (if ctx_state l \<noteq> initialized then r = err (- ELIB) \<and> l' = l else f l = Some (r, l'))"
  by (auto simp: if_initialized_def)

lemma need_args_run:
  "need_args err g f l = Some (r, l') \<longleftrightarrow> (if \<not> g then r = err (- EARGS) \<and> l' = l else f l = Some (r, l'))"
  by (auto simp: need_args_def)

named_theorems keeps "how calls that keep the frame are composed"

lemma keeps_locked [keeps]: "keeps_frame (locked body)"
  by (auto simp: keeps_frame_def locked_run same_frame_def)

lemma keeps_if_initialized [keeps]: "keeps_frame f \<Longrightarrow> keeps_frame (if_initialized err f)"
  by (auto simp: keeps_frame_def if_initialized_run split: if_splits)

lemma keeps_need_args [keeps]: "keeps_frame f \<Longrightarrow> keeps_frame (need_args err g f)"
  by (auto simp: keeps_frame_def need_args_run split: if_splits)

lemma keeps_status_log [keeps]: "keeps_frame (rsu_status_log info)"
  unfolding rsu_status_log_def by (intro keeps)

lemma keeps_status_then [keeps]:
  assumes "\<And>ret info. keeps_frame (g ret info)"
  shows "keeps_frame (\<lambda>l. do { ((ret, info), l) \<leftarrow> rsu_status_log i l; g ret info l })"
proof -
  have "same_frame l l'" if "rsu_status_log i l = Some ((ret, info), m)" "g ret info m = Some (r, l')" for l m l' ret info r
    using that keeps_status_log [of i] assms [of ret info] same_frame_trans by (fastforce simp: keeps_frame_def)
  then show ?thesis by (fastforce simp: keeps_frame_def bind_splits)
qed

lemma keeps_if [keeps]: "(b \<Longrightarrow> keeps_frame f) \<Longrightarrow> (\<not> b \<Longrightarrow> keeps_frame g) \<Longrightarrow> keeps_frame (\<lambda>l. if b then f l else g l)"
  by (auto simp: keeps_frame_def)

lemma keeps_return [keeps]: "keeps_frame (\<lambda>l. Some (r, l))"
  by (simp add: keeps_frame_def)

lemma keeps_bind [keeps]: "(\<And>x. keeps_frame (f x)) \<Longrightarrow> keeps_frame (\<lambda>l. Option.bind v (\<lambda>x. f x l))"
  by (cases v) (auto simp: keeps_frame_def)

section \<open>The calls\<close>

datatype 'w api_call =
    Notify int
  | Status_log "mbox_status_info option"
  | Clear_error_status mbox_status_info
  | Reset_retry_counter mbox_status_info
  | Slot_count
  | Slot_by_name "byte list option"
  | Slot_get_info int "rsu_slot_info option"
  | Slot_size int
  | Slot_priority int
  | Slot_erase int
  | Slot_disable int
  | Slot_enable int
  | Slot_load_after_reboot u64 int
  | Slot_load_factory_after_reboot u64
  | Slot_rename int "byte list option"
  | Slot_delete int
  | Slot_create "byte list option" u64 u32
  | Slot_program_buf rsu_image_state int "byte list option" int
  | Slot_program_factory_update_buf rsu_image_state int "byte list option" int
  | Slot_program_buf_raw rsu_image_state int "byte list option" int
  | Slot_program_file rsu_image_state int "byte list option"
  | Slot_program_factory_update_file rsu_image_state int "byte list option"
  | Slot_program_file_raw rsu_image_state int "byte list option"
  | Slot_verify_buf rsu_image_state int "byte list option" int
  | Slot_verify_buf_raw rsu_image_state int "byte list option" int
  | Slot_verify_file rsu_image_state int "byte list option"
  | Slot_verify_file_raw rsu_image_state int "byte list option"
  | Slot_program_callback rsu_image_state int "'w rsu_data_callback option"
  | Slot_program_callback_raw rsu_image_state int "'w rsu_data_callback option"
  | Slot_verify_callback rsu_image_state int "'w rsu_data_callback option"
  | Slot_verify_callback_raw rsu_image_state int "'w rsu_data_callback option"
  | Slot_copy_to_file int "byte list option"
  | Slot_copy_to_buf int "byte list option" nat
  | Restore_spt "byte list" "byte list option"
  | Save_spt "byte list option"
  | Create_empty_cpb
  | Restore_cpb "byte list" "byte list option"
  | Save_cpb "byte list option"
  | Save_spt_to_buf "byte list option" nat
  | Restore_spt_from_buf "byte list option" nat
  | Save_cpb_to_buf "byte list option" nat
  | Restore_cpb_from_buf "byte list option" nat
  | Running_factory u64 "int option"
  | Dcmf_version "u32 list option"
  | Max_retry "byte option"
  | Dcmf_status "int list option"

text \<open>The return value of a call whose result has more than that.\<close>

definition ret_of :: "(((int \<times> 'a) \<times> 'w lib) option) \<Rightarrow> (int \<times> 'w lib) option" where
  "ret_of x = map_option (\<lambda>((r, _), l). (r, l)) x"

primrec run_call :: "'w api_call \<Rightarrow> 'w lib \<Rightarrow> (int \<times> 'w lib) option" where
  "run_call (Notify v) l = rsu_notify v l"
| "run_call (Status_log i) l = ret_of (rsu_status_log i l)"
| "run_call (Clear_error_status j) l = rsu_clear_error_status j l"
| "run_call (Reset_retry_counter j) l = rsu_reset_retry_counter j l"
| "run_call Slot_count l = rsu_slot_count l"
| "run_call (Slot_by_name n) l = rsu_slot_by_name n l"
| "run_call (Slot_get_info s i) l = ret_of (rsu_slot_get_info s i l)"
| "run_call (Slot_size s) l = rsu_slot_size s l"
| "run_call (Slot_priority s) l = rsu_slot_priority s l"
| "run_call (Slot_erase s) l = rsu_slot_erase s l"
| "run_call (Slot_disable s) l = rsu_slot_disable s l"
| "run_call (Slot_enable s) l = rsu_slot_enable s l"
| "run_call (Slot_load_after_reboot j s) l = rsu_slot_load_after_reboot j s l"
| "run_call (Slot_load_factory_after_reboot j) l = rsu_slot_load_factory_after_reboot j l"
| "run_call (Slot_rename s n) l = rsu_slot_rename s n l"
| "run_call (Slot_delete s) l = rsu_slot_delete s l"
| "run_call (Slot_create n a z) l = rsu_slot_create n a z l"
| "run_call (Slot_program_buf i s b z) l = rsu_slot_program_buf i s b z l"
| "run_call (Slot_program_factory_update_buf i s b z) l = rsu_slot_program_factory_update_buf i s b z l"
| "run_call (Slot_program_buf_raw i s b z) l = rsu_slot_program_buf_raw i s b z l"
| "run_call (Slot_program_file i s f) l = rsu_slot_program_file i s f l"
| "run_call (Slot_program_factory_update_file i s f) l = rsu_slot_program_factory_update_file i s f l"
| "run_call (Slot_program_file_raw i s f) l = rsu_slot_program_file_raw i s f l"
| "run_call (Slot_verify_buf i s b z) l = rsu_slot_verify_buf i s b z l"
| "run_call (Slot_verify_buf_raw i s b z) l = rsu_slot_verify_buf_raw i s b z l"
| "run_call (Slot_verify_file i s f) l = rsu_slot_verify_file i s f l"
| "run_call (Slot_verify_file_raw i s f) l = rsu_slot_verify_file_raw i s f l"
| "run_call (Slot_program_callback i s c) l = rsu_slot_program_callback i s c l"
| "run_call (Slot_program_callback_raw i s c) l = rsu_slot_program_callback_raw i s c l"
| "run_call (Slot_verify_callback i s c) l = rsu_slot_verify_callback i s c l"
| "run_call (Slot_verify_callback_raw i s c) l = rsu_slot_verify_callback_raw i s c l"
| "run_call (Slot_copy_to_file s f) l = rsu_slot_copy_to_file s f l"
| "run_call (Slot_copy_to_buf s b z) l = ret_of (rsu_slot_copy_to_buf s b z l)"
| "run_call (Restore_spt j f) l = rsu_restore_spt j f l"
| "run_call (Save_spt f) l = rsu_save_spt f l"
| "run_call Create_empty_cpb l = rsu_create_empty_cpb l"
| "run_call (Restore_cpb j f) l = rsu_restore_cpb j f l"
| "run_call (Save_cpb f) l = rsu_save_cpb f l"
| "run_call (Save_spt_to_buf b z) l = ret_of (rsu_save_spt_to_buf b z l)"
| "run_call (Restore_spt_from_buf b z) l = rsu_restore_spt_from_buf b z l"
| "run_call (Save_cpb_to_buf b z) l = ret_of (rsu_save_cpb_to_buf b z l)"
| "run_call (Restore_cpb_from_buf b z) l = rsu_restore_cpb_from_buf b z l"
| "run_call (Running_factory j f) l = ret_of (rsu_running_factory j f l)"
| "run_call (Dcmf_version v) l = ret_of (rsu_dcmf_version v l)"
| "run_call (Max_retry v) l = ret_of (rsu_max_retry v l)"
| "run_call (Dcmf_status s) l = ret_of (rsu_dcmf_status s l)"

lemmas api_defs = rsu_notify_def rsu_clear_error_status_def rsu_reset_retry_counter_def
  rsu_slot_count_def rsu_slot_by_name_def rsu_slot_get_info_def rsu_slot_size_def rsu_slot_priority_def
  rsu_slot_erase_def rsu_slot_disable_def rsu_slot_enable_def rsu_slot_load_after_reboot_def
  rsu_slot_load_factory_after_reboot_def rsu_slot_rename_def rsu_slot_delete_def rsu_slot_create_def
  rsu_slot_program_buf_def rsu_slot_program_factory_update_buf_def rsu_slot_program_buf_raw_def
  rsu_slot_program_file_def rsu_slot_program_factory_update_file_def rsu_slot_program_file_raw_def
  rsu_slot_verify_buf_def rsu_slot_verify_buf_raw_def rsu_slot_verify_file_def rsu_slot_verify_file_raw_def
  rsu_slot_program_callback_def rsu_slot_program_callback_raw_def rsu_slot_verify_callback_def
  rsu_slot_verify_callback_raw_def rsu_slot_copy_to_file_def rsu_slot_copy_to_buf_def rsu_restore_spt_def
  rsu_save_spt_def rsu_create_empty_cpb_def rsu_restore_cpb_def rsu_save_cpb_def rsu_save_spt_to_buf_def
  rsu_restore_spt_from_buf_def rsu_save_cpb_to_buf_def rsu_restore_cpb_from_buf_def rsu_running_factory_def
  rsu_dcmf_version_def rsu_max_retry_def rsu_dcmf_status_def

text \<open>A call on a library that is not initialized returns \<^verbatim>\<open>-ELIB\<close> and does nothing.\<close>

lemma if_initialized_not: "ctx_state l \<noteq> initialized \<Longrightarrow> if_initialized err f l = Some (err (- ELIB), l)"
  by (simp add: if_initialized_def)

lemma run_call_uninitialized:
  assumes "ctx_state l \<noteq> initialized" shows "run_call c l = Some (- ELIB, l)"
  by (cases c) (simp_all add: api_defs rsu_status_log_def ret_of_def Let_def if_initialized_not [OF assms])

lemma keeps_ret_of: "keeps_frame f \<Longrightarrow> keeps_frame (\<lambda>l. ret_of (f l))"
  by (fastforce simp: keeps_frame_def ret_of_def)

lemma run_call_keeps: "keeps_frame (run_call c)"
proof -
  have "keeps_frame (\<lambda>l. run_call c l)"
    by (cases c; simp only: run_call.simps api_defs Let_def; intro keeps_ret_of keeps)
  then show ?thesis by simp
qed

section \<open>Steps of a client\<close>

inductive lib_step :: "'w platform \<Rightarrow> 'w lib \<Rightarrow> 'w lib \<Rightarrow> bool" for pl where
  step_init: "librsu_init pl junk filename l = Some (r, l') \<Longrightarrow> lib_step pl l l'"
| step_exit: "librsu_exit pl l = Some l' \<Longrightarrow> lib_step pl l l'"
| step_call: "run_call c l = Some (r, l') \<Longrightarrow> lib_step pl l l'"

inductive_simps lib_step_iff: "lib_step pl l l'"

text \<open>The static variables as the program starts.\<close>

definition lib_start :: "'w lib \<Rightarrow> bool" where
  "lib_start l \<longleftrightarrow> ctx_state l = un_initialized \<and> \<not> hl_set l \<and> ll_intf l = None \<and> plat_database l = DB_NULL"

inductive lib_reachable :: "'w platform \<Rightarrow> 'w lib \<Rightarrow> bool" for pl where
  reach_start: "lib_start l \<Longrightarrow> lib_reachable pl l"
| reach_step: "lib_reachable pl l \<Longrightarrow> lib_step pl l l' \<Longrightarrow> lib_reachable pl l'"

text \<open>
  The invariant: between calls the library is initialized or not, never in between. When it is, it
  is ready to be called; when it is not, it holds neither the platform's tables nor a database,
  though the pointer to the database may dangle.
\<close>

definition lib_inv :: "'w lib \<Rightarrow> bool" where
  "lib_inv l \<longleftrightarrow> (case ctx_state l of
       initialized \<Rightarrow> \<exists>hal. ready l hal
     | un_initialized \<Rightarrow> \<not> hl_set l \<and> plat_database l \<noteq> DB_LIVE \<and> ll_intf l = None
     | in_progress \<Rightarrow> False)"

lemma open_tables_ptr:
  "open_tables hal s = Some (r, p, s') \<Longrightarrow> r = 0 \<and> p = DB_LIVE \<or> r \<noteq> 0 \<and> p = DB_NULL"
  by (auto simp: open_tables_def rsu_qspi_close_def bind_splits split: if_splits)

lemma rsu_qspi_open_ptr:
  assumes "rsu_qspi_open h hl p s = Some (r, p', s')" "p \<noteq> DB_LIVE"
  shows "r = 0 \<and> p' = DB_LIVE \<and> p = DB_NULL \<or> r \<noteq> 0 \<and> p' \<noteq> DB_LIVE"
  using assms open_tables_ptr
  by (fastforce simp: rsu_qspi_open_def Let_def split: if_splits option.splits prod.splits)

lemma common_cfg_parse_set:
  "librsu_common_cfg_parse junk (Some name) (Some hal) w = Some (r, h, w') \<Longrightarrow> h \<noteq> None"
  by (auto simp: librsu_common_cfg_parse_def Let_def bind_splits split: prod.splits option.splits)

text \<open>The end of \<^verbatim>\<open>librsu_cfg_parse\<close>: the file, the database, and giving all back if that fails.\<close>

lemma librsu_cfg_parse_cases:
  assumes "librsu_cfg_parse pl junk (Some name) l = Some (r, l')"
  obtains (failed) w where "r \<noteq> 0" "l' = (set_lib_world l w)\<lparr>ll_intf := None\<rparr>"
  | (opened) w0 h w1 ret p d m where
      "librsu_common_cfg_parse junk (Some name) (Some ((tables pl)\<lparr>writeprotect := 0, spt_checksum_enabled := 0\<rparr>)) w0 = Some (ret, h, w1)"
      "rsu_qspi_open h True (plat_database l) (db (set_world (core l) w1)) = Some (m, p, d)"
      "m = 0 \<Longrightarrow> r = 0 \<and> l' = l\<lparr>ll_intf := h, plat_database := p, core := (core l)\<lparr>db := d\<rparr>, hl_set := True\<rparr>"
      "m \<noteq> 0 \<Longrightarrow> r \<noteq> 0 \<and> librsu_cfg_reset pl (l\<lparr>ll_intf := h, plat_database := p, core := (core l)\<lparr>db := d\<rparr>\<rparr>) = Some l'"
proof -
  obtain b w0 where b: "rsu_malloc (tables pl) (lib_world l) 176 = (b, w0)" by fastforce
  show thesis
  proof (cases b)
    case None
    with assms b have "r = - ENOMEM" "l' = (set_lib_world l w0)\<lparr>ll_intf := None\<rparr>"
      by (auto simp: librsu_cfg_parse_def)
    then show thesis using failed [of w0] by simp
  next
    case (Some a)
    then obtain e w1 where s: "platform_setup pl name w0 = Some (e, w1)"
      using assms b by (auto simp: librsu_cfg_parse_def bind_splits)
    show thesis
    proof (cases "e = 0")
      case True
      then show thesis using assms by (auto simp: librsu_cfg_parse_def b Some s bind_splits Let_def intro: opened split: if_splits)
    next
      case False
      then have "r \<noteq> 0" "l' = (set_lib_world l w1)\<lparr>ll_intf := None\<rparr>"
        using assms by (auto simp: librsu_cfg_parse_def b Some s)
      then show thesis by (rule failed)
    qed
  qed
qed

lemma librsu_cfg_parse_inv:
  assumes run: "librsu_cfg_parse pl junk (Some name) l = Some (r, l')"
    and l: "\<not> hl_set l" "plat_database l \<noteq> DB_LIVE" "ll_intf l = None"
  shows "ctx_state l' = ctx_state l \<and> ctx_mutex l' = ctx_mutex l \<and>
    (if r = 0 then hl_set l' \<and> plat_database l' = DB_LIVE \<and> ll_intf l' \<noteq> None
     else \<not> hl_set l' \<and> plat_database l' \<noteq> DB_LIVE \<and> ll_intf l' = None)"
  using run
proof (cases rule: librsu_cfg_parse_cases)
  case (failed w)
  then show ?thesis using l by simp
next
  case (opened w0 h w1 ret p d m)
  note O = rsu_qspi_open_ptr [OF opened(2) l(2)] and h = common_cfg_parse_set [OF opened(1)]
  show ?thesis
  proof (cases "m = 0")
    case True
    then show ?thesis using opened(3) O h by simp
  next
    case False
    then show ?thesis using opened(4) O h l(1) by (auto simp: librsu_cfg_reset_def bind_splits split: option.splits)
  qed
qed

lemma librsu_init_inv:
  assumes run: "librsu_init pl junk filename l = Some (r, l')" and inv: "lib_inv l"
    and mutex: "\<And>w r w'. rsu_mutex_init pl w = (r, w') \<Longrightarrow> r \<le> 0"
  shows "lib_inv l' \<and> (r = 0 \<longrightarrow> ctx_state l' = initialized)"
proof (cases "ctx_state l = un_initialized")
  case False
  then show ?thesis using run inv by (auto simp: librsu_init_def)
next
  case True
  then have l: "\<not> hl_set l" "plat_database l \<noteq> DB_LIVE" "ll_intf l = None" using inv by (simp_all add: lib_inv_def)
  let ?l = "l\<lparr>ctx_state := in_progress\<rparr>"
  obtain q w where q: "rsu_mutex_init pl (lib_world l) = (q, w)" by fastforce
  let ?n = "case filename of None \<Rightarrow> DEFAULT_CFG_FILENAME | Some f \<Rightarrow> if f = [] then DEFAULT_CFG_FILENAME else f"
  show ?thesis
  proof (cases "q < 0")
    case True
    then have "r \<noteq> 0" "l' = (set_lib_world ?l w)\<lparr>ctx_state := un_initialized\<rparr>"
      using run q \<open>ctx_state l = un_initialized\<close> by (auto simp: librsu_init_def)
    then show ?thesis using l by (simp add: lib_inv_def)
  next
    case False
    then have "q = 0" using mutex [OF q] by simp
    then obtain s m where p: "librsu_cfg_parse pl junk (Some ?n) ((set_lib_world ?l w)\<lparr>ctx_mutex := MUTEX_FREE\<rparr>) = Some (s, m)"
      and l': "if s \<noteq> 0 then r = - ECFG \<and> l' = m\<lparr>ctx_state := un_initialized\<rparr> else r = 0 \<and> l' = m\<lparr>ctx_state := initialized\<rparr>"
      using run q True by (auto simp: librsu_init_def bind_splits split: if_splits)
    from librsu_cfg_parse_inv [OF p] l l' show ?thesis by (auto simp: lib_inv_def ready_def split: if_splits)
  qed
qed

lemma librsu_exit_inv:
  assumes "librsu_exit pl l = Some l'" "lib_inv l"
  shows "lib_inv l' \<and> ctx_state l' = un_initialized"
proof (cases "ctx_state l")
  case initialized
  then show ?thesis using assms
    by (auto simp: librsu_exit_def lib_inv_def ready_def rsu_qspi_close_def librsu_cfg_reset_def bind_splits split: option.splits)
qed (use assms in \<open>auto simp: librsu_exit_def lib_inv_def\<close>)

text \<open>Stopping returns exactly when closing the log does.\<close>

lemma librsu_exit_defined:
  assumes "lib_inv l"
  shows "librsu_exit pl l = None \<longleftrightarrow> ctx_state l = initialized \<and>
    RSU_logging_exit pl (misc_terminate pl (file_terminate pl (qspi_terminate pl (mbox_terminate pl (lib_world l))))) = None"
proof (cases "ctx_state l = initialized")
  case True
  then obtain hal where h: "ready l hal" using assms by (auto simp: lib_inv_def)
  have "librsu_cfg_reset pl t = None \<longleftrightarrow>
      RSU_logging_exit pl (misc_terminate pl (file_terminate pl (qspi_terminate pl (mbox_terminate pl (lib_world t))))) = None"
    if "ll_intf t = Some hal" for t
    using that by (simp add: librsu_cfg_reset_def Option.bind_eq_None_conv)
  note reset = this [of "l\<lparr>ctx_state := in_progress, ctx_mutex := MUTEX_NONE, plat_database := DB_NULL, hl_set := False\<rparr>"]
  then show ?thesis using True h by (simp add: librsu_exit_def ready_def rsu_qspi_close_def Option.bind_eq_None_conv)
next
  case False
  then show ?thesis using assms by (auto simp: librsu_exit_def lib_inv_def)
qed

lemma librsu_exit_returns:
  assumes "lib_inv l" "\<And>w. RSU_logging_exit pl w \<noteq> None" shows "\<exists>l'. librsu_exit pl l = Some l'"
  using librsu_exit_defined [OF assms(1), of pl] assms(2) by auto

lemma run_call_inv:
  assumes "run_call c l = Some (r, l')" "lib_inv l" shows "lib_inv l'"
proof -
  have "same_frame l l'" using run_call_keeps [of c] assms(1) by (auto simp: keeps_frame_def)
  from same_frame_fields [OF this] assms(2) show ?thesis by (simp add: lib_inv_def ready_def split: rsu_state.splits)
qed

lemma lib_step_inv:
  assumes "lib_step pl l l'" "lib_inv l" "\<And>w r w'. rsu_mutex_init pl w = (r, w') \<Longrightarrow> r \<le> 0"
  shows "lib_inv l'"
  using assms(1)
proof (cases rule: lib_step.cases)
  case (step_init junk filename r)
  then show ?thesis using librsu_init_inv [of pl junk filename l r l'] assms(2,3) by simp
next
  case step_exit
  then show ?thesis using librsu_exit_inv assms(2) by blast
next
  case (step_call c r)
  then show ?thesis using run_call_inv assms(2) by blast
qed

lemma reachable_inv:
  assumes "lib_reachable pl l" "\<And>w r w'. rsu_mutex_init pl w = (r, w') \<Longrightarrow> r \<le> 0"
  shows "lib_inv l"
  using assms(1)
proof (induction rule: lib_reachable.induct)
  case (reach_start l)
  then show ?case by (simp add: lib_start_def lib_inv_def)
next
  case (reach_step l l')
  then show ?case using lib_step_inv assms(2) by blast
qed

text \<open>A call on an initialized library.\<close>

lemma initialized_ready: "lib_inv l \<Longrightarrow> ctx_state l = initialized \<Longrightarrow> \<exists>hal. ready l hal"
  by (simp add: lib_inv_def)

end
