(* ===== verification/Rsu_Cpb_Mark.thy ===== *)
theory Rsu_Cpb_Mark
  imports Rsu_Cpb_Load
begin

text \<open>
  Only a load that fails marks the pointer block corrupted: the operations of the pointer block that
  succeed keep the mark as it was.
\<close>

definition same_mark :: "'w ops \<Rightarrow> 'w ops \<Rightarrow> bool" where
  "same_mark s t \<longleftrightarrow> cpb_corrupted t = cpb_corrupted s"

lemma same_mark_trans: "same_mark s t \<Longrightarrow> same_mark t u \<Longrightarrow> same_mark s u"
  by (simp add: same_mark_def)

lemma same_mark_update [simp]:
  "same_mark s s" "same_mark s (s\<lparr>world := w\<rparr>)" "same_mark s (s\<lparr>cpb := c\<rparr>)" "same_mark s (s\<lparr>cpb_slots := p\<rparr>)"
  "same_mark s (s\<lparr>cpb0_part := i\<rparr>)" "same_mark s (s\<lparr>cpb1_part := i\<rparr>)" "same_mark s (set_cpb_slots s)"
  by (simp_all add: same_mark_def set_cpb_slots_def)

lemma read_dev_mark: "read_dev hal a b n s = Some (r, d, t) \<Longrightarrow> same_mark s t"
  by (auto simp: read_dev_def Option.bind_eq_Some_conv split: option.splits if_splits)

lemma write_dev_mark: "write_dev hal a b n s = Some (r, t) \<Longrightarrow> same_mark s t"
  by (auto simp: write_dev_def Option.bind_eq_Some_conv split: option.splits if_splits)

lemma erase_dev_mark: "erase_dev hal a n s = Some (r, t) \<Longrightarrow> same_mark s t"
  by (auto simp: erase_dev_def Option.bind_eq_Some_conv split: if_splits)

lemma read_part_mark: "read_part hal p off b n s = Some (r, d, t) \<Longrightarrow> same_mark s t"
  by (auto simp: read_part_def Option.bind_eq_Some_conv split: option.splits if_splits dest: read_dev_mark)

lemma write_part_mark: "write_part hal p off b n s = Some (r, t) \<Longrightarrow> same_mark s t"
  by (auto simp: write_part_def Option.bind_eq_Some_conv split: option.splits if_splits dest: write_dev_mark)

lemma erase_part_mark: "erase_part hal p s = Some (r, t) \<Longrightarrow> same_mark s t"
  by (auto simp: erase_part_def Option.bind_eq_Some_conv split: if_splits dest: erase_dev_mark)

lemma read_cpb_mark: "read_cpb hal p s = Some (r, t) \<Longrightarrow> same_mark s t"
  by (auto simp: read_cpb_def bind_splits same_mark_def dest!: read_part_mark)

lemma cpb_good_mark:
  assumes "cpb_good hal p s = Some (g, t)" shows "same_mark s t"
proof -
  obtain r s1 where r: "read_cpb hal p s = Some (r, s1)" using assms by (auto simp: cpb_good_def bind_splits)
  have "same_mark s1 t" using assms r by (auto simp: cpb_good_def bind_splits Let_def same_mark_def split: if_splits)
  then show ?thesis using read_cpb_mark [OF r] by (rule same_mark_trans [rotated])
qed

lemma check_both_cpb_mark:
  assumes "check_both_cpb hal s = Some (r, t)" shows "same_mark s t"
proof -
  obtain b0 w0 where m0: "rsu_malloc hal (world s) 4096 = (b0, w0)" by fastforce
  obtain b1 w1 where m1: "rsu_malloc hal w0 4096 = (b1, w1)" by fastforce
  show ?thesis
  proof (cases "b0 = None \<or> b1 = None")
    case True
    then show ?thesis using assms m0 m1 by (auto simp: check_both_cpb_def split: option.splits)
  next
    case False
    then obtain q d u where r: "read_part hal (sint (cpb0_part s)) 0 b0 4096 (s\<lparr>world := w1\<rparr>) = Some (q, d, u)"
      using assms m0 m1 by (auto simp: check_both_cpb_def bind_splits)
    then have "same_mark s u" using read_part_mark [OF r] by (simp add: same_mark_def)
    moreover have "same_mark u t" using assms m0 m1 False r
      by (auto simp: check_both_cpb_def bind_splits dest: read_part_mark split: if_splits)
    ultimately show ?thesis by (rule same_mark_trans)
  qed
qed

lemma restore_cpb_mark: "restore_cpb hal p s = Some (r, t) \<Longrightarrow> same_mark s t"
  unfolding restore_cpb_def Let_def
  by (auto simp: Option.bind_eq_Some_conv dest!: erase_part_mark write_part_mark
      split: if_splits) (auto simp: same_mark_def set_cpb_slots_def)

lemma find_cpb_parts_mark: "same_mark s (find_cpb_parts s xs)"
proof (induction xs arbitrary: s)
  case (Cons x xs)
  show ?case by (auto simp: Let_def intro: same_mark_trans [OF _ Cons.IH])
qed simp

lemma load_cpb_decide_mark: "load_cpb_decide hal a b s = Some (0, t) \<Longrightarrow> same_mark s t"
  unfolding load_cpb_decide_def
  by (auto simp: bind_splits same_mark_def set_cpb_slots_def dest!: check_both_cpb_mark restore_cpb_mark read_cpb_mark
      split: if_splits)

lemma load_cpb_mark:
  assumes "load_cpb hal s = Some (0, t)" shows "same_mark s t"
proof -
  obtain r0 info w0 where st: "mbox_get_rsu_status hal (world s) = (r0, info, w0)" by (metis prod_cases3)
  let ?s0 = "s\<lparr>world := w0, cpb0_part := - 1, cpb1_part := - 1\<rparr>"
  let ?s1 = "find_cpb_parts ?s0 [0..<unat (partitions (spt s))]"
  define c0 where "c0 \<longleftrightarrow> \<not> cpb_fixed s \<and> st_state info = STATE_CPB0_CORRUPTED"
  have s0: "same_mark s ?s0" by (simp add: same_mark_def)
  then have s1: "same_mark s ?s1" by (rule same_mark_trans) (rule find_cpb_parts_mark)
  have run: "do {
      (g1, s) \<leftarrow> cpb_good hal (cpb1_part ?s1) ?s1;
      (g0, s) \<leftarrow> (if \<not> c0 then cpb_good hal (cpb0_part s) s else Some (False, s));
      load_cpb_decide hal g0 g1 s
    } = Some (0, t)"
    using assms st unfolding c0_def load_cpb_decide_def by (simp add: load_cpb_def Let_def split: if_splits)
  obtain g1 sA where A: "cpb_good hal (cpb1_part ?s1) ?s1 = Some (g1, sA)"
    using run by (auto simp: Option.bind_eq_Some_conv)
  obtain g0 sB where B: "(if \<not> c0 then cpb_good hal (cpb0_part sA) sA else Some (False, sA)) = Some (g0, sB)"
    and D: "load_cpb_decide hal g0 g1 sB = Some (0, t)"
    using run A by (auto simp: Option.bind_eq_Some_conv [of "if \<not> c0 then _ else _"])
  have "same_mark sA sB" using B by (auto split: if_splits dest: cpb_good_mark)
  with cpb_good_mark [OF A] s1 load_cpb_decide_mark [OF D] show ?thesis by (meson same_mark_trans)
qed

lemma update_cpb_loop_mark: "update_cpb_loop hal xs u s = Some (r, t) \<Longrightarrow> same_mark s t"
proof (induction xs arbitrary: u s)
  case (Cons x xs)
  show ?case
  proof (cases "is_cpb_part (spt s) x")
    case True
    with Cons.prems obtain q s1 where w: "write_part hal (int x) 0 (Some (cpb s)) 4096 s = Some (q, s1)"
      and n: "if q \<noteq> 0 then t = s1 else update_cpb_loop hal xs (u + 1) s1 = Some (r, t)"
      by (auto simp: bind_splits split: if_splits)
    then have "same_mark s1 t" using Cons.IH by (auto split: if_splits)
    then show ?thesis using write_part_mark [OF w] by (rule same_mark_trans [rotated])
  qed (use Cons in simp)
qed auto

lemma set_cpb_slot_mark: "set_cpb_slot s x v = Some t \<Longrightarrow> same_mark s t"
  by (auto simp: set_cpb_slot_def bind_splits split: if_splits option.splits)

lemma update_cpb_mark: "update_cpb hal x v s = Some (r, t) \<Longrightarrow> same_mark s t"
  by (auto simp: update_cpb_def bind_splits same_mark_def dest!: update_cpb_loop_mark set_cpb_slot_mark split: if_splits)

lemma writeback_cpb_copy_mark: "writeback_cpb_copy hal x s = Some (r, t) \<Longrightarrow> same_mark s t"
  unfolding writeback_cpb_copy_def Let_def
  by (auto simp: bind_splits same_mark_def dest!: erase_part_mark write_part_mark split: if_splits)

lemma writeback_cpb_loop_mark: "writeback_cpb_loop hal xs u s = Some (r, t) \<Longrightarrow> same_mark s t"
proof (induction xs arbitrary: u s)
  case (Cons x xs)
  show ?case
  proof (cases "is_cpb_part (spt s) x")
    case True
    with Cons.prems obtain q s1 where w: "writeback_cpb_copy hal x s = Some (q, s1)"
      and n: "if q \<noteq> 0 then t = s1 else writeback_cpb_loop hal xs (u + 1) s1 = Some (r, t)"
      by (auto simp: bind_splits split: if_splits)
    then have "same_mark s1 t" using Cons.IH by (auto split: if_splits)
    then show ?thesis using writeback_cpb_copy_mark [OF w] by (rule same_mark_trans [rotated])
  qed (use Cons in simp)
qed auto

lemma compress_loop_mark: "compress_loop x y s = Some (z, t) \<Longrightarrow> same_mark s t"
proof (induction x y s rule: compress_loop.induct)
  case (1 x y s)
  show ?case
  proof (cases "x < cpb_count s")
    case True
    with "1.prems" obtain v where v: "get_cpb_slot s x = Some v"
      by (subst (asm) compress_loop.simps) (auto simp: bind_splits)
    show ?thesis
    proof (cases "cpb_live v")
      case live: True
      with True v "1.prems" obtain u where u: "set_cpb_slot s y v = Some u" "compress_loop (Suc x) (Suc y) u = Some (z, t)"
        by (subst (asm) compress_loop.simps) (auto simp: bind_splits)
      show ?thesis by (rule same_mark_trans [OF set_cpb_slot_mark [OF u(1)] "1.IH"(1) [OF True v live u]])
    next
      case False
      with True v "1.prems" have "compress_loop (Suc x) y s = Some (z, t)"
        by (subst (asm) compress_loop.simps) simp
      then show ?thesis by (rule "1.IH"(2) [OF True v False])
    qed
  next
    case False
    then show ?thesis using "1.prems" by (subst (asm) compress_loop.simps) simp
  qed
qed

lemma erase_rest_mark: "erase_rest x s = Some t \<Longrightarrow> same_mark s t"
proof (induction x s rule: erase_rest.induct)
  case (1 x s)
  show ?case
  proof (cases "x < cpb_count s")
    case True
    with "1.prems" obtain u where u: "set_cpb_slot s x ERASED_ENTRY = Some u" "erase_rest (Suc x) u = Some t"
      by (subst (asm) erase_rest.simps) (auto simp: bind_splits)
    show ?thesis by (rule same_mark_trans [OF set_cpb_slot_mark [OF u(1)] "1.IH" [OF True u]])
  next
    case False
    then show ?thesis using "1.prems" by (subst (asm) erase_rest.simps) simp
  qed
qed

lemma priority_add_mark:
  assumes "priority_add hal p s = Some (0, t)" shows "same_mark s t"
proof -
  have b: "\<not> bad_part p s" using assms by (auto simp: priority_add_def split: if_splits)
  obtain e x where e: "part_at (spt s) (nat p) = Some e" "find_cpb_slot s ERASED_ENTRY [0..<cpb_count s] = Some x"
    using assms b by (auto simp: priority_add_def bind_splits)
  show ?thesis
  proof (cases x)
    case (Some i)
    then obtain q u where "update_cpb hal (int i) (p_offset e) s = Some (q, u)" "load_cpb hal u = Some (0, t)"
      using assms b e by (auto simp: priority_add_def bind_splits split: if_splits)
    then show ?thesis using update_cpb_mark load_cpb_mark same_mark_trans by blast
  next
    case None
    then obtain y u v w m where "compress_loop 0 0 s = Some (y, u)" "set_cpb_slot u y (p_offset e) = Some v"
      "erase_rest (Suc y) v = Some w" "writeback_cpb hal w = Some (0, m)" "load_cpb hal m = Some (0, t)"
      using assms b e by (auto simp: priority_add_def bind_splits split: if_splits)
    then show ?thesis
      using compress_loop_mark set_cpb_slot_mark erase_rest_mark writeback_cpb_loop_mark load_cpb_mark
      by (fastforce simp: writeback_cpb_def same_mark_def split: if_splits)
  qed
qed

lemma priority_remove_mark:
  assumes "priority_remove hal p s = Some (0, t)" shows "same_mark s t"
proof -
  have b: "\<not> bad_part p s" using assms by (auto simp: priority_remove_def split: if_splits)
  obtain e x where e: "part_at (spt s) (nat p) = Some e" "find_cpb_slot s (p_offset e) [0..<cpb_count s] = Some x"
    using assms b by (auto simp: priority_remove_def bind_splits)
  show ?thesis
  proof (cases x)
    case (Some i)
    then obtain q u where "update_cpb hal (int i) SPENT_ENTRY s = Some (q, u)" "load_cpb hal u = Some (0, t)"
      using assms b e by (auto simp: priority_remove_def bind_splits split: if_splits)
    then show ?thesis using update_cpb_mark load_cpb_mark same_mark_trans by blast
  next
    case None
    then have "load_cpb hal s = Some (0, t)" using assms b e by (simp add: priority_remove_def)
    then show ?thesis by (rule load_cpb_mark)
  qed
qed

end
