(* ===== verification/Rsu_Calls.thy ===== *)
theory Rsu_Calls
  imports Rsu_Api_Ok Rsu_Slot_Total Rsu_Cpb_Mark
begin

text \<open>
  What the calls on slots achieve, in terms of the table and the list of pointers in use: the steps a
  successful call has taken, and the invariant of the database that the calls keep.
\<close>

section \<open>Successful runs\<close>

abbreviation lib_db :: "'w lib \<Rightarrow> 'w ops" where
  "lib_db l \<equiv> db (core l)"

lemma or_fail_run:
  "or_fail f e k hal c = Some (r, c') \<longleftrightarrow> (\<exists>q d. f hal (db c) = Some (q, d) \<and>
     (if q \<noteq> 0 then r = e \<and> c' = c\<lparr>db := d\<rparr> else k hal (c\<lparr>db := d\<rparr>) = Some (r, c')))"
  by (auto simp: or_fail_def bind_splits)

lemma need_spt_run:
  "need_spt err k hal c = Some (r, c') \<longleftrightarrow>
     (if spt_corrupted (db c) then r = err (- ECORRUPTED_SPT) \<and> c' = c else k hal c = Some (r, c'))"
  by (auto simp: need_spt_def corrupted_spt_def)

lemma need_cpb_run:
  "need_cpb err k hal c = Some (r, c') \<longleftrightarrow>
     (if cpb_corrupted (db c) then r = err (- ECORRUPTED_CPB) \<and> c' = c else k hal c = Some (r, c'))"
  by (auto simp: need_cpb_def corrupted_cpb_def)

lemma need_writable_run:
  "need_writable err slot k hal c = Some (r, c') \<longleftrightarrow>
     (if librsu_cfg_writeprotected hal slot \<noteq> 0 then r = err (- EWRPROT) \<and> c' = c else k hal c = Some (r, c'))"
  by (auto simp: need_writable_def)

lemma with_slot_run:
  "with_slot err slot k hal c = Some (r, c') \<longleftrightarrow> (\<exists>p. librsu_misc_slot2part partition_ops (db c) slot = Some p \<and>
     (if p < 0 then r = err (- ESLOTNUM) \<and> c' = c else k p hal c = Some (r, c')))"
  by (auto simp: with_slot_def bind_splits)

lemma give_run: "give a hal c = Some (r, c') \<longleftrightarrow> r = a \<and> c' = c"
  by (auto simp: give_def)

lemmas call_runs = if_initialized_run need_args_run locked_run or_fail_run need_spt_run need_cpb_run need_writable_run
  with_slot_run give_run

lemma disable_steps:
  assumes "rsu_slot_disable slot l = Some (0, l')"
  obtains hal p where "ready l hal" "librsu_misc_slot2part partition_ops (lib_db l) slot = Some p" "0 \<le> p"
    "priority_remove hal p (lib_db l) = Some (0, lib_db l')"
  using assms that by (fastforce simp: rsu_slot_disable_def call_runs split: if_splits)

lemma enable_steps:
  assumes "rsu_slot_enable slot l = Some (0, l')"
  obtains hal p d where "ready l hal" "librsu_misc_slot2part partition_ops (lib_db l) slot = Some p" "0 \<le> p"
    "priority_remove hal p (lib_db l) = Some (0, d)" "priority_add hal p d = Some (0, lib_db l')"
  using assms that by (fastforce simp: rsu_slot_enable_def call_runs split: if_splits)

lemma erase_steps:
  assumes "rsu_slot_erase slot l = Some (0, l')"
  obtains hal p d where "ready l hal" "librsu_misc_slot2part partition_ops (lib_db l) slot = Some p" "0 \<le> p"
    "librsu_cfg_writeprotected hal slot = 0" "priority_remove hal p (lib_db l) = Some (0, d)"
    "data_erase hal p d = Some (0, lib_db l')"
  using assms that by (fastforce simp: rsu_slot_erase_def call_runs split: if_splits)

lemma delete_steps:
  assumes "rsu_slot_delete slot l = Some (0, l')"
  obtains hal p d e where "ready l hal" "librsu_misc_slot2part partition_ops (lib_db l) slot = Some p" "0 \<le> p"
    "librsu_cfg_writeprotected hal slot = 0" "priority_remove hal p (lib_db l) = Some (0, d)"
    "data_erase hal p d = Some (0, e)" "partition_delete hal p e = Some (0, lib_db l')"
  using assms that by (fastforce simp: rsu_slot_delete_def call_runs split: if_splits)

section \<open>The invariant of the database\<close>

definition slots_ok :: "('w \<Rightarrow> int \<Rightarrow> byte) \<Rightarrow> 'w ops \<Rightarrow> bool" where
  "slots_ok mem d \<longleftrightarrow> spt_inv d \<and> slots_apart d \<and> cpb_consistent mem d \<and> packed (slots d)"

text \<open>The address of a partition, as the pointer block holds it.\<close>

definition slot_addr :: "'w ops \<Rightarrow> int \<Rightarrow> u64" where
  "slot_addr d p = p_offset (partition (spt d) ! nat p)"

lemma spt_inv_static: "same_static s t \<Longrightarrow> spt_inv t = spt_inv s"
  by (simp add: same_static_def spt_inv_def spt_base_def spt_placed_def spt_sectors_disjoint_def)

lemma slots_apart_static: "same_static s t \<Longrightarrow> slots_apart t = slots_apart s"
  using part_fits_cong [of t s] by (simp add: same_static_def slots_apart_def)

context nor_flash begin

lemma slot_remove:
  assumes "priority_remove hal p d = Some (0, d')" "slots_ok mem d" "librsu_misc_slot2part partition_ops d slot = Some p" "0 \<le> p"
    "cpb_live (slot_addr d p)"
  shows "slots_ok mem d' \<and> live d' = remove1 (slot_addr d p) (live d) \<and> only_cpb mem d d' \<and> same_static d d'"
proof -
  have i: "spt_inv d" "slots_apart d" "cpb_consistent mem d" "packed (slots d)" using assms(2) by (simp_all add: slots_ok_def)
  note f = slot2part_facts [OF i(1) assms(3,4)]
  have p: "p < 2 ^ 31" using f(2) by simp
  note R = priority_remove_live [OF assms(1) i(3,4) f(1) p] and O = priority_remove_only [OF assms(1) i(3) f(1) p]
  have st: "same_static d d'" using O by (simp add: only_cpb_def)
  show ?thesis using R O st i spt_inv_static [OF st] slots_apart_static [OF st] assms(5) by (simp add: slots_ok_def slot_addr_def)
qed

lemma slot_add:
  assumes "priority_add hal p d = Some (0, d')" "slots_ok mem d" "librsu_misc_slot2part partition_ops d slot = Some p" "0 \<le> p"
    "cpb_live (slot_addr d p)"
  shows "slots_ok mem d' \<and> live d' = live d @ [slot_addr d p] \<and> only_cpb mem d d' \<and> priority_get p d' = Some 1 \<and> same_static d d'"
proof -
  have i: "spt_inv d" "slots_apart d" "cpb_consistent mem d" "packed (slots d)" using assms(2) by (simp_all add: slots_ok_def)
  note f = slot2part_facts [OF i(1) assms(3,4)]
  have p: "p < 2 ^ 31" using f(2) by simp
  note R = priority_add_highest [OF assms(1) i(3,4) f(1) p] and O = priority_add_only [OF assms(1) i(3) f(1) p]
  have st: "same_static d d'" using O by (simp add: only_cpb_def)
  show ?thesis using R O st i spt_inv_static [OF st] slots_apart_static [OF st] assms(5) by (simp add: slots_ok_def slot_addr_def)
qed

lemma slot_addr_static: "same_static d d' \<Longrightarrow> slot_addr d' p = slot_addr d p"
  by (simp add: slot_addr_def same_static_def)

lemma slot2part_static:
  "same_static d d' \<Longrightarrow> librsu_misc_slot2part partition_ops d' slot = librsu_misc_slot2part partition_ops d slot"
  by (rule slot2part_spt) (simp add: same_static_def)

text \<open>Erasing a slot.\<close>

lemma slot_data_erase:
  assumes run: "data_erase hal p d = Some (0, d')" and inv: "slots_ok mem d"
    and sp: "librsu_misc_slot2part partition_ops d slot = Some p" "0 \<le> p"
  shows "slots_ok mem d' \<and> (\<exists>w. d' = d\<lparr>world := w\<rparr>) \<and>
    set (region (mem (world d')) (part_addr d (nat p)) (nat (part_len d (nat p)))) \<subseteq> {0xFF} \<and>
    (\<forall>a. a \<notin> part_range d (nat p) \<longrightarrow> mem (world d') a = mem (world d) a)"
proof -
  have i: "spt_inv d" "slots_apart d" "cpb_consistent mem d" "packed (slots d)" using inv by (simp_all add: slots_ok_def)
  note f = slot2part_facts [OF i(1) sp]
  have "part_fits d (nat p)" using i(2) f(3) by (simp add: slots_apart_def)
  then have l: "part_len d (nat p) < 2 ^ 31" "0 \<le> part_len d (nat p)" using part_fits_bounds(1) by (auto simp: part_len_def)
  from run l(1) obtain w where w: "d' = d\<lparr>world := w\<rparr>"
    "\<And>x. x < part_addr d (nat p) \<or> part_addr d (nat p) + part_len d (nat p) \<le> x \<Longrightarrow> mem w x = mem (world d) x"
    "\<And>x. part_addr d (nat p) \<le> x \<Longrightarrow> x < part_addr d (nat p) + part_len d (nat p) \<Longrightarrow> mem w x = 0xFF"
    unfolding data_erase_def by (rule erase_part_spec) auto
  have fr: "mem w a = mem (world d) a" if "a \<notin> part_range d (nat p)" for a
    using w(2) [of a] that by (auto simp: part_range_def)
  have "cpb_consistent mem (d\<lparr>world := w\<rparr>)"
    using cpb_consistent_frame [OF i(3), of w] fr slot_outside_cpb [OF i(1,2) sp] by blast
  moreover have st: "same_static d (d\<lparr>world := w\<rparr>)" by (simp add: same_static_def)
  ultimately have "slots_ok mem d'"
    using i w(1) spt_inv_static [OF st] slots_apart_static [OF st] by (simp add: slots_ok_def slots_def)
  moreover have "set (region (mem w) (part_addr d (nat p)) (nat (part_len d (nat p)))) \<subseteq> {0xFF}"
    using w(3) l(2) by (auto simp: region_def)
  ultimately show ?thesis using w(1) fr by auto
qed

end

end
