(* ===== verification/Rsu_Open_Ok.thy ===== *)
theory Rsu_Open_Ok
  imports Rsu_Open Rsu_Backup_Ok Rsu_Spt_Total
begin

text \<open>
  What opening the database achieves, on every platform that keeps the flash contract: the tables in
  memory are valid, or marked corrupted.
\<close>

definition addresses_apart :: "mbox_data_rsu_spt_address \<Rightarrow> bool" where
  "addresses_apart a \<longleftrightarrow> sint (spt0_address a) + 32768 \<le> sint (spt1_address a) \<or>
     sint (spt1_address a) + 32768 \<le> sint (spt0_address a)"

text \<open>A database as \<^verbatim>\<open>rsu_qspi_open\<close> leaves it.\<close>

definition opened_tables :: "('w \<Rightarrow> int \<Rightarrow> byte) \<Rightarrow> 'w ops \<Rightarrow> bool" where
  "opened_tables mem s \<longleftrightarrow> spt_corrupted s \<and> cpb_corrupted s \<or>
     \<not> spt_corrupted s \<and> wf_spt (spt s) \<and> spt_ok (spt s) \<and> magic_number (spt s) = SPT_MAGIC_NUMBER \<and>
     mtd_part_offset s = spt0_mtd_offset (spt s) (spt0_address (spt_addr s)) \<and>
     (cpb_layout s \<longrightarrow> cpb_corrupted s \<or> cpb_consistent mem s)"

context nor_flash begin

lemma open_tables_ok:
  assumes run: "open_tables hal s = Some (0, p, s')"
    and s: "wf_spt (spt s)" "spt_sectors_disjoint s" "length (cpb s) = CPB_SIZE"
  shows "opened_tables mem s'"
proof -
  obtain r s1 where l: "load_spt hal s = Some (r, s1)" using run by (auto simp: open_tables_def bind_splits)
  show ?thesis
  proof (cases "spt_corrupted s1")
    case True
    then have "s' = s1\<lparr>cpb_corrupted := True\<rparr>" using run l by (simp add: open_tables_def)
    then show ?thesis using True by (simp add: opened_tables_def)
  next
    case False
    then have r: "r = 0" using run l by (auto simp: open_tables_def bind_splits split: if_splits)
    have t: "wf_spt (spt s1)" "spt_ok (spt s1)" "magic_number (spt s1) = SPT_MAGIC_NUMBER"
      "mtd_part_offset s1 = spt0_mtd_offset (spt s1) (spt0_address (spt_addr s))"
      using load_spt_ok [OF l [unfolded r] s(1,2)] by simp_all
    have f: "spt_addr s1 = spt_addr s" "cpb s1 = cpb s" using load_spt_frame [OF l s(1,2)] by simp_all
    obtain q where c: "load_cpb hal s1 = Some (q, s')" "q \<noteq> 0 \<longrightarrow> cpb_corrupted s'"
      using run l r False by (auto simp: open_tables_def bind_splits split: if_splits)
    note st = load_cpb_static [OF c(1)]
    have e: "spt s' = spt s1" "mtd_part_offset s' = mtd_part_offset s1" "spt_addr s' = spt_addr s1"
      "spt_corrupted s' = spt_corrupted s1"
      using st by (simp_all add: same_static_def)
    have "cpb_corrupted s' \<or> cpb_consistent mem s'" if "cpb_layout s'"
      using c load_cpb_consistent [of s1 s'] f(2) s(3) that cpb_layout_cong [OF e(1,2)] by (cases "q = 0") auto
    then show ?thesis using t e f(1) False by (simp add: opened_tables_def)
  qed
qed

lemma rsu_qspi_open_tables:
  assumes run: "rsu_qspi_open (Some hal) True p s = Some (0, p', s')"
    and apart: "\<And>w r a w'. mbox_get_spt_addresses hal w = (r, a, w') \<Longrightarrow> addresses_apart a"
  shows "p = DB_NULL \<and> p' = DB_LIVE \<and> opened_tables mem s'"
proof -
  have p: "p = DB_NULL" using run by (auto simp: rsu_qspi_open_def split: if_splits)
  obtain b0 w0 where m0: "rsu_malloc hal (world s) 72 = (b0, w0)" by fastforce
  obtain b1 w1 where m1: "rsu_malloc hal w0 4096 = (b1, w1)" by fastforce
  obtain b2 w2 where m2: "rsu_malloc hal w1 4096 = (b2, w2)" by fastforce
  obtain r a w3 where mb: "mbox_get_spt_addresses hal w2 = (r, a, w3)" by (metis prod_cases3)
  from run p m0 m1 m2 mb obtain t b where b: "b1 = Some t" "b2 = Some b"
    and o: "open_tables hal (fresh_database a t b w3) = Some (0, p', s')"
    by (auto simp: rsu_qspi_open_def ops_malloc_def Let_def split: if_splits option.splits)
  have l: "length t = 4096" "length b = 4096" using malloc_len m1 m2 b by auto
  have "opened_tables mem s'"
    by (rule open_tables_ok [OF o]) (use l apart [OF mb] wf_spt_of_bytes in \<open>simp_all add: spt_sectors_disjoint_def addresses_apart_def\<close>)
  moreover have "p' = DB_LIVE" using o by (auto simp: open_tables_def rsu_qspi_close_def bind_splits split: if_splits)
  ultimately show ?thesis using p by simp
qed

end

end
