(* ===== verification/Rsu_Api_Example.thy ===== *)
theory Rsu_Api_Example
  imports Rsu_Calls Rsu_Open_Ok Rsu_Slot_Example
begin

text \<open>
  The library on the board of \<^verbatim>\<open>Rsu_Example\<close>: a platform whose set-up never fails, the database as it
  is opened there, and a library that is initialized.
\<close>

section \<open>Opening the tables of the board\<close>

lemma ex_heap: "ex_world\<lparr>heap := \<lambda>i. heap ex_world (Suc i)\<rparr> = ex_world"
  by (simp add: ex_world_def)

lemma ex_malloc: "rsu_malloc (mock_hal base) ex_world n = (Some (map (\<lambda>j. 0) [0..<n]), ex_world)"
  using ex_heap by (simp add: mock_hal_def malloc_mock_def) (simp add: ex_world_def)

lemma ex_fresh:
  fixes t b :: "byte list"
  assumes "length t = 4096" "length b = 4096"
  defines "f \<equiv> fresh_database \<lparr>spt0_address = 0, spt1_address = 32768\<rparr> t b ex_world"
  shows "\<exists>s. load_spt (mock_hal base) f = Some (0, s) \<and> mock_ok (world s) \<and> mock_dsize (world s) = 102400 \<and>
    \<not> spt_corrupted s \<and> spt s = ex_spt \<and> mtd_part_offset s = 0 \<and> length (cpb s) = 4096 \<and>
    (\<forall>a \<ge> 65536. mock_mem (world s) a = mock_mem ex_world a)"
proof -
  have wf: "wf_spt (spt f)" using wf_spt_of_bytes assms(1) by (simp add: f_def)
  have sd: "spt_sectors_disjoint f" by (simp add: f_def spt_sectors_disjoint_def)
  have c: "spt0_copy mock_mem f = spt_bytes ex_spt" "spt1_copy mock_mem f = spt_bytes ex_spt"
    by (simp_all add: f_def spt0_copy_def spt1_copy_def ex_region ex_flash_chunks)
  note rel = mock.reliable_flash_axioms [of base] and nor = mock.nor_flash_axioms [of base]
  obtain r s where l: "load_spt (mock_hal base) f = Some (r, s)" "mock_ok (world s)" "mock_dsize (world s) = mock_dsize (world f)"
    "r = 0" "spt_corrupted s = spt_corrupted f"
    using reliable_flash.rel_load_spt [OF rel, of f] ex_ok wf c ex_spt_valid
    by (auto simp: f_def in_device_def ex_dsize)
  note L = l(1) [unfolded l(4)]
  have s: "spt s = ex_spt" "mtd_part_offset s = spt0_mtd_offset (spt s) 0"
    using nor_flash.load_spt_ok [OF nor L wf sd] c
    by (auto simp: spt_of_bytes_spt_bytes [OF wf_ex_spt] ex_term_names f_def)
  have m0: "spt0_mtd_offset ex_spt 0 = 0" using ex_spt_inv by (simp add: spt_inv_def spt_base_def)
  have fr: "cpb s = b" "\<forall>a \<ge> 65536. mock_mem (world s) a = mock_mem ex_world a"
    using nor_flash.load_spt_frame [OF nor L wf sd] by (auto simp: f_def)
  show ?thesis using L l s m0 fr assms(2) by (auto simp: f_def ex_dsize)
qed

lemma ex_open:
  "\<exists>s. rsu_qspi_open (Some (mock_hal base)) True DB_NULL (d\<lparr>world := ex_world\<rparr>) = Some (0, DB_LIVE, s) \<and>
    \<not> spt_corrupted s \<and> spt s = ex_spt"
proof -
  let ?z = "map (\<lambda>j. 0 :: byte) [0..<4096]" and ?a = "\<lparr>spt0_address = 0, spt1_address = 32768\<rparr> :: mbox_data_rsu_spt_address"
  have m: "mbox_get_spt_addresses (mock_hal base) ex_world = (0, ?a, ex_world)"
    by (simp add: mock_hal_def plat_mbox_get_spt_addresses_mock_def)
  obtain s where l: "load_spt (mock_hal base) (fresh_database ?a ?z ?z ex_world) = Some (0, s)" "mock_ok (world s)"
    "mock_dsize (world s) = 102400" "\<not> spt_corrupted s" "spt s = ex_spt" "mtd_part_offset s = 0" "length (cpb s) = 4096"
    "\<forall>a \<ge> 65536. mock_mem (world s) a = mock_mem ex_world a"
    using ex_fresh [of ?z ?z base] by auto
  have e: "spt s = spt ex_db" "mtd_part_offset s = mtd_part_offset ex_db" using l by simp_all
  have pa: "part_addr s x = part_addr ex_db x" for x using e by (simp add: part_addr_def)
  have pc: "part_copy mock_mem s x = ex_cpb" if "x \<in> set (cpb_parts (spt s))" for x
  proof -
    have x: "x = 2 \<or> x = 3" using that l(5) by (auto simp: ex_cpb_parts)
    then have "region (mock_mem (world s)) (part_addr s x) 4096 = region (mock_mem ex_world) (part_addr ex_db x) 4096"
      unfolding pa using l(8) by (intro region_cong) auto
    then show ?thesis using x by (auto simp: part_copy_def ex_region ex_flash_chunks)
  qed
  have "cpb_layout s" using ex_layout cpb_layout_cong [OF e] by simp
  moreover have "parts_in_device mock_dsize s"
    using ex_parts_in_device parts_in_device_cong [OF e, of mock_dsize] l(3) by (simp add: ex_dsize)
  moreover have "cpb_valid (spt s) ex_cpb" using ex_cpb_valid l(5) by simp
  ultimately obtain u where u: "load_cpb (mock_hal base) s = Some (0, u)"
    using reliable_flash.rel_load_cpb_copies [OF mock.reliable_flash_axioms [of base] l(2) _ _ l(7) pc] by blast
  have "open_tables (mock_hal base) (fresh_database ?a ?z ?z ex_world) = Some (0, DB_LIVE, u)"
    using l(1,4) u by (simp add: open_tables_def)
  moreover have "spt u = ex_spt" "\<not> spt_corrupted u" using load_cpb_static [OF u] l(4,5) by (simp_all add: same_static_def)
  ultimately show ?thesis
    using m by (simp add: rsu_qspi_open_def ops_malloc_def ex_malloc)
qed

section \<open>A platform and a library\<close>

definition ex_platform :: "mock_world platform" where
  "ex_platform = \<lparr>tables = ex_hal, RSU_logging_init = (\<lambda>w f. Some (0, w)), RSU_logging_exit = Some,
     plat_filesys_init = (\<lambda>w. (0, w)), plat_mbox_init = (\<lambda>w f. Some (0, w)),
     plat_qspi_init = (\<lambda>w f. Some (0, w)), plat_rsu_misc_init = (\<lambda>w f. Some (0, w)), file_terminate = id, mbox_terminate = id, qspi_terminate = id,
     misc_terminate = id, rsu_mutex_init = (\<lambda>w. (0, w))\<rparr>"

definition ex_lib_off :: "mock_world lib" where
  "ex_lib_off = \<lparr>ctx_state = un_initialized, ctx_mutex = MUTEX_NONE, hl_set = False, ll_intf = None,
     plat_database = DB_NULL, core = ex_cb []\<rparr>"

definition ex_lib :: "mock_world lib" where
  "ex_lib = \<lparr>ctx_state = initialized, ctx_mutex = MUTEX_FREE, hl_set = True, ll_intf = Some ex_hal,
     plat_database = DB_LIVE, core = ex_cb []\<rparr>"

lemma ex_lib_fields [simp]:
  "ctx_state ex_lib = initialized" "ll_intf ex_lib = Some ex_hal" "core ex_lib = ex_cb []" "ready ex_lib ex_hal"
  by (simp_all add: ex_lib_def ready_def)

text \<open>Without a configuration file the library starts with the defaults.\<close>

lemma ex_cfg: "librsu_common_cfg_parse junk (Some name) (Some (ex_hal\<lparr>writeprotect := 0, spt_checksum_enabled := 0\<rparr>)) ex_world =
    Some (- ENOENT, Some (mock_hal (ex_base\<lparr>spt_checksum_enabled := 1\<rparr>)), ex_world)"
  by (simp add: librsu_common_cfg_parse_def mock_hal_def ex_base_def)

lemma ex_lib_starts:
  "\<exists>l. librsu_init ex_platform junk None ex_lib_off = Some (0, l) \<and> ctx_state l = initialized \<and> spt (lib_db l) = ex_spt \<and>
    plat_database l = DB_LIVE"
proof -
  let ?hal = "mock_hal (ex_base\<lparr>spt_checksum_enabled := 1\<rparr>)"
  obtain s where s: "rsu_qspi_open (Some ?hal) True DB_NULL (ex_db\<lparr>world := ex_world\<rparr>) = Some (0, DB_LIVE, s)"
    "spt s = ex_spt" using ex_open [of _ ex_db] by blast
  have w: "ex_db\<lparr>world := ex_world\<rparr> = ex_db" by (simp add: ex_db_def)
  show ?thesis
    using s by (simp add: librsu_init_def librsu_cfg_parse_def platform_setup_def ex_platform_def ex_lib_off_def ex_malloc ex_cfg w)
qed

end
