(* ===== verification/Rsu_Api_Props.thy ===== *)
theory Rsu_Api_Props
  imports Rsu_Api_Example
begin

text \<open>
  The properties of the library as a whole: opening the tables, the configuration, and calls on a
  library that is not initialized. The invariant of its states is in \<^verbatim>\<open>Rsu_Linux_Props\<close>, where it is
  applied to the Linux platform.
\<close>

section \<open>Opening and configuring\<close>

text \<open>C26: When opening the database succeeds, the pointer to it was NULL, and either both tables are
  marked corrupted, or the SPT in memory passes the checks, and, if it places the two CPB partitions well
  (\<open>cpb_layout\<close>: where the table says, large enough for the block, not in each other's way), the pointer
  block is valid and the same in both copies or marked corrupted.\<close>

theorem qspi_open_correct:
  assumes "nor_flash hal mem" "rsu_qspi_open (Some hal) True p s = Some (0, p', s')"
    "\<And>w r a w'. mbox_get_spt_addresses hal w = (r, a, w') \<Longrightarrow> addresses_apart a"
  shows "p = DB_NULL \<and> p' = DB_LIVE \<and> (spt_corrupted s' \<and> cpb_corrupted s' \<or>
    \<not> spt_corrupted s' \<and> wf_spt (spt s') \<and> spt_ok (spt s') \<and> magic_number (spt s') = SPT_MAGIC_NUMBER \<and>
    mtd_part_offset s' = spt0_mtd_offset (spt s') (spt0_address (spt_addr s')) \<and>
    (cpb_layout s' \<longrightarrow> cpb_corrupted s' \<or> cpb_consistent mem s'))"
  using nor_flash.rsu_qspi_open_tables [OF assms] by (simp add: opened_tables_def)

theorem qspi_open_correct_witness:
  "\<exists>s. rsu_qspi_open (Some ex_hal) True DB_NULL ex_db = Some (0, DB_LIVE, s) \<and> spt_ok (spt s)"
proof -
  have w: "ex_db\<lparr>world := ex_world\<rparr> = ex_db" by (simp add: ex_db_def)
  obtain s where s: "rsu_qspi_open (Some ex_hal) True DB_NULL ex_db = Some (0, DB_LIVE, s)" "\<not> spt_corrupted s"
    using ex_open [of ex_base ex_db] unfolding w by blast
  have a: "addresses_apart a" if "mbox_get_spt_addresses ex_hal w = (r, a, w')" for w r a w'
    using that by (auto simp: mock_hal_def plat_mbox_get_spt_addresses_mock_def addresses_apart_def)
  from qspi_open_correct [OF ex_nor s(1) a] s show ?thesis by auto
qed

text \<open>C27: Once an error path of \<^verbatim>\<open>rsu_qspi_open\<close> has left the pointer to the database dangling, no
  \<^verbatim>\<open>librsu_init\<close> succeeds any more, though the library is not initialized.\<close>

theorem failed_open_is_final:
  assumes "plat_database l = DB_FREED" "librsu_init pl junk filename l = Some (r, l')"
  shows "r \<noteq> 0 \<and> plat_database l' = DB_FREED"
proof (cases "ctx_state l = un_initialized")
  case True
  let ?n = "case filename of None \<Rightarrow> DEFAULT_CFG_FILENAME | Some f \<Rightarrow> if f = [] then DEFAULT_CFG_FILENAME else f"
  obtain q w where q: "rsu_mutex_init pl (lib_world l) = (q, w)" by fastforce
  show ?thesis
  proof (cases "q < 0")
    case neg: True
    then show ?thesis using True q assms by (auto simp: librsu_init_def)
  next
    case False
    then obtain s m where p: "librsu_cfg_parse pl junk (Some ?n)
        ((set_lib_world (l\<lparr>ctx_state := in_progress\<rparr>) w)\<lparr>ctx_mutex := if q = 0 then MUTEX_FREE else MUTEX_NONE\<rparr>) = Some (s, m)"
      and l': "if s \<noteq> 0 then r = - ECFG \<and> l' = m\<lparr>ctx_state := un_initialized\<rparr> else r = 0 \<and> l' = m\<lparr>ctx_state := initialized\<rparr>"
      using assms(2) q True by (auto simp: librsu_init_def bind_splits split: if_splits)
    from p have "s \<noteq> 0 \<and> plat_database m = DB_FREED"
    proof (cases rule: librsu_cfg_parse_cases)
      case (opened w0 h w1 ret p d k)
      have "k \<noteq> 0 \<and> p = DB_FREED" using opened(2) assms(1) by (auto simp: rsu_qspi_open_def split: option.splits)
      then show ?thesis using opened(4) by (auto simp: librsu_cfg_reset_def bind_splits split: option.splits)
    qed (use assms(1) in simp)
    then show ?thesis using l' by simp
  qed
qed (use assms in \<open>auto simp: librsu_init_def\<close>)

text \<open>The first start below fails for want of memory; the second has all the memory it asks for.\<close>

definition ex_short_heap :: "nat \<Rightarrow> (nat \<Rightarrow> byte) option" where
  "ex_short_heap i = (if i = 2 then None else Some (\<lambda>j. 0))"

theorem failed_open_is_final_witness:
  "\<exists>l l'. librsu_init ex_platform [] None (set_lib_world ex_lib_off (ex_world\<lparr>heap := ex_short_heap\<rparr>)) = Some (- ECFG, l) \<and>
    librsu_init ex_platform [] None (set_lib_world l ex_world) = Some (- ECFG, l') \<and> plat_database l' = DB_FREED"
proof -
  let ?hal = "ex_hal\<lparr>writeprotect := 0, spt_checksum_enabled := 0\<rparr>"
  have c: "librsu_common_cfg_parse junk (Some name) (Some ?hal) w =
      Some (- ENOENT, Some (mock_hal (ex_base\<lparr>spt_checksum_enabled := 1\<rparr>)), w)" for junk name w
    by (simp add: librsu_common_cfg_parse_def mock_hal_def ex_base_def)
  have m: "rsu_malloc (mock_hal b) w n = malloc_mock w n" for b w n by (simp add: mock_hal_def)
  obtain l where l: "librsu_init ex_platform [] None (set_lib_world ex_lib_off (ex_world\<lparr>heap := ex_short_heap\<rparr>)) = Some (- ECFG, l)"
    "ctx_state l = un_initialized" "plat_database l = DB_FREED" "ll_intf l = None"
    by (simp add: librsu_init_def librsu_cfg_parse_def platform_setup_def ex_platform_def ex_lib_off_def m malloc_mock_def c
        rsu_qspi_open_def ops_malloc_def ex_short_heap_def librsu_cfg_reset_def)
  let ?l = "set_lib_world l ex_world"
  have "librsu_init ex_platform [] None ?l \<noteq> None"
    using l by (simp add: librsu_init_def librsu_cfg_parse_def platform_setup_def ex_platform_def ex_malloc c rsu_qspi_open_def librsu_cfg_reset_def)
  then obtain r l' where i: "librsu_init ex_platform [] None ?l = Some (r, l')" by auto
  have "plat_database l' = DB_FREED \<and> r \<noteq> 0" using failed_open_is_final [OF _ i] l(3) by simp
  moreover have "r = - ECFG" if "r \<noteq> 0"
    using i l(2) that by (auto simp: librsu_init_def ex_platform_def bind_splits split: if_splits)
  ultimately show ?thesis using l(1) i by auto
qed

lemma split_words_join:
  "\<forall>w \<in> set ws. w \<noteq> [] \<and> (\<forall>c \<in> set w. 32 < c) \<Longrightarrow> split_words (concat (map (\<lambda>w. w @ [32]) ws)) n = take n ws"
proof (induction ws arbitrary: n)
  case Nil
  then show ?case by (simp add: split_words.simps)
next
  case (Cons w ws)
  obtain x xs where w: "w = x # xs" "32 < x" using Cons.prems by (cases w) auto
  have all: "\<forall>c \<in> set w. 32 < c" using Cons.prems by simp
  let ?r = "32 # concat (map (\<lambda>w. w @ [32]) ws)"
  have s: "concat (map (\<lambda>w. w @ [32]) (w # ws)) = w @ ?r" by simp
  have d: "dropWhile (\<lambda>x. x \<le> 32) (w @ ?r) = w @ ?r" using w by (simp add: not_le)
  have t: "takeWhile (\<lambda>x. 32 < x) (w @ ?r) = w" "dropWhile (\<lambda>x. 32 < x) (w @ ?r) = ?r"
    using all by (simp_all add: takeWhile_append2 dropWhile_append2)
  show ?case
  proof (cases n)
    case 0
    then show ?thesis by (simp add: split_words.simps)
  next
    case (Suc m)
    have "split_words (w @ ?r) n = w # split_words (drop 1 ?r) (n - 1)"
      using d t Suc w by (subst split_words.simps) (simp split: list.split)
    then show ?thesis using s Cons Suc by simp
  qed
qed

text \<open>\<^verbatim>\<open>split_line\<close> gives back the words a line was made of, as many as there is room for.\<close>

theorem split_line_join:
  assumes "\<forall>w \<in> set ws. w \<noteq> [] \<and> (\<forall>c \<in> set w. 32 < c)"
  shows "split_line (concat (map (\<lambda>w. w @ [32]) ws) @ 0 # rest) n = Some (take n ws)"
proof -
  let ?s = "concat (map (\<lambda>w. w @ [32]) ws)"
  have "c \<noteq> 0" if c: "c \<in> set ?s" for c
  proof (cases "c = 32")
    case False
    then obtain w where "w \<in> set ws" "c \<in> set w" using c by (auto split: if_splits)
    then have "32 < c" using assms by blast
    then show ?thesis by (cases "c = 0") simp_all
  qed simp
  then have "takeWhile (\<lambda>c. c \<noteq> 0) (?s @ 0 # rest) = ?s" by (subst takeWhile_append2) simp_all
  then show ?thesis using split_words_join [OF assms] by (simp add: split_line_def c_str_def)
qed

theorem split_line_join_witness: "split_line (chars ''write-protect 3 '' @ [0, 7, 7]) 16 = Some [chars ''write-protect'', chars ''3'']"
  using split_line_join [of "[chars ''write-protect'', chars ''3'']" "[7, 7]" 16] by (simp add: chars_def of_char_def)

section \<open>The state of the library\<close>

text \<open>On a library that is not initialized every call returns \<^verbatim>\<open>-ELIB\<close> and changes nothing.\<close>

theorem call_uninitialized:
  assumes "ctx_state l \<noteq> initialized" shows "run_call c l = Some (- ELIB, l)"
  by (rule run_call_uninitialized [OF assms])

theorem call_uninitialized_witness: "run_call (Slot_erase 0) ex_lib_off = Some (- ELIB, ex_lib_off)"
  by (rule call_uninitialized) (simp add: ex_lib_off_def)

end
