(* ===== verification/Rsu_Spt_Area.thy ===== *)
theory Rsu_Spt_Area
  imports Rsu_Slot_Image
begin

text \<open>
  The part of the flash that a change of the SPT may touch: the two partitions of the SPT and the two
  32 KiB sectors that a repair erases. Every other partition lies outside when the partitions of the SPT
  are as large as the sectors.
\<close>

definition spt_area :: "'w ops \<Rightarrow> int set" where
  "spt_area s = {a. in_spt_sectors s a} \<union> (\<Union>p \<in> set (spt_entries (spt s)).
     {sint (p_offset p - mtd_part_offset s) ..< sint (p_offset p - mtd_part_offset s) + uint (p_length p)})"

definition spt_roomy :: "'w ops \<Rightarrow> bool" where
  "spt_roomy s \<longleftrightarrow> (\<forall>y \<in> set (spt_parts (spt s)). 32768 \<le> part_len s y)"

lemma spt_part_entry:
  assumes "x \<in> set (spt_parts (spt s))" "unat (partitions (spt s)) \<le> length (partition (spt s))"
  shows "partition (spt s) ! x \<in> set (spt_entries (spt s))"
proof -
  let ?n = "unat (partitions (spt s))"
  have x: "x < ?n" "is_spt_part (spt s) x" using assms(1) by (auto simp: spt_parts_def)
  then have "partition (spt s) ! x = take ?n (partition (spt s)) ! x" "x < length (take ?n (partition (spt s)))"
    using assms(2) by simp_all
  then have "partition (spt s) ! x \<in> set (take ?n (partition (spt s)))" by (metis nth_mem)
  then show ?thesis using x(2) by (auto simp: spt_entries_def is_spt_part_def)
qed

lemma spt_entry_part:
  assumes "p \<in> set (spt_entries (spt s))" "unat (partitions (spt s)) \<le> length (partition (spt s))"
  obtains x where "x \<in> set (spt_parts (spt s))" "partition (spt s) ! x = p"
proof -
  obtain x where "x < unat (partitions (spt s))" "partition (spt s) ! x = p" "name_is p ''SPT0'' \<or> name_is p ''SPT1''"
    using assms by (auto simp: spt_entries_def in_set_conv_nth)
  then show thesis by (intro that [of x]) (auto simp: spt_parts_def is_spt_part_def)
qed

lemma part_range_in_area:
  assumes "x \<in> set (spt_parts (spt s))" "unat (partitions (spt s)) \<le> length (partition (spt s))"
  shows "part_range s x \<subseteq> spt_area s"
  using spt_part_entry [OF assms] by (auto simp: spt_area_def part_range_def part_addr_def part_len_def)

lemma spt_area_table:
  "spt_entries t = spt_entries (spt s) \<Longrightarrow> spt_area (s\<lparr>spt := t\<rparr>) = spt_area s"
  by (simp add: spt_area_def in_spt_sectors_def)

lemma spt_area_static: "same_static s t \<Longrightarrow> spt_area t = spt_area s"
  by (simp add: spt_area_def in_spt_sectors_def same_static_def)

lemma spt_roomy_static: "same_static s t \<Longrightarrow> spt_roomy t = spt_roomy s"
  by (simp add: spt_roomy_def part_len_def same_static_def)

text \<open>In a table with roomy SPT partitions the area is just these.\<close>

lemma spt_area_parts:
  assumes "spt_inv s" "spt_roomy s" "a \<in> spt_area s"
  obtains x where "x \<in> set (spt_parts (spt s))" "a \<in> part_range s x"
proof -
  have b: "spt_placed s" "unat (partitions (spt s)) \<le> length (partition (spt s))"
    using assms(1) by (auto simp: spt_inv_def spt_base_def wf_spt_def)
  from assms(3) consider (sector) "in_spt_sectors s a"
    | (entry) p where "p \<in> set (spt_entries (spt s))" "sint (p_offset p - mtd_part_offset s) \<le> a"
        "a < sint (p_offset p - mtd_part_offset s) + uint (p_length p)"
    by (auto simp: spt_area_def)
  then show thesis
  proof cases
    case sector
    obtain x y where xy: "set (spt_parts (spt s)) = {x, y}" "part_addr s x = sint (spt0_address (spt_addr s))"
      "part_addr s y = sint (spt1_address (spt_addr s))" by (rule spt_placed_parts [OF b])
    have "32768 \<le> part_len s x" "32768 \<le> part_len s y" using assms(2) xy(1) by (simp_all add: spt_roomy_def)
    then show thesis using sector that [of x] that [of y] xy by (auto simp: in_spt_sectors_def part_range_def)
  next
    case entry
    obtain x where "x \<in> set (spt_parts (spt s))" "partition (spt s) ! x = p" by (rule spt_entry_part [OF entry(1) b(2)])
    then show thesis using that [of x] entry by (auto simp: part_range_def part_addr_def part_len_def)
  qed
qed

lemma part_outside_spt:
  assumes "spt_inv s" "slots_apart s" "spt_roomy s" "x < unat (partitions (spt s))" "x \<notin> set (spt_parts (spt s))"
  shows "part_range s x \<inter> spt_area s = {}"
proof -
  have "part_range s x \<inter> part_range s y = {}" if "y \<in> set (spt_parts (spt s))" for y
  proof (rule parts_disjoint)
    have y: "y < unat (partitions (spt s))" "x \<noteq> y" using that assms(5) by (auto simp: spt_parts_def)
    show "part_fits s x" "part_fits s y" "0 \<le> sint (mtd_part_offset s)"
      using assms(2,4) y(1) by (simp_all add: slots_apart_def)
    show "\<not> parts_overlap (partition (spt s) ! x) (partition (spt s) ! y)"
      using assms(1,4) y by (simp add: spt_inv_def spt_ok_def)
  qed
  then show ?thesis using spt_area_parts [OF assms(1,3)] by blast
qed

context nor_flash begin

lemma load_spt_area:
  assumes "load_spt hal s = Some (r, s')" "wf_spt (spt s)" "spt_sectors_disjoint s" "a \<notin> spt_area s"
  shows "mem (world s') a = mem (world s) a"
  using load_spt_frame [OF assms(1-3)] assms(4) by (fastforce simp: spt_area_def in_spt_sectors_def)

lemma commit_spt_frame:
  assumes w: "writeback_spt hal s = Some (0, s1)" and l: "load_spt hal s1 = Some (0, s')" and b: "spt_base s"
  shows "cpb s' = cpb s \<and> (\<forall>a. a \<notin> spt_area s \<longrightarrow> mem (world s') a = mem (world s) a)"
proof -
  have wf: "wf_spt (spt s)" and m: "magic_number (spt s) = SPT_MAGIC_NUMBER" and pl: "spt_placed s"
    and sd: "spt_sectors_disjoint s" and n: "unat (partitions (spt s)) \<le> length (partition (spt s))"
    using b by (auto simp: spt_base_def wf_spt_def)
  obtain x y where xy: "set (spt_parts (spt s)) = {x, y}" "part_len s x < 2 ^ 31" "part_len s y < 2 ^ 31"
    "part_range s x \<inter> part_range s y = {}" by (rule spt_placed_parts [OF pl n])
  have rd: "ranges_disjoint s (set (spt_parts (spt s)))" and ln: "\<And>z. z \<in> set (spt_parts (spt s)) \<Longrightarrow> part_len s z < 2 ^ 31"
    using xy by (auto simp: ranges_disjoint_def)
  note ws = writeback_spt_spec [OF w wf m ln rd]
  then obtain u v where s1: "s1 = s\<lparr>spt := u, world := v\<rparr>" "wf_spt u" "partition u = partition (spt s)"
    "partitions u = partitions (spt s)" by blast
  have "spt_entries u = spt_entries (spt s)" using s1(3,4) by (simp add: spt_entries_def)
  then have a1: "spt_area s1 = spt_area s" using s1(1) by (simp add: spt_area_def in_spt_sectors_def)
  have d1: "wf_spt (spt s1)" "spt_sectors_disjoint s1" using s1 sd by (simp_all add: spt_sectors_disjoint_def)
  have "mem (world s') a = mem (world s) a" if "a \<notin> spt_area s" for a
  proof -
    have "mem (world s') a = mem (world s1) a" by (rule load_spt_area [OF l d1]) (use that a1 in simp)
    moreover have "a \<notin> (\<Union>x \<in> set (spt_parts (spt s)). part_range s x)" using part_range_in_area [OF _ n] that by blast
    ultimately show ?thesis using ws by simp
  qed
  moreover have "cpb s' = cpb s" using load_spt_frame [OF l d1] s1(1) by simp
  ultimately show ?thesis by blast
qed

lemma partition_delete_frame:
  assumes run: "partition_delete hal k s = Some (0, s')" and k: "k < 2 ^ 31" and inv: "spt_inv s"
    and ns: "\<not> is_spt_part (spt s) (nat k)"
  shows "cpb s' = cpb s \<and> (\<forall>a. a \<notin> spt_area s \<longrightarrow> mem (world s') a = mem (world s) a)"
proof -
  let ?t = "deleted_table (spt s) (nat k)"
  from run obtain s1 where b: "\<not> bad_part k s"
    and w: "writeback_spt hal (s\<lparr>spt := ?t\<rparr>) = Some (0, s1)" "load_spt hal s1 = Some (0, s')"
    by (auto simp: partition_delete_run Option.bind_eq_Some_conv split: if_splits)
  note db = delete_base [OF inv bad_part_index(2) [OF b k] ns]
  show ?thesis using commit_spt_frame [OF w db(1)] spt_area_table [OF db(2)] by simp
qed

end

end
