(* ===== verification/Rsu_Slot_Calls.thy ===== *)
theory Rsu_Slot_Calls
  imports Rsu_Api_Example Rsu_Flash_Props Rsu_Slot_Props Rsu_Spt_Area
begin

text \<open>
  The calls that number and name slots, related to the list of the slots of the table; and the calls
  that change slots, as steps on the list of pointers in use and on the flash.
\<close>

section \<open>Counting and finding\<close>

lemma slots_defined:
  assumes "spt_inv d" "x \<in> set [0..partition_count d - 1]"
  shows "librsu_misc_is_slot partition_ops d x \<noteq> None" "c_str (partition_name x d) \<noteq> None"
  using part_slots.is_slot_defined [OF assms(1), of x] part_slots.name_terminated [OF assms(1), of x] assms(2)
  by (simp_all add: partition_ops_def)

lemma slots_of_filter:
  "slots_of partition_ops d = filter (\<lambda>x. librsu_misc_is_slot partition_ops d x = Some True) [0..partition_count d - 1]"
  by (simp add: slots_of_def partition_ops_def)

lemma slot2part_slots_of:
  "spt_inv d \<Longrightarrow> librsu_misc_slot2part partition_ops d slot = Some p \<Longrightarrow> 0 \<le> p \<Longrightarrow> p \<in> set (slots_of partition_ops d)"
  using part_slots.slot2part_is_slot [of d slot p] by (simp add: slots_of_def)

lemma slot_count_loop_length:
  "\<forall>x \<in> set xs. librsu_misc_is_slot partition_ops d x \<noteq> None \<Longrightarrow>
     slot_count_loop d xs c = Some (c + int (length (filter (\<lambda>x. librsu_misc_is_slot partition_ops d x = Some True) xs)))"
  by (induction xs arbitrary: c) auto

lemma slot_by_name_loop_first:
  assumes "\<forall>x \<in> set xs. librsu_misc_is_slot partition_ops d x \<noteq> None \<and> c_str (partition_name x d) \<noteq> None"
  defines "ys \<equiv> filter (\<lambda>x. librsu_misc_is_slot partition_ops d x = Some True) xs"
  shows "(\<forall>y \<in> set ys. c_str (partition_name y d) \<noteq> Some name) \<and> slot_by_name_loop d name xs c = Some (- ENAME) \<or>
    (\<exists>i < length ys. c_str (partition_name (ys ! i) d) = Some name \<and> slot_by_name_loop d name xs c = Some (c + int i))"
  using assms(1) unfolding ys_def
proof (induction xs arbitrary: c)
  case Nil
  then show ?case by simp
next
  case (Cons x xs)
  obtain b n where b: "librsu_misc_is_slot partition_ops d x = Some b" "c_str (partition_name x d) = Some n"
    using Cons.prems by fastforce
  let ?f = "filter (\<lambda>x. librsu_misc_is_slot partition_ops d x = Some True)"
  have IH: "(\<forall>y \<in> set (?f xs). c_str (partition_name y d) \<noteq> Some name) \<and> slot_by_name_loop d name xs c = Some (- ENAME) \<or>
    (\<exists>i < length (?f xs). c_str (partition_name (?f xs ! i) d) = Some name \<and> slot_by_name_loop d name xs c = Some (c + int i))" for c
    using Cons.prems by (intro Cons.IH) simp
  show ?case
  proof (cases "b \<and> name \<noteq> n")
    case True
    then have s: "?f (x # xs) = x # ?f xs" "slot_by_name_loop d name (x # xs) c = slot_by_name_loop d name xs (c + 1)"
      using b by simp_all
    from IH [of "c + 1"] show ?thesis
    proof
      assume "\<exists>i < length (?f xs). c_str (partition_name (?f xs ! i) d) = Some name \<and>
        slot_by_name_loop d name xs (c + 1) = Some (c + 1 + int i)"
      then obtain i where "i < length (?f xs)" "c_str (partition_name (?f xs ! i) d) = Some name"
        "slot_by_name_loop d name xs (c + 1) = Some (c + 1 + int i)" by blast
      then show ?thesis unfolding s by (intro disjI2 exI [of _ "Suc i"]) simp
    qed (use s b True in auto)
  next
    case False
    then show ?thesis using IH [of c] b by auto
  qed
qed

lemma slot_count_run:
  assumes "ctx_state l = initialized" "ready l hal" "\<not> spt_corrupted (lib_db l)" "spt_inv (lib_db l)"
  shows "rsu_slot_count l = Some (int (length (slots_of partition_ops (lib_db l))), l)"
  using assms slots_defined [OF assms(4)] slot_count_loop_length [of "[0..partition_count (lib_db l) - 1]" "lib_db l" 0]
  by (simp add: rsu_slot_count_def if_initialized_def locked_ready need_spt_def corrupted_spt_def slots_of_filter)

lemma slot_by_name_run:
  assumes "ctx_state l = initialized" "ready l hal" "\<not> spt_corrupted (lib_db l)" "spt_inv (lib_db l)"
  defines "ys \<equiv> slots_of partition_ops (lib_db l)"
  shows "(\<forall>y \<in> set ys. c_str (partition_name y (lib_db l)) \<noteq> Some name) \<and> rsu_slot_by_name (Some name) l = Some (- ENAME, l) \<or>
    (\<exists>i < length ys. c_str (partition_name (ys ! i) (lib_db l)) = Some name \<and> rsu_slot_by_name (Some name) l = Some (int i, l))"
proof -
  have run: "rsu_slot_by_name (Some name) l = Some (r, l)"
    if "slot_by_name_loop (lib_db l) name [0..partition_count (lib_db l) - 1] 0 = Some r" for r
    using assms(1-3) that
    by (simp add: rsu_slot_by_name_def if_initialized_def need_args_def locked_ready need_spt_def corrupted_spt_def)
  show ?thesis
    using slot_by_name_loop_first [of "[0..partition_count (lib_db l) - 1]" "lib_db l" name 0]
      slots_defined [OF assms(4)] run unfolding ys_def slots_of_filter by fastforce
qed

section \<open>The calls that change slots\<close>

lemma slots_ok_spt_inv [dest]: "slots_ok mem d \<Longrightarrow> spt_inv d"
  by (simp add: slots_ok_def)

lemma call_keeps:
  assumes "run_call c l = Some (r, l')"
  shows "ctx_state l' = ctx_state l" "ready l' hal = ready l hal" "ll_intf l' = ll_intf l"
proof -
  have f: "same_frame l l'" using run_call_keeps [of c] assms by (auto simp: keeps_frame_def)
  show "ctx_state l' = ctx_state l" "ready l' hal = ready l hal" "ll_intf l' = ll_intf l"
    using same_frame_fields [OF f] by (simp_all add: ready_def)
qed

lemma ready_unique: "ready l hal \<Longrightarrow> ready l h \<Longrightarrow> h = hal"
  by (simp add: ready_def)

text \<open>The calls that write into a slot, and the slot; of these, the calls that open a file.\<close>

definition slot_written :: "'w api_call \<Rightarrow> int option" where
  "slot_written c = (case c of
      Slot_erase s \<Rightarrow> Some s
    | Slot_delete s \<Rightarrow> Some s
    | Slot_program_buf i s b z \<Rightarrow> Some s
    | Slot_program_factory_update_buf i s b z \<Rightarrow> Some s
    | Slot_program_buf_raw i s b z \<Rightarrow> Some s
    | Slot_program_file i s f \<Rightarrow> Some s
    | Slot_program_factory_update_file i s f \<Rightarrow> Some s
    | Slot_program_file_raw i s f \<Rightarrow> Some s
    | Slot_program_callback i s cb \<Rightarrow> Some s
    | Slot_program_callback_raw i s cb \<Rightarrow> Some s
    | _ \<Rightarrow> None)"

definition from_file :: "'w api_call \<Rightarrow> bool" where
  "from_file c = (case c of
      Slot_program_file i s f \<Rightarrow> True
    | Slot_program_factory_update_file i s f \<Rightarrow> True
    | Slot_program_file_raw i s f \<Rightarrow> True
    | _ \<Rightarrow> False)"

lemma db_cleanup [simp]: "db (librsu_cb_buf_cleanup c) = db c"
  by (simp add: librsu_cb_buf_cleanup_def)

text \<open>A call that is refused: it returns an error and leaves the database alone.\<close>

definition refused :: "'w librsu_ll_intf \<Rightarrow> 'w cb_state \<Rightarrow> ('w, int) call \<Rightarrow> bool" where
  "refused hal c k \<longleftrightarrow> (\<exists>r c'. k hal c = Some (r, c') \<and> r \<noteq> 0 \<and> db c' = db c)"

named_theorems refusals "how a call is refused"

lemma refused_spt [refusals]: "refused hal c k \<Longrightarrow> refused hal c (need_spt id k)"
  by (auto simp: refused_def need_spt_def)

lemma refused_cpb [refusals]: "refused hal c k \<Longrightarrow> refused hal c (need_cpb id k)"
  by (auto simp: refused_def need_cpb_def)

lemma refused_writable [refusals]: "librsu_cfg_writeprotected hal slot \<noteq> 0 \<Longrightarrow> refused hal c (need_writable id slot k)"
  by (auto simp: refused_def need_writable_def)

lemma refused_buf [refusals]:
  "librsu_cfg_writeprotected hal slot \<noteq> 0 \<Longrightarrow> refused hal c (buf_call (program_call st slot raw) b z)"
  by (auto simp: refused_def buf_call_def librsu_cb_buf_init_def program_call_def librsu_cb_program_common_def)

lemma refused_callback [refusals]: "librsu_cfg_writeprotected hal slot \<noteq> 0 \<Longrightarrow> refused hal c (program_call st slot raw cb)"
  by (auto simp: refused_def program_call_def librsu_cb_program_common_def)

lemma refused_locked:
  assumes "ready l hal" "refused hal (core l) body"
  shows "\<exists>r l'. locked body l = Some (r, l') \<and> r \<noteq> 0 \<and> lib_db l' = lib_db l"
proof -
  obtain r c' where b: "body hal (core l) = Some (r, c')" "r \<noteq> 0" "db c' = lib_db l" using assms(2) by (auto simp: refused_def)
  then show ?thesis using locked_ready [of l hal body, OF assms(1) b(1)] by auto
qed

lemma protected_run:
  assumes "ctx_state l = initialized" "ready l hal" "librsu_cfg_writeprotected hal slot \<noteq> 0" "slot_written c = Some slot"
    "\<not> from_file c"
  shows "\<exists>r l'. run_call c l = Some (r, l') \<and> r \<noteq> 0 \<and> lib_db l' = lib_db l"
  using assms(4,5)
  by (cases c; simp add: slot_written_def from_file_def api_defs if_initialized_def assms(1))
    (intro refused_locked [OF assms(2)] refusals assms(3))+

text \<open>
  A call that opens its file first is refused all the same, but the file has been opened and closed: it
  leaves the database alone, and what the file functions leave alone of the platform.
\<close>

definition file_quiet :: "'w librsu_ll_intf \<Rightarrow> ('w \<Rightarrow> 'a) \<Rightarrow> bool" where
  "file_quiet hal f \<longleftrightarrow> (\<forall>w n m. f (snd (file_open hal w n m)) = f w) \<and> (\<forall>w h. f (snd (file_close hal w h)) = f w)"

definition quiet :: "('w \<Rightarrow> 'a) \<Rightarrow> 'w ops \<Rightarrow> 'w ops \<Rightarrow> bool" where
  "quiet f s t \<longleftrightarrow> t\<lparr>world := world s\<rparr> = s \<and> f (world t) = f (world s)"

lemma quiet_refl [simp]: "quiet f s s"
  by (simp add: quiet_def)

lemma quiet_trans: "quiet f s t \<Longrightarrow> quiet f t u \<Longrightarrow> quiet f s u"
  by (cases s; cases t; cases u) (simp add: quiet_def)

definition refused_file :: "('w \<Rightarrow> 'a) \<Rightarrow> 'w librsu_ll_intf \<Rightarrow> 'w cb_state \<Rightarrow> ('w, int) call \<Rightarrow> bool" where
  "refused_file f hal c k \<longleftrightarrow> (\<exists>r c'. k hal c = Some (r, c') \<and> r \<noteq> 0 \<and> quiet f (db c) (db c'))"

lemma file_world_init:
  assumes "file_quiet hal f" shows "quiet f (db c) (db (snd (librsu_cb_file_init (Some hal) name c)))"
proof -
  define d where "d = (case cb_datafile c of None \<Rightarrow> c
    | Some fp \<Rightarrow> (set_world c (snd (file_close hal (world (db c)) fp)))\<lparr>cb_datafile := None\<rparr>)"
  have d: "quiet f (db c) (db d)" using assms by (simp add: d_def quiet_def file_quiet_def split: option.split)
  show ?thesis
  proof (cases name)
    case None
    then show ?thesis using d by (simp add: librsu_cb_file_init_def d_def [symmetric])
  next
    case (Some n)
    obtain h w where o: "file_open hal (world (db d)) n RSU_FILE_READ = (h, w)" by fastforce
    then have "f w = f (world (db d))" using assms by (metis file_quiet_def snd_conv)
    then have "quiet f (db d) ((db d)\<lparr>world := w\<rparr>)" by (simp add: quiet_def)
    moreover have "db (snd (librsu_cb_file_init (Some hal) name c)) = (db d)\<lparr>world := w\<rparr>"
      using Some o by (simp add: librsu_cb_file_init_def d_def [symmetric] Let_def)
    ultimately show ?thesis using quiet_trans [OF d] by simp
  qed
qed

lemma file_world_cleanup: "file_quiet hal f \<Longrightarrow> quiet f (db c) (db (librsu_cb_file_cleanup (Some hal) c))"
  by (simp add: librsu_cb_file_cleanup_def quiet_def file_quiet_def split: option.split)

lemma refused_file_program:
  assumes "librsu_cfg_writeprotected hal slot \<noteq> 0" "file_quiet hal f"
  shows "refused_file f hal c (file_call (program_call st slot raw) name)"
proof -
  obtain r c1 where i: "librsu_cb_file_init (Some hal) name c = (r, c1)" by fastforce
  have q: "quiet f (db c) (db c1)" using file_world_init [OF assms(2), of c name] i by simp
  show ?thesis using i q quiet_trans [OF q file_world_cleanup [OF assms(2)]] assms(1)
    by (cases "r = 0") (simp_all add: refused_file_def file_call_def program_call_def librsu_cb_program_common_def)
qed

lemma refused_file_spt: "refused_file f hal c k \<Longrightarrow> refused_file f hal c (need_spt id k)"
  by (auto simp: refused_file_def need_spt_def)

lemma refused_file_cpb: "refused_file f hal c k \<Longrightarrow> refused_file f hal c (need_cpb id k)"
  by (auto simp: refused_file_def need_cpb_def)

lemma refused_file_locked:
  assumes "ready l hal" "refused_file f hal (core l) body"
  shows "\<exists>r l'. locked body l = Some (r, l') \<and> r \<noteq> 0 \<and> quiet f (lib_db l) (lib_db l')"
proof -
  obtain r c' where b: "body hal (core l) = Some (r, c')" "r \<noteq> 0" "quiet f (lib_db l) (db c')"
    using assms(2) by (auto simp: refused_file_def)
  then show ?thesis using locked_ready [of l hal body, OF assms(1) b(1)] by auto
qed

lemma protected_file_run:
  assumes "ctx_state l = initialized" "ready l hal" "librsu_cfg_writeprotected hal slot \<noteq> 0" "slot_written c = Some slot"
    "from_file c" "file_quiet hal f"
  shows "\<exists>r l'. run_call c l = Some (r, l') \<and> r \<noteq> 0 \<and> quiet f (lib_db l) (lib_db l')"
  using assms(4,5)
  by (cases c; simp add: slot_written_def from_file_def api_defs if_initialized_def assms(1))
    (intro refused_file_locked [OF assms(2)] refused_file_spt refused_file_cpb refused_file_program assms(3,6))+

context nor_flash begin

lemma removed_erased:
  assumes "priority_remove hal p s = Some (0, d)" "data_erase hal p d = Some (0, e)" "slots_ok mem s"
    "librsu_misc_slot2part partition_ops s slot = Some p" "0 \<le> p" "cpb_live (slot_addr s p)"
  shows "slots_ok mem e \<and> live e = remove1 (slot_addr s p) (live s) \<and> spt e = spt s \<and>
    set (region (mem (world e)) (part_addr s (nat p)) (nat (part_len s (nat p)))) \<subseteq> {0xFF} \<and>
    (\<forall>x. x \<notin> part_range s (nat p) \<union> cpb_range s \<longrightarrow> mem (world e) x = mem (world s) x)"
proof -
  note R = slot_remove [OF assms(1,3-6)]
  then have st: "same_static s d" and d: "slots_ok mem d" by simp_all
  have e: "part_addr d = part_addr s" "part_len d = part_len s" "part_range d = part_range s"
    using st by (auto simp: same_static_def part_addr_def part_len_def part_range_def)
  have "librsu_misc_slot2part partition_ops d slot = Some p"
    using slot2part_spt [of d s slot] st assms(4) by (simp add: same_static_def)
  note E = slot_data_erase [OF assms(2) d this assms(5)]
  then obtain w where w: "e = d\<lparr>world := w\<rparr>" by blast
  have fr: "mem (world e) x = mem (world s) x" if "x \<notin> part_range s (nat p)" "x \<notin> cpb_range s" for x
    using E R that by (simp add: only_cpb_def e)
  have "live e = live d" "spt e = spt s" using w st by (simp_all add: live_def slots_def same_static_def)
  then show ?thesis using E R fr by (simp add: e)
qed

lemma removed_erased_static:
  assumes "priority_remove hal p s = Some (0, d)" "data_erase hal p d = Some (0, e)" "slots_ok mem s"
    "librsu_misc_slot2part partition_ops s slot = Some p" "0 \<le> p" "cpb_live (slot_addr s p)"
  shows "same_static s e"
proof -
  have st: "same_static s d" "slots_ok mem d" using slot_remove [OF assms(1,3-6)] by simp_all
  have "librsu_misc_slot2part partition_ops d slot = Some p" using slot2part_static [OF st(1)] assms(4) by simp
  from slot_data_erase [OF assms(2) st(2) this assms(5)] have "same_static d e" by (auto simp: same_static_def)
  then show ?thesis by (rule same_static_trans [OF st(1)])
qed

text \<open>Deleting the entry of a slot touches neither the slot nor the pointer block.\<close>

lemma slot_entry_delete:
  assumes run: "partition_delete hal p e = Some (0, v)" and ok: "slots_ok mem e" and roomy: "spt_roomy e"
    and sp: "librsu_misc_slot2part partition_ops e slot = Some p" "0 \<le> p"
  shows "live v = live e \<and> (\<forall>x \<in> set (cpb_parts (spt e)). region (mem (world v)) (part_addr e x) CPB_SIZE = cpb v) \<and>
    region (mem (world v)) (part_addr e (nat p)) (nat (part_len e (nat p))) =
      region (mem (world e)) (part_addr e (nat p)) (nat (part_len e (nat p))) \<and>
    (\<forall>x. x \<notin> spt_area e \<longrightarrow> mem (world v) x = mem (world e) x)"
proof -
  have i: "spt_inv e" "slots_apart e" and c: "cpb_layout e" "cpb_synced mem e"
    using ok by (simp_all add: slots_ok_def cpb_consistent_def)
  note f = slot2part_facts [OF i(1) sp]
  have "p < 2 ^ 31" "\<not> is_spt_part (spt e) (nat p)" using f(2,3,5) by (simp_all add: spt_parts_def)
  note D = partition_delete_frame [OF run this(1) i(1) this(2)]
  have out: "region (mem (world v)) (part_addr e x) n = region (mem (world e)) (part_addr e x) n"
    if "x < unat (partitions (spt e))" "x \<notin> set (spt_parts (spt e))" "int n \<le> part_len e x" for x n
  proof (rule region_frame)
    fix a assume "a \<in> {part_addr e x..<part_addr e x + int n}"
    then have "a \<in> part_range e x" using that(3) by (simp add: part_range_def)
    then show "mem (world v) a = mem (world e) a" using D part_outside_spt [OF i roomy that(1,2)] by blast
  qed
  have "region (mem (world v)) (part_addr e x) CPB_SIZE = cpb v" if x: "x \<in> set (cpb_parts (spt e))" for x
  proof -
    have "x \<notin> set (spt_parts (spt e))" "x < unat (partitions (spt e))"
      using x critical_names_distinct [of "partition (spt e) ! x"]
      by (auto simp: cpb_parts_def spt_parts_def is_cpb_part_def is_spt_part_def)
    then show ?thesis using out [of x CPB_SIZE] cpb_layout_parts(5) [OF c(1) x] c(2) x D
      by (simp add: cpb_synced_def part_copy_def)
  qed
  moreover have "0 \<le> part_len e (nat p)" by (simp add: part_len_def)
  then have "region (mem (world v)) (part_addr e (nat p)) (nat (part_len e (nat p))) =
      region (mem (world e)) (part_addr e (nat p)) (nat (part_len e (nat p)))"
    using out [OF f(3,5), of "nat (part_len e (nat p))"] by simp
  moreover have "live v = live e" using D by (simp add: live_def slots_def)
  ultimately show ?thesis using D by blast
qed

end

section \<open>Programming and verifying\<close>

lemma program_buf_steps:
  assumes "rsu_slot_program_buf st slot (Some ds) n l = Some (0, l')"
  obtains hal c where "ready l hal" "ctx_state l = initialized" "\<not> spt_corrupted (lib_db l)" "\<not> cpb_corrupted (lib_db l)"
    "librsu_cb_program_common hal st slot (Some librsu_cb_buf) False ((core l)\<lparr>cb_buffer := Some ds, cb_buffer_togo := n\<rparr>) = Some (0, c)"
    "l' = l\<lparr>core := librsu_cb_buf_cleanup c\<rparr>"
  using assms
  by (auto simp: rsu_slot_program_buf_def call_runs buf_call_def librsu_cb_buf_init_def program_call_def bind_splits intro: that
      split: if_splits)

lemma verify_buf_run:
  assumes "ready l hal" "ctx_state l = initialized" "\<not> spt_corrupted (lib_db l)" "\<not> cpb_corrupted (lib_db l)" "0 < n"
    "librsu_cb_verify_common hal st slot (Some librsu_cb_buf) False ((core l)\<lparr>cb_buffer := Some ds, cb_buffer_togo := n\<rparr>) = Some (r, c)"
  shows "rsu_slot_verify_buf st slot (Some ds) n l = Some (r, l\<lparr>core := librsu_cb_buf_cleanup c\<rparr>)"
proof -
  have "buf_call (verify_call st slot False) (Some ds) n hal (core l) = Some (r, librsu_cb_buf_cleanup c)"
    using assms(5,6) by (simp add: buf_call_def librsu_cb_buf_init_def verify_call_def)
  then show ?thesis
    unfolding rsu_slot_verify_buf_def if_initialized_def using assms(1-4)
    by (subst locked_ready [where hal = hal and r = r and c = "librsu_cb_buf_cleanup c"])
      (simp_all add: need_spt_def need_cpb_def corrupted_spt_def corrupted_cpb_def)
qed

lemma sint_uint_nonneg: "0 \<le> sint (w :: u32) \<Longrightarrow> sint w = uint w"
  using uint_sint [of w] sint_lt [of w] by (simp add: take_bit_int_eq_self)

lemma partition_size_len:
  assumes "0 \<le> partition_size p s" shows "partition_size p s = part_len s (nat p)"
proof -
  have "\<not> bad_part p s" using assms by (auto simp: partition_size_def)
  then have "0 \<le> sint (p_length (partition (spt s) ! nat p))" "partition_size p s = sint (p_length (partition (spt s) ! nat p))"
    using assms by (simp_all add: partition_size_def)
  then show ?thesis unfolding part_len_def using sint_uint_nonneg by simp
qed

lemma read_part_not_positive:
  assumes "read_part hal p off (Some b) n s = Some (r, d, e)" "\<And>w a buf r d w'. qspi_read hal w a buf = Some (r, d, w') \<Longrightarrow> r \<le> 0"
  shows "r \<le> 0"
  using assms(1)
  by (auto simp: read_part_def get_part_offset_def read_dev_def bind_splits dest: assms(2) split: if_splits)

lemma copy_to_buf_steps:
  assumes "rsu_slot_copy_to_buf slot (Some b) sz l = Some ((0, out), l')"
  obtains hal p q r d e where "ready l hal" "librsu_misc_slot2part partition_ops (lib_db l) slot = Some p" "0 \<le> p"
    "0 \<le> partition_size p (lib_db l)" "nat (partition_size p (lib_db l)) \<le> sz" "sz \<le> length b"
    "priority_get p (lib_db l) = Some q" "0 < q"
    "data_read hal p 0 (partition_size p (lib_db l)) (Some b) (lib_db l) = Some (r, d, e)" "0 \<le> r" "out = Some d" "lib_db l' = e"
proof -
  obtain hal c where h: "ready l hal" "l' = l\<lparr>core := c\<rparr>" and
    run: "(let err = (\<lambda>e. (e, Some b)) in with_slot err slot (\<lambda>part_num hal c.
          if partition_size part_num (db c) < 0 then Some (err (- ELOWLEVEL), c)
          else if nat (partition_size part_num (db c)) > sz \<or> sz = 0 then Some (err (- EARGS), c)
          else need_spt err (need_cpb err (\<lambda>hal c. do {
            prio \<leftarrow> priority_get part_num (db c);
            if prio \<le> 0 then Some (err (- EERASE), c)
            else do {
              b \<leftarrow> Some b;
              if length b < sz then None else do {
              (ret, b, d) \<leftarrow> data_read hal part_num 0 (partition_size part_num (db c)) (Some b) (db c);
              let c = c\<lparr>db := d\<rparr>;
              if ret < 0 then Some ((- ELOWLEVEL, Some b), c) else Some ((0, Some b), c)
            }}
          })) hal c) hal (core l)) = Some ((0, out), c)"
    using assms by (auto simp: rsu_slot_copy_to_buf_def Let_def if_initialized_run locked_run split: if_splits)
  obtain p where p: "librsu_misc_slot2part partition_ops (lib_db l) slot = Some p" "0 \<le> p" and
    need: "0 \<le> partition_size p (lib_db l)" "nat (partition_size p (lib_db l)) \<le> sz"
    using run by (auto simp: Let_def with_slot_run not_less split: if_splits)
  obtain q where q: "priority_get p (lib_db l) = Some q" "0 < q" "sz \<le> length b"
    using run p need by (auto simp: Let_def with_slot_run need_spt_run need_cpb_run bind_splits not_less not_le split: if_splits)
  obtain r d e where r: "data_read hal p 0 (partition_size p (lib_db l)) (Some b) (lib_db l) = Some (r, d, e)"
    "0 \<le> r" "out = Some d" "c = (core l)\<lparr>db := e\<rparr>"
    using run p need q by (auto simp: Let_def with_slot_run need_spt_run need_cpb_run bind_splits not_less split: if_splits)
  show thesis using h(2) r(4) by (intro that [OF h(1) p need q(3,1,2) r(1-3)]) simp
qed

lemma copy_to_buf_run:
  assumes "ready l hal" "ctx_state l = initialized" "\<not> spt_corrupted (lib_db l)" "\<not> cpb_corrupted (lib_db l)"
    "librsu_misc_slot2part partition_ops (lib_db l) slot = Some p" "0 \<le> p" "0 < partition_size p (lib_db l)"
    "nat (partition_size p (lib_db l)) \<le> sz" "sz \<le> length b" "priority_get p (lib_db l) = Some q" "0 < q"
    "data_read hal p 0 (partition_size p (lib_db l)) (Some b) (lib_db l) = Some (0, d, e)"
  shows "rsu_slot_copy_to_buf slot (Some b) sz l = Some ((0, Some d), l\<lparr>core := (core l)\<lparr>db := e\<rparr>\<rparr>)"
  unfolding rsu_slot_copy_to_buf_def Let_def if_initialized_def using assms
  by (subst locked_ready [where hal = hal and r = "(0, Some d)" and c = "(core l)\<lparr>db := e\<rparr>"])
    (simp_all add: need_spt_def need_cpb_def corrupted_spt_def corrupted_cpb_def with_slot_def)

section \<open>The calls on the board\<close>

lemma ex_slots_ok: "slots_ok mock_mem ex_db"
  by (simp add: slots_ok_def ex_spt_inv ex_apart ex_consistent ex_packed)

lemma ex_slot_addr: "slot_addr ex_db 4 = 73728" "cpb_live (slot_addr ex_db 4)"
  by (simp_all add: slot_addr_def ex_offset cpb_live_def)

lemma ex_removed:
  "\<exists>s. priority_remove ex_hal 4 ex_db = Some (0, s) \<and> mock_ok (world s) \<and> mock_dsize (world s) = 102400 \<and>
    slots_ok mock_mem s \<and> live s = [] \<and> same_static ex_db s \<and> slots s = slots ex_db"
proof -
  obtain s where s: "load_cpb ex_hal ex_db = Some (0, s)" "mock_ok (world s)" "mock_dsize (world s) = 102400"
    using ex_load_cpb by blast
  then have r: "priority_remove ex_hal 4 ex_db = Some (0, s)" by (simp add: ex_remove_loads)
  have "cpb s = ex_cpb"
    using nor_flash.load_cpb_consistent [OF ex_nor s(1) ex_layout]
    by (auto simp: ex_cpb_parts part_copy_def ex_region ex_flash_chunks)
  then have "slots s = slots ex_db" by (simp add: slots_def)
  moreover have "slots_ok mock_mem s \<and> live s = [] \<and> same_static ex_db s"
    using nor_flash.slot_remove [OF ex_nor r ex_slots_ok ex_slot _ ex_slot_addr(2)] by (simp add: ex_live)
  ultimately show ?thesis using r s by blast
qed

lemma ex_static:
  assumes "same_static ex_db s" "mock_dsize (world s) = 102400"
  shows "spt s = ex_spt" "part_addr s x = part_addr ex_db x" "part_len s x = part_len ex_db x" "parts_in_device mock_dsize s"
    "spt_in_device mock_dsize s" "usable mock_dsize s 4" "bad_part p s = bad_part p ex_db"
proof -
  have e: "spt s = spt ex_db" "mtd_part_offset s = mtd_part_offset ex_db" "spt_addr s = spt_addr ex_db"
    using assms(1) by (simp_all add: same_static_def)
  show a: "spt s = ex_spt" "part_addr s x = part_addr ex_db x" "part_len s x = part_len ex_db x" for x
    using e by (simp_all add: part_addr_def part_len_def)
  show "parts_in_device mock_dsize s" using ex_parts_in_device parts_in_device_cong [OF e(1,2), of mock_dsize] assms(2) by (simp add: ex_dsize)
  show "spt_in_device mock_dsize s" using ex_spt_in_device e assms(2) by (simp add: spt_in_device_def in_device_def ex_dsize)
  show "usable mock_dsize s 4"
    using ex_usable part_fits_cong [OF e(1,2), of 4] assms(2) a by (simp add: usable_def in_device_def ex_dsize)
  show "bad_part p s = bad_part p ex_db" using e by (simp add: bad_part_def)
qed

lemma ex_enabled: "\<exists>s t. priority_remove ex_hal 4 ex_db = Some (0, s) \<and> priority_add ex_hal 4 s = Some (0, t)"
proof -
  obtain s where s: "priority_remove ex_hal 4 ex_db = Some (0, s)" "mock_ok (world s)" "mock_dsize (world s) = 102400"
    "slots_ok mock_mem s" "same_static ex_db s" "slots s = slots ex_db" using ex_removed by blast
  note e = ex_static [OF s(5,3)]
  have "\<exists>t. priority_add ex_hal 4 s = Some (0, t)"
    using reliable_flash.rel_priority_add [OF ex_rel s(2), of 4] s(4,6) e ex_not_bad [of 4] ex_offset ex_room
    by (auto simp: slots_ok_def)
  then show ?thesis using s(1) by blast
qed

lemma ex_slot_erased:
  "\<exists>s t. priority_remove ex_hal 4 ex_db = Some (0, s) \<and> data_erase ex_hal 4 s = Some (0, t) \<and> mock_ok (world t) \<and>
    mock_dsize (world t) = 102400 \<and> slots_ok mock_mem t \<and> same_static ex_db t"
proof -
  obtain s where s: "priority_remove ex_hal 4 ex_db = Some (0, s)" "mock_ok (world s)" "mock_dsize (world s) = 102400"
    "slots_ok mock_mem s" "same_static ex_db s" using ex_removed by blast
  note e = ex_static [OF s(5,3)]
  obtain w where w: "data_erase ex_hal 4 s = Some (0, s\<lparr>world := w\<rparr>)" "mock_ok w" "mock_dsize w = 102400"
    using reliable_flash.rel_erase_part [OF ex_rel s(2), of 4] e(1,3,6) s(3) by (auto simp: usable_def data_erase_def)
  have "librsu_misc_slot2part partition_ops s 0 = Some 4" using slot2part_spt [of s ex_db 0] e(1) ex_slot by simp
  then have "slots_ok mock_mem (s\<lparr>world := w\<rparr>)" using nor_flash.slot_data_erase [OF ex_nor w(1) s(4)] by simp
  moreover have "same_static ex_db (s\<lparr>world := w\<rparr>)" using s(5) by (simp add: same_static_def)
  ultimately show ?thesis using s(1) w by auto
qed

lemma ex_lib_run:
  assumes "body ex_hal (ex_cb []) = Some (r, c)" shows "\<exists>l. if_initialized id (locked body) ex_lib = Some (r, l)"
  using locked_ready [of ex_lib ex_hal body] assms by (simp add: if_initialized_def)

lemma ex_lib_calls:
  "\<exists>l. rsu_slot_disable 0 ex_lib = Some (0, l)" "\<exists>l. rsu_slot_enable 0 ex_lib = Some (0, l)"
  "\<exists>l. rsu_slot_erase 0 ex_lib = Some (0, l)" "\<exists>l. rsu_slot_delete 0 ex_lib = Some (0, l)"
proof -
  have wp: "librsu_cfg_writeprotected ex_hal 0 = 0" by (simp add: librsu_cfg_writeprotected_def mock_hal_def ex_base_def)
  note unf = need_spt_def corrupted_spt_def need_cpb_def corrupted_cpb_def need_writable_def with_slot_def
    or_fail_def give_def ex_slot wp
  obtain s t where en: "priority_remove ex_hal 4 ex_db = Some (0, s)" "priority_add ex_hal 4 s = Some (0, t)" using ex_enabled by blast
  obtain u where er: "data_erase ex_hal 4 s = Some (0, u)" "mock_ok (world u)" "mock_dsize (world u) = 102400"
    "slots_ok mock_mem u" "same_static ex_db u" using ex_slot_erased en(1) by auto
  note e = ex_static [OF er(5,3)]
  have "\<not> is_spt_part ex_spt 4" "\<not> is_cpb_part ex_spt 4" by (simp_all add: is_spt_part_def is_cpb_part_def ex_eval)
  then obtain v where v: "partition_delete ex_hal 4 u = Some (0, v)"
    using reliable_flash.rel_partition_delete [OF ex_rel er(2) _ e(5), of 4] er(4) e ex_not_bad [of 4] by auto
  show "\<exists>l. rsu_slot_disable 0 ex_lib = Some (0, l)" "\<exists>l. rsu_slot_enable 0 ex_lib = Some (0, l)"
    "\<exists>l. rsu_slot_erase 0 ex_lib = Some (0, l)" "\<exists>l. rsu_slot_delete 0 ex_lib = Some (0, l)"
    unfolding rsu_slot_disable_def rsu_slot_enable_def rsu_slot_erase_def rsu_slot_delete_def
    by (rule ex_lib_run; use en er(1) v in \<open>simp add: unf\<close>)+
qed

lemma ex_read_not_positive: "qspi_read ex_hal w a b = Some (r, d, w') \<Longrightarrow> r \<le> 0"
  by (auto simp: mock_hal_def plat_qspi_read_mock_def split: if_splits)

lemma ex_lib_programs:
  "\<exists>l. rsu_slot_program_buf ex_walk 0 (Some ex_image) 8192 ex_lib = Some (0, l) \<and> mock_ok (world (lib_db l)) \<and>
    usable mock_dsize (lib_db l) 4 \<and> same_static ex_db (lib_db l) \<and> \<not> cpb_corrupted (lib_db l) \<and>
    priority_get 4 (lib_db l) = Some 1 \<and> region (mock_mem (world (lib_db l))) 73728 8192 = ex_main @ ex_moved"
proof -
  let ?c = "ex_cb ex_image"
  obtain c where c: "librsu_cb_program_common ex_hal ex_walk 0 (Some librsu_cb_buf) False ?c = Some (0, c)"
    "mock_ok (world (db c))" "mock_dsize (world (db c)) = 102400" using ex_program by (auto simp: ex_dsize)
  have lv: "cpb_live (p_offset (partition (spt (db ?c)) ! nat 4))" by (simp add: ex_offset cpb_live_def)
  obtain info where P: "same_static (db ?c) (db c)" "priority_get 4 (db c) = Some 1" "slot_info 4 (db ?c) = Some (Inr info)"
    "region (mock_mem (world (db c))) (part_addr (db ?c) (nat 4)) (length (buf_left ?c)) =
      placed_image ex_hal False info (walk_start ex_walk) (buf_left ?c)"
    by (rule buf_source.program_image_ok [OF ex_nor c(1) _ _ _ _ _ _ _ lv])
      (use ex_spt_inv ex_apart ex_consistent ex_packed ex_slot in simp_all)
  obtain q w where "priority_add ex_hal q ((db ?c)\<lparr>world := w\<rparr>) = Some (0, db c)"
    by (rule buf_source.program_common_ok [OF ex_nor c(1)]) (auto simp: whole_def)
  from priority_add_mark [OF this] have "\<not> cpb_corrupted (db c)" by (simp add: same_mark_def)
  moreover have "usable mock_dsize (db c) 4" using ex_static(6) P(1) c(3) by simp
  moreover have "ex_cb []\<lparr>cb_buffer := Some ex_image, cb_buffer_togo := 8192\<rparr> = ?c" by (simp add: ex_cb_def)
  then have "buf_call (program_call ex_walk 0 False) (Some ex_image) 8192 ex_hal (ex_cb []) = Some (0, librsu_cb_buf_cleanup c)"
    using c(1) by (simp add: buf_call_def librsu_cb_buf_init_def program_call_def)
  then have "rsu_slot_program_buf ex_walk 0 (Some ex_image) 8192 ex_lib = Some (0, ex_lib\<lparr>core := librsu_cb_buf_cleanup c\<rparr>)"
    unfolding rsu_slot_program_buf_def if_initialized_def
    by (subst locked_ready [where hal = ex_hal and r = 0 and c = "librsu_cb_buf_cleanup c"])
      (simp_all add: need_spt_def need_cpb_def corrupted_spt_def corrupted_cpb_def)
  moreover have "region (mock_mem (world (db c))) 73728 8192 = ex_main @ ex_moved"
    using P(3,4) by (simp add: ex_slot_info ex_placed)
  ultimately show ?thesis using P(1,2) c(2) by auto
qed

lemma ex_lib_copies:
  "\<exists>l v. rsu_slot_program_buf ex_walk 0 (Some ex_image) 8192 ex_lib = Some (0, l) \<and> ready l ex_hal \<and>
    rsu_slot_copy_to_buf 0 (Some (replicate 8192 0)) 8192 l = Some ((0, Some (ex_main @ ex_moved)), v)"
proof -
  obtain l where r: "rsu_slot_program_buf ex_walk 0 (Some ex_image) 8192 ex_lib = Some (0, l)"
    and l: "mock_ok (world (lib_db l))" "usable mock_dsize (lib_db l) 4" "same_static ex_db (lib_db l)" "\<not> cpb_corrupted (lib_db l)"
      "priority_get 4 (lib_db l) = Some 1" "region (mock_mem (world (lib_db l))) 73728 8192 = ex_main @ ex_moved"
    using ex_lib_programs by blast
  have k: "ctx_state l = initialized" "ready l ex_hal"
    using call_keeps [of "Slot_program_buf ex_walk 0 (Some ex_image) 8192" ex_lib 0 l] r by simp_all
  have a: "part_addr (lib_db l) 4 = 73728" "part_len (lib_db l) 4 = 8192" "spt (lib_db l) = spt ex_db"
    using l(3) by (simp_all add: same_static_def part_addr_def part_len_def ex_eval)
  have ps: "partition_size 4 (lib_db l) = 8192"
    using partition_size_fits [of "lib_db l" 4] l(2) a by (simp add: usable_def)
  obtain w where w: "read_part ex_hal 4 0 (Some (replicate 8192 0)) 8192 (lib_db l) =
      Some (0, ex_main @ ex_moved, (lib_db l)\<lparr>world := w\<rparr>)"
    using reliable_flash.rel_read_part [OF ex_rel l(1), of 4 8192 "replicate 8192 0"] l(2,6) a by (auto simp: usable_def)
  have "librsu_misc_slot2part partition_ops (lib_db l) 0 = Some 4" using slot2part_spt [OF a(3)] ex_slot by simp
  moreover have "\<not> spt_corrupted (lib_db l)" using l(3) by (simp add: same_static_def)
  ultimately show ?thesis
    using copy_to_buf_run [OF k(2,1) _ l(4) _ _ _ _ _ l(5), of 0 8192 "replicate 8192 0"] ps w r k(2)
    by (auto simp: data_read_def)
qed

end
