(* ===== verification/Rsu_Call_Props.thy ===== *)
theory Rsu_Call_Props
  imports Rsu_Slot_Calls
begin

text \<open>What the calls on slots achieve.\<close>

section \<open>Numbers and names\<close>

text \<open>C31: The slots are numbered from 0 up to the count that \<^verbatim>\<open>rsu_slot_count\<close> reports, at most one for every
  partition; every number below it names a partition, no other number does, and a call with another number
  returns \<^verbatim>\<open>-ESLOTNUM\<close>.\<close>

theorem slot_count_correct:
  assumes "ctx_state l = initialized" "ready l hal" "\<not> spt_corrupted (lib_db l)" "spt_inv (lib_db l)"
  shows "\<exists>n. rsu_slot_count l = Some (n, l) \<and> 0 \<le> n \<and> n \<le> partition_count (lib_db l) \<and>
    (\<forall>slot. (\<exists>p \<ge> 0. librsu_misc_slot2part partition_ops (lib_db l) slot = Some p) \<longleftrightarrow> 0 \<le> slot \<and> slot < n) \<and>
    (\<forall>slot. slot < 0 \<or> n \<le> slot \<longrightarrow> rsu_slot_size slot l = Some (- ESLOTNUM, l))"
proof -
  let ?ys = "slots_of partition_ops (lib_db l)"
  have pos: "0 \<le> p" if "p \<in> set ?ys" for p using that by (simp add: slots_of_def)
  have sp: "librsu_misc_slot2part partition_ops (lib_db l) slot =
      Some (if 0 \<le> slot \<and> nat slot < length ?ys then ?ys ! nat slot else - EINVAL)" for slot
    by (rule part_slots.slot2part_nth [OF assms(4)])
  have "\<exists>p \<ge> 0. librsu_misc_slot2part partition_ops (lib_db l) slot = Some p" if "0 \<le> slot" "slot < int (length ?ys)" for slot
    using sp that pos [OF nth_mem] by (simp add: nat_less_iff)
  moreover have "0 \<le> slot \<and> slot < int (length ?ys)"
    if "librsu_misc_slot2part partition_ops (lib_db l) slot = Some p" "0 \<le> p" for slot p
    using that sp [of slot] by (auto split: if_splits)
  moreover have "rsu_slot_size slot l = Some (- ESLOTNUM, l)" if "slot < 0 \<or> int (length ?ys) \<le> slot" for slot
  proof -
    have "librsu_misc_slot2part partition_ops (lib_db l) slot = Some (- EINVAL)" using sp [of slot] that by auto
    then show ?thesis
      using assms(1-3) by (simp add: rsu_slot_size_def if_initialized_def locked_ready need_spt_def corrupted_spt_def with_slot_def)
  qed
  moreover have "int (length ?ys) \<le> partition_count (lib_db l)"
  proof -
    have "0 \<le> partition_count (lib_db l)" using assms(4) by (auto simp: partition_count_def spt_inv_def spt_base_def sint_eq_uint)
    moreover have "length ?ys \<le> nat (partition_count (lib_db l))"
      unfolding slots_of_filter by (rule order_trans [OF length_filter_le]) simp
    ultimately show ?thesis by linarith
  qed
  ultimately show ?thesis using slot_count_run [OF assms] by fastforce
qed

theorem slot_count_correct_witness:
  "\<exists>n. rsu_slot_count ex_lib = Some (n, ex_lib) \<and> n \<le> 6 \<and> librsu_misc_slot2part partition_ops ex_db 0 = Some 4 \<and> 0 < n"
  using slot_count_correct [of ex_lib ex_hal] ex_spt_inv ex_slot by (fastforce simp: partition_count_def)

text \<open>\<^verbatim>\<open>rsu_slot_by_name\<close> finds the slot with the name given, when there is one, and returns \<^verbatim>\<open>-ENAME\<close>
  when no slot has it.\<close>

theorem slot_by_name_correct:
  assumes "ctx_state l = initialized" "ready l hal" "\<not> spt_corrupted (lib_db l)" "spt_inv (lib_db l)"
  shows "\<exists>r. rsu_slot_by_name (Some name) l = Some (r, l) \<and>
    (if 0 \<le> r then \<exists>p \<ge> 0. librsu_misc_slot2part partition_ops (lib_db l) r = Some p \<and> c_str (partition_name p (lib_db l)) = Some name
     else r = - ENAME \<and> (\<forall>slot p. librsu_misc_slot2part partition_ops (lib_db l) slot = Some p \<and> 0 \<le> p \<longrightarrow>
       c_str (partition_name p (lib_db l)) \<noteq> Some name))"
proof -
  let ?ys = "slots_of partition_ops (lib_db l)"
  have pos: "0 \<le> p" if "p \<in> set ?ys" for p using that by (simp add: slots_of_def)
  consider (none) "\<forall>y \<in> set ?ys. c_str (partition_name y (lib_db l)) \<noteq> Some name" "rsu_slot_by_name (Some name) l = Some (- ENAME, l)"
    | (some) i where "i < length ?ys" "c_str (partition_name (?ys ! i) (lib_db l)) = Some name"
        "rsu_slot_by_name (Some name) l = Some (int i, l)"
    using slot_by_name_run [OF assms] by blast
  then show ?thesis
  proof cases
    case none
    then show ?thesis using slot2part_slots_of [OF assms(4)] by auto
  next
    case some
    then have "librsu_misc_slot2part partition_ops (lib_db l) (int i) = Some (?ys ! i)"
      by (simp add: part_slots.slot2part_nth [OF assms(4)])
    then show ?thesis using some pos [OF nth_mem] by auto
  qed
qed

theorem slot_by_name_correct_witness: "\<exists>r. rsu_slot_by_name (Some (chars ''P1'')) ex_lib = Some (r, ex_lib) \<and> 0 \<le> r"
proof -
  have "4 < length (partition ex_spt)" using wf_ex_spt by (simp add: wf_spt_def)
  then have "c_str (partition_name 4 ex_db) = Some (chars ''P1'')"
    by (simp add: partition_name_def part_at_def ex_not_bad ex_eval c_str_def)
  then show ?thesis
    using slot_by_name_correct [of ex_lib ex_hal "chars ''P1''"] ex_spt_inv ex_slot
    by (fastforce split: if_splits)
qed

section \<open>Enabling, disabling, erasing, deleting\<close>

text \<open>
  \<open>slots_ok\<close> is the invariant of a database in use: the table is checked and placed where it says, the
  pointer block is valid, packed and the same in both copies. The calls keep it.
\<close>

text \<open>C33: A successful \<^verbatim>\<open>rsu_slot_enable\<close> puts the slot at the end of the list of pointers in use, after
  taking it out where it was, so that \<^verbatim>\<open>rsu_slot_priority\<close> then reports the highest priority, 1; the table and
  every byte of flash outside the two CPB partitions stay.\<close>

theorem slot_enable_correct:
  assumes "nor_flash hal mem" "ready l hal" "rsu_slot_enable slot l = Some (0, l')" "slots_ok mem (lib_db l)"
    "librsu_misc_slot2part partition_ops (lib_db l) slot = Some p" "cpb_live (slot_addr (lib_db l) p)"
  defines "a \<equiv> slot_addr (lib_db l) p"
  shows "slots_ok mem (lib_db l') \<and> live (lib_db l') = remove1 a (live (lib_db l)) @ [a] \<and>
    rsu_slot_priority slot l' = Some (1, l') \<and> spt (lib_db l') = spt (lib_db l) \<and>
    (\<forall>x. x \<notin> cpb_range (lib_db l) \<longrightarrow> mem (world (lib_db l')) x = mem (world (lib_db l)) x)"
proof -
  obtain d where d: "0 \<le> p" "priority_remove hal p (lib_db l) = Some (0, d)" "priority_add hal p d = Some (0, lib_db l')"
    and c: "\<not> spt_corrupted (lib_db l)" "\<not> cpb_corrupted (lib_db l)" "ctx_state l = initialized"
    using assms(2,3,5) by (fastforce simp: rsu_slot_enable_def call_runs dest: ready_unique split: if_splits)
  note R = nor_flash.slot_remove [OF assms(1) d(2) assms(4,5) d(1) assms(6)]
  then have s: "same_static (lib_db l) d" "slots_ok mem d" by simp_all
  have sp: "librsu_misc_slot2part partition_ops d slot = Some p"
    using slot2part_spt [of d "lib_db l" slot] s(1) assms(5) by (simp add: same_static_def)
  have sa: "slot_addr d p = a" using s(1) by (simp add: a_def slot_addr_def same_static_def)
  note A = nor_flash.slot_add [OF assms(1) d(3) s(2) sp d(1)]
  have A: "slots_ok mem (lib_db l') \<and> live (lib_db l') = live d @ [a] \<and> only_cpb mem d (lib_db l') \<and>
      priority_get p (lib_db l') = Some 1 \<and> same_static d (lib_db l')"
    using A assms(6) by (simp add: sa a_def)
  have st: "same_static (lib_db l) (lib_db l')" using s(1) A by (simp add: same_static_def)
  have "librsu_misc_slot2part partition_ops (lib_db l') slot = Some p"
    using slot2part_spt [of "lib_db l'" "lib_db l" slot] st assms(5) by (simp add: same_static_def)
  moreover have "\<not> cpb_corrupted (lib_db l')" "\<not> spt_corrupted (lib_db l')"
    using priority_remove_mark [OF d(2)] priority_add_mark [OF d(3)] c st by (simp_all add: same_mark_def same_static_def)
  moreover note k = call_keeps [of "Slot_enable slot" l 0 l', simplified, OF assms(3)]
  ultimately have "rsu_slot_priority slot l' = Some (1, l')"
    unfolding rsu_slot_priority_def if_initialized_def using assms(2) c(3) A d(1)
    by (subst locked_ready [where hal = hal and r = 1 and c = "core l'"])
      (simp_all add: need_spt_def need_cpb_def corrupted_spt_def corrupted_cpb_def with_slot_def)
  moreover have "mem (world (lib_db l')) x = mem (world (lib_db l)) x" if "x \<notin> cpb_range (lib_db l)" for x
    using R A that cpb_range_static [OF s(1)] by (simp add: only_cpb_def)
  ultimately show ?thesis using A R st by (simp add: a_def same_static_def)
qed

theorem slot_enable_correct_witness:
  "\<exists>l. rsu_slot_enable 0 ex_lib = Some (0, l) \<and> live (lib_db l) = [73728] \<and> rsu_slot_priority 0 l = Some (1, l)"
proof -
  obtain l where l: "rsu_slot_enable 0 ex_lib = Some (0, l)" using ex_lib_calls by blast
  from slot_enable_correct [OF ex_nor _ l, of 4] l show ?thesis by (simp add: ex_slots_ok ex_slot ex_slot_addr ex_live cpb_live_def)
qed

text \<open>A successful \<^verbatim>\<open>rsu_slot_disable\<close> takes the slot's pointer out of the list of pointers in use, the
  first if there are more, and nothing else; the table and every byte of flash outside the two CPB
  partitions stay.\<close>

theorem slot_disable_correct:
  assumes "nor_flash hal mem" "ready l hal" "rsu_slot_disable slot l = Some (0, l')" "slots_ok mem (lib_db l)"
    "librsu_misc_slot2part partition_ops (lib_db l) slot = Some p" "cpb_live (slot_addr (lib_db l) p)"
  shows "slots_ok mem (lib_db l') \<and> live (lib_db l') = remove1 (slot_addr (lib_db l) p) (live (lib_db l)) \<and>
    spt (lib_db l') = spt (lib_db l) \<and>
    (\<forall>x. x \<notin> cpb_range (lib_db l) \<longrightarrow> mem (world (lib_db l')) x = mem (world (lib_db l)) x)"
proof -
  have d: "0 \<le> p" "priority_remove hal p (lib_db l) = Some (0, lib_db l')"
    using assms(2,3,5) by (fastforce simp: rsu_slot_disable_def call_runs dest: ready_unique split: if_splits)+
  show ?thesis
    using nor_flash.slot_remove [OF assms(1) d(2) assms(4,5) d(1) assms(6)] by (simp add: only_cpb_def same_static_def)
qed

theorem slot_disable_correct_witness: "\<exists>l. rsu_slot_disable 0 ex_lib = Some (0, l) \<and> live (lib_db l) = []"
proof -
  obtain l where l: "rsu_slot_disable 0 ex_lib = Some (0, l)" using ex_lib_calls by blast
  from slot_disable_correct [OF ex_nor _ l, of 4] l show ?thesis by (simp add: ex_slots_ok ex_slot ex_slot_addr ex_live cpb_live_def)
qed

text \<open>C35: A successful \<^verbatim>\<open>rsu_slot_erase\<close> leaves every byte of the slot at 0xFF and takes its pointer out
  of the list of pointers in use, the first if there are more; it changes no byte outside the slot and the two CPB partitions.\<close>

theorem slot_erase_correct:
  assumes "nor_flash hal mem" "ready l hal" "rsu_slot_erase slot l = Some (0, l')" "slots_ok mem (lib_db l)"
    "librsu_misc_slot2part partition_ops (lib_db l) slot = Some p" "cpb_live (slot_addr (lib_db l) p)"
  shows "slots_ok mem (lib_db l') \<and> live (lib_db l') = remove1 (slot_addr (lib_db l) p) (live (lib_db l)) \<and>
    set (region (mem (world (lib_db l'))) (part_addr (lib_db l) (nat p)) (nat (part_len (lib_db l) (nat p)))) \<subseteq> {0xFF} \<and>
    spt (lib_db l') = spt (lib_db l) \<and>
    (\<forall>x. x \<notin> part_range (lib_db l) (nat p) \<union> cpb_range (lib_db l) \<longrightarrow>
       mem (world (lib_db l')) x = mem (world (lib_db l)) x)"
proof -
  obtain d where d: "0 \<le> p" "priority_remove hal p (lib_db l) = Some (0, d)" "data_erase hal p d = Some (0, lib_db l')"
    using assms(2,3,5) by (fastforce simp: rsu_slot_erase_def call_runs dest: ready_unique split: if_splits)
  show ?thesis using nor_flash.removed_erased [OF assms(1) d(2,3) assms(4,5) d(1) assms(6)] by blast
qed

theorem slot_erase_correct_witness: "\<exists>l. rsu_slot_erase 0 ex_lib = Some (0, l) \<and> live (lib_db l) = []"
proof -
  obtain l where l: "rsu_slot_erase 0 ex_lib = Some (0, l)" using ex_lib_calls by blast
  from slot_erase_correct [OF ex_nor _ l, of 4] l show ?thesis by (simp add: ex_slots_ok ex_slot ex_slot_addr ex_live cpb_live_def)
qed

text \<open>C36: A successful \<^verbatim>\<open>rsu_slot_delete\<close> leaves every byte of the slot at 0xFF, takes its pointer out of the list of
  pointers in use, in memory and in both copies of the pointer block, and takes its entry out of the table:
  the others keep their order, and the table is checked and in both copies. It changes no byte outside the slot, the
  two CPB partitions and the part of the flash that holds the SPT. The SPT partitions are as large as the 32 KiB
  sectors that are erased in them.\<close>

theorem slot_delete_correct:
  assumes "nor_flash hal mem" "ready l hal" "rsu_slot_delete slot l = Some (0, l')" "slots_ok mem (lib_db l)"
    "librsu_misc_slot2part partition_ops (lib_db l) slot = Some p" "cpb_live (slot_addr (lib_db l) p)" "spt_roomy (lib_db l)"
  shows "spt_inv (lib_db l') \<and> unat (partitions (spt (lib_db l'))) = unat (partitions (spt (lib_db l))) - 1 \<and>
    take (unat (partitions (spt (lib_db l')))) (partition (spt (lib_db l'))) =
      take (nat p) (partition (spt (lib_db l))) @
      drop (Suc (nat p)) (take (unat (partitions (spt (lib_db l)))) (partition (spt (lib_db l)))) \<and>
    spt0_copy mem (lib_db l') = spt_bytes (spt (lib_db l')) \<and> spt1_copy mem (lib_db l') = spt_bytes (spt (lib_db l')) \<and>
    live (lib_db l') = remove1 (slot_addr (lib_db l) p) (live (lib_db l)) \<and>
    (\<forall>x \<in> set (cpb_parts (spt (lib_db l))). region (mem (lib_world l')) (part_addr (lib_db l) x) CPB_SIZE = cpb (lib_db l')) \<and>
    set (region (mem (lib_world l')) (part_addr (lib_db l) (nat p)) (nat (part_len (lib_db l) (nat p)))) \<subseteq> {0xFF} \<and>
    (\<forall>x. x \<notin> part_range (lib_db l) (nat p) \<union> cpb_range (lib_db l) \<union> spt_area (lib_db l) \<longrightarrow>
       mem (lib_world l') x = mem (lib_world l) x)"
proof -
  obtain d e where d: "0 \<le> p" "priority_remove hal p (lib_db l) = Some (0, d)" "data_erase hal p d = Some (0, e)"
    and v: "partition_delete hal p e = Some (0, lib_db l')"
    using assms(2,3,5) by (fastforce simp: rsu_slot_delete_def call_runs dest: ready_unique split: if_splits)
  note R = nor_flash.removed_erased [OF assms(1) d(2,3) assms(4,5) d(1) assms(6)]
  have st: "same_static (lib_db l) e" by (rule nor_flash.removed_erased_static [OF assms(1) d(2,3) assms(4,5) d(1) assms(6)])
  then have e: "slots_ok mem e" "spt e = spt (lib_db l)" "part_addr e = part_addr (lib_db l)" "part_len e = part_len (lib_db l)"
    using R by (auto simp: same_static_def part_addr_def part_len_def)
  note f = slot2part_facts [OF slots_ok_spt_inv [OF assms(4)] assms(5) d(1)]
  have n: "p < 2 ^ 31" "\<not> is_spt_part (spt e) (nat p)" using f(2,3,5) e(2) by (simp_all add: spt_parts_def)
  have sp: "librsu_misc_slot2part partition_ops e slot = Some p" "spt_roomy e"
    using nor_flash.slot2part_static [OF assms(1) st] spt_roomy_static [OF st] assms(5,7) by simp_all
  note P = nor_flash.partition_delete_spec [OF assms(1) v n(1) slots_ok_spt_inv [OF e(1)] n(2)]
    and D = nor_flash.slot_entry_delete [OF assms(1) v e(1) sp(2,1) d(1)]
  have "mem (lib_world l') x = mem (lib_world l) x"
    if "x \<notin> part_range (lib_db l) (nat p) \<union> cpb_range (lib_db l) \<union> spt_area (lib_db l)" for x
    using R D that spt_area_static [OF st] by simp
  moreover have "live (lib_db l') = remove1 (slot_addr (lib_db l) p) (live (lib_db l))"
    "\<forall>x \<in> set (cpb_parts (spt (lib_db l))). region (mem (lib_world l')) (part_addr (lib_db l) x) CPB_SIZE = cpb (lib_db l')"
    "set (region (mem (lib_world l')) (part_addr (lib_db l) (nat p)) (nat (part_len (lib_db l) (nat p)))) \<subseteq> {0xFF}"
    using D R unfolding e by simp_all
  ultimately show ?thesis using P unfolding e(2) by blast
qed

theorem slot_delete_correct_witness:
  "\<exists>l. rsu_slot_delete 0 ex_lib = Some (0, l) \<and> unat (partitions (spt (lib_db l))) = 5 \<and> live (lib_db l) = [] \<and>
    region (mock_mem (lib_world l)) 73728 8192 = replicate 8192 0xFF"
proof -
  obtain l where l: "rsu_slot_delete 0 ex_lib = Some (0, l)" using ex_lib_calls by blast
  have r: "spt_roomy (lib_db ex_lib)"
    by (simp add: spt_roomy_def spt_parts_def is_spt_part_def part_len_def upt_6 ex_eval)
  have a: "part_addr ex_db 4 = 73728" "part_len ex_db 4 = 8192" by (simp_all add: part_addr_def part_len_def ex_eval)
  have f: "set xs \<subseteq> {0xFF} \<Longrightarrow> xs = replicate (length xs) (0xFF :: byte)" for xs
    by (rule replicate_eqI) auto
  from slot_delete_correct [OF ex_nor _ l _ _ _ r, of 4] l f [of "region (mock_mem (lib_world l)) 73728 8192"] show ?thesis
    by (simp add: ex_slots_ok ex_slot ex_slot_addr ex_live cpb_live_def a)
qed

text \<open>C37: The content of a slot that the configuration protects is not touched: every call that erases the
  slot, deletes it or programs it, from a buffer, a file or a callback, returns an error and leaves the
  database and the flash as they were. A call with a file opens and closes it before, or for, the refusal; the
  file functions of the platform leave the flash alone. To rename, enable or disable a protected slot is not
  refused; that changes the tables.\<close>

theorem slot_protected:
  assumes "ctx_state l = initialized" "ready l hal" "0 \<le> slot" "slot \<le> 31" "bit (writeprotect hal) (nat slot)"
    "slot_written c = Some slot" "from_file c \<Longrightarrow> file_quiet hal mem"
  shows "\<exists>r l'. run_call c l = Some (r, l') \<and> r \<noteq> 0 \<and> (lib_db l')\<lparr>world := lib_world l\<rparr> = lib_db l \<and>
    mem (lib_world l') = mem (lib_world l) \<and> (\<not> from_file c \<longrightarrow> lib_db l' = lib_db l)"
proof -
  have w: "librsu_cfg_writeprotected hal slot \<noteq> 0" by (simp add: writeprotected_iff assms(3-5))
  show ?thesis
  proof (cases "from_file c")
    case True
    from protected_file_run [OF assms(1,2) w assms(6) True assms(7) [OF True]] show ?thesis
      using True by (auto simp: quiet_def)
  next
    case False
    from protected_run [OF assms(1,2) w assms(6) False] show ?thesis using False by fastforce
  qed
qed

theorem slot_protected_witness:
  "\<exists>r l. run_call (Slot_program_file ex_walk 3 (Some (chars ''app.rpd''))) (ex_lib\<lparr>ll_intf := Some (ex_hal\<lparr>writeprotect := 8\<rparr>)\<rparr>) =
    Some (r, l) \<and> r \<noteq> 0 \<and> mock_mem (lib_world l) = mock_mem ex_world"
proof -
  define h where "h = ex_hal\<lparr>writeprotect := 8\<rparr>"
  let ?l = "ex_lib\<lparr>ll_intf := Some h\<rparr>" and ?c = "Slot_program_file ex_walk 3 (Some (chars ''app.rpd''))"
  have l: "ctx_state ?l = initialized" "ready ?l h" "lib_world ?l = ex_world" by (simp_all add: ready_def ex_lib_def ex_db_def)
  have b: "bit (writeprotect h) (nat 3)" by (simp add: h_def)
  have c: "slot_written ?c = Some 3" by (simp add: slot_written_def)
  have q: "file_quiet h mock_mem" by (simp add: h_def file_quiet_def mock_hal_def ex_base_def)
  from slot_protected [OF l(1,2) _ _ b c q] show ?thesis unfolding l(3) h_def by auto
qed

section \<open>Data in and out\<close>

text \<open>C38: After a successful \<^verbatim>\<open>rsu_slot_program_buf\<close> of an image of whole blocks, its length a multiple of 4096 bytes,
  on a device that works, \<^verbatim>\<open>rsu_slot_verify_buf\<close> with the same data returns 0 and leaves the flash as it is. With a
  last block that is not whole the verification may fail: \<^verbatim>\<open>block_compare\<close> compares all 4096 bytes of the two
  buffers, whose ends still hold the block before, moved in the one and not in the other.\<close>

theorem slot_program_verify:
  assumes "reliable_flash hal mem dsize ok" "ready l hal"
    "rsu_slot_program_buf st0 slot (Some ds) (int (length ds)) l = Some (0, l')" "4096 dvd length ds" "ds \<noteq> []"
    "slots_ok mem (lib_db l)" "librsu_misc_slot2part partition_ops (lib_db l) slot = Some p" "cpb_live (slot_addr (lib_db l) p)"
    "length (sections st0) = MAX_SECTIONS" "length (sections st1) = MAX_SECTIONS"
    "ok (world (lib_db l'))" "usable dsize (lib_db l') (nat p)"
  shows "\<exists>v. rsu_slot_verify_buf st1 slot (Some ds) (int (length ds)) l' = Some (0, v) \<and>
    mem (world (lib_db v)) = mem (world (lib_db l'))"
proof -
  let ?n = "int (length ds)"
  let ?c = "(core l)\<lparr>cb_buffer := Some ds, cb_buffer_togo := ?n\<rparr>"
  obtain c where run: "ctx_state l = initialized" "\<not> spt_corrupted (lib_db l)" "\<not> cpb_corrupted (lib_db l)"
    "librsu_cb_program_common hal st0 slot (Some librsu_cb_buf) False ?c = Some (0, c)" "l' = l\<lparr>core := librsu_cb_buf_cleanup c\<rparr>"
    using program_buf_steps [OF assms(3)] ready_unique [OF assms(2)] by metis
  let ?v = "(core l')\<lparr>cb_buffer := Some ds, cb_buffer_togo := ?n\<rparr>"
  note nor = reliable_nor [OF assms(1)]
  have i: "spt_inv (db ?c)" "slots_apart (db ?c)" "cpb_consistent mem (db ?c)" "packed (slots (db ?c))"
    using assms(6) by (simp_all add: slots_ok_def)
  have b: "buf_good ?c" "buf_left ?c = ds" "buf_good ?v" "buf_left ?v = buf_left ?c"
    by (simp_all add: buf_good_def buf_left_def)
  have sp: "librsu_misc_slot2part partition_ops (db ?c) slot = Some p" using assms(7) by simp
  have lv: "cpb_live (p_offset (partition (spt (db ?c)) ! nat p))" using assms(8) by (simp add: slot_addr_def)
  have d: "4096 dvd length (buf_left ?c)" using assms(4) b(2) by simp
  have dbl: "lib_db l' = db c" "db ?v = db c" using run(5) by simp_all
  obtain v where v: "librsu_cb_verify_common hal st1 slot (Some librsu_cb_buf) False ?v = Some (0, v)"
    "mem (world (db v)) = mem (world (db ?v))"
    using buf_source.program_verify_ok [OF assms(1) run(4) b(1) d i sp lv assms(9,10) _ _ dbl(2) b(3,4)] assms(11,12) dbl
    by auto
  have st: "same_static (db ?c) (db c)"
    by (rule buf_source.program_image_ok [OF nor run(4) b(1) d i sp lv]) simp
  obtain q w where "priority_add hal q ((db ?c)\<lparr>world := w\<rparr>) = Some (0, db c)"
    by (rule buf_source.program_common_ok [OF nor run(4) b(1)]) (use d in \<open>auto simp: whole_def\<close>)
  from priority_add_mark [OF this] have m: "cpb_corrupted (db c) = cpb_corrupted (lib_db l)" by (simp add: same_mark_def)
  have "rsu_slot_verify_buf st1 slot (Some ds) ?n l' = Some (0, l'\<lparr>core := librsu_cb_buf_cleanup v\<rparr>)"
    by (rule verify_buf_run [OF _ _ _ _ _ v(1)])
      (use run m st assms(2,5) in \<open>simp_all add: ready_def same_static_def\<close>)
  then show ?thesis using v(2) dbl by simp
qed

theorem slot_program_verify_witness:
  "\<exists>l v. rsu_slot_program_buf ex_walk 0 (Some ex_image) 8192 ex_lib = Some (0, l) \<and>
    rsu_slot_verify_buf ex_walk 0 (Some ex_image) 8192 l = Some (0, v)"
proof -
  obtain l where r: "rsu_slot_program_buf ex_walk 0 (Some ex_image) 8192 ex_lib = Some (0, l)"
    and o: "mock_ok (world (lib_db l))" "usable mock_dsize (lib_db l) 4" using ex_lib_programs by blast
  have n: "ex_image \<noteq> []" using length_ex_image by (metis list.size(3) zero_neq_numeral)
  have "\<exists>v. rsu_slot_verify_buf ex_walk 0 (Some ex_image) (int (length ex_image)) l = Some (0, v) \<and>
      mock_mem (world (lib_db v)) = mock_mem (world (lib_db l))"
    by (rule slot_program_verify [OF ex_rel, where p = 4 and l = ex_lib and ?st0.0 = ex_walk])
      (use r o n in \<open>simp_all add: ex_slots_ok ex_slot ex_slot_addr cpb_live_def\<close>)
  then show ?thesis using r by auto
qed

text \<open>C39: When \<^verbatim>\<open>rsu_slot_copy_to_buf\<close> returns 0 the slot is in use, the buffer starts with what the slot holds, its
  rest is as it was, and neither the tables nor the flash have changed. The platform's read returns no
  positive code, which the function would take for success.\<close>

theorem slot_copy_correct:
  assumes "nor_flash hal mem" "ready l hal" "rsu_slot_copy_to_buf slot (Some b) sz l = Some ((0, out), l')"
    "\<And>w a buf r d w'. qspi_read hal w a buf = Some (r, d, w') \<Longrightarrow> r \<le> 0"
  shows "\<exists>p q n w. librsu_misc_slot2part partition_ops (lib_db l) slot = Some p \<and> 0 \<le> p \<and>
    priority_get p (lib_db l) = Some q \<and> 0 < q \<and> int n = part_len (lib_db l) (nat p) \<and> n \<le> sz \<and> sz \<le> length b \<and>
    out = Some (region (mem (world (lib_db l))) (part_addr (lib_db l) (nat p)) n @ drop n b) \<and>
    lib_db l' = (lib_db l)\<lparr>world := w\<rparr> \<and> mem w = mem (world (lib_db l))"
proof -
  let ?s = "lib_db l"
  obtain p q r d e where c: "librsu_misc_slot2part partition_ops ?s slot = Some p" "0 \<le> p" "0 \<le> partition_size p ?s"
    "nat (partition_size p ?s) \<le> sz" "sz \<le> length b" "priority_get p ?s = Some q" "0 < q"
    and rd: "read_part hal p 0 (Some b) (partition_size p ?s) ?s = Some (r, d, e)" "0 \<le> r" and o: "out = Some d" "lib_db l' = e"
    using copy_to_buf_steps [OF assms(3)] ready_unique [OF assms(2)] unfolding data_read_def by metis
  have r: "r = 0" using read_part_not_positive [OF rd(1) assms(4)] rd(2) by simp
  have sz: "int (nat (partition_size p ?s)) = part_len ?s (nat p)" using partition_size_len [OF c(3)] c(3) by simp
  from rd(1) [unfolded r] partition_size_less obtain w where "e = ?s\<lparr>world := w\<rparr>" "mem w = mem (world ?s)"
    "d = region (mem (world ?s)) (part_addr ?s (nat p) + 0) (nat (partition_size p ?s)) @ drop (nat (partition_size p ?s)) b"
    by (rule nor_flash.read_part_spec [OF assms(1)]) auto
  then show ?thesis
    using c o sz by (intro exI [of _ p] exI [of _ q] exI [of _ "nat (partition_size p ?s)"] exI [of _ w]) simp
qed

theorem slot_copy_correct_witness:
  "\<exists>l v out. rsu_slot_copy_to_buf 0 (Some (replicate 8192 0)) 8192 l = Some ((0, Some out), v) \<and>
    rsu_slot_program_buf ex_walk 0 (Some ex_image) 8192 ex_lib = Some (0, l) \<and> mock_mem (world (lib_db v)) = mock_mem (world (lib_db l))"
proof -
  obtain l v where l: "rsu_slot_program_buf ex_walk 0 (Some ex_image) 8192 ex_lib = Some (0, l)" "ready l ex_hal"
    and r: "rsu_slot_copy_to_buf 0 (Some (replicate 8192 0)) 8192 l = Some ((0, Some (ex_main @ ex_moved)), v)"
    using ex_lib_copies by blast
  have "mock_mem (world (lib_db v)) = mock_mem (world (lib_db l))"
    using slot_copy_correct [OF ex_nor l(2) r ex_read_not_positive] by force
  then show ?thesis using l r by blast
qed

end
