(* ===== verification/Rsu_Shape.thy ===== *)
theory Rsu_Shape
  imports Rsu_Api_Ok
begin

text \<open>
  The arrays of the database keep their sizes: the table in memory its 127 entries with names of 16
  bytes, the pointer block its 4096 bytes. Every operation keeps this, whatever it returns, on every
  platform that gives blocks of the size asked for and reads no more than it was asked for.

  \<open>always P x\<close> says that a run, if it has a result, has one with \<open>P\<close>; the rules in \<open>shapes\<close>
  follow the way the operations are composed.
\<close>

section \<open>Runs and their results\<close>

definition always :: "('a \<Rightarrow> bool) \<Rightarrow> 'a option \<Rightarrow> bool" where
  "always P x \<longleftrightarrow> (\<forall>a. x = Some a \<longrightarrow> P a)"

named_theorems shapes "what keeps the sizes"

lemma always_None [shapes]: "always P None"
  by (simp add: always_def)

lemma always_Some [shapes]: "P a \<Longrightarrow> always P (Some a)"
  by (simp add: always_def)

lemma always_bind [shapes]: "always (\<lambda>a. always P (f a)) x \<Longrightarrow> always P (Option.bind x f)"
  by (auto simp: always_def bind_splits)

lemma always_if [shapes]: "(b \<Longrightarrow> always P x) \<Longrightarrow> (\<not> b \<Longrightarrow> always P y) \<Longrightarrow> always P (if b then x else y)"
  by simp

lemma always_Let [shapes]: "always P (f x) \<Longrightarrow> always P (Let x f)"
  by simp

lemma always_pair [shapes]: "always P (f a b) \<Longrightarrow> always P (case_prod f (a, b))"
  by simp

lemma always_pair_apply [shapes]: "always P (f a b c) \<Longrightarrow> always P (case_prod f (a, b) c)"
  by simp

lemma always_option [shapes]:
  "(v = None \<Longrightarrow> always P x) \<Longrightarrow> (\<And>a. v = Some a \<Longrightarrow> always P (f a)) \<Longrightarrow> always P (case_option x f v)"
  by (cases v) auto

lemma always_any: "(\<And>a. P a) \<Longrightarrow> always P x"
  by (simp add: always_def)

lemma alwaysI: "(\<And>a. x = Some a \<Longrightarrow> P a) \<Longrightarrow> always P x"
  by (simp add: always_def)

lemma always_mono: "always P x \<Longrightarrow> (\<And>a. P a \<Longrightarrow> Q a) \<Longrightarrow> always Q x"
  by (auto simp: always_def)

lemma always_pairs: "always (\<lambda>(r, t). P t) x \<Longrightarrow> (\<And>r t. P t \<Longrightarrow> Q (r, t)) \<Longrightarrow> always Q x"
  by (auto simp: always_def)

declare case_prodI [shapes]

section \<open>The database\<close>

text \<open>
  \<open>I\<close> is what holds of the state of the platform. \<open>hal_typed I\<close> says that every function of the platform
  keeps it, and gives blocks and buffers of the size asked for.
\<close>

definition shaped :: "('w \<Rightarrow> bool) \<Rightarrow> 'w ops \<Rightarrow> bool" where
  "shaped I s \<longleftrightarrow> I (world s) \<and> wf_spt (spt s) \<and> length (cpb s) = CPB_SIZE"

definition keeps :: "('w \<Rightarrow> bool) \<Rightarrow> ('w \<Rightarrow> 'a \<times> 'w) \<Rightarrow> bool" where
  "keeps I f \<longleftrightarrow> (\<forall>w. I w \<longrightarrow> I (snd (f w)))"

definition flash_typed :: "('w \<Rightarrow> bool) \<Rightarrow> 'w librsu_ll_intf \<Rightarrow> bool" where
  "flash_typed I hal \<longleftrightarrow>
     (\<forall>w n. I w \<longrightarrow> (case rsu_malloc hal w n of (b, w') \<Rightarrow> I w' \<and> (\<forall>x. b = Some x \<longrightarrow> length x = n))) \<and>
     (\<forall>w a b. I w \<longrightarrow> always (\<lambda>(r, d, w'). I w' \<and> length d = length b) (qspi_read hal w a b)) \<and>
     (\<forall>w a b. I w \<longrightarrow> always (\<lambda>(r, w'). I w') (qspi_write hal w a b)) \<and>
     (\<forall>w a n. I w \<longrightarrow> always (\<lambda>(r, w'). I w') (qspi_erase hal w a n))"

definition firmware_typed :: "('w \<Rightarrow> bool) \<Rightarrow> 'w librsu_ll_intf \<Rightarrow> bool" where
  "firmware_typed I hal \<longleftrightarrow>
     (\<forall>w. I w \<longrightarrow> (case mbox_get_rsu_status hal w of (r, d, w') \<Rightarrow> I w')) \<and>
     (\<forall>a. keeps I (\<lambda>w. mbox_send_rsu_update hal w a)) \<and> (\<forall>v. keeps I (\<lambda>w. mbox_rsu_notify hal w v)) \<and>
     (\<forall>w. I w \<longrightarrow> (case mbox_get_spt_addresses hal w of (r, d, w') \<Rightarrow> I w')) \<and>
     (\<forall>w. I w \<longrightarrow> (case misc_get_dcmf_status hal w of (r, d, w') \<Rightarrow> I w')) \<and>
     (\<forall>w. I w \<longrightarrow> (case misc_get_max_retry_count hal w of (r, d, w') \<Rightarrow> I w')) \<and>
     (\<forall>w. I w \<longrightarrow> (case misc_get_dcmf_version hal w of (r, d, w') \<Rightarrow> I w'))"

definition files_typed :: "('w \<Rightarrow> bool) \<Rightarrow> 'w librsu_ll_intf \<Rightarrow> bool" where
  "files_typed I hal \<longleftrightarrow>
     (\<forall>n m. keeps I (\<lambda>w. file_open hal w n m)) \<and> (\<forall>b f. keeps I (\<lambda>w. file_write hal w b f)) \<and>
     (\<forall>a m f. keeps I (\<lambda>w. file_fseek hal w a m f)) \<and> (\<forall>n f. keeps I (\<lambda>w. file_ftruncate hal w n f)) \<and>
     (\<forall>f. keeps I (\<lambda>w. file_close hal w f)) \<and>
     (\<forall>w b f. I w \<longrightarrow> (case file_read hal w b f of (r, d, w') \<Rightarrow> I w' \<and> length d = length b)) \<and>
     (\<forall>w b f. I w \<longrightarrow> (case file_fgets hal w b f of (r, d, w') \<Rightarrow> I w'))"

definition hal_typed :: "('w \<Rightarrow> bool) \<Rightarrow> 'w librsu_ll_intf \<Rightarrow> bool" where
  "hal_typed I hal \<longleftrightarrow> flash_typed I hal \<and> firmware_typed I hal \<and> files_typed I hal"

lemma shaped_updates [simp]:
  "shaped I (s\<lparr>spt_corrupted := b\<rparr>) = shaped I s" "shaped I (s\<lparr>cpb_corrupted := b\<rparr>) = shaped I s"
  "shaped I (s\<lparr>cpb_fixed := b\<rparr>) = shaped I s" "shaped I (s\<lparr>cpb0_part := i\<rparr>) = shaped I s" "shaped I (s\<lparr>cpb1_part := i\<rparr>) = shaped I s"
  "shaped I (s\<lparr>mtd_part_offset := o'\<rparr>) = shaped I s" "shaped I (s\<lparr>cpb_slots := p\<rparr>) = shaped I s" "shaped I (set_cpb_slots s) = shaped I s"
  by (simp_all add: shaped_def set_cpb_slots_def)

lemma shaped_world [simp]: "shaped I s \<Longrightarrow> I w \<Longrightarrow> shaped I (s\<lparr>world := w\<rparr>)"
  by (simp add: shaped_def)

lemma shaped_spt [simp]: "wf_spt t \<Longrightarrow> shaped I s \<Longrightarrow> shaped I (s\<lparr>spt := t\<rparr>)"
  by (simp add: shaped_def)

lemma shaped_cpb [simp]: "length b = CPB_SIZE \<Longrightarrow> shaped I s \<Longrightarrow> shaped I (s\<lparr>cpb := b\<rparr>)"
  by (simp add: shaped_def)

lemma shapedD: "shaped I s \<Longrightarrow> wf_spt (spt s)" "shaped I s \<Longrightarrow> length (cpb s) = CPB_SIZE" "shaped I s \<Longrightarrow> I (world s)"
  by (simp_all add: shaped_def)

lemma wf_spt_header [simp]:
  "wf_spt (t\<lparr>magic_number := m\<rparr>) = wf_spt t" "wf_spt (t\<lparr>checksum := c\<rparr>) = wf_spt t" "wf_spt (t\<lparr>partitions := n\<rparr>) = wf_spt t"
  by (simp_all add: wf_spt_def)

lemma wf_spt_entry:
  assumes "wf_spt t" "x < 127 \<Longrightarrow> length (p_name p) = SPT_PARTITION_NAME_LENGTH" shows "wf_spt (set_partition t x p)"
proof (cases "x < 127")
  case True
  then show ?thesis using assms by (auto simp: wf_spt_def set_partition_def dest: set_update_subset_insert [THEN subsetD])
next
  case False
  then show ?thesis using assms(1) by (simp add: wf_spt_def set_partition_def list_update_beyond)
qed

lemma length_magic [simp]: "length b = CPB_SIZE \<Longrightarrow> length (set_cpb_magic_number b m) = CPB_SIZE"
  by (simp add: set_cpb_magic_number_def length_overlay)

lemma flashD:
  assumes "hal_typed I hal" "I w"
  shows "rsu_malloc hal w n = (p, w') \<Longrightarrow> I w'" "rsu_malloc hal w n = (Some b, w') \<Longrightarrow> length b = n"
    "qspi_read hal w a c = Some (r, d, w') \<Longrightarrow> I w' \<and> length d = length c"
    "qspi_write hal w a c = Some (r, w') \<Longrightarrow> I w'" "qspi_erase hal w a k = Some (r, w') \<Longrightarrow> I w'"
proof -
  have "case rsu_malloc hal w n of (b, w') \<Rightarrow> I w' \<and> (\<forall>x. b = Some x \<longrightarrow> length x = n)"
    "always (\<lambda>(r, d, w'). I w' \<and> length d = length c) (qspi_read hal w a c)" "always (\<lambda>(r, w'). I w') (qspi_write hal w a c)"
    "always (\<lambda>(r, w'). I w') (qspi_erase hal w a k)"
    using assms by (simp_all add: hal_typed_def flash_typed_def)
  then show "rsu_malloc hal w n = (p, w') \<Longrightarrow> I w'" "rsu_malloc hal w n = (Some b, w') \<Longrightarrow> length b = n"
    "qspi_read hal w a c = Some (r, d, w') \<Longrightarrow> I w' \<and> length d = length c"
    "qspi_write hal w a c = Some (r, w') \<Longrightarrow> I w'" "qspi_erase hal w a k = Some (r, w') \<Longrightarrow> I w'"
    by (simp_all add: always_def)
qed

lemma queries:
  assumes "hal_typed I hal" "I w"
  shows "case mbox_get_rsu_status hal w of (r, d, w') \<Rightarrow> I w'" "case mbox_get_spt_addresses hal w of (r, d, w') \<Rightarrow> I w'"
    "case misc_get_dcmf_status hal w of (r, d, w') \<Rightarrow> I w'" "case misc_get_max_retry_count hal w of (r, d, w') \<Rightarrow> I w'"
    "case misc_get_dcmf_version hal w of (r, d, w') \<Rightarrow> I w'" "case file_fgets hal w c f of (r, d, w') \<Rightarrow> I w'"
    "case file_read hal w c f of (r, d, w') \<Rightarrow> I w' \<and> length d = length c"
  using assms by (simp_all add: hal_typed_def firmware_typed_def files_typed_def)

lemma filesD:
  assumes "hal_typed I hal" "I w"
  shows "file_read hal w c f = (r, d, w') \<Longrightarrow> I w' \<and> length d = length c" "file_fgets hal w c f = (r, d, w') \<Longrightarrow> I w'"
  using queries(6,7) [OF assms, of c f] by simp_all

lemma keepsD: "keeps I f \<Longrightarrow> I w \<Longrightarrow> I (snd (f w))"
  by (simp add: keeps_def)

lemma keeps_platform [shapes]:
  assumes "hal_typed I hal"
  shows "keeps I (\<lambda>w. mbox_send_rsu_update hal w a)" "keeps I (\<lambda>w. mbox_rsu_notify hal w v)"
    "keeps I (\<lambda>w. file_open hal w n m)" "keeps I (\<lambda>w. file_write hal w b f)" "keeps I (\<lambda>w. file_fseek hal w k e f)"
    "keeps I (\<lambda>w. file_ftruncate hal w k f)" "keeps I (\<lambda>w. file_close hal w f)"
  using assms by (simp_all add: hal_typed_def firmware_typed_def files_typed_def)

lemma keeps_query:
  assumes "\<And>w. I w \<Longrightarrow> case f w of (r, d, w') \<Rightarrow> I w'" shows "keeps I (\<lambda>w. case f w of (r, d, w) \<Rightarrow> ((r, d), w))"
  unfolding keeps_def
proof (intro allI impI)
  fix w assume "I w"
  then show "I (snd (case f w of (r, d, w) \<Rightarrow> ((r, d), w)))" using assms [of w] by (cases "f w") simp
qed

lemmas keeps_queries [shapes] =
  keeps_query [OF queries(1)] keeps_query [OF queries(3)] keeps_query [OF queries(4)] keeps_query [OF queries(5)]

section \<open>Access to the flash\<close>

lemma ops_malloc_shape [shapes]:
  assumes "hal_typed I hal" "shaped I s" "\<And>o' t. shaped I t \<Longrightarrow> (\<And>b. o' = Some b \<Longrightarrow> length b = n) \<Longrightarrow> always P (f o' t)"
  shows "always P (case_prod f (ops_malloc hal n s))"
proof -
  obtain o' w where m: "rsu_malloc hal (world s) n = (o', w)" by fastforce
  have "always P (f o' (s\<lparr>world := w\<rparr>))"
    by (rule assms(3)) (use assms(2) m flashD(1,2) [OF assms(1) shapedD(3) [OF assms(2)]] in auto)
  then show ?thesis using m by (simp add: ops_malloc_def)
qed

lemma read_dev_shape [shapes]:
  assumes "hal_typed I hal" "shaped I s" "\<And>r d t. shaped I t \<Longrightarrow> length d = length b \<Longrightarrow> Q (r, d, t)"
  shows "always Q (read_dev hal a (Some b) n s)"
proof (rule alwaysI)
  fix x assume "read_dev hal a (Some b) n s = Some x"
  then consider "x = (- EINVAL, b, s)"
    | r d w where "qspi_read hal (world s) a (take (size_of_int n) b) = Some (r, d, w)" "size_of_int n \<le> length b"
        "x = (r, d @ drop (size_of_int n) b, s\<lparr>world := w\<rparr>)"
    by (auto simp: read_dev_def bind_splits not_less split: if_splits)
  then show "Q x"
  proof cases
    case 2
    then show ?thesis using flashD(3) [OF assms(1) shapedD(3) [OF assms(2)] 2(1)] assms(2) by (auto intro!: assms(3))
  qed (use assms in auto)
qed

lemma write_dev_shape [shapes]:
  assumes "hal_typed I hal" "shaped I s" "\<And>r t. shaped I t \<Longrightarrow> Q (r, t)" shows "always Q (write_dev hal a b n s)"
  using assms flashD(4) [OF assms(1) shapedD(3) [OF assms(2)]]
  by (auto simp: always_def write_dev_def bind_splits split: option.splits if_splits)

lemma erase_dev_shape [shapes]:
  assumes "hal_typed I hal" "shaped I s" "\<And>r t. shaped I t \<Longrightarrow> Q (r, t)" shows "always Q (erase_dev hal a n s)"
  using assms flashD(5) [OF assms(1) shapedD(3) [OF assms(2)]]
  by (auto simp: always_def erase_dev_def bind_splits split: if_splits)

lemma always_any2: "(\<And>a b. P (a, b)) \<Longrightarrow> always P x"
  by (auto simp: always_def)

lemma always_any3: "(\<And>a b c. P (a, b, c)) \<Longrightarrow> always P x"
  by (auto simp: always_def)

text \<open>Reads of the tables, which leave the database alone.\<close>

lemmas reads [shapes] =
  always_any [where x = "part_at t x" for t x] always_any [where x = "off_add a b" for a b]
  always_any [where x = "get_cpb_slot s x" for s x] always_any [where x = "check_cpb s" for s]
  always_any [where x = "find_cpb_slot s v xs" for s v xs] always_any [where x = "priority_get p s" for p s]
  always_any [where x = "librsu_misc_slot2part i s n" for i s n] always_any [where x = "c_str b" for b]
  always_any [where x = "slot_info p s" for p s] always_any2 [where x = "partition_offset p v s" for p v s]
  always_any2 [where x = "get_part_offset p s" for p s] always_any [where x = "slot_count_loop s xs n" for s xs n]
  always_any [where x = "slot_by_name_loop s n xs k" for s n xs k] always_any [where x = "find_name_loop s n xs" for s n xs]

lemma read_part_shape [shapes]:
  assumes "hal_typed I hal" "shaped I s" "\<And>r d t. shaped I t \<Longrightarrow> length d = length b \<Longrightarrow> Q (r, d, t)"
  shows "always Q (read_part hal p a (Some b) n s)"
  unfolding read_part_def option.case by (rule assms shapes | assumption | simp add: shapedD [OF assms(2)] shapedD assms(2))+

lemma write_part_shape [shapes]:
  assumes "hal_typed I hal" "shaped I s" "\<And>r t. shaped I t \<Longrightarrow> Q (r, t)" shows "always Q (write_part hal p a b n s)"
  unfolding write_part_def by (rule assms shapes | assumption)+

lemma erase_part_shape [shapes]:
  assumes "hal_typed I hal" "shaped I s" "\<And>r t. shaped I t \<Longrightarrow> Q (r, t)" shows "always Q (erase_part hal p s)"
  unfolding erase_part_def by (rule assms shapes | assumption)+

section \<open>The sub-partition table\<close>

lemma load_spt0_offset_shape [shapes]:
  assumes "shaped I s" "\<And>r t. shaped I t \<Longrightarrow> always P (f r t)" shows "always P (case_prod f (load_spt0_offset s))"
  using assms by (auto simp: load_spt0_offset_def Let_def split: option.split)

lemma check_both_spt_shape [shapes]:
  assumes "hal_typed I hal" "shaped I s" "\<And>r t. shaped I t \<Longrightarrow> Q (r, t)" shows "always Q (check_both_spt hal s)"
  unfolding check_both_spt_def by (rule assms shapes | assumption | simp add: shapedD [OF assms(2)] shapedD assms(2))+

lemma check_spt_loop_wf: "wf_spt t \<Longrightarrow> check_spt_loop t f xs = (r, g, u) \<Longrightarrow> wf_spt u"
proof (induction xs arbitrary: t f)
  case (Cons x xs)
  let ?t = "t\<lparr>partition := (partition t)[x := terminate_name (partition t ! x)]\<rparr>"
  have "wf_spt ?t"
  proof (cases "x < length (partition t)")
    case True
    then have "length (p_name (partition t ! x)) = 16" using Cons.prems(1) by (simp add: wf_spt_def)
    then have "length (p_name (terminate_name (partition t ! x))) = 16" by (simp add: terminate_name_def)
    then show ?thesis using wf_spt_entry [OF Cons.prems(1)] by (simp add: set_partition_def)
  next
    case False
    then show ?thesis using Cons.prems(1) by (simp add: list_update_beyond)
  qed
  then show ?case using Cons.prems(2) Cons.IH by (auto simp: Let_def split: if_splits)
qed simp

lemma check_spt_shape:
  assumes "hal_typed I hal" "shaped I s" "check_spt hal s = (r, t)" shows "shaped I t"
proof -
  obtain q u where u: "check_spt_checksum hal s = (q, u)" by fastforce
  have "shaped I w" if "ops_malloc hal n s = (p, w)" for n p w
    using that assms(2) flashD(1) [OF assms(1) shapedD(3) [OF assms(2)]] by (auto simp: ops_malloc_def Let_def split: prod.splits)
  then have "shaped I u" using u assms(2) by (auto simp: check_spt_checksum_def Let_def split: if_splits prod.splits option.splits)
  moreover have "shaped I (u\<lparr>spt := v\<rparr>)" if "check_spt_loop (spt u) f xs = (e, g, v)" for f xs e g v
    using that \<open>shaped I u\<close> check_spt_loop_wf [OF shapedD(1)] by (intro shaped_spt) blast+
  ultimately show ?thesis using assms(3) u by (auto simp: check_spt_def split: if_splits prod.splits)
qed

lemma spt_good_shape [shapes]:
  assumes "hal_typed I hal" "shaped I s" "\<And>b t. shaped I t \<Longrightarrow> always P (f b t)" shows "always P (case_prod f (spt_good hal s))"
proof -
  obtain b t where g: "spt_good hal s = (b, t)" by fastforce
  obtain q u where u: "check_spt hal s = (q, u)" by fastforce
  then have "shaped I u" by (rule check_spt_shape [OF assms(1,2)])
  then have "shaped I t" using assms(2) g u
    by (auto simp: spt_good_def load_spt0_offset_def Let_def split: if_splits option.splits)
  then show ?thesis using g assms(3) by simp
qed

lemma read_spt_shape [shapes]:
  assumes "hal_typed I hal" "shaped I s" "\<And>r t. shaped I t \<Longrightarrow> Q (r, t)" shows "always Q (read_spt hal a s)"
  unfolding read_spt_def
  by (rule assms shapes | assumption | simp add: wf_spt_of_bytes shapedD [OF assms(2)] length_spt_bytes)+

lemma qspi_write_shape [shapes]:
  assumes "hal_typed I hal" "I w0" "\<And>r w. I w \<Longrightarrow> Q (r, w)" shows "always Q (qspi_write hal w0 a b)"
  using flashD(4) [OF assms(1,2)] assms(3) by (auto simp: always_def)

lemma restore_spt1_shape [shapes]:
  assumes "hal_typed I hal" "shaped I s" "\<And>r t. shaped I t \<Longrightarrow> Q (r, t)" shows "always Q (restore_spt1 hal s)"
  unfolding restore_spt1_def by (rule assms shapes | assumption | simp add: shapedD [OF assms(2)] shapedD assms(2))+

lemma restore_spt0_shape [shapes]:
  assumes "hal_typed I hal" "shaped I s" "\<And>r t. shaped I t \<Longrightarrow> Q (r, t)" shows "always Q (restore_spt0 hal s)"
  unfolding restore_spt0_def by (rule assms shapes | assumption | simp add: shapedD [OF assms(2)] shapedD assms(2))+

lemma load_spt_shape [shapes]:
  assumes "hal_typed I hal" "shaped I s" "\<And>r t. shaped I t \<Longrightarrow> Q (r, t)" shows "always Q (load_spt hal s)"
  unfolding load_spt_def by (rule assms shapes | assumption | simp add: shapedD [OF assms(2)] shapedD assms(2))+

lemma update_spt_checksum_shape [shapes]:
  assumes "hal_typed I hal" "shaped I s" "\<And>b t. shaped I t \<Longrightarrow> always P (f b t)" shows "always P (case_prod f (update_spt_checksum hal s))"
  using assms flashD(1) [OF assms(1) shapedD(3) [OF assms(2)]]
  by (auto simp: update_spt_checksum_def ops_malloc_def Let_def shapedD split: option.split prod.split)

lemma writeback_spt_copy_shape [shapes]:
  assumes "hal_typed I hal" "shaped I s" "\<And>r t. shaped I t \<Longrightarrow> Q (r, t)" shows "always Q (writeback_spt_copy hal x s)"
  unfolding writeback_spt_copy_def by (rule assms shapes | assumption | simp add: shapedD [OF assms(2)] shapedD assms(2))+

lemma writeback_spt_loop_shape: "hal_typed I hal \<Longrightarrow> shaped I s \<Longrightarrow> always (\<lambda>(r, t). shaped I t) (writeback_spt_loop hal xs u s)"
proof (induction xs arbitrary: u s)
  case (Cons x xs)
  show ?case unfolding writeback_spt_loop.simps by (rule Cons shapes | assumption)+
qed (simp add: always_def)

lemma writeback_spt_shape [shapes]:
  assumes "hal_typed I hal" "shaped I s" "\<And>r t. shaped I t \<Longrightarrow> Q (r, t)" shows "always Q (writeback_spt hal s)"
  unfolding writeback_spt_def by (rule assms always_pairs [OF writeback_spt_loop_shape] shapes | assumption)+

section \<open>Partitions\<close>

lemma SAFE_STRCPY_shape [shapes]:
  assumes "\<And>out. length out = length d \<Longrightarrow> P out" shows "always P (SAFE_STRCPY d n src m)"
proof (rule alwaysI)
  fix out assume r: "SAFE_STRCPY d n src m = Some out"
  have "strnlen a k \<le> length a" for a and k :: nat by (rule strnlen_le_length)
  then have "length out = length d" using r
    by (cases src) (auto simp: SAFE_STRCPY_def Let_def length_overlay min_def dest: order_trans split: if_splits)
  then show "P out" by (rule assms)
qed

lemma name_length: "shaped I s \<Longrightarrow> x < 127 \<Longrightarrow> length (p_name (partition (spt s) ! x)) = 16"
  by (simp add: shaped_def wf_spt_def)

lemma move_down_wf:
  assumes "\<forall>p \<in> set ps. length (p_name p) = 16" "\<forall>x \<in> set xs. x + 1 < length ps"
  shows "length (move_down ps xs) = length ps \<and> (\<forall>p \<in> set (move_down ps xs). length (p_name p) = 16)"
  using assms
proof (induction xs arbitrary: ps)
  case (Cons x xs)
  have "\<forall>p \<in> set (ps[x := ps ! (x + 1)]). length (p_name p) = 16"
    using Cons.prems nth_mem [of "x + 1" ps] by (auto dest: set_update_subset_insert [THEN subsetD])
  then show ?case using Cons.IH [of "ps[x := ps ! (x + 1)]"] Cons.prems by simp
qed simp

lemma partition_rename_shape [shapes]:
  assumes "hal_typed I hal" "shaped I s" "\<And>r t. shaped I t \<Longrightarrow> Q (r, t)" shows "always Q (partition_rename hal p nm s)"
  unfolding partition_rename_def
  by (rule assms shapes | assumption | simp add: name_length [OF assms(2)] wf_spt_entry shapedD [OF assms(2)] assms(2) bad_part_def)+

lemma partition_delete_shape [shapes]:
  assumes "hal_typed I hal" "shaped I s" "\<And>r t. shaped I t \<Longrightarrow> Q (r, t)" shows "always Q (partition_delete hal p s)"
proof -
  let ?n = "unat (partitions (spt s))"
  have w: "wf_spt ((spt s)\<lparr>partition := move_down (partition (spt s)) [nat p..<min ?n 126]\<rparr>)"
    using move_down_wf [of "partition (spt s)" "[nat p..<min ?n 126]"] assms(2) by (auto simp: shaped_def wf_spt_def)
  show ?thesis unfolding partition_delete_def by (rule assms shapes | assumption | simp add: w assms(2))+
qed

lemma partition_create_shape [shapes]:
  assumes "hal_typed I hal" "shaped I s" "\<And>r t. shaped I t \<Longrightarrow> Q (r, t)" shows "always Q (partition_create hal nm a z s)"
  unfolding partition_create_def
  by (rule assms shapes | assumption | simp add: name_length [OF assms(2)] wf_spt_entry shapedD [OF assms(2)] shapedD assms(2))+

section \<open>The pointer block\<close>

lemma malloc_shape [shapes]:
  assumes "hal_typed I hal" "I w0" "\<And>o' w. I w \<Longrightarrow> (\<And>b. o' = Some b \<Longrightarrow> length b = n) \<Longrightarrow> always P (f o' w)"
  shows "always P (case_prod f (rsu_malloc hal w0 n))"
proof -
  obtain o' w where m: "rsu_malloc hal w0 n = (o', w)" by fastforce
  have "always P (f o' w)" by (rule assms) (use m flashD(1,2) [OF assms(1,2)] in auto)
  then show ?thesis by (simp add: m)
qed

lemma check_both_cpb_shape [shapes]:
  assumes "hal_typed I hal" "shaped I s" "\<And>r t. shaped I t \<Longrightarrow> Q (r, t)" shows "always Q (check_both_cpb hal s)"
  unfolding check_both_cpb_def by (rule assms shapes | assumption | simp add: shapedD [OF assms(2)] shapedD assms(2))+

lemma find_cpb_parts_shape [simp]: "shaped I (find_cpb_parts s xs) = shaped I s"
  by (induction xs arbitrary: s) (simp_all add: Let_def)

lemma read_cpb_shape [shapes]:
  assumes "hal_typed I hal" "shaped I s" "\<And>r t. shaped I t \<Longrightarrow> Q (r, t)" shows "always Q (read_cpb hal p s)"
  unfolding read_cpb_def by (rule assms shapes | assumption | simp add: shapedD [OF assms(2)] shapedD assms(2))+

lemma cpb_good_shape [shapes]:
  assumes "hal_typed I hal" "shaped I s" "\<And>r t. shaped I t \<Longrightarrow> Q (r, t)" shows "always Q (cpb_good hal p s)"
  unfolding cpb_good_def by (rule assms shapes | assumption | simp add: shapedD [OF assms(2)] shapedD assms(2))+

lemma restore_cpb_shape [shapes]:
  assumes "hal_typed I hal" "shaped I s" "\<And>r t. shaped I t \<Longrightarrow> Q (r, t)" shows "always Q (restore_cpb hal p s)"
  unfolding restore_cpb_def by (rule assms shapes | assumption | simp add: shapedD [OF assms(2)] shapedD assms(2))+

lemma status_shape [shapes]:
  assumes "hal_typed I hal" "I w0" "\<And>r i w. I w \<Longrightarrow> always P (f r i w)"
  shows "always P (case mbox_get_rsu_status hal w0 of (r, i, w) \<Rightarrow> f r i w)"
  using queries(1) [OF assms(1,2)] assms(3) by (simp split: prod.splits)

lemma load_cpb_shape [shapes]:
  assumes "hal_typed I hal" "shaped I s" "\<And>r t. shaped I t \<Longrightarrow> Q (r, t)" shows "always Q (load_cpb hal s)"
  unfolding load_cpb_def by (rule assms shapes | assumption | simp add: shapedD [OF assms(2)] shapedD assms(2))+

lemma set_cpb_slot_shape [shapes]:
  assumes "shaped I s" "\<And>t. shaped I t \<Longrightarrow> Q t" shows "always Q (set_cpb_slot s x v)"
  unfolding set_cpb_slot_def by (rule assms shapes | assumption | simp add: shapedD [OF assms(1)] assms(1))+

lemma update_cpb_loop_shape: "hal_typed I hal \<Longrightarrow> shaped I s \<Longrightarrow> always (\<lambda>(r, t). shaped I t) (update_cpb_loop hal xs u s)"
proof (induction xs arbitrary: u s)
  case (Cons x xs)
  show ?case unfolding update_cpb_loop.simps by (rule Cons shapes | assumption)+
qed (simp add: always_def)

lemma update_cpb_shape [shapes]:
  assumes "hal_typed I hal" "shaped I s" "\<And>r t. shaped I t \<Longrightarrow> Q (r, t)" shows "always Q (update_cpb hal x v s)"
  unfolding update_cpb_def by (rule assms always_pairs [OF update_cpb_loop_shape] shapes | assumption)+

lemma writeback_cpb_copy_shape [shapes]:
  assumes "hal_typed I hal" "shaped I s" "\<And>r t. shaped I t \<Longrightarrow> Q (r, t)" shows "always Q (writeback_cpb_copy hal x s)"
  unfolding writeback_cpb_copy_def by (rule assms shapes | assumption | simp add: shapedD [OF assms(2)] shapedD assms(2))+

lemma writeback_cpb_loop_shape: "hal_typed I hal \<Longrightarrow> shaped I s \<Longrightarrow> always (\<lambda>(r, t). shaped I t) (writeback_cpb_loop hal xs u s)"
proof (induction xs arbitrary: u s)
  case (Cons x xs)
  show ?case unfolding writeback_cpb_loop.simps by (rule Cons shapes | assumption)+
qed (simp add: always_def)

lemma writeback_cpb_shape [shapes]:
  assumes "hal_typed I hal" "shaped I s" "\<And>r t. shaped I t \<Longrightarrow> Q (r, t)" shows "always Q (writeback_cpb hal s)"
  unfolding writeback_cpb_def by (rule assms always_pairs [OF writeback_cpb_loop_shape] shapes | assumption)+

lemma compress_loop_shape: "shaped I s \<Longrightarrow> always (\<lambda>(y, t). shaped I t) (compress_loop x y s)"
proof (induction x y s rule: compress_loop.induct)
  case (1 x y s)
  show ?case
  proof (subst compress_loop.simps, rule always_if)
    assume b: "x < cpb_count s"
    show "always (\<lambda>(y, t). shaped I t) (do {
        v \<leftarrow> get_cpb_slot s x;
        if cpb_live v then do { s \<leftarrow> set_cpb_slot s y v; compress_loop (Suc x) (Suc y) s } else compress_loop (Suc x) y s })"
    proof (rule always_bind, rule alwaysI, rule always_if)
      fix v assume v: "get_cpb_slot s x = Some v" "cpb_live v"
      show "always (\<lambda>(y, t). shaped I t) (do { s \<leftarrow> set_cpb_slot s y v; compress_loop (Suc x) (Suc y) s })"
      proof (rule always_bind, rule alwaysI)
        fix t assume t: "set_cpb_slot s y v = Some t"
        have "always (shaped I) (set_cpb_slot s y v)" by (rule "1.prems" shapes | assumption)+
        then have "shaped I t" using t by (simp add: always_def)
        then show "always (\<lambda>(y, t). shaped I t) (compress_loop (Suc x) (Suc y) t)" by (rule "1.IH"(1) [OF b v t])
      qed
    next
      fix v assume "get_cpb_slot s x = Some v" "\<not> cpb_live v"
      then show "always (\<lambda>(y, t). shaped I t) (compress_loop (Suc x) y s)" by (rule "1.IH"(2) [OF b _ _ "1.prems"])
    qed
  qed (use "1.prems" in \<open>simp add: always_def\<close>)
qed

lemma erase_rest_shape: "shaped I s \<Longrightarrow> always (shaped I) (erase_rest y s)"
proof (induction y s rule: erase_rest.induct)
  case (1 y s)
  show ?case
  proof (subst erase_rest.simps, rule always_if)
    assume b: "y < cpb_count s"
    show "always (shaped I) (do { s \<leftarrow> set_cpb_slot s y ERASED_ENTRY; erase_rest (Suc y) s })"
    proof (rule always_bind, rule alwaysI)
      fix t assume t: "set_cpb_slot s y ERASED_ENTRY = Some t"
      have "always (shaped I) (set_cpb_slot s y ERASED_ENTRY)" by (rule "1.prems" shapes | assumption)+
      then have "shaped I t" using t by (simp add: always_def)
      then show "always (shaped I) (erase_rest (Suc y) t)" by (rule "1.IH" [OF b t])
    qed
  qed (use "1.prems" in \<open>simp add: always_def\<close>)
qed

lemma priority_add_shape [shapes]:
  assumes "hal_typed I hal" "shaped I s" "\<And>r t. shaped I t \<Longrightarrow> Q (r, t)" shows "always Q (priority_add hal p s)"
  unfolding priority_add_def
  by (rule assms always_pairs [OF compress_loop_shape] always_mono [OF erase_rest_shape] shapes | assumption)+

lemma priority_remove_shape [shapes]:
  assumes "hal_typed I hal" "shaped I s" "\<And>r t. shaped I t \<Longrightarrow> Q (r, t)" shows "always Q (priority_remove hal p s)"
  unfolding priority_remove_def by (rule assms shapes | assumption)+

lemma empty_cpb_header_length: "length empty_cpb_header = 24"
  by (simp add: empty_cpb_header_def)

lemma empty_cpb_shape [shapes]:
  assumes "hal_typed I hal" "shaped I s" "\<And>r t. shaped I t \<Longrightarrow> Q (r, t)" shows "always Q (empty_cpb hal s)"
  unfolding empty_cpb_def
  by (rule assms shapes | assumption | simp add: empty_cpb_header_length shapedD [OF assms(2)] shapedD assms(2))+

section \<open>Saving and restoring\<close>

lemma on_world_shape [shapes]:
  assumes "keeps I g" "shaped I s" "\<And>r t. shaped I t \<Longrightarrow> always P (f r t)" shows "always P (case_prod f (on_world g s))"
  using assms keepsD [OF assms(1) shapedD(3) [OF assms(2)]] by (auto simp: on_world_def split: prod.split)

lemma on_world_pair [shapes]: "keeps I g \<Longrightarrow> shaped I s \<Longrightarrow> case on_world g s of (r, t) \<Rightarrow> shaped I t"
  using keepsD [of I g "world s"] by (auto simp: on_world_def shapedD split: prod.split)

lemmas platform_defs = notify_sdm_def rsu_status_def rsu_set_address_def rsu_get_dcmf_status_def rsu_get_max_retry_count_def
  rsu_get_dcmf_version_def rsu_fopen_def rsu_write_def rsu_fseek_def rsu_ftruncate_def rsu_close_def

lemma close_ret_shape [shapes]: "hal_typed I hal \<Longrightarrow> shaped I s \<Longrightarrow> case close_ret hal fp r s of (r, t) \<Rightarrow> shaped I t"
  using on_world_pair [OF keeps_platform(7), of I hal s fp] by (auto simp: close_ret_def rsu_close_def split: prod.splits)

lemma rsu_read_shape [shapes]:
  assumes "hal_typed I hal" "shaped I s" "\<And>r d t. shaped I t \<Longrightarrow> length d = length b \<Longrightarrow> always P (f (r, d) t)"
  shows "always P (case_prod f (rsu_read hal b fp s))"
proof -
  obtain r d w where m: "file_read hal (world s) b fp = (r, d, w)" by (metis prod_cases3)
  have "always P (f (r, d) (s\<lparr>world := w\<rparr>))"
    by (rule assms(3)) (use assms(2) m filesD(1) [OF assms(1) shapedD(3) [OF assms(2)]] in auto)
  then show ?thesis using m by (simp add: rsu_read_def on_world_def)
qed

lemma install_spt_shape [shapes]:
  assumes "hal_typed I hal" "length b \<ge> SPT_SIZE" "shaped I s" "\<And>r t. shaped I t \<Longrightarrow> Q (r, t)" shows "always Q (install_spt hal b s)"
  unfolding install_spt_def by (rule assms load_spt0_offset_shape [where I = I] shapes | assumption | simp add: wf_spt_of_bytes assms(2,3))+

lemma install_cpb_shape [shapes]:
  assumes "hal_typed I hal" "length b \<ge> CPB_SIZE" "shaped I s" "\<And>r t. shaped I t \<Longrightarrow> Q (r, t)" shows "always Q (install_cpb hal b s)"
  unfolding install_cpb_def by (rule assms shapes | assumption | simp add: shapedD [OF assms(3)] assms(2,3))+

lemma restore_spt_from_file_shape:
  assumes "hal_typed I hal" "shaped I s" shows "always (\<lambda>(r, t). shaped I t) (restore_spt_from_file hal junk name s)"
  unfolding restore_spt_from_file_def platform_defs by (rule assms shapes | assumption | simp add: shapedD [OF assms(2)] shapedD assms(2))+

lemma save_spt_to_file_shape:
  assumes "hal_typed I hal" "shaped I s" shows "always (\<lambda>(r, t). shaped I t) (save_spt_to_file hal name s)"
  unfolding save_spt_to_file_def platform_defs by (rule assms shapes | assumption | simp add: shapedD [OF assms(2)] shapedD assms(2))+

lemma save_spt_to_buf_shape [shapes]:
  assumes "hal_typed I hal" "shaped I s" "\<And>r b t. shaped I t \<Longrightarrow> Q (r, b, t)" shows "always Q (save_spt_to_buf hal buf z s)"
  unfolding save_spt_to_buf_def by (rule assms shapes | assumption)+

lemma restore_spt_from_buf_shape [shapes]:
  assumes "hal_typed I hal" "shaped I s" "\<And>r t. shaped I t \<Longrightarrow> Q (r, t)" shows "always Q (restore_spt_from_buf hal buf z s)"
  unfolding restore_spt_from_buf_def by (rule assms shapes | assumption | simp add: shapedD [OF assms(2)] shapedD assms(2))+

lemma restore_cpb_from_file_shape:
  assumes "hal_typed I hal" "shaped I s" shows "always (\<lambda>(r, t). shaped I t) (restore_cpb_from_file hal junk name s)"
  unfolding restore_cpb_from_file_def platform_defs by (rule assms shapes | assumption | simp add: shapedD [OF assms(2)] shapedD assms(2))+

lemma save_cpb_to_file_shape:
  assumes "hal_typed I hal" "shaped I s" shows "always (\<lambda>(r, t). shaped I t) (save_cpb_to_file hal name s)"
  unfolding save_cpb_to_file_def platform_defs by (rule assms shapes | assumption | simp add: shapedD [OF assms(2)] shapedD assms(2))+

lemma save_cpb_to_buf_shape [shapes]:
  assumes "hal_typed I hal" "shaped I s" "\<And>r b t. shaped I t \<Longrightarrow> Q (r, b, t)" shows "always Q (save_cpb_to_buf hal buf z s)"
  unfolding save_cpb_to_buf_def by (rule assms shapes | assumption)+

lemma restore_cpb_from_buf_shape [shapes]:
  assumes "hal_typed I hal" "shaped I s" "\<And>r t. shaped I t \<Longrightarrow> Q (r, t)" shows "always Q (restore_cpb_from_buf hal buf z s)"
  unfolding restore_cpb_from_buf_def by (rule assms shapes | assumption | simp add: shapedD [OF assms(2)] shapedD assms(2))+

end
