(* ===== verification/Rsu_Shape_Api.thy ===== *)
theory Rsu_Shape_Api
  imports Rsu_Shape
begin

text \<open>
  The calls of the library keep the sizes of the database's arrays: the loops over a data source, the
  bodies of the calls, the calls, and starting and stopping.
\<close>

section \<open>The loops\<close>

definition callback_typed :: "('w \<Rightarrow> bool) \<Rightarrow> 'w rsu_data_callback \<Rightarrow> bool" where
  "callback_typed I cb \<longleftrightarrow> (\<forall>buf c. shaped I (db c) \<longrightarrow> always (\<lambda>(n, b, c). shaped I (db c)) (cb buf c))"

lemma callback_typedD: "callback_typed I cb \<Longrightarrow> shaped I (db c) \<Longrightarrow> cb buf c = Some (n, b, c') \<Longrightarrow> shaped I (db c')"
  unfolding callback_typed_def always_def by blast

lemma alwaysD: "x = Some a \<Longrightarrow> always P x \<Longrightarrow> P a"
  by (simp add: always_def)

lemma always_case2: "(\<And>a b. always P (f a b)) \<Longrightarrow> always P (case x of (a, b) \<Rightarrow> f a b)"
  by (simp split: prod.split)

lemma always_case3: "(\<And>a b c. always P (f a b c)) \<Longrightarrow> always P (case x of (a, b, c) \<Rightarrow> f a b c)"
  by (simp split: prod.split)

lemma buf_typed: "callback_typed I librsu_cb_buf"
  by (auto simp: callback_typed_def always_def librsu_cb_buf_def Let_def split: if_splits option.splits)

lemma file_typed:
  assumes h: "\<And>hal. h = Some hal \<Longrightarrow> hal_typed I hal" shows "callback_typed I (librsu_cb_file h)"
  unfolding callback_typed_def librsu_cb_file_def
proof (intro allI impI)
  fix buf and c :: "'a cb_state" assume c: "shaped I (db c)"
  show "always (\<lambda>(n, b, c). shaped I (db c)) (case h of None \<Rightarrow> Some (- EINVAL, buf, c)
      | Some hal \<Rightarrow> do { fp \<leftarrow> cb_datafile c; (case file_read hal (world (db c)) buf fp of (n, buf, w) \<Rightarrow> Some (n, buf, set_world c w)) })"
  proof (cases "h = None \<or> cb_datafile c = None")
    case False
    then obtain hal fp r d w where e: "h = Some hal" "cb_datafile c = Some fp" "file_read hal (world (db c)) buf fp = (r, d, w)"
      by (metis not_None_eq prod_cases3)
    then have "I w" using filesD(1) [OF h [OF e(1)] shapedD(3) [OF c]] by blast
    then show ?thesis using c by (simp add: e always_def)
  qed (use c in \<open>auto simp: always_def split: option.splits\<close>)
qed

definition filled_shape :: "('w \<Rightarrow> bool) \<Rightarrow> ('w cb_state + byte list \<times> int \<times> bool \<times> 'w cb_state) \<Rightarrow> bool" where
  "filled_shape I f = (case f of Inl c \<Rightarrow> shaped I (db c) | Inr (b, n, over, c) \<Rightarrow> shaped I (db c))"

lemma fill_block_typed: "callback_typed I cb \<Longrightarrow> shaped I (db c) \<Longrightarrow> always (filled_shape I) (fill_block cb buf n c)"
proof (induction cb buf n c rule: fill_block.induct)
  case (1 cb buf cnt c)
  show ?case
  proof (cases "int IMAGE_BLOCK_SZ \<le> cnt")
    case True
    then show ?thesis using "1.prems" by (subst fill_block.simps) (simp add: always_def filled_shape_def)
  next
    case False
    show ?thesis
    proof (cases "cb (drop (nat cnt) buf) c")
      case None
      then show ?thesis using False by (subst fill_block.simps) (simp add: always_def)
    next
      case (Some x)
      obtain n seg c' where x: "x = (n, seg, c')" by (metis prod_cases3)
      have c': "shaped I (db c')" using callback_typedD [OF "1.prems"] Some x by blast
      show ?thesis
      proof (cases "length seg = length (drop (nat cnt) buf) \<and> 0 < n")
        case True
        then have l: "\<not> length seg \<noteq> length (drop (nat cnt) buf)" "n \<noteq> 0" "\<not> n < 0" by auto
        have "always (filled_shape I) (fill_block cb (take (nat cnt) buf @ seg) (cnt + n) c')"
          by (rule "1.IH" [OF False Some]) (use x l "1.prems"(1) c' in auto)
        then show ?thesis using False Some x True by (subst fill_block.simps) simp
      next
        case nf: False
        then show ?thesis using False Some x c' by (subst fill_block.simps) (auto simp: always_def filled_shape_def Let_def)
      qed
    qed
  qed
qed

lemma fill_block_shape [shapes]:
  assumes "callback_typed I cb" "shaped I (db c)" "\<And>c. shaped I (db c) \<Longrightarrow> Q (Inl c)"
    "\<And>b n over c. shaped I (db c) \<Longrightarrow> Q (Inr (b, n, over, c))"
  shows "always Q (fill_block cb buf n c)"
proof (rule always_mono [OF fill_block_typed [OF assms(1,2)]])
  fix a :: "'a cb_state + byte list \<times> int \<times> bool \<times> 'a cb_state"
  assume "filled_shape I a"
  then show "Q a" using assms(3,4) by (auto simp: filled_shape_def split: sum.splits)
qed

lemma always_Inl [shapes]: "always P (f a) \<Longrightarrow> always P (case_sum f g (Inl a))"
  by simp

lemma always_Inr [shapes]: "always P (g a) \<Longrightarrow> always P (case_sum f g (Inr a))"
  by simp

lemma always_sum: "(\<And>a. always P (f a)) \<Longrightarrow> (\<And>a. always P (g a)) \<Longrightarrow> always P (case_sum f g x)"
  by (cases x) auto

lemma sig_block_compare_world:
  assumes "hal_typed I hal" "I w" "sig_block_compare hal st b v info w = (r, w')" shows "I w'"
  using assms(3) flashD(1) [OF assms(1,2)]
  by (auto simp: sig_block_compare_def Let_def split: prod.splits option.splits)

lemma image_shape [shapes]:
  assumes "hal_typed I hal" "I w0" "\<And>r st b w. I w \<Longrightarrow> Q (r, st, b, w)"
  shows "always Q (librsu_image_block_process hal st0 b0 v info w0)"
proof (rule alwaysI)
  fix x assume x: "librsu_image_block_process hal st0 b0 v info w0 = Some x"
  obtain r st b w where f: "x = (r, st, b, w)" by (metis prod_cases4)
  have "I w" using x assms(2) sig_block_compare_world [OF assms(1,2)]
    by (cases "block_type (enter_block st0)"; cases v)
      (auto simp: f librsu_image_block_process_def Let_def split: prod.splits if_splits)
  then show "Q x" using assms(3) f by simp
qed

text \<open>\<open>db_shape\<close> is the result of what runs on the database and the data source.\<close>

abbreviation db_shape :: "('w \<Rightarrow> bool) \<Rightarrow> 'a \<times> 'w cb_state \<Rightarrow> bool" where
  "db_shape I \<equiv> \<lambda>(r, c). shaped I (db c)"

lemma program_loop_typed:
  assumes "program_loop hal cb raw p info st buf vbuf off c = Some x"
  shows "hal_typed I hal \<longrightarrow> callback_typed I cb \<longrightarrow> shaped I (db c) \<longrightarrow> db_shape I x"
proof (rule program_loop.raw_induct [where P = "\<lambda>hal cb raw p info st buf vbuf off c x.
    hal_typed I hal \<longrightarrow> callback_typed I cb \<longrightarrow> shaped I (db c) \<longrightarrow> db_shape I x", OF _ assms], intro impI, goal_cases)
  case (1 loop hal cb raw p info st buf vbuf off c x)
  have IH: "always (db_shape I) (loop hal cb raw p info st' buf' vbuf' off' c')" if "shaped I (db c')" for st' buf' vbuf' off' c'
    using 1(1,3,4) that by (blast intro: alwaysI)
  show ?case
    by (rule alwaysD [OF 1(2)], unfold data_write_def data_read_def, (rule 1(3-5) IH shapes | assumption | simp add: shapedD 1(3-5))+)
qed

lemma verify_loop_typed:
  assumes "verify_loop hal cb raw p info st buf vbuf off c = Some x"
  shows "hal_typed I hal \<longrightarrow> callback_typed I cb \<longrightarrow> shaped I (db c) \<longrightarrow> db_shape I x"
proof (rule verify_loop.raw_induct [where P = "\<lambda>hal cb raw p info st buf vbuf off c x.
    hal_typed I hal \<longrightarrow> callback_typed I cb \<longrightarrow> shaped I (db c) \<longrightarrow> db_shape I x", OF _ assms], intro impI, goal_cases)
  case (1 loop hal cb raw p info st buf vbuf off c x)
  have IH: "always (db_shape I) (loop hal cb raw p info st' buf' vbuf' off' c')" if "shaped I (db c')" for st' buf' vbuf' off' c'
    using 1(1,3,4) that by (blast intro: alwaysI)
  show ?case
    by (rule alwaysD [OF 1(2)], unfold data_read_def, (rule 1(3-5) IH shapes | assumption | simp add: shapedD 1(3-5))+)
qed

lemma program_loop_shape [shapes]:
  "hal_typed I hal \<Longrightarrow> callback_typed I cb \<Longrightarrow> shaped I (db c) \<Longrightarrow> (\<And>r c. shaped I (db c) \<Longrightarrow> Q (r, c)) \<Longrightarrow>
    always Q (program_loop hal cb raw p info st buf vbuf off c)"
  using program_loop_typed [of hal cb raw p info st buf vbuf off c] by (auto simp: always_def)

lemma verify_loop_shape [shapes]:
  "hal_typed I hal \<Longrightarrow> callback_typed I cb \<Longrightarrow> shaped I (db c) \<Longrightarrow> (\<And>r c. shaped I (db c) \<Longrightarrow> Q (r, c)) \<Longrightarrow>
    always Q (verify_loop hal cb raw p info st buf vbuf off c)"
  using verify_loop_typed [of hal cb raw p info st buf vbuf off c] by (auto simp: always_def)

lemma fill_gap_shaped: "hal_typed I hal \<Longrightarrow> fill_gap hal df fill lw off d = (b, l', d') \<Longrightarrow> shaped I d \<Longrightarrow> shaped I d'"
proof (induction hal df fill lw off d rule: fill_gap.induct)
  case (1 hal df fill lw off d)
  obtain n e where w: "rsu_write hal fill df d = (n, e)" by fastforce
  have "case rsu_write hal fill df d of (r, t) \<Rightarrow> shaped I t"
    unfolding rsu_write_def by (rule on_world_pair [OF keeps_platform(4) [OF "1.prems"(1)] "1.prems"(3)])
  then have e: "shaped I e" using w by simp
  show ?case
  proof (cases "lw < off \<and> n = 4096")
    case True
    then have "fill_gap hal df fill (lw + 4096) off e = (b, l', d')"
      using "1.prems"(2) w by (subst (asm) fill_gap.simps) simp
    then show ?thesis using "1.IH" [of n e] True w e "1.prems"(1) by simp
  next
    case False
    then show ?thesis using "1.prems" w e by (subst (asm) fill_gap.simps) (auto split: if_splits)
  qed
qed

lemma fill_gap_shape [shapes]:
  assumes "hal_typed I hal" "shaped I d" "\<And>b l d. shaped I d \<Longrightarrow> always P (f b l d)" shows "always P (case fill_gap hal df fill lw off d of (b, l, d) \<Rightarrow> f b l d)"
  using assms fill_gap_shaped [of I hal df fill lw off d] by (simp split: prod.split)

lemma copy_loop_typed:
  assumes "copy_loop hal p df buf fill off lw d = Some x"
  shows "hal_typed I hal \<longrightarrow> shaped I d \<longrightarrow> (case x of (r, t) \<Rightarrow> shaped I t)"
proof (rule copy_loop.raw_induct [where P = "\<lambda>hal p df buf fill off lw d x.
    hal_typed I hal \<longrightarrow> shaped I d \<longrightarrow> (case x of (r, t) \<Rightarrow> shaped I t)", OF _ assms], intro impI, goal_cases)
  case (1 loop hal p df buf fill off lw d x)
  have IH: "always (\<lambda>(r, t). shaped I t) (loop hal p df buf' fill off' lw' d')" if "shaped I d'" for buf' off' lw' d'
    using 1(1,3) that by (blast intro: alwaysI)
  show ?case
    by (rule alwaysD [OF 1(2)], unfold data_read_def rsu_write_def, (rule 1(3,4) IH shapes | assumption | simp add: shapedD 1(3,4))+)
qed

lemma copy_loop_shape [shapes]:
  "hal_typed I hal \<Longrightarrow> shaped I d \<Longrightarrow> (\<And>r d. shaped I d \<Longrightarrow> Q (r, d)) \<Longrightarrow> always Q (copy_loop hal p df buf fill off lw d)"
  using copy_loop_typed [of hal p df buf fill off lw d] by (auto simp: always_def)

section \<open>The bodies of the calls\<close>

definition call_shape :: "('w \<Rightarrow> bool) \<Rightarrow> ('w, 'a) call \<Rightarrow> bool" where
  "call_shape I k \<longleftrightarrow> (\<forall>hal c. hal_typed I hal \<longrightarrow> shaped I (db c) \<longrightarrow> always (db_shape I) (k hal c))"

named_theorems call_shapes "how calls that keep the sizes are composed"

lemma call_shapeI: "(\<And>hal c. hal_typed I hal \<Longrightarrow> shaped I (db c) \<Longrightarrow> always (db_shape I) (k hal c)) \<Longrightarrow> call_shape I k"
  by (simp add: call_shape_def)

lemma call_shapeD: "call_shape I k \<Longrightarrow> hal_typed I hal \<Longrightarrow> shaped I (db c) \<Longrightarrow> always (db_shape I) (k hal c)"
  by (simp add: call_shape_def)

lemma call_return [call_shapes]: "call_shape I (\<lambda>hal c. Some (r, c))"
  by (simp add: call_shape_def always_def)

lemma call_if [call_shapes]: "call_shape I k \<Longrightarrow> call_shape I k' \<Longrightarrow> call_shape I (\<lambda>hal c. if b then k hal c else k' hal c)"
  by (simp add: call_shape_def)

lemma call_bind [call_shapes]: "(\<And>x. call_shape I (k x)) \<Longrightarrow> call_shape I (\<lambda>hal c. Option.bind v (\<lambda>x. k x hal c))"
  by (cases v) (auto simp: call_shape_def always_def)

lemma call_option [call_shapes]:
  "call_shape I k \<Longrightarrow> (\<And>x. call_shape I (k' x)) \<Longrightarrow> call_shape I (\<lambda>hal c. case v of None \<Rightarrow> k hal c | Some x \<Rightarrow> k' x hal c)"
  by (cases v) (auto simp: call_shape_def)

text \<open>Reads of the database, which go on with what they have read.\<close>

lemma call_read: "(\<And>x. call_shape I (k x)) \<Longrightarrow> call_shape I (\<lambda>hal c. Option.bind (v hal c) (\<lambda>x. k x hal c))"
  by (fastforce simp: call_shape_def always_def bind_splits)

lemma call_if_read: "call_shape I k \<Longrightarrow> call_shape I k' \<Longrightarrow> call_shape I (\<lambda>hal c. if b hal c then k hal c else k' hal c)"
  by (simp add: call_shape_def)

lemma need_spt_shape [call_shapes]: "call_shape I k \<Longrightarrow> call_shape I (need_spt err k)"
  by (auto simp: call_shape_def need_spt_def always_def)

lemma need_cpb_shape [call_shapes]: "call_shape I k \<Longrightarrow> call_shape I (need_cpb err k)"
  by (auto simp: call_shape_def need_cpb_def always_def)

lemma need_writable_shape [call_shapes]: "call_shape I k \<Longrightarrow> call_shape I (need_writable err slot k)"
  by (auto simp: call_shape_def need_writable_def always_def)

lemma with_slot_shape [call_shapes]: "(\<And>p. call_shape I (k p)) \<Longrightarrow> call_shape I (with_slot err slot k)"
  by (fastforce simp: call_shape_def with_slot_def always_def bind_splits)

lemma give_shape [call_shapes]: "call_shape I (give r)"
  by (simp add: call_shape_def give_def always_def)

definition op_shape :: "('w \<Rightarrow> bool) \<Rightarrow> ('w librsu_ll_intf \<Rightarrow> 'w ops \<Rightarrow> ('a \<times> 'w ops) option) \<Rightarrow> bool" where
  "op_shape I f \<longleftrightarrow> (\<forall>hal s. hal_typed I hal \<longrightarrow> shaped I s \<longrightarrow> always (\<lambda>(r, t). shaped I t) (f hal s))"

lemma op_shapeI [call_shapes]: "(\<And>hal s. hal_typed I hal \<Longrightarrow> shaped I s \<Longrightarrow> always (\<lambda>(r, t). shaped I t) (f hal s)) \<Longrightarrow> op_shape I f"
  by (simp add: op_shape_def)

lemma op_shapeD:
  assumes "op_shape I f" "hal_typed I hal" "shaped I s" "\<And>r t. shaped I t \<Longrightarrow> Q (r, t)" shows "always Q (f hal s)"
proof -
  have "always (\<lambda>(r, t). shaped I t) (f hal s)" using assms(1-3) by (simp add: op_shape_def)
  then show ?thesis by (rule always_pairs) (rule assms(4))
qed

lemma or_fail_shape [call_shapes]:
  assumes "op_shape I f" "call_shape I k" shows "call_shape I (or_fail f e k)"
  unfolding or_fail_def
  by (rule call_shapeI) (rule op_shapeD [OF assms(1)] call_shapeD [OF assms(2)] shapes | assumption | simp add: shapedD)+

lemma db_call_shape [call_shapes]:
  assumes "op_shape I f" shows "call_shape I (db_call f)"
  unfolding db_call_def by (rule call_shapeI) (rule op_shapeD [OF assms] shapes | assumption | simp add: shapedD)+

lemma buf_result_shape [call_shapes]:
  assumes "\<And>hal s Q. hal_typed I hal \<Longrightarrow> shaped I s \<Longrightarrow> (\<And>r b t. shaped I t \<Longrightarrow> Q (r, b, t)) \<Longrightarrow> always Q (f hal s)"
  shows "call_shape I (buf_result f)"
  unfolding buf_result_def by (rule call_shapeI) (rule assms shapes | assumption | simp add: shapedD)+

lemma block_init_shape [shapes]:
  "(\<And>r st. always P (f r st)) \<Longrightarrow> always P (case librsu_image_block_init st0 of (r, st) \<Rightarrow> f r st)"
  by (simp split: prod.split)

lemma program_call_shape [call_shapes]:
  assumes "\<And>k. cb = Some k \<Longrightarrow> callback_typed I k" shows "call_shape I (program_call st slot raw cb)"
  unfolding program_call_def librsu_cb_program_common_def
  by (rule call_shapeI) (rule assms shapes always_sum | assumption | simp add: shapedD)+

lemma verify_call_shape [call_shapes]:
  assumes "\<And>k. cb = Some k \<Longrightarrow> callback_typed I k" shows "call_shape I (verify_call st slot raw cb)"
  unfolding verify_call_def librsu_cb_verify_common_def
  by (rule call_shapeI) (rule assms shapes always_sum always_any [where x = "if raw then _ else _"] | assumption | simp add: shapedD)+

lemma program_call_some: "callback_typed I k \<Longrightarrow> call_shape I (program_call st slot raw (Some k))"
  by (rule program_call_shape) simp

lemma verify_call_some: "callback_typed I k \<Longrightarrow> call_shape I (verify_call st slot raw (Some k))"
  by (rule verify_call_shape) simp

lemma buf_call_shape [call_shapes]:
  fixes common :: "'w rsu_data_callback option \<Rightarrow> ('w, int) call"
  assumes "call_shape I (common (Some librsu_cb_buf))" shows "call_shape I (buf_call common b z)"
proof (rule call_shapeI)
  fix hal :: "'w librsu_ll_intf" and c :: "'w cb_state" assume h: "hal_typed I hal" "shaped I (db c)"
  have "shaped I (db (snd (librsu_cb_buf_init b z c)))" using h(2) by (simp add: librsu_cb_buf_init_def)
  then show "always (db_shape I) (buf_call common b z hal c)"
    using call_shapeD [OF assms h(1)] unfolding buf_call_def
    by (auto simp: always_def bind_splits librsu_cb_buf_cleanup_def split: prod.split)
qed

lemma file_call_shape [call_shapes]:
  fixes common :: "'w rsu_data_callback option \<Rightarrow> ('w, int) call"
  assumes "\<And>hal. hal_typed I hal \<Longrightarrow> call_shape I (common (Some (librsu_cb_file (Some hal))))"
  shows "call_shape I (file_call common f)"
proof (rule call_shapeI)
  fix hal :: "'w librsu_ll_intf" and c :: "'w cb_state" assume h: "hal_typed I hal" "shaped I (db c)"
  have cl: "I w \<Longrightarrow> I (snd (file_close hal w fp))" for w fp by (rule keepsD [OF keeps_platform(7) [OF h(1)]])
  have op: "I w \<Longrightarrow> file_open hal w n m = (fp, w') \<Longrightarrow> I w'" for w n m fp w'
    using keepsD [OF keeps_platform(3) [OF h(1)], of w n m] by simp
  have "shaped I (db (snd (librsu_cb_file_init (Some hal) f c)))"
    using h(2) shapedD(3) [OF h(2)] op cl by (fastforce simp: librsu_cb_file_init_def Let_def split: option.split prod.split)
  moreover have "shaped I (db e) \<Longrightarrow> shaped I (db (librsu_cb_file_cleanup (Some hal) e))" for e :: "'w cb_state"
    using cl shapedD(3) [of I "db e"] by (auto simp: librsu_cb_file_cleanup_def split: option.split)
  ultimately show "always (db_shape I) (file_call common f hal c)"
    using call_shapeD [OF assms [OF h(1)] h(1)] unfolding file_call_def
    by (auto simp: always_def bind_splits split: prod.split)
qed

lemma close_ret_then [shapes]:
  assumes "hal_typed I hal" "shaped I s" "\<And>r t. shaped I t \<Longrightarrow> always P (f r t)"
  shows "always P (case close_ret hal fp r s of (r, t) \<Rightarrow> f r t)"
  using close_ret_shape [OF assms(1,2), of fp r] assms(3) by (auto split: prod.splits)

lemma copy_to_file_shape [call_shapes]: "call_shape I (copy_to_file p name b)"
  unfolding copy_to_file_def rsu_fopen_def rsu_ftruncate_def
  by (rule call_shapeI) (rule shapes | assumption | simp add: shapedD)+

section \<open>The calls\<close>

text \<open>The invariant of the library: \<open>I\<close> holds of the platform's state, the table of the platform is typed, and a live database has arrays of the right sizes.\<close>

definition lib_shaped :: "('w \<Rightarrow> bool) \<Rightarrow> 'w lib \<Rightarrow> bool" where
  "lib_shaped I l \<longleftrightarrow> I (lib_world l) \<and> (\<forall>hal. ll_intf l = Some hal \<longrightarrow> hal_typed I hal) \<and> (plat_database l = DB_LIVE \<longrightarrow> shaped I (db (core l)))"

definition keeps_shape :: "('w \<Rightarrow> bool) \<Rightarrow> ('w lib \<Rightarrow> ('a \<times> 'w lib) option) \<Rightarrow> bool" where
  "keeps_shape I f \<longleftrightarrow> (\<forall>l. lib_shaped I l \<longrightarrow> always (\<lambda>(r, l). lib_shaped I l) (f l))"

lemma keeps_shape_locked [call_shapes]:
  fixes body :: "('w, 'a) call"
  assumes "call_shape I body" shows "keeps_shape I (locked body)"
  unfolding keeps_shape_def
proof (intro allI impI alwaysI)
  fix l :: "'w lib" and x assume l: "lib_shaped I l" "locked body l = Some x"
  obtain r l' where x: "x = (r, l')" by fastforce
  from l(2) obtain hal c where h: "ready l hal" "body hal (core l) = Some (r, c)" "l' = l\<lparr>core := c\<rparr>"
    unfolding x locked_run by blast
  then have "shaped I (db c)" using l(1) call_shapeD [OF assms, of hal "core l"]
    by (auto simp: lib_shaped_def ready_def always_def)
  then show "case x of (r, l) \<Rightarrow> lib_shaped I l" using l(1) h(3) x shapedD(3) by (auto simp: lib_shaped_def)
qed

lemma keeps_shape_if_initialized [call_shapes]: "keeps_shape I f \<Longrightarrow> keeps_shape I (if_initialized err f)"
  by (auto simp: keeps_shape_def if_initialized_def always_def)

lemma keeps_shape_need_args [call_shapes]: "(given \<Longrightarrow> keeps_shape I f) \<Longrightarrow> keeps_shape I (need_args err given f)"
  by (auto simp: keeps_shape_def need_args_def always_def)

lemma keeps_shape_return [call_shapes]: "keeps_shape I (\<lambda>l. Some (r, l))"
  by (simp add: keeps_shape_def always_def)

lemma keeps_shape_if [call_shapes]: "keeps_shape I f \<Longrightarrow> keeps_shape I g \<Longrightarrow> keeps_shape I (\<lambda>l. if b then f l else g l)"
  by (simp add: keeps_shape_def)

lemma keeps_shape_bind [call_shapes]: "(\<And>x. keeps_shape I (f x)) \<Longrightarrow> keeps_shape I (\<lambda>l. Option.bind v (\<lambda>x. f x l))"
  by (cases v) (auto simp: keeps_shape_def always_def)

lemma keeps_shape_status [call_shapes]: "keeps_shape I (rsu_status_log info)"
  unfolding rsu_status_log_def rsu_status_def by (intro call_shapes, rule call_shapeI) (rule shapes always_case2 | assumption | simp add: shapedD)+

lemma keeps_shape_status_then [call_shapes]:
  assumes "\<And>ret info. keeps_shape I (g ret info)"
  shows "keeps_shape I (\<lambda>l. do { ((ret, info), l) \<leftarrow> rsu_status_log i l; g ret info l })"
  unfolding keeps_shape_def
proof (intro allI impI alwaysI)
  fix l x assume l: "lib_shaped I l" and x: "(do { ((ret, info), l) \<leftarrow> rsu_status_log i l; g ret info l }) = Some x"
  from x obtain ret info m where m: "rsu_status_log i l = Some ((ret, info), m)" "g ret info m = Some x"
    by (auto simp: bind_splits)
  have "lib_shaped I m" using keeps_shape_status [of I i] l m(1) by (auto simp: keeps_shape_def always_def)
  then show "case x of (r, l) \<Rightarrow> lib_shaped I l" using assms [of ret info] m(2) by (auto simp: keeps_shape_def always_def)
qed

lemma keeps_shape_ret_of: "keeps_shape I f \<Longrightarrow> keeps_shape I (\<lambda>l. ret_of (f l))"
  by (fastforce simp: keeps_shape_def always_def ret_of_def)

text \<open>A client's callback does not write into the database's arrays.\<close>

definition typed_call :: "('w \<Rightarrow> bool) \<Rightarrow> 'w api_call \<Rightarrow> bool" where
  "typed_call I c = (case c of
      Slot_program_callback i s (Some cb) \<Rightarrow> callback_typed I cb
    | Slot_program_callback_raw i s (Some cb) \<Rightarrow> callback_typed I cb
    | Slot_verify_callback i s (Some cb) \<Rightarrow> callback_typed I cb
    | Slot_verify_callback_raw i s (Some cb) \<Rightarrow> callback_typed I cb
    | _ \<Rightarrow> True)"

lemma set_address_shape [call_shapes]: "call_shape I (set_address_call a)"
  unfolding set_address_call_def rsu_set_address_def by (intro call_shapes) (rule shapes | assumption | simp add: shapedD)+

lemma notify_call_shape [call_shapes]: "call_shape I (notify_call v)"
  unfolding notify_call_def notify_sdm_def by (intro call_shapes) (rule shapes | assumption | simp add: shapedD)+

lemma keeps_slot_data:
  "keeps_shape I (rsu_slot_program_buf st s b z)" "keeps_shape I (rsu_slot_program_buf_raw st s b z)"
  "keeps_shape I (rsu_slot_program_file st s f)" "keeps_shape I (rsu_slot_program_file_raw st s f)"
  "keeps_shape I (rsu_slot_verify_buf st s b z)" "keeps_shape I (rsu_slot_verify_buf_raw st s b z)"
  "keeps_shape I (rsu_slot_verify_file st s f)" "keeps_shape I (rsu_slot_verify_file_raw st s f)"
  unfolding api_defs by (rule program_call_some verify_call_some buf_typed file_typed call_shapes | assumption | simp)+

lemma keeps_slot_callback:
  assumes "\<And>k. cb = Some k \<Longrightarrow> callback_typed I k"
  shows "keeps_shape I (rsu_slot_program_callback st s cb)" "keeps_shape I (rsu_slot_program_callback_raw st s cb)"
    "keeps_shape I (rsu_slot_verify_callback st s cb)" "keeps_shape I (rsu_slot_verify_callback_raw st s cb)"
  unfolding api_defs by (intro call_shapes assms; assumption)+

lemma keeps_slot_change:
  "keeps_shape I (rsu_slot_erase s)" "keeps_shape I (rsu_slot_disable s)" "keeps_shape I (rsu_slot_enable s)"
  "keeps_shape I (rsu_slot_delete s)" "keeps_shape I (rsu_create_empty_cpb)"
  unfolding api_defs data_erase_def by (rule call_shapes shapes | assumption | simp add: shapedD)+

lemma keeps_tables:
  "keeps_shape I (rsu_save_spt f)" "keeps_shape I (rsu_save_cpb f)" "keeps_shape I (rsu_restore_spt j f)" "keeps_shape I (rsu_restore_cpb j f)"
  "keeps_shape I (rsu_save_spt_to_buf b z)" "keeps_shape I (rsu_save_cpb_to_buf b z)"
  "keeps_shape I (rsu_restore_spt_from_buf b z)" "keeps_shape I (rsu_restore_cpb_from_buf b z)"
  unfolding api_defs Let_def
  by (rule call_shapes always_bind always_any [where x = f] shapes save_spt_to_file_shape
      save_cpb_to_file_shape restore_spt_from_file_shape restore_cpb_from_file_shape | assumption | simp add: shapedD)+

lemma keeps_slot_table:
  "keeps_shape I (rsu_slot_rename s n)" "keeps_shape I (rsu_slot_create n a z)"
  unfolding api_defs by (rule call_shapes shapes | assumption | simp add: shapedD)+

lemma keeps_slot_reads:
  "keeps_shape I rsu_slot_count" "keeps_shape I (rsu_slot_by_name n)" "keeps_shape I (rsu_slot_get_info s i)"
  "keeps_shape I (rsu_slot_size s)" "keeps_shape I (rsu_slot_priority s)" "keeps_shape I (rsu_slot_load_after_reboot a s)"
  unfolding api_defs Let_def
  by (rule call_shapes call_shapeI shapes call_shapeD [OF set_address_shape] always_any | assumption | simp add: shapedD)+

lemma keeps_load_factory: "keeps_shape I (rsu_slot_load_factory_after_reboot a)"
  unfolding api_defs
  by (rule call_shapes call_shapeI shapes call_shapeD [OF set_address_shape] always_any | assumption | simp add: shapedD)+

lemma keeps_firmware:
  "keeps_shape I (rsu_running_factory a f)" "keeps_shape I (rsu_dcmf_version v)" "keeps_shape I (rsu_max_retry m)" "keeps_shape I (rsu_dcmf_status d)"
  unfolding api_defs Let_def rsu_get_dcmf_version_def rsu_get_max_retry_count_def rsu_get_dcmf_status_def rsu_status_def
  by (rule call_shapes call_shapeI shapes always_case2 | assumption | simp add: shapedD)+

text \<open>What a call does once it knows the slot is in use.\<close>

lemma need_used_shape:
  assumes "\<And>prio. call_shape I (k prio)"
  shows "call_shape I (need_spt err (need_cpb err (\<lambda>hal c. do { prio \<leftarrow> priority_get p (db c); k prio hal c })))"
  by (intro need_spt_shape need_cpb_shape call_shapeI) (rule call_shapeD [OF assms] shapes | assumption)+

lemma keeps_copies: "keeps_shape I (rsu_slot_copy_to_buf s b z)" "keeps_shape I (rsu_slot_copy_to_file s f)"
proof -
  have rd: "call_shape I (\<lambda>hal c. if prio \<le> 0 then Some ((- EERASE, b), c) else do {
      b \<leftarrow> b;
      if length b < z then None
      else do {
        (ret, b, d) \<leftarrow> data_read hal p 0 (partition_size p (db c)) (Some b) (db c);
        let c = c\<lparr>db := d\<rparr>;
        if ret < 0 then Some ((- ELOWLEVEL, Some b), c) else Some ((0, Some b), c)
      } })" for prio p
    unfolding data_read_def by (rule call_shapes call_shapeI shapes | assumption | simp add: shapedD)+
  show "keeps_shape I (rsu_slot_copy_to_buf s b z)"
    unfolding rsu_slot_copy_to_buf_def Let_def
    by (rule call_shapes rd [unfolded Let_def] call_shapeD [OF need_used_shape] call_shapeI shapes | assumption)+
  have cp: "call_shape I (with_slot id s (\<lambda>p. need_spt id (need_cpb id (\<lambda>hal c. do {
      prio \<leftarrow> priority_get p (db c); if prio \<le> 0 then Some (- EERASE, c) else copy_to_file p name buf hal c }))))" for name buf
    by (intro with_slot_shape need_used_shape call_if call_return copy_to_file_shape)
  show "keeps_shape I (rsu_slot_copy_to_file s f)"
    unfolding rsu_slot_copy_to_file_def
    by (rule call_shapes call_shapeI shapes call_shapeD [OF cp] | assumption | simp add: shapedD)+
qed

lemma run_call_shape: "typed_call I c \<Longrightarrow> keeps_shape I (run_call c)"
proof -
  assume t: "typed_call I c"
  have cb: "keeps_shape I (rsu_slot_program_callback i s k)" "keeps_shape I (rsu_slot_program_callback_raw i s k)"
    "keeps_shape I (rsu_slot_verify_callback i s k)" "keeps_shape I (rsu_slot_verify_callback_raw i s k)"
    if "case k of None \<Rightarrow> True | Some f \<Rightarrow> callback_typed I f" for i s k
    using that by (auto intro: keeps_slot_callback)
  have nc: "keeps_shape I (rsu_notify v)" "keeps_shape I (rsu_clear_error_status j)" "keeps_shape I (rsu_reset_retry_counter j)" for v j
    unfolding api_defs by (intro call_shapes)+
  have fu: "keeps_shape I (rsu_slot_program_factory_update_buf i s b z)" "keeps_shape I (rsu_slot_program_factory_update_file i s f)" for i s b z f
    unfolding rsu_slot_program_factory_update_buf_def rsu_slot_program_factory_update_file_def
    by (intro call_shapes keeps_slot_data)+
  have "keeps_shape I (\<lambda>l. run_call c l)"
    using t unfolding typed_call_def
    by (cases c; simp only: run_call.simps api_call.case; intro keeps_shape_ret_of keeps_shape_status keeps_slot_data keeps_slot_change
        keeps_tables keeps_slot_table keeps_slot_reads keeps_load_factory keeps_firmware keeps_copies nc fu cb)
  then show ?thesis by simp
qed

section \<open>Starting and stopping\<close>

text \<open>The platform: its functions, and what sets it up and gives it back.\<close>

definition platform_typed :: "('w \<Rightarrow> bool) \<Rightarrow> 'w platform \<Rightarrow> bool" where
  "platform_typed I pl \<longleftrightarrow> hal_typed I (tables pl) \<and>
     (\<forall>w n. I w \<longrightarrow> always (\<lambda>(r, w). I w) (RSU_logging_init pl w n)) \<and> (\<forall>w. I w \<longrightarrow> always I (RSU_logging_exit pl w)) \<and>
     keeps I (plat_filesys_init pl) \<and> keeps I (rsu_mutex_init pl) \<and>
     (\<forall>w n. I w \<longrightarrow> always (\<lambda>(r, w). I w) (plat_mbox_init pl w n)) \<and>
     (\<forall>w n. I w \<longrightarrow> always (\<lambda>(r, w). I w) (plat_qspi_init pl w n)) \<and>
     (\<forall>w n. I w \<longrightarrow> always (\<lambda>(r, w). I w) (plat_rsu_misc_init pl w n)) \<and>
     (\<forall>w. I w \<longrightarrow> I (file_terminate pl w) \<and> I (mbox_terminate pl w) \<and> I (qspi_terminate pl w) \<and> I (misc_terminate pl w))"

lemma platform_typedD:
  assumes "platform_typed I pl"
  shows "hal_typed I (tables pl)" "keeps I (plat_filesys_init pl)" "keeps I (rsu_mutex_init pl)"
    "I w \<Longrightarrow> always (\<lambda>(r, w). I w) (RSU_logging_init pl w n)" "I w \<Longrightarrow> always I (RSU_logging_exit pl w)"
    "I w \<Longrightarrow> always (\<lambda>(r, w). I w) (plat_mbox_init pl w n)" "I w \<Longrightarrow> always (\<lambda>(r, w). I w) (plat_qspi_init pl w n)"
    "I w \<Longrightarrow> always (\<lambda>(r, w). I w) (plat_rsu_misc_init pl w n)"
    "I w \<Longrightarrow> I (file_terminate pl w)" "I w \<Longrightarrow> I (mbox_terminate pl w)" "I w \<Longrightarrow> I (qspi_terminate pl w)" "I w \<Longrightarrow> I (misc_terminate pl w)"
  using assms by (simp_all add: platform_typed_def)

lemma hal_typed_fields [simp]:
  "hal_typed I (hal\<lparr>writeprotect := v\<rparr>) = hal_typed I hal" "hal_typed I (hal\<lparr>spt_checksum_enabled := e\<rparr>) = hal_typed I hal"
  by (simp_all add: hal_typed_def flash_typed_def firmware_typed_def files_typed_def)

lemma always_keeps: "keeps I f \<Longrightarrow> I w \<Longrightarrow> (\<And>r w. I w \<Longrightarrow> always Q (g r w)) \<Longrightarrow> always Q (case_prod g (f w))"
  by (auto simp: keeps_def split: prod.split)

lemma always_filesys: "platform_typed I pl \<Longrightarrow> I w \<Longrightarrow> (\<And>r w. I w \<Longrightarrow> always Q (g r w)) \<Longrightarrow> always Q (case_prod g (plat_filesys_init pl w))"
  by (rule always_keeps [OF platform_typedD(2)])

lemma always_mutex: "platform_typed I pl \<Longrightarrow> I w \<Longrightarrow> (\<And>r w. I w \<Longrightarrow> always Q (g r w)) \<Longrightarrow> always Q (case_prod g (rsu_mutex_init pl w))"
  by (rule always_keeps [OF platform_typedD(3)])

lemma always_world: "always (\<lambda>(r, w). I w) x \<Longrightarrow> (\<And>r w. I w \<Longrightarrow> Q (r, w)) \<Longrightarrow> always Q x"
  by (auto simp: always_def)

lemma platform_setup_shape:
  assumes "platform_typed I pl" "I w" shows "always (\<lambda>(r, w). I w) (platform_setup pl name w)"
  unfolding platform_setup_def Let_def
  by (rule assms always_bind always_if always_Some always_pair platform_typedD(9-12) [OF assms(1)] always_filesys [OF assms(1)]
      always_world [OF platform_typedD(4) [OF assms(1)]] always_mono [OF platform_typedD(5) [OF assms(1)]]
      always_world [OF platform_typedD(6) [OF assms(1)]] always_world [OF platform_typedD(7) [OF assms(1)]]
      always_world [OF platform_typedD(8) [OF assms(1)]] | assumption | simp)+

lemma file_close_keeps: "hal_typed I hal \<Longrightarrow> I w \<Longrightarrow> I (snd (file_close hal w f))"
  by (rule keepsD [OF keeps_platform(7)])

lemma cfg_lines_typed:
  assumes "cfg_lines intf fl ln w = Some x"
  shows "hal_typed I intf \<and> I w \<longrightarrow> hal_typed I (fst (snd x)) \<and> I (snd (snd x))"
proof (rule cfg_lines.raw_induct [where P = "\<lambda>intf fl ln w x. hal_typed I intf \<and> I w \<longrightarrow>
    hal_typed I (fst (snd x)) \<and> I (snd (snd x))", OF _ assms], intro impI, elim conjE, goal_cases)
  case (1 loop intf fl ln w x)
  let ?P = "\<lambda>x. hal_typed I (fst (snd x)) \<and> I (snd (snd x))"
  have IH: "always ?P (loop intf' fl line' w')" if "hal_typed I intf'" "I w'" for intf' line' w'
    using 1(1) that by (blast intro: alwaysI)
  obtain ret ln' w' where g: "file_fgets intf w ln fl = (ret, ln', w')" by (metis prod_cases3)
  have w': "I w'" using filesD(2) [OF 1(3,4) g] .
  show ?case
    by (rule alwaysD [OF 1(2)], unfold g prod.case Let_def, intro always_if always_Some always_bind
        always_any [where x = "split_line l k" for l k] IH)
      (use 1(3) w' in \<open>simp_all add: file_close_keeps\<close>)
qed

lemma common_cfg_shape:
  assumes "hal_typed I hal" "I w" "\<And>r h w. I w \<Longrightarrow> hal_typed I h \<Longrightarrow> Q (r, Some h, w)"
  shows "always Q (librsu_common_cfg_parse junk (Some name) (Some hal) w)"
proof -
  let ?h = "hal\<lparr>spt_checksum_enabled := 1\<rparr>"
  have h: "hal_typed I ?h" using assms(1) by simp
  have "I w'" if "file_open ?h w name m = (fp, w')" for m fp w'
    using keepsD [OF keeps_platform(3) [OF h], of w name m] assms(2) that by simp
  then show ?thesis using assms(3) h
    by (auto simp: librsu_common_cfg_parse_def Let_def always_def bind_splits dest!: cfg_lines_typed [where I = I]
        split: option.split prod.split)
qed

lemma open_tables_shape:
  "hal_typed I hal \<Longrightarrow> shaped I s \<Longrightarrow> (\<And>r p t. shaped I t \<Longrightarrow> Q (r, p, t)) \<Longrightarrow> always Q (open_tables hal s)"
  unfolding open_tables_def by (rule shapes always_any [where x = "rsu_qspi_close p" for p] | assumption | simp add: shapedD)+

lemma malloc_world:
  assumes "hal_typed I hal" "I (world s)" "\<And>o' t. I (world t) \<Longrightarrow> (\<And>b. o' = Some b \<Longrightarrow> length b = n) \<Longrightarrow> always P (f o' t)"
  shows "always P (case_prod f (ops_malloc hal n s))"
proof -
  obtain o' w where m: "rsu_malloc hal (world s) n = (o', w)" by fastforce
  have "always P (f o' (s\<lparr>world := w\<rparr>))" by (rule assms(3)) (use m flashD(1,2) [OF assms(1,2)] in auto)
  then show ?thesis using m by (simp add: ops_malloc_def)
qed

lemma addresses_world:
  assumes "hal_typed I hal" "I w0" "\<And>r a w. I w \<Longrightarrow> always P (f r a w)"
  shows "always P (case mbox_get_spt_addresses hal w0 of (r, a, w) \<Rightarrow> f r a w)"
  using queries(2) [OF assms(1,2)] assms(3) by (simp split: prod.splits)

lemma rsu_qspi_open_shape:
  assumes "hal_typed I hal" "p = DB_LIVE \<Longrightarrow> shaped I s" "I (world s)"
    "\<And>r p t. I (world t) \<Longrightarrow> (p = DB_LIVE \<Longrightarrow> shaped I t) \<Longrightarrow> Q (r, p, t)"
  shows "always Q (rsu_qspi_open (Some hal) hl p s)"
proof (cases "hl \<and> p = DB_NULL")
  case False
  then show ?thesis using assms by (auto simp: rsu_qspi_open_def always_def)
next
  case True
  have f: "shaped I (fresh_database a b c w)" if "length b = 4096" "length c = 4096" "I w" for a b c w
    using that by (simp add: shaped_def wf_spt_of_bytes fresh_database_def)
  have q: "always Q (open_tables hal t)" if "shaped I t" for t
    by (rule open_tables_shape [OF assms(1) that]) (simp add: assms(4) shapedD)
  show ?thesis unfolding rsu_qspi_open_def option.case
    by (rule assms(1,3,4) malloc_world always_option always_if always_Some always_Let q f addresses_world | assumption | simp add: True)+
qed

lemma lib_shaped_world: "lib_shaped I l \<Longrightarrow> I w \<Longrightarrow> lib_shaped I (set_lib_world l w)"
  by (auto simp: lib_shaped_def)

lemma lib_shapedI:
  "I (lib_world l) \<Longrightarrow> (\<And>hal. ll_intf l = Some hal \<Longrightarrow> hal_typed I hal) \<Longrightarrow> (plat_database l = DB_LIVE \<Longrightarrow> shaped I (db (core l))) \<Longrightarrow> lib_shaped I l"
  by (simp add: lib_shaped_def)

lemma cfg_reset_shape:
  assumes "platform_typed I pl" "lib_shaped I l" "\<And>l. lib_shaped I l \<Longrightarrow> Q l" shows "always Q (librsu_cfg_reset pl l)"
proof (rule alwaysI)
  fix m assume "librsu_cfg_reset pl l = Some m"
  then obtain w where w: "RSU_logging_exit pl (misc_terminate pl (file_terminate pl (qspi_terminate pl (mbox_terminate pl (lib_world l))))) = Some w"
    and m: "m = (set_lib_world l w)\<lparr>ll_intf := None\<rparr>"
    by (auto simp: librsu_cfg_reset_def bind_splits split: option.splits)
  have "I (lib_world l)" using assms(2) by (simp add: lib_shaped_def)
  then have "I (misc_terminate pl (file_terminate pl (qspi_terminate pl (mbox_terminate pl (lib_world l)))))"
    by (intro platform_typedD(9-12) [OF assms(1)])
  then have "I w" using alwaysD [OF w platform_typedD(5) [OF assms(1)]] by simp
  then have "lib_shaped I m" using assms(2) by (auto simp: m lib_shaped_def)
  then show "Q m" by (rule assms(3))
qed

lemma cfg_parse_shape:
  assumes "platform_typed I pl" "lib_shaped I l" "\<And>r l. lib_shaped I l \<Longrightarrow> Q (r, l)"
  shows "always Q (librsu_cfg_parse pl junk (Some name) l)"
proof -
  note t = platform_typedD(1) [OF assms(1)]
  have w: "I (lib_world l)" using assms(2) by (simp add: lib_shaped_def)
  have d: "shaped I (db (set_world (core l) v))" if "I v" "plat_database l = DB_LIVE" for v
    using assms(2) that by (simp add: lib_shaped_def)
  have no: "lib_shaped I ((set_lib_world l v)\<lparr>ll_intf := None\<rparr>)" if "I v" for v
    using assms(2) that by (auto simp: lib_shaped_def)
  have opened: "always (\<lambda>(ret, p, d). always Q
      (let l = l\<lparr>ll_intf := Some h, plat_database := p, core := (core l)\<lparr>db := d\<rparr>\<rparr>
       in if ret \<noteq> 0 then do { l \<leftarrow> librsu_cfg_reset pl l; Some (- ENODEV, l) }
      else Some (0, l\<lparr>hl_set := True\<rparr>))) (rsu_qspi_open (Some h) True (plat_database l) (db (set_world (core l) v)))"
    if "hal_typed I h" "I v" for h v
    by (rule rsu_qspi_open_shape [OF that(1) d [OF that(2)]])
      (use that in \<open>auto simp: Let_def lib_shaped_def intro!: always_bind always_Some assms(3) cfg_reset_shape [OF assms(1)]\<close>)
  have set_up: "always Q (do {
      (ret, v) \<leftarrow> platform_setup pl name v;
      if ret \<noteq> 0 then Some (ret, (set_lib_world l v)\<lparr>ll_intf := None\<rparr>)
      else do {
        (ret, h, v) \<leftarrow> librsu_common_cfg_parse junk (Some name) (Some ((tables pl)\<lparr>writeprotect := 0, spt_checksum_enabled := 0\<rparr>)) v;
        (ret, p, d) \<leftarrow> rsu_qspi_open h True (plat_database l) (db (set_world (core l) v));
        let l = l\<lparr>ll_intf := h, plat_database := p, core := (core l)\<lparr>db := d\<rparr>\<rparr>;
        if ret \<noteq> 0 then do { l \<leftarrow> librsu_cfg_reset pl l; Some (- ENODEV, l) }
        else Some (0, l\<lparr>hl_set := True\<rparr>) } })" if "I v" for v
    by (rule t always_bind always_world [OF platform_setup_shape [OF assms(1) that]] always_pair always_if always_Some assms(3) no
        common_cfg_shape [where I = I] always_mono [OF opened] | assumption | simp add: t split: prod.splits)+
  show ?thesis unfolding librsu_cfg_parse_def option.case
    by (rule malloc_shape [OF t w] set_up always_option always_Some always_Let assms(3) no | assumption | simp)+
qed

lemma librsu_init_shape:
  assumes "platform_typed I pl" "lib_shaped I l" "librsu_init pl junk filename l = Some (r, l')" shows "lib_shaped I l'"
proof (cases "ctx_state l = un_initialized")
  case True
  let ?n = "case filename of None \<Rightarrow> DEFAULT_CFG_FILENAME | Some f \<Rightarrow> if f = [] then DEFAULT_CFG_FILENAME else f"
  obtain q w where q: "rsu_mutex_init pl (lib_world l) = (q, w)" by fastforce
  have "I w" using keepsD [OF platform_typedD(3) [OF assms(1)], of "lib_world l"] q assms(2) by (simp add: lib_shaped_def)
  then have m: "lib_shaped I ((set_lib_world (l\<lparr>ctx_state := in_progress\<rparr>) w)\<lparr>ctx_mutex := x\<rparr>)" for x
    using assms(2) by (auto simp: lib_shaped_def)
  show ?thesis
  proof (cases "q < 0")
    case False
    then obtain k n where p: "librsu_cfg_parse pl junk (Some ?n)
        ((set_lib_world (l\<lparr>ctx_state := in_progress\<rparr>) w)\<lparr>ctx_mutex := if q = 0 then MUTEX_FREE else MUTEX_NONE\<rparr>) = Some (k, n)"
      and l': "if k \<noteq> 0 then l' = n\<lparr>ctx_state := un_initialized\<rparr> else l' = n\<lparr>ctx_state := initialized\<rparr>"
      using assms(3) True q by (auto simp: librsu_init_def bind_splits split: if_splits)
    have "lib_shaped I n"
      using alwaysD [OF p cfg_parse_shape [OF assms(1) m, where Q = "\<lambda>(r, l). lib_shaped I l"]] by simp
    then show ?thesis using l' by (auto simp: lib_shaped_def split: if_splits)
  next
    case neg: True
    then have "l' = (set_lib_world (l\<lparr>ctx_state := in_progress\<rparr>) w)\<lparr>ctx_state := un_initialized\<rparr>"
      using assms(3) True q by (simp add: librsu_init_def)
    then show ?thesis using m [of "ctx_mutex l"] by (simp add: lib_shaped_def)
  qed
qed (use assms in \<open>auto simp: librsu_init_def\<close>)

lemma librsu_exit_shape:
  assumes "platform_typed I pl" "lib_shaped I l" "librsu_exit pl l = Some l'" shows "lib_shaped I l'"
proof (cases "ctx_state l = initialized")
  case True
  then obtain p m where p: "rsu_qspi_close (plat_database l) = Some p"
    and m: "librsu_cfg_reset pl (l\<lparr>ctx_state := in_progress, ctx_mutex := MUTEX_NONE, plat_database := p, hl_set := False\<rparr>) = Some m"
    and l': "l' = m\<lparr>ctx_state := un_initialized\<rparr>"
    using assms(3) by (auto simp: librsu_exit_def Let_def bind_splits split: if_splits)
  have "p \<noteq> DB_LIVE" using p by (auto simp: rsu_qspi_close_def split: db_ptr.splits)
  then have "lib_shaped I (l\<lparr>ctx_state := in_progress, ctx_mutex := MUTEX_NONE, plat_database := p, hl_set := False\<rparr>)"
    using assms(2) by (simp add: lib_shaped_def)
  from alwaysD [OF m cfg_reset_shape [OF assms(1) this, where Q = "lib_shaped I"]]
  show ?thesis by (simp add: l' lib_shaped_def)
qed (use assms in \<open>simp add: librsu_exit_def\<close>)

text \<open>What a client brings about that passes callbacks of its own data only.\<close>

inductive typed_reachable :: "('w \<Rightarrow> bool) \<Rightarrow> 'w platform \<Rightarrow> 'w lib \<Rightarrow> bool" for I pl where
  typed_start: "lib_start l \<Longrightarrow> I (lib_world l) \<Longrightarrow> typed_reachable I pl l"
| typed_init: "typed_reachable I pl l \<Longrightarrow> librsu_init pl junk filename l = Some (r, l') \<Longrightarrow> typed_reachable I pl l'"
| typed_exit: "typed_reachable I pl l \<Longrightarrow> librsu_exit pl l = Some l' \<Longrightarrow> typed_reachable I pl l'"
| typed_step: "typed_reachable I pl l \<Longrightarrow> typed_call I c \<Longrightarrow> run_call c l = Some (r, l') \<Longrightarrow> typed_reachable I pl l'"

lemma typed_reachable_shaped: "typed_reachable I pl l \<Longrightarrow> platform_typed I pl \<Longrightarrow> lib_shaped I l"
proof (induction rule: typed_reachable.induct)
  case (typed_start l)
  then show ?case by (simp add: lib_start_def lib_shaped_def)
next
  case (typed_init l junk filename r l')
  then show ?case using librsu_init_shape by blast
next
  case (typed_exit l l')
  then show ?case using librsu_exit_shape by blast
next
  case (typed_step l c r l')
  then show ?case using run_call_shape [of I c] by (auto simp: keeps_shape_def always_def)
qed

end
