(* ===== verification/Rsu_Shape_Props.thy ===== *)
theory Rsu_Shape_Props
  imports Rsu_Shape_Api Rsu_Api_Example
begin

text \<open>
  The type invariant of the tables in memory: the arrays of the C structures keep their sizes,
  whatever the client calls and whatever the platform answers.
\<close>

lemma ex_typed: "platform_typed (\<lambda>w. length (g_arr w) = n) ex_platform"
proof -
  let ?I = "\<lambda>w :: mock_world. length (g_arr w) = n"
  have "flash_typed ?I ex_hal"
    by (auto simp: flash_typed_def always_def mock_hal_def malloc_mock_def plat_qspi_read_mock_def plat_qspi_write_mock_def
        plat_qspi_erase_mock_def in_g_arr_def length_overlay chunk_def split: if_splits prod.split option.split)
  moreover have "firmware_typed ?I ex_hal"
    by (auto simp: firmware_typed_def keeps_def mock_hal_def ex_base_def plat_mbox_get_rsu_status_mock_def
        plat_mbox_get_spt_addresses_mock_def split: prod.split)
  moreover have "files_typed ?I ex_hal" by (auto simp: files_typed_def keeps_def mock_hal_def ex_base_def split: prod.split)
  ultimately show ?thesis by (auto simp: platform_typed_def hal_typed_def ex_platform_def keeps_def always_def)
qed

text \<open>C40: In every state a client can bring the library into with callbacks that fill the buffer they
  are given, an open SPT is a table as \<^verbatim>\<open>struct SUB_PARTITION_TABLE\<close> lays it out, with 127 entries and
  names of 16 bytes, and the pointer block is 4096 bytes long; and what every function of the platform
  keeps of its own state holds.\<close>

theorem tables_keep_shape:
  assumes "typed_reachable I pl l" "platform_typed I pl"
  shows "I (lib_world l) \<and>
    (plat_database l = DB_LIVE \<longrightarrow> wf_spt (spt (lib_db l)) \<and> length (cpb (lib_db l)) = CPB_SIZE)"
  using typed_reachable_shaped [OF assms] by (simp add: lib_shaped_def shaped_def)

theorem tables_keep_shape_witness:
  "\<exists>l. librsu_init ex_platform [] None ex_lib_off = Some (0, l) \<and> wf_spt (spt (lib_db l)) \<and>
    length (cpb (lib_db l)) = 4096 \<and> length (g_arr (lib_world l)) = length (g_arr (lib_world ex_lib_off))"
proof -
  obtain l where l: "librsu_init ex_platform [] None ex_lib_off = Some (0, l)" "plat_database l = DB_LIVE"
    using ex_lib_starts by blast
  have "typed_reachable (\<lambda>w. length (g_arr w) = length (g_arr (lib_world ex_lib_off))) ex_platform ex_lib_off"
    by (rule typed_start) (simp_all add: lib_start_def ex_lib_off_def)
  from tables_keep_shape [OF typed_init [OF this l(1)] ex_typed] l show ?thesis by auto
qed

end
