(* ===== verification/Rsu_Text.thy ===== *)
theory Rsu_Text
  imports Rsu_Lib
begin

text \<open>
  Numbers as text, as the C library reads and prints them for the Linux platform and the client:
  \<^verbatim>\<open>strtol\<close> in base 0 with a 64-bit \<^verbatim>\<open>long\<close>, \<^verbatim>\<open>atoi\<close>, and \<^verbatim>\<open>%llu\<close> of \<^verbatim>\<open>snprintf\<close>.
\<close>

section \<open>Reading\<close>

definition is_space :: "byte \<Rightarrow> bool" where
  "is_space c \<longleftrightarrow> c = 32 \<or> 9 \<le> c \<and> c \<le> 13"

text \<open>The value of a digit, 36 for any other character.\<close>

definition digit_value :: "byte \<Rightarrow> nat" where
  "digit_value c =
     (if 48 \<le> c \<and> c \<le> 57 then unat c - 48
      else if 65 \<le> c \<and> c \<le> 90 then unat c - 55
      else if 97 \<le> c \<and> c \<le> 122 then unat c - 87
      else 36)"

definition digits_value :: "nat \<Rightarrow> byte list \<Rightarrow> nat" where
  "digits_value b ds = foldl (\<lambda>v c. b * v + digit_value c) 0 ds"

text \<open>The base that a prefix selects, and the digits behind it.\<close>

definition number_base :: "byte list \<Rightarrow> nat \<times> byte list" where
  "number_base s =
     (case s of
        x # y # z # r \<Rightarrow>
          if x = 48 \<and> (y = 120 \<or> y = 88) \<and> digit_value z < 16 then (16, z # r)
          else if x = 48 then (8, s) else (10, s)
      | x # r \<Rightarrow> if x = 48 then (8, s) else (10, s)
      | [] \<Rightarrow> (10, s))"

definition clamp :: "int \<Rightarrow> int" where
  "clamp v = max (- (2 ^ 63)) (min (2 ^ 63 - 1) v)"

text \<open>The value, and what follows the number (all of the text when there is none).\<close>

definition strtol0 :: "byte list \<Rightarrow> int \<times> byte list" where
  "strtol0 text =
     (let s = dropWhile is_space text;
          neg = (s \<noteq> [] \<and> hd s = 45);
          s = (if s \<noteq> [] \<and> (hd s = 45 \<or> hd s = 43) then tl s else s)
      in case number_base s of (b, s) \<Rightarrow>
           let ds = takeWhile (\<lambda>c. digit_value c < b) s;
               v = int (digits_value b ds)
           in (clamp (if neg then - v else v), if ds = [] then text else drop (length ds) s))"

text \<open>\<^verbatim>\<open>atoi\<close>: base 10, cut to 32 bits as the C library of Linux does.\<close>

definition atoi :: "byte list \<Rightarrow> int" where
  "atoi text =
     (let s = dropWhile is_space text;
          neg = (s \<noteq> [] \<and> hd s = 45);
          s = (if s \<noteq> [] \<and> (hd s = 45 \<or> hd s = 43) then tl s else s);
          v = int (digits_value 10 (takeWhile (\<lambda>c. digit_value c < 10) s))
      in sint (word_of_int (clamp (if neg then - v else v)) :: u32))"

section \<open>Printing\<close>

fun decimal_digits :: "nat \<Rightarrow> byte list" where
  "decimal_digits n =
     (if n < 10 then [of_nat (48 + n)] else decimal_digits (n div 10) @ [of_nat (48 + n mod 10)])"

declare decimal_digits.simps [simp del]

section \<open>Reading back what was printed\<close>

lemma digit_value_print: "n < 10 \<Longrightarrow> digit_value (of_nat (48 + n)) = n"
proof -
  assume "n < 10"
  then have "n \<in> {0, 1, 2, 3, 4, 5, 6, 7, 8, 9}" by auto
  then show ?thesis by (elim insertE) (simp_all add: digit_value_def)
qed

lemma print_digit_ge: "n < 10 \<Longrightarrow> \<not> is_space (of_nat (48 + n)) \<and> of_nat (48 + n) \<noteq> (45 :: byte) \<and> of_nat (48 + n) \<noteq> (43 :: byte)"
proof -
  assume "n < 10"
  then have "n \<in> {0, 1, 2, 3, 4, 5, 6, 7, 8, 9}" by auto
  then show ?thesis by (elim insertE) (simp_all add: is_space_def)
qed

lemma decimal_digits_all: "c \<in> set (decimal_digits n) \<Longrightarrow> \<exists>d < 10. c = of_nat (48 + d)"
proof (induction n rule: decimal_digits.induct)
  case (1 n)
  show ?case
  proof (cases "n < 10")
    case True
    then show ?thesis using 1(2) by (subst (asm) decimal_digits.simps) auto
  next
    case False
    have m: "n mod 10 < 10" by simp
    from False 1(2) have "c \<in> set (decimal_digits (n div 10)) \<or> c = of_nat (48 + n mod 10)"
      by (subst (asm) decimal_digits.simps) auto
    then show ?thesis using 1(1) [OF False] m by blast
  qed
qed

lemma digits_value_snoc: "digits_value b (ds @ [c]) = b * digits_value b ds + digit_value c"
  by (simp add: digits_value_def)

lemma digits_value_print: "digits_value 10 (decimal_digits n) = n"
proof (induction n rule: decimal_digits.induct)
  case (1 n)
  show ?case
  proof (cases "n < 10")
    case True
    then show ?thesis using digit_value_print by (subst decimal_digits.simps) (simp add: digits_value_def)
  next
    case False
    have "digit_value (of_nat (48 + n mod 10)) = n mod 10" by (rule digit_value_print) simp
    moreover have "digits_value 10 (decimal_digits n) =
        10 * digits_value 10 (decimal_digits (n div 10)) + digit_value (of_nat (48 + n mod 10))"
      using False by (subst decimal_digits.simps) (simp add: digits_value_snoc)
    ultimately show ?thesis using 1 [OF False] by simp
  qed
qed

lemma decimal_digits_hd: "n \<noteq> 0 \<Longrightarrow> \<exists>d r. decimal_digits n = of_nat (48 + d) # r \<and> 0 < d \<and> d < 10"
proof (induction n rule: decimal_digits.induct)
  case (1 n)
  show ?case
  proof (cases "n < 10")
    case True
    then show ?thesis using 1(2) by (subst decimal_digits.simps) (intro exI [of _ n], simp)
  next
    case False
    then have "n div 10 \<noteq> 0" by (simp add: div_eq_0_iff)
    from 1(1) [OF False this] obtain d r where "decimal_digits (n div 10) = of_nat (48 + d) # r" "0 < d" "d < 10" by blast
    then show ?thesis using False by (subst decimal_digits.simps) (intro exI [of _ d], simp)
  qed
qed

text \<open>\<^verbatim>\<open>sysfs\<close> ends the number with a newline.\<close>

lemma strtol0_print:
  assumes "rest = [] \<or> hd rest = 10"
  shows "strtol0 (decimal_digits n @ rest) = (clamp (int n), rest)"
proof (cases "n = 0")
  case True
  have d: "decimal_digits 0 = [48]" by (subst decimal_digits.simps) simp
  show ?thesis using assms unfolding True d
    by (cases rest; cases "tl rest")
      (auto simp: strtol0_def number_base_def is_space_def digit_value_def digits_value_def clamp_def Let_def)
next
  case False
  let ?p = "decimal_digits n"
  obtain d r where h: "?p = of_nat (48 + d) # r" "0 < d" "d < 10" using decimal_digits_hd [OF False] by blast
  have c48: "of_nat (48 + d) \<noteq> (48 :: byte)"
  proof -
    have "d \<in> {1, 2, 3, 4, 5, 6, 7, 8, 9}" using h(2,3) by auto
    then show ?thesis by (elim insertE) simp_all
  qed
  note g = print_digit_ge [OF h(3)]
  have s: "dropWhile is_space (?p @ rest) = ?p @ rest" "hd ?p \<noteq> 45" "hd ?p \<noteq> 43" using h(1) g by simp_all
  have b: "number_base (?p @ rest) = (10, ?p @ rest)"
    using h(1) c48 by (simp add: number_base_def split: list.split)
  have t: "takeWhile (\<lambda>c. digit_value c < 10) (?p @ rest) = ?p"
  proof -
    have "\<forall>c \<in> set ?p. digit_value c < 10" using decimal_digits_all digit_value_print by fastforce
    moreover have "takeWhile (\<lambda>c. digit_value c < 10) rest = []" using assms by (cases rest) (auto simp: digit_value_def)
    ultimately show ?thesis by (simp add: takeWhile_append2)
  qed
  have "?p \<noteq> []" using h(1) by simp
  then show ?thesis by (simp add: strtol0_def Let_def s b t digits_value_print del: dropWhile_append)
qed

end
