(* ===== verification/Rsu_Os.thy ===== *)
theory Rsu_Os
  imports Rsu_Text
begin

text \<open>
  The operating system below the Linux platform: the calls it makes, and its services for the library of
  \<^verbatim>\<open>linux/RSU_osal_linux.c\<close>. The system is a parameter, the record \<open>os\<close> of functions over a state
  \<open>'k\<close> of its own. A file or an open device is a number.
\<close>

section \<open>The operating system\<close>

text \<open>Of \<^verbatim>\<open>struct mtd_info_user\<close>, the field that is used for more than a message.\<close>

record mtd_info =
  erasesize :: u32

record timespec =
  tv_sec :: int
  tv_nsec :: int

text \<open>
  \<open>os_read\<close> and \<open>os_fread\<close> give the bytes that were stored into the buffer, \<open>os_fgets\<close> the line
  without its NUL or \<^const>\<open>None\<close> for NULL. There is one mutex, that of the library.
\<close>

record 'k os =
  os_malloc :: "'k \<Rightarrow> nat \<Rightarrow> byte list option \<times> 'k"
  os_open :: "'k \<Rightarrow> byte list \<Rightarrow> int \<times> 'k"
  os_close :: "'k \<Rightarrow> int \<Rightarrow> 'k"
  os_lseek :: "'k \<Rightarrow> int \<Rightarrow> int \<Rightarrow> int \<times> 'k"
  os_read :: "'k \<Rightarrow> int \<Rightarrow> nat \<Rightarrow> int \<times> byte list \<times> 'k"
  os_write :: "'k \<Rightarrow> int \<Rightarrow> byte list \<Rightarrow> int \<times> 'k"
  os_memerase :: "'k \<Rightarrow> int \<Rightarrow> u32 \<Rightarrow> u32 \<Rightarrow> int \<times> 'k"
  os_memgetinfo :: "'k \<Rightarrow> int \<Rightarrow> int \<times> mtd_info \<times> 'k"
  os_fopen :: "'k \<Rightarrow> byte list \<Rightarrow> string \<Rightarrow> nat option \<times> 'k"
  os_fgets :: "'k \<Rightarrow> nat \<Rightarrow> nat \<Rightarrow> byte list option \<times> 'k"
  os_fputs :: "'k \<Rightarrow> byte list \<Rightarrow> nat \<Rightarrow> int \<times> 'k"
  os_fread :: "'k \<Rightarrow> nat \<Rightarrow> nat \<Rightarrow> byte list \<times> 'k"
  os_fwrite :: "'k \<Rightarrow> byte list \<Rightarrow> nat \<Rightarrow> nat \<times> 'k"
  os_fseek :: "'k \<Rightarrow> nat \<Rightarrow> int \<Rightarrow> RSU_filesys_whence_t \<Rightarrow> int \<times> 'k"
  os_ftruncate :: "'k \<Rightarrow> nat \<Rightarrow> int \<Rightarrow> int \<times> 'k"
  os_fclose :: "'k \<Rightarrow> nat \<Rightarrow> int \<times> 'k"
  os_errno :: "'k \<Rightarrow> int"
  os_set_errno :: "'k \<Rightarrow> int \<Rightarrow> 'k"
  os_mutex_init :: "'k \<Rightarrow> int \<times> 'k"
  os_mutex_lock :: "'k \<Rightarrow> int \<times> 'k"
  os_mutex_trylock :: "'k \<Rightarrow> int \<times> 'k"
  os_mutex_timedlock :: "'k \<Rightarrow> timespec \<Rightarrow> int \<times> 'k"
  os_mutex_unlock :: "'k \<Rightarrow> int \<times> 'k"
  os_mutex_destroy :: "'k \<Rightarrow> int \<times> 'k"

abbreviation (input) ECANCELED :: int where "ECANCELED \<equiv> 125"
abbreviation (input) RSU_DEV_BUF_SIZE :: nat where "RSU_DEV_BUF_SIZE \<equiv> 128"
abbreviation (input) RSU_FILE_OP_BUF_SIZE :: nat where "RSU_FILE_OP_BUF_SIZE \<equiv> 256"
abbreviation (input) NUM_ARGS :: nat where "NUM_ARGS \<equiv> 16"

section \<open>The mutex\<close>

text \<open>\<open>given\<close> is whether the pointer is not NULL.\<close>

definition rsu_mutex_init_linux :: "'k os \<Rightarrow> bool \<Rightarrow> 'k \<Rightarrow> int \<times> 'k" where
  "rsu_mutex_init_linux os given k = (if \<not> given then (- EINVAL, k) else os_mutex_init os k)"

abbreviation (input) RSU_TIME_FOREVER :: u32 where "RSU_TIME_FOREVER \<equiv> 0xFFFFFFFF"
abbreviation (input) RSU_TIME_NOWAIT :: u32 where "RSU_TIME_NOWAIT \<equiv> 0"

definition wait_time :: "u32 \<Rightarrow> timespec" where
  "wait_time time = \<lparr>tv_sec = uint (time div 1000), tv_nsec = uint (time mod 1000 * 1000000)\<rparr>"

definition rsu_mutex_timedlock_linux :: "'k os \<Rightarrow> bool \<Rightarrow> u32 \<Rightarrow> 'k \<Rightarrow> int \<times> 'k" where
  "rsu_mutex_timedlock_linux os given time k =
     (if \<not> given then (- EINVAL, k)
      else if time = RSU_TIME_FOREVER then os_mutex_lock os k
      else if time = RSU_TIME_NOWAIT then os_mutex_trylock os k
      else os_mutex_timedlock os k (wait_time time))"

definition rsu_mutex_unlock_linux :: "'k os \<Rightarrow> bool \<Rightarrow> 'k \<Rightarrow> int \<times> 'k" where
  "rsu_mutex_unlock_linux os given k = (if \<not> given then (- EINVAL, k) else os_mutex_unlock os k)"

definition rsu_mutex_destroy_linux :: "'k os \<Rightarrow> bool \<Rightarrow> 'k \<Rightarrow> int \<times> 'k" where
  "rsu_mutex_destroy_linux os given k = (if \<not> given then (- EINVAL, k) else os_mutex_destroy os k)"

text \<open>
  The time is cut into seconds and nanoseconds without a remainder or an overflow of the 32 bits.
  It is a span, where \<^verbatim>\<open>pthread_mutex_timedlock\<close> wants a point in time: the lock times out at once.
\<close>

lemma wait_time_exact:
  "0 \<le> tv_nsec (wait_time time) \<and> tv_nsec (wait_time time) < 10 ^ 9 \<and>
   tv_sec (wait_time time) * 1000 + tv_nsec (wait_time time) div 10 ^ 6 = uint time"
proof -
  have m: "uint (time mod 1000) = uint time mod 1000" "uint (time div 1000) = uint time div 1000"
    by (simp_all add: uint_mod uint_div)
  have "0 \<le> uint time mod 1000" "uint time mod 1000 < 1000" by simp_all
  then have "uint (time mod 1000 * 1000000) = uint time mod 1000 * 1000000"
    unfolding uint_word_ariths m by (simp add: m)
  then show ?thesis using m by (simp add: wait_time_def)
qed

end
