(* ===== verification/Rsu_Log.thy ===== *)
theory Rsu_Log
  imports Rsu_Os
begin

text \<open>
  Logging on Linux, \<^verbatim>\<open>platform/linux-aarch64/dependency/linux/RSU_logging_linux.c\<close>: its state, its
  configuration, and which messages are written. The text of the messages is left out.
\<close>

datatype rsu_loglevel_t = L_LOG_OFF | L_LOG_ERR | L_LOG_WRN | L_LOG_INF | L_LOG_DBG | L_LOG_MAX

primrec level_number :: "rsu_loglevel_t \<Rightarrow> nat" where
  "level_number L_LOG_OFF = 0"
| "level_number L_LOG_ERR = 1"
| "level_number L_LOG_WRN = 2"
| "level_number L_LOG_INF = 3"
| "level_number L_LOG_DBG = 4"
| "level_number L_LOG_MAX = 5"

datatype rsu_log_type_t = RSU_STDERR | RSU_FILE

record logging =
  rsu_curr_loglevel :: rsu_loglevel_t
  rsu_log_type :: rsu_log_type_t
  RSU_log_file :: "nat option"

definition RSU_set_logging :: "rsu_loglevel_t \<Rightarrow> logging \<Rightarrow> int \<times> logging" where
  "RSU_set_logging level s =
     (if level_number level \<ge> level_number L_LOG_MAX then (- EINVAL, s) else (0, s\<lparr>rsu_curr_loglevel := level\<rparr>))"

text \<open>The level a word of the configuration names; \<^verbatim>\<open>off\<close> is apart.\<close>

definition named_level :: "byte list \<Rightarrow> rsu_loglevel_t option" where
  "named_level s =
     (if s = chars ''err'' then Some L_LOG_ERR
      else if s = chars ''low'' then Some L_LOG_WRN
      else if s = chars ''med'' then Some L_LOG_INF
      else if s = chars ''high'' then Some L_LOG_DBG
      else None)"

text \<open>The first line \<^verbatim>\<open>log\<close> with its two words.\<close>

definition log_line :: "'k os \<Rightarrow> byte list \<Rightarrow> byte list \<Rightarrow> logging \<Rightarrow> 'k \<Rightarrow> int \<times> logging \<times> 'k" where
  "log_line os level target s k =
     (if level = chars ''off'' then (0, snd (RSU_set_logging L_LOG_OFF s), k)
      else case named_level level of
        None \<Rightarrow> (0, (snd (RSU_set_logging L_LOG_INF s))\<lparr>rsu_log_type := RSU_STDERR\<rparr>, k)
      | Some l \<Rightarrow>
          (let s = snd (RSU_set_logging l s)
           in if target = chars ''stderr'' then (0, s\<lparr>rsu_log_type := RSU_STDERR\<rparr>, k)
              else (case os_fopen os k target ''w'' of
                  (None, k) \<Rightarrow> (- EINVAL, s, k)
                | (Some tfile, k) \<Rightarrow> (0, s\<lparr>rsu_log_type := RSU_FILE, RSU_log_file := Some tfile\<rparr>, k))))"

partial_function (option) log_lines :: "'k os \<Rightarrow> nat \<Rightarrow> logging \<Rightarrow> 'k \<Rightarrow> (int \<times> logging \<times> 'k) option" where
  "log_lines os file s k =
     (case os_fgets os k RSU_DEV_BUF_SIZE file of
        (None, k) \<Rightarrow> Some (0, s, k)
      | (Some line, k) \<Rightarrow> do {
          argv \<leftarrow> split_line (line @ [0]) NUM_ARGS;
          if length argv \<noteq> 3 then log_lines os file s k
          else if argv ! 0 = chars ''log'' then Some (log_line os (argv ! 1) (argv ! 2) s k)
          else log_lines os file s k
        })"

definition RSU_logging_init_linux :: "'k os \<Rightarrow> byte list option \<Rightarrow> logging \<Rightarrow> 'k \<Rightarrow> (int \<times> logging \<times> 'k) option" where
  "RSU_logging_init_linux os cfg_file s k =
     (case cfg_file of None \<Rightarrow> Some (- EINVAL, s, k)
      | Some cfg \<Rightarrow>
        (case os_fopen os k cfg ''r'' of
           (None, k) \<Rightarrow> Some (- ENOENT, s, k)
         | (Some file, k) \<Rightarrow> do {
             (ret, s, k) \<leftarrow> log_lines os file s k;
             Some (ret, s, snd (os_fclose os k file))
           }))"

text \<open>\<^verbatim>\<open>fclose(NULL)\<close> is undefined.\<close>

definition RSU_logging_exit_linux :: "'k os \<Rightarrow> logging \<Rightarrow> 'k \<Rightarrow> (logging \<times> 'k) option" where
  "RSU_logging_exit_linux os s k =
     (if rsu_log_type s = RSU_FILE then do {
        file \<leftarrow> RSU_log_file s;
        Some (s\<lparr>RSU_log_file := None\<rparr>, snd (os_fclose os k file))
      }
      else Some (s, k))"

text \<open>Where \<^verbatim>\<open>RSU_logger\<close> writes a message of a level: nowhere, to \<^verbatim>\<open>stderr\<close>, or to the file.\<close>

definition RSU_logger :: "rsu_loglevel_t \<Rightarrow> logging \<Rightarrow> rsu_log_type_t option" where
  "RSU_logger level s =
     (if level = L_LOG_OFF \<or> level_number level > level_number (rsu_curr_loglevel s) then None
      else if rsu_log_type s = RSU_STDERR then Some RSU_STDERR
      else if RSU_log_file s = None then None else Some RSU_FILE)"

section \<open>Its behaviour\<close>

text \<open>A file that is being logged to is open, from any configuration on until logging stops.\<close>

definition log_open :: "logging \<Rightarrow> bool" where
  "log_open s \<longleftrightarrow> (rsu_log_type s = RSU_FILE \<longrightarrow> RSU_log_file s \<noteq> None)"

lemma log_line_open: "log_open s \<Longrightarrow> log_open (fst (snd (log_line os level target s k)))"
  by (auto simp: log_open_def log_line_def RSU_set_logging_def Let_def split: option.splits prod.splits)

lemma log_lines_open:
  assumes "log_lines os file s k = Some x" shows "log_open s \<longrightarrow> log_open (fst (snd x))"
proof (rule log_lines.raw_induct [where P = "\<lambda>os file s k x. log_open s \<longrightarrow> log_open (fst (snd x))", OF _ assms], goal_cases)
  case (1 loop os f s k x)
  obtain g k1 where g: "os_fgets os k 128 f = (g, k1)" by fastforce
  show ?case
  proof (cases g)
    case None
    then show ?thesis using 1(2) by (auto simp: g)
  next
    case (Some line)
    then obtain argv where a: "split_line (line @ [0]) 16 = Some argv" using 1(2) by (auto simp: g bind_splits)
    show ?thesis
    proof (cases "length argv = 3 \<and> argv ! 0 = chars ''log''")
      case True
      then have "x = log_line os (argv ! 1) (argv ! 2) s k1" using 1(2) Some by (simp add: g a)
      then show ?thesis by (auto intro: log_line_open)
    next
      case False
      then have "loop os f s k1 = Some x" using 1(2) Some by (auto simp: g a split: if_splits)
      then show ?thesis by (rule 1(1))
    qed
  qed
qed

text \<open>
  Stopping keeps the type of the log but drops the file: when the next configuration has no line \<^verbatim>\<open>log\<close>,
  stopping again closes NULL.
\<close>

lemma logging_exit_twice:
  assumes "rsu_log_type s = RSU_FILE" "RSU_logging_exit_linux os s k = Some (s', k')"
  shows "RSU_logging_exit_linux os s' k'' = None"
  using assms by (auto simp: RSU_logging_exit_linux_def bind_splits)

lemma logging_exit_returns: "log_open s \<Longrightarrow> RSU_logging_exit_linux os s k \<noteq> None"
  by (auto simp: log_open_def RSU_logging_exit_linux_def)

end
