(* ===== verification/Rsu_Linux.thy ===== *)
theory Rsu_Linux
  imports Rsu_Log
begin

text \<open>
  The platform of \<^verbatim>\<open>platform/linux-aarch64/dependency\<close>: the flash as an MTD device
  (\<^verbatim>\<open>rsu_qspi_ops.c\<close>), the firmware through the attribute files of its driver
  (\<^verbatim>\<open>rsu_linux_utils.c\<close>, \<^verbatim>\<open>rsu_mailbox_ops.c\<close>, \<^verbatim>\<open>rsu_misc_ops.c\<close>) and files of the C library
  (\<^verbatim>\<open>rsu_file_ops.c\<close>).
\<close>

section \<open>State\<close>

text \<open>
  The static variables of the four files. \<open>qspi_file\<close> and the two \<^verbatim>\<open>rsu_dev_local\<close> are C strings in
  arrays of 129 characters whose last one stays NUL.
\<close>

record 'k linux =
  dev_file :: int
  dev_info :: mtd_info
  qspi_file :: "byte list"
  mbox_dev :: "byte list"
  misc_dev :: "byte list"
  log_state :: logging
  kernel :: 'k

definition DEVICE :: "byte list" where
  "DEVICE = chars ''/dev/mtd0''"

definition DEFAULT_RSU_DEV :: "byte list" where
  "DEFAULT_RSU_DEV = chars ''/sys/devices/platform/stratix10-rsu.0''"

text \<open>\<^verbatim>\<open>strncpy\<close> into one of these arrays.\<close>

definition set_name :: "byte list \<Rightarrow> byte list" where
  "set_name s = take RSU_DEV_BUF_SIZE s"

section \<open>Flash\<close>

text \<open>
  The loops of \<^verbatim>\<open>plat_qspi_read\<close> and \<^verbatim>\<open>plat_qspi_write\<close>; \<open>ptr\<close> is how far the pointer of the first has
  moved, \<open>cnt\<close> counts on 32 bits. Storing behind the buffer is undefined.
\<close>

partial_function (option) read_loop ::
    "'k os \<Rightarrow> int \<Rightarrow> nat \<Rightarrow> u32 \<Rightarrow> byte list \<Rightarrow> 'k \<Rightarrow> (int \<times> byte list \<times> 'k) option" where
  "read_loop os fd ptr cnt buf k =
     (if unat cnt < length buf then
        (case os_read os k fd (length buf - unat cnt) of (rtn, bs, k) \<Rightarrow>
         if ptr + length bs > length buf then None
         else if rtn < 0 then Some (rtn, overlay buf ptr bs, k)
         else read_loop os fd (ptr + nat rtn) (cnt + word_of_int rtn) (overlay buf ptr bs) k)
      else Some (0, buf, k))"

partial_function (option) write_loop ::
    "'k os \<Rightarrow> int \<Rightarrow> u32 \<Rightarrow> byte list \<Rightarrow> 'k \<Rightarrow> (int \<times> 'k) option" where
  "write_loop os fd cnt bs k =
     (if unat cnt < length bs then
        (case os_write os k fd (drop (unat cnt) bs) of (rtn, k) \<Rightarrow>
         if rtn < 0 then Some (rtn, k) else write_loop os fd (cnt + word_of_int rtn) bs k)
      else Some (0, k))"

definition plat_qspi_read :: "'k os \<Rightarrow> 'k linux \<Rightarrow> int \<Rightarrow> byte list \<Rightarrow> (int \<times> byte list \<times> 'k linux) option" where
  "plat_qspi_read os w offset buf =
     (if dev_file w < 0 then Some (- EINVAL, buf, w)
      else case os_lseek os (kernel w) (dev_file w) offset of (p, k) \<Rightarrow>
        if p \<noteq> offset then Some (- EINVAL, buf, w\<lparr>kernel := k\<rparr>)
        else do {
          (ret, buf, k) \<leftarrow> read_loop os (dev_file w) 0 0 buf k;
          Some (ret, buf, w\<lparr>kernel := k\<rparr>)
        })"

definition plat_qspi_write :: "'k os \<Rightarrow> 'k linux \<Rightarrow> int \<Rightarrow> byte list \<Rightarrow> (int \<times> 'k linux) option" where
  "plat_qspi_write os w offset bs =
     (if dev_file w < 0 then Some (- EINVAL, w)
      else case os_lseek os (kernel w) (dev_file w) offset of (p, k) \<Rightarrow>
        if p \<noteq> offset then Some (- EINVAL, w\<lparr>kernel := k\<rparr>)
        else do {
          (ret, k) \<leftarrow> write_loop os (dev_file w) 0 bs k;
          Some (ret, w\<lparr>kernel := k\<rparr>)
        })"

text \<open>The two fields of \<^verbatim>\<open>struct erase_info_user\<close> have 32 bits.\<close>

definition plat_qspi_erase :: "'k os \<Rightarrow> 'k linux \<Rightarrow> int \<Rightarrow> int \<Rightarrow> (int \<times> 'k linux) option" where
  "plat_qspi_erase os w offset len =
     (if dev_file w < 0 then Some (- EIO, w)
      else if erasesize (dev_info w) = 0 then None
      else if \<not> uint (erasesize (dev_info w)) dvd offset then Some (- ECANCELED, w)
      else if \<not> uint (erasesize (dev_info w)) dvd len then Some (- EPERM, w)
      else case os_memerase os (kernel w) (dev_file w) (word_of_int offset) (word_of_int len) of (rtn, k) \<Rightarrow>
        if rtn < 0 then Some (- EFAULT, w\<lparr>kernel := k\<rparr>) else Some (0, w\<lparr>kernel := k\<rparr>))"

definition plat_qspi_terminate :: "'k os \<Rightarrow> 'k linux \<Rightarrow> int \<times> 'k linux" where
  "plat_qspi_terminate os w = (0, w\<lparr>kernel := os_close os (kernel w) (dev_file w), dev_file := - 1\<rparr>)"

text \<open>Looking for the device in the configuration: the first line \<^verbatim>\<open>root\<close> decides.\<close>

partial_function (option) root_lines :: "'k os \<Rightarrow> nat \<Rightarrow> byte list \<Rightarrow> 'k \<Rightarrow> (byte list \<times> 'k) option" where
  "root_lines os file name k =
     (case os_fgets os k RSU_DEV_BUF_SIZE file of
        (None, k) \<Rightarrow> Some (name, k)
      | (Some line, k) \<Rightarrow> do {
          argv \<leftarrow> split_line (line @ [0]) NUM_ARGS;
          if length argv \<noteq> 3 then root_lines os file name k
          else if argv ! 0 = chars ''root'' then
            Some (if strncmp (argv ! 1) (chars ''qspi'') RSU_DEV_BUF_SIZE = 0 then set_name (argv ! 2) else name, k)
          else root_lines os file name k
        })"

definition plat_qspi_init_linux :: "'k os \<Rightarrow> byte list option \<Rightarrow> 'k linux \<Rightarrow> (int \<times> 'k linux) option" where
  "plat_qspi_init_linux os config_file w =
     (case config_file of None \<Rightarrow> Some (- EINVAL, w)
      | Some config \<Rightarrow>
        (case os_fopen os (kernel w) config ''r'' of
           (None, k) \<Rightarrow> Some (- ENOENT, w\<lparr>kernel := k\<rparr>)
         | (Some file, k) \<Rightarrow> do {
             (name, k) \<leftarrow> root_lines os file (qspi_file w) k;
             let k = snd (os_fclose os k file);
             let (fd, k) = os_open os k name;
             let (fd, name, k) = (if fd < 0 then (case os_open os k DEVICE of (fd, k) \<Rightarrow> (fd, DEVICE, k)) else (fd, name, k));
             let w = w\<lparr>dev_file := fd, qspi_file := name, kernel := k\<rparr>;
             if fd < 0 then Some (- ENODEV, w)
             else case os_memgetinfo os k fd of (ret, info, k) \<Rightarrow>
               if ret \<noteq> 0 then Some (- EACCES, w\<lparr>dev_info := info, kernel := os_close os k fd\<rparr>)
               else Some (0, w\<lparr>dev_info := info, kernel := k\<rparr>)
           }))"

section \<open>Attributes of the driver\<close>

text \<open>
  The path in the buffer of 256 characters: \<^verbatim>\<open>strncpy\<close> must leave a NUL, and the two \<^verbatim>\<open>strncat\<close>, each
  bound by the same count, must stay inside the buffer.
\<close>

definition attr_path :: "byte list \<Rightarrow> byte list \<Rightarrow> byte list \<Rightarrow> byte list option" where
  "attr_path dev rsu_dev attr =
     (let n = RSU_FILE_OP_BUF_SIZE - length rsu_dev - 1;
          path = dev @ [47] @ take n attr
      in if length rsu_dev < RSU_FILE_OP_BUF_SIZE - 1 \<and> length dev < n \<and> length path < RSU_FILE_OP_BUF_SIZE then Some path else None)"

text \<open>\<open>v\<close> is what \<^verbatim>\<open>*value\<close> holds.\<close>

definition get_devattr :: "'k os \<Rightarrow> byte list \<Rightarrow> byte list \<Rightarrow> u64 \<Rightarrow> 'k \<Rightarrow> (int \<times> u64 \<times> 'k) option" where
  "get_devattr os rsu_dev attr v k =
     (case os_malloc os k RSU_FILE_OP_BUF_SIZE of
        (None, k) \<Rightarrow> Some (- ENOMEM, v, k)
      | (Some buf, k) \<Rightarrow> do {
          path \<leftarrow> attr_path rsu_dev rsu_dev attr;
          (case os_fopen os k path ''r'' of
             (None, k) \<Rightarrow> Some (- EBADF, v, k)
           | (Some file, k) \<Rightarrow>
             (case os_fgets os k RSU_FILE_OP_BUF_SIZE file of
                (None, k) \<Rightarrow> Some (- EACCES, v, snd (os_fclose os k file))
              | (Some line, k) \<Rightarrow> do {
                  s \<leftarrow> c_str (line @ [0]);
                  Some (0, word_of_int (fst (strtol0 s)), snd (os_fclose os k file))
                }))
        })"

text \<open>The path starts with the default device, whatever \<open>rsu_dev\<close> is.\<close>

definition put_devattr :: "'k os \<Rightarrow> byte list \<Rightarrow> byte list \<Rightarrow> u64 \<Rightarrow> 'k \<Rightarrow> (int \<times> 'k) option" where
  "put_devattr os rsu_dev attr v k =
     (case os_malloc os k RSU_FILE_OP_BUF_SIZE of
        (None, k) \<Rightarrow> Some (- ENOMEM, k)
      | (Some buf, k) \<Rightarrow> do {
          path \<leftarrow> attr_path DEFAULT_RSU_DEV rsu_dev attr;
          (case os_fopen os k path ''w'' of
             (None, k) \<Rightarrow> Some (- EBADF, k)
           | (Some file, k) \<Rightarrow>
             (case os_fputs os k (decimal_digits (unat v)) file of (r, k) \<Rightarrow>
               Some (if r > 0 then 0 else - EACCES, snd (os_fclose os k file))))
        })"

section \<open>The mailbox\<close>

text \<open>Reading one attribute after the other; the first that fails ends it, with those before it stored.\<close>

fun get_devattrs :: "'k os \<Rightarrow> byte list \<Rightarrow> (string \<times> u64) list \<Rightarrow> 'k \<Rightarrow> (int \<times> u64 list \<times> 'k) option" where
  "get_devattrs os dev [] k = Some (0, [], k)"
| "get_devattrs os dev ((attr, v) # as) k = do {
     (ret, v, k) \<leftarrow> get_devattr os dev (chars attr) v k;
     if ret \<noteq> 0 then Some (ret, v # map snd as, k)
     else do {
       (ret, vs, k) \<leftarrow> get_devattrs os dev as k;
       Some (ret, v # vs, k)
     }
   }"

definition plat_mbox_get_rsu_status :: "'k os \<Rightarrow> mbox_status_info \<Rightarrow> 'k linux \<Rightarrow> (int \<times> mbox_status_info \<times> 'k linux) option" where
  "plat_mbox_get_rsu_status os d w = do {
     (ret, vs, k) \<leftarrow> get_devattrs os (mbox_dev w)
       [(''version'', st_version d), (''state'', st_state d), (''current_image'', st_current_image d),
        (''fail_image'', st_fail_image d), (''error_location'', st_error_location d),
        (''error_details'', st_error_details d), (''retry_counter'', st_retry_counter d)] (kernel w);
     Some (ret, \<lparr>st_version = vs ! 0, st_state = vs ! 1, st_current_image = vs ! 2, st_fail_image = vs ! 3,
       st_error_location = vs ! 4, st_error_details = vs ! 5, st_retry_counter = vs ! 6\<rparr>, w\<lparr>kernel := k\<rparr>)
   }"

definition plat_mbox_send_rsu_update :: "'k os \<Rightarrow> u64 \<Rightarrow> 'k linux \<Rightarrow> (int \<times> 'k linux) option" where
  "plat_mbox_send_rsu_update os addr w = do {
     (ret, k) \<leftarrow> put_devattr os (mbox_dev w) (chars ''reboot_image'') addr (kernel w);
     Some (ret, w\<lparr>kernel := k\<rparr>)
   }"

text \<open>On Linux the device starts at SPT0.\<close>

definition plat_mbox_get_spt_addresses ::
    "'k os \<Rightarrow> mbox_data_rsu_spt_address \<Rightarrow> 'k linux \<Rightarrow> (int \<times> mbox_data_rsu_spt_address \<times> 'k linux) option" where
  "plat_mbox_get_spt_addresses os d w = do {
     (ret, vs, k) \<leftarrow> get_devattrs os (mbox_dev w)
       [(''spt0_address'', spt0_address d), (''spt1_address'', spt1_address d)] (kernel w);
     let w = w\<lparr>kernel := k\<rparr>;
     if ret \<noteq> 0 then Some (ret, \<lparr>spt0_address = vs ! 0, spt1_address = vs ! 1\<rparr>, w)
     else Some (0, \<lparr>spt0_address = 0, spt1_address = vs ! 1 - vs ! 0\<rparr>, w)
   }"

definition plat_mbox_rsu_notify :: "'k os \<Rightarrow> u32 \<Rightarrow> 'k linux \<Rightarrow> (int \<times> 'k linux) option" where
  "plat_mbox_rsu_notify os notify w = do {
     (ret, k) \<leftarrow> put_devattr os (mbox_dev w) (chars ''notify'') (ucast notify) (kernel w);
     Some (ret, w\<lparr>kernel := k\<rparr>)
   }"

definition plat_mbox_terminate :: "'k linux \<Rightarrow> int \<times> 'k linux" where
  "plat_mbox_terminate w = (0, w\<lparr>mbox_dev := set_name DEFAULT_RSU_DEV\<rparr>)"

text \<open>The device of the driver in the configuration, for the mailbox and for the other queries.\<close>

partial_function (option) rsu_dev_lines :: "'k os \<Rightarrow> nat \<Rightarrow> byte list \<Rightarrow> 'k \<Rightarrow> (byte list \<times> 'k) option" where
  "rsu_dev_lines os file name k =
     (case os_fgets os k RSU_DEV_BUF_SIZE file of
        (None, k) \<Rightarrow> Some (name, k)
      | (Some line, k) \<Rightarrow> do {
          argv \<leftarrow> split_line (line @ [0]) NUM_ARGS;
          if length argv \<noteq> 2 then rsu_dev_lines os file name k
          else if strncmp (argv ! 0) (chars ''rsu-dev'') RSU_DEV_BUF_SIZE = 0 then Some (set_name (argv ! 1), k)
          else rsu_dev_lines os file name k
        })"

definition plat_mbox_init_linux :: "'k os \<Rightarrow> byte list option \<Rightarrow> 'k linux \<Rightarrow> (int \<times> 'k linux) option" where
  "plat_mbox_init_linux os config_file w =
     (case config_file of None \<Rightarrow> Some (- EINVAL, w)
      | Some config \<Rightarrow>
        (case os_fopen os (kernel w) config ''r'' of
           (None, k) \<Rightarrow> Some (- ENOENT, w\<lparr>kernel := k\<rparr>)
         | (Some file, k) \<Rightarrow> do {
             (name, k) \<leftarrow> rsu_dev_lines os file (mbox_dev w) k;
             Some (0, w\<lparr>mbox_dev := name, kernel := snd (os_fclose os k file)\<rparr>)
           }))"

section \<open>Other queries\<close>

text \<open>
  The four attributes of \<^verbatim>\<open>rsu_get_dcmf_status\<close> and \<^verbatim>\<open>rsu_get_dcmf_version\<close>, each stored once it is
  read; \<open>value\<close> is the local variable, \<open>d\<close> the array of the caller.
\<close>

fun dcmf_attrs :: "'k os \<Rightarrow> byte list \<Rightarrow> (nat \<times> string) list \<Rightarrow> (u64 \<Rightarrow> 'a) \<Rightarrow> u64 \<Rightarrow> 'a list \<Rightarrow> 'k \<Rightarrow> (int \<times> 'a list \<times> 'k) option" where
  "dcmf_attrs os dev [] cast value d k = Some (0, d, k)"
| "dcmf_attrs os dev ((i, attr) # as) cast value d k = do {
     (ret, value, k) \<leftarrow> get_devattr os dev (chars attr) value k;
     if ret \<noteq> 0 then Some (ret, d, k) else dcmf_attrs os dev as cast value (d[i := cast value]) k
   }"

definition rsu_get_dcmf_status_linux :: "'k os \<Rightarrow> u64 \<Rightarrow> u32 list \<Rightarrow> 'k linux \<Rightarrow> (int \<times> u32 list \<times> 'k linux) option" where
  "rsu_get_dcmf_status_linux os junk d w = do {
     (ret, d, k) \<leftarrow> dcmf_attrs os (misc_dev w)
       [(0, ''dcmf0_status''), (1, ''dcmf1_status''), (2, ''dcmf2_status''), (3, ''dcmf3_status'')] ucast junk d (kernel w);
     Some (ret, d, w\<lparr>kernel := k\<rparr>)
   }"

text \<open>The versions are stored as \<^verbatim>\<open>int\<close>.\<close>

definition rsu_get_dcmf_version_linux :: "'k os \<Rightarrow> u64 \<Rightarrow> int list \<Rightarrow> 'k linux \<Rightarrow> (int \<times> int list \<times> 'k linux) option" where
  "rsu_get_dcmf_version_linux os junk d w = do {
     (ret, d, k) \<leftarrow> dcmf_attrs os (misc_dev w)
       [(0, ''dcmf0''), (1, ''dcmf1''), (2, ''dcmf2''), (3, ''dcmf3'')] (\<lambda>v. sint (ucast v :: u32)) junk d (kernel w);
     Some (ret, d, w\<lparr>kernel := k\<rparr>)
   }"

definition rsu_get_max_retry_count_linux :: "'k os \<Rightarrow> u64 \<Rightarrow> byte \<Rightarrow> 'k linux \<Rightarrow> (int \<times> byte \<times> 'k linux) option" where
  "rsu_get_max_retry_count_linux os junk b w = do {
     (ret, max_retry, k) \<leftarrow> get_devattr os (misc_dev w) (chars ''max_retry'') junk (kernel w);
     let w = w\<lparr>kernel := k\<rparr>;
     if ret \<noteq> 0 then Some (ret, b, w)
     else if max_retry > 3 then Some (- EINVAL, b, w)
     else Some (0, ucast max_retry, w)
   }"

definition misc_terminate_linux :: "'k linux \<Rightarrow> int \<times> 'k linux" where
  "misc_terminate_linux w = (0, w\<lparr>misc_dev := set_name DEFAULT_RSU_DEV\<rparr>)"

definition plat_rsu_misc_init_linux :: "'k os \<Rightarrow> byte list option \<Rightarrow> 'k linux \<Rightarrow> (int \<times> 'k linux) option" where
  "plat_rsu_misc_init_linux os config_file w =
     (case config_file of None \<Rightarrow> Some (- EINVAL, w)
      | Some config \<Rightarrow>
        (case os_fopen os (kernel w) config ''r'' of
           (None, k) \<Rightarrow> Some (- ENOENT, w\<lparr>kernel := k\<rparr>)
         | (Some file, k) \<Rightarrow> do {
             (name, k) \<leftarrow> rsu_dev_lines os file (misc_dev w) k;
             Some (0, w\<lparr>misc_dev := name, kernel := snd (os_fclose os k file)\<rparr>)
           }))"

section \<open>Files\<close>

text \<open>A NULL argument is \<^const>\<open>None\<close>. The check of \<^verbatim>\<open>errno\<close> drops a file that was opened all the same.\<close>

definition plat_filesys_open :: "'k os \<Rightarrow> byte list option \<Rightarrow> RSU_filesys_flags_t \<Rightarrow> 'k \<Rightarrow> nat option \<times> 'k" where
  "plat_filesys_open os filename flag k =
     (case filename of None \<Rightarrow> (None, k)
      | Some name \<Rightarrow>
        (let k = os_set_errno os k 0;
             mode = (case flag of RSU_FILE_READ \<Rightarrow> ''r'' | RSU_FILE_WRITE \<Rightarrow> ''w+'' | RSU_FILE_APPEND \<Rightarrow> ''a+'')
         in case os_fopen os k name mode of (file, k) \<Rightarrow>
              if os_errno os k \<noteq> 0 then (None, k) else (file, k)))"

text \<open>A \<^verbatim>\<open>size_t\<close> as an \<^verbatim>\<open>int\<close>.\<close>

definition count_int :: "nat \<Rightarrow> int" where
  "count_int n = sint (of_nat n :: u32)"

definition plat_filesys_read :: "'k os \<Rightarrow> byte list option \<Rightarrow> nat option \<Rightarrow> 'k \<Rightarrow> int \<times> byte list option \<times> 'k" where
  "plat_filesys_read os buf file k =
     (case (buf, file) of
        (Some buf, Some file) \<Rightarrow>
          if buf = [] then (- EINVAL, Some buf, k)
          else (case os_fread os k file (length buf) of (bs, k) \<Rightarrow>
            (count_int (length bs), Some (overlay buf 0 bs), k))
      | _ \<Rightarrow> (- EINVAL, buf, k))"

definition plat_filesys_write :: "'k os \<Rightarrow> byte list option \<Rightarrow> nat option \<Rightarrow> 'k \<Rightarrow> int \<times> 'k" where
  "plat_filesys_write os buf file k =
     (case (buf, file) of
        (Some buf, Some file) \<Rightarrow>
          if buf = [] then (- EINVAL, k)
          else (case os_fwrite os k buf file of (n, k) \<Rightarrow> (count_int n, k))
      | _ \<Rightarrow> (- EINVAL, k))"

definition plat_filesys_fgets :: "'k os \<Rightarrow> byte list option \<Rightarrow> nat option \<Rightarrow> 'k \<Rightarrow> int \<times> byte list option \<times> 'k" where
  "plat_filesys_fgets os str file k =
     (case (str, file) of
        (Some str, Some file) \<Rightarrow>
          if str = [] then (- EINVAL, Some str, k)
          else (case os_fgets os (os_set_errno os k 0) (length str) file of (line, k) \<Rightarrow>
            let str = (case line of None \<Rightarrow> str | Some s \<Rightarrow> overlay str 0 (s @ [0]))
            in if line = None \<and> os_errno os k = 0 then (1, Some str, k)
               else if os_errno os k \<noteq> 0 then (- os_errno os k, Some str, k)
               else (0, Some str, k))
      | _ \<Rightarrow> (- EINVAL, str, k))"

definition plat_filesys_fseek :: "'k os \<Rightarrow> int \<Rightarrow> RSU_filesys_whence_t \<Rightarrow> nat option \<Rightarrow> 'k \<Rightarrow> int \<times> 'k" where
  "plat_filesys_fseek os offset whence file k =
     (case file of None \<Rightarrow> (- EINVAL, k) | Some file \<Rightarrow> os_fseek os k file offset whence)"

definition plat_filesys_ftruncate :: "'k os \<Rightarrow> int \<Rightarrow> nat option \<Rightarrow> 'k \<Rightarrow> int \<times> 'k" where
  "plat_filesys_ftruncate os len file k =
     (case file of None \<Rightarrow> (- EINVAL, k) | Some file \<Rightarrow> os_ftruncate os k file len)"

definition plat_filesys_close :: "'k os \<Rightarrow> nat option \<Rightarrow> 'k \<Rightarrow> int \<times> 'k" where
  "plat_filesys_close os file k =
     (case file of None \<Rightarrow> (- EINVAL, k) | Some file \<Rightarrow> os_fclose os k file)"

section \<open>The platform\<close>

text \<open>
  What the four \<^verbatim>\<open>plat_*_init\<close> put into the library's table. \<open>j\<close> is what the caller's variables
  hold before a query fills them, \<open>crc\<close> is \<^verbatim>\<open>crc32\<close> of zlib. The queries of the driver are undefined only for
  a device name too long for the buffer, which no line of a configuration can hold; there the
  result here is an error.
\<close>

record indeterminate =
  j_status :: mbox_status_info
  j_addresses :: mbox_data_rsu_spt_address
  j_dcmf_status :: "u32 list"
  j_dcmf_version :: "int list"
  j_retry :: byte
  j_value :: u64

definition answered :: "'a \<Rightarrow> 'w \<Rightarrow> (int \<times> 'a \<times> 'w) option \<Rightarrow> int \<times> 'a \<times> 'w" where
  "answered d w x = (case x of None \<Rightarrow> (- EINVAL, d, w) | Some y \<Rightarrow> y)"

definition sent :: "'w \<Rightarrow> (int \<times> 'w) option \<Rightarrow> int \<times> 'w" where
  "sent w x = (case x of None \<Rightarrow> (- EINVAL, w) | Some y \<Rightarrow> y)"

definition on_kernel :: "'k linux \<Rightarrow> 'a \<times> 'k \<Rightarrow> 'a \<times> 'k linux" where
  "on_kernel w x = (case x of (r, k) \<Rightarrow> (r, w\<lparr>kernel := k\<rparr>))"

definition into_buffer :: "byte list \<Rightarrow> 'k linux \<Rightarrow> int \<times> byte list option \<times> 'k \<Rightarrow> int \<times> byte list \<times> 'k linux" where
  "into_buffer buf w x = (case x of (r, b, k) \<Rightarrow> (r, case b of None \<Rightarrow> buf | Some b \<Rightarrow> b, w\<lparr>kernel := k\<rparr>))"

definition linux_hal :: "'k os \<Rightarrow> (u32 \<Rightarrow> byte list \<Rightarrow> u32) \<Rightarrow> indeterminate \<Rightarrow> 'k linux librsu_ll_intf" where
  "linux_hal os crc j =
     \<lparr>rsu_malloc = (\<lambda>w n. on_kernel w (os_malloc os (kernel w) n)),
      rsu_crc32 = crc,
      qspi_read = plat_qspi_read os,
      qspi_write = plat_qspi_write os,
      qspi_erase = plat_qspi_erase os,
      mbox_get_rsu_status = (\<lambda>w. answered (j_status j) w (plat_mbox_get_rsu_status os (j_status j) w)),
      mbox_send_rsu_update = (\<lambda>w addr. sent w (plat_mbox_send_rsu_update os addr w)),
      mbox_get_spt_addresses = (\<lambda>w. answered (j_addresses j) w (plat_mbox_get_spt_addresses os (j_addresses j) w)),
      mbox_rsu_notify = (\<lambda>w v. sent w (plat_mbox_rsu_notify os v w)),
      file_open = (\<lambda>w name flag. on_kernel w (plat_filesys_open os (Some name) flag (kernel w))),
      file_read = (\<lambda>w buf h. into_buffer buf w (plat_filesys_read os (Some buf) (Some h) (kernel w))),
      file_write = (\<lambda>w buf h. on_kernel w (plat_filesys_write os (Some buf) (Some h) (kernel w))),
      file_fgets = (\<lambda>w buf h. into_buffer buf w (plat_filesys_fgets os (Some buf) (Some h) (kernel w))),
      file_fseek = (\<lambda>w offset whence h. on_kernel w (plat_filesys_fseek os offset whence (Some h) (kernel w))),
      file_ftruncate = (\<lambda>w len h. on_kernel w (plat_filesys_ftruncate os len (Some h) (kernel w))),
      file_close = (\<lambda>w h. on_kernel w (plat_filesys_close os (Some h) (kernel w))),
      misc_get_dcmf_status = (\<lambda>w. answered (j_dcmf_status j) w (rsu_get_dcmf_status_linux os (j_value j) (j_dcmf_status j) w)),
      misc_get_max_retry_count = (\<lambda>w. answered (j_retry j) w (rsu_get_max_retry_count_linux os (j_value j) (j_retry j) w)),
      misc_get_dcmf_version = (\<lambda>w. answered (j_dcmf_version j) w (rsu_get_dcmf_version_linux os (j_value j) (j_dcmf_version j) w)),
      writeprotect = 0, spt_checksum_enabled = 0\<rparr>"

end
