(* ===== verification/Rsu_Linux_Ok.thy ===== *)
theory Rsu_Linux_Ok
  imports Rsu_Linux Rsu_Mock_Qspi
begin

text \<open>
  The Linux platform keeps what the library asks of its flash: on a device that behaves as the MTD
  driver documents, \<^verbatim>\<open>plat_qspi_read\<close>, \<^verbatim>\<open>plat_qspi_write\<close> and \<^verbatim>\<open>plat_qspi_erase\<close> satisfy
  \<^const>\<open>nor_flash\<close> and \<^const>\<open>sized_flash\<close>.
\<close>

text \<open>The 32-bit counter of the loops counts as it should.\<close>

lemma count_up:
  assumes "0 \<le> r" "unat c + nat r < 2 ^ 32" shows "unat (c + word_of_int r :: u32) = unat c + nat r"
proof -
  have "uint (word_of_int r :: u32) = r" using assms by (simp add: uint_word_of_int take_bit_int_eq_self)
  then have "unat (word_of_int r :: u32) = nat r" by (metis nat_uint_eq)
  then show ?thesis using assms(2) unat_add_lem [of c "word_of_int r"] by simp
qed

section \<open>What the driver documents\<close>

text \<open>
  \<open>mem\<close> is the content of the device, \<open>pos\<close> the position of a descriptor. A read or write may be
  short, and then moves the position by what it did; a failed one leaves the position open. A read
  returns nothing at the end of the device only.
\<close>

locale mtd_device =
  fixes os :: "'k os" and mem :: "'k \<Rightarrow> int \<Rightarrow> byte" and pos :: "'k \<Rightarrow> int \<Rightarrow> int" and size :: int
  assumes size_32: "size < 2 ^ 32"
    and lseek_mem: "os_lseek os k fd off = (p, k') \<Longrightarrow> mem k' = mem k"
    and lseek_pos: "os_lseek os k fd off = (off, k') \<Longrightarrow> 0 \<le> off \<Longrightarrow> pos k' fd = off"
    and read_mem: "os_read os k fd n = (r, bs, k') \<Longrightarrow> mem k' = mem k"
    and read_len: "os_read os k fd n = (r, bs, k') \<Longrightarrow> length bs \<le> n"
    and read_data: "os_read os k fd n = (r, bs, k') \<Longrightarrow> 0 \<le> r \<Longrightarrow>
      nat r \<le> n \<and> bs = region (mem k) (pos k fd) (nat r) \<and> pos k' fd = pos k fd + r"
    and read_end: "os_read os k fd n = (0, bs, k') \<Longrightarrow> n = 0 \<or> size < pos k fd + int n"
    and write_frame: "os_write os k fd bs = (r, k') \<Longrightarrow>
      a < pos k fd \<or> pos k fd + (if 0 \<le> r then r else int (length bs)) \<le> a \<Longrightarrow> mem k' a = mem k a"
    and write_data: "os_write os k fd bs = (r, k') \<Longrightarrow> 0 \<le> r \<Longrightarrow>
      nat r \<le> length bs \<and> pos k' fd = pos k fd + r \<and>
      (programmable (region (mem k) (pos k fd) (nat r)) (take (nat r) bs) \<longrightarrow>
        region (mem k') (pos k fd) (nat r) = take (nat r) bs)"
    and write_end: "os_write os k fd bs = (0, k') \<Longrightarrow> bs = [] \<or> size < pos k fd + int (length bs)"
    and erase_frame: "os_memerase os k fd s l = (r, k') \<Longrightarrow>
      a < uint s \<or> uint s + uint l \<le> a \<Longrightarrow> mem k' a = mem k a"
    and erase_data: "os_memerase os k fd s l = (r, k') \<Longrightarrow> 0 \<le> r \<Longrightarrow>
      uint s \<le> a \<Longrightarrow> a < uint s + uint l \<Longrightarrow> mem k' a = 0xFF"
    and malloc_mem: "os_malloc os k n = (q, k') \<Longrightarrow> mem k' = mem k"
    and malloc_len: "os_malloc os k n = (Some b, k') \<Longrightarrow> length b = n"
    and fopen_mem: "os_fopen os k name mode = (file, k') \<Longrightarrow> mem k' = mem k"
    and fgets_mem: "os_fgets os k n h = (line, k') \<Longrightarrow> mem k' = mem k"
    and fclose_mem: "os_fclose os k h = (r, k') \<Longrightarrow> mem k' = mem k"
begin

section \<open>The loops\<close>

definition read_to :: "int \<Rightarrow> nat \<Rightarrow> u32 \<Rightarrow> byte list \<Rightarrow> 'k \<Rightarrow> int \<times> byte list \<times> 'k \<Rightarrow> bool" where
  "read_to fd ptr cnt buf k x \<longleftrightarrow> (ptr = unat cnt \<and> ptr \<le> length buf \<and> length buf < 2 ^ 32 \<longrightarrow>
     (case x of (r, buf', k') \<Rightarrow> mem k' = mem k \<and> length buf' = length buf \<and> r \<le> 0 \<and>
       (r = 0 \<longrightarrow> buf' = take ptr buf @ region (mem k) (pos k fd) (length buf - ptr))))"

lemma read_loop_to: "read_loop os fd ptr cnt buf k = Some x \<Longrightarrow> read_to fd ptr cnt buf k x"
proof -
  assume run: "read_loop os fd ptr cnt buf k = Some x"
  have "os = os \<longrightarrow> read_to fd ptr cnt buf k x"
  proof (rule read_loop.raw_induct [where P = "\<lambda>os' fd ptr cnt buf k x. os' = os \<longrightarrow> read_to fd ptr cnt buf k x", OF _ run],
      intro impI, goal_cases)
    case (1 loop os' fd ptr cnt buf k x)
    note IH = 1(1) and run = 1(2) [unfolded 1(3)]
    obtain rtn bs k1 where rd: "os_read os k fd (length buf - unat cnt) = (rtn, bs, k1)" by (metis prod_cases3)
    show ?case unfolding read_to_def
    proof (intro impI, elim conjE)
      assume p: "ptr = unat cnt" "ptr \<le> length buf" "length buf < 2 ^ 32"
      show "case x of (r, buf', k') \<Rightarrow> mem k' = mem k \<and> length buf' = length buf \<and> r \<le> 0 \<and>
          (r = 0 \<longrightarrow> buf' = take ptr buf @ region (mem k) (pos k fd) (length buf - ptr))"
      proof (cases "unat cnt < length buf")
        case False
        then show ?thesis using run p by auto
      next
        case True
        have fit: "ptr + length bs \<le> length buf" using read_len [OF rd] p by simp
        show ?thesis
        proof (cases "rtn < 0")
          case True
          have "x = (rtn, overlay buf ptr bs, k1)"
            using run fit by (simp add: rd True \<open>unat cnt < length buf\<close>)
          then show ?thesis using fit True read_mem [OF rd] by simp
        next
          case False
          then have r: "nat rtn \<le> length buf - ptr" "bs = region (mem k) (pos k fd) (nat rtn)" "pos k1 fd = pos k fd + rtn"
            using read_data [OF rd] p by simp_all
          have c: "unat (cnt + word_of_int rtn) = ptr + nat rtn"
            unfolding p(1) by (rule count_up) (use False r(1) p in simp_all)
          let ?b = "overlay buf ptr bs"
          have "loop os fd (ptr + nat rtn) (cnt + word_of_int rtn) ?b k1 = Some x"
            using run fit False by (simp add: rd True)
          then have "read_to fd (ptr + nat rtn) (cnt + word_of_int rtn) ?b k1 x" using IH by blast
          moreover have "length ?b = length buf" using fit by simp
          ultimately have x: "case x of (r, buf', k') \<Rightarrow> mem k' = mem k1 \<and> length buf' = length buf \<and> r \<le> 0 \<and>
              (r = 0 \<longrightarrow> buf' = take (ptr + nat rtn) ?b @ region (mem k1) (pos k1 fd) (length buf - (ptr + nat rtn)))"
            using c r(1) p by (simp add: read_to_def)
          have t: "take (ptr + nat rtn) ?b = take ptr buf @ region (mem k) (pos k fd) (nat rtn)"
            using r p by (simp add: overlay_def)
          have s: "length buf - ptr = nat rtn + (length buf - (ptr + nat rtn))" using r(1) by simp
          have g: "region (mem k) (pos k fd) (length buf - ptr) =
              region (mem k) (pos k fd) (nat rtn) @ region (mem k) (pos k1 fd) (length buf - (ptr + nat rtn))"
            using r(3) False by (subst s) (simp add: region_append)
          show ?thesis using x t g read_mem [OF rd] by (auto split: prod.splits)
        qed
      qed
    qed
  qed
  then show ?thesis by simp
qed

definition wrote_to :: "int \<Rightarrow> u32 \<Rightarrow> byte list \<Rightarrow> 'k \<Rightarrow> int \<times> 'k \<Rightarrow> bool" where
  "wrote_to fd cnt bs k x \<longleftrightarrow> (unat cnt \<le> length bs \<and> length bs < 2 ^ 32 \<longrightarrow>
     (case x of (r, k') \<Rightarrow>
       (\<forall>a. a < pos k fd \<or> pos k fd + int (length bs - unat cnt) \<le> a \<longrightarrow> mem k' a = mem k a) \<and>
       (r = 0 \<longrightarrow> programmable (region (mem k) (pos k fd) (length bs - unat cnt)) (drop (unat cnt) bs) \<longrightarrow>
         region (mem k') (pos k fd) (length bs - unat cnt) = drop (unat cnt) bs)))"

lemma programmable_append:
  "length a = length c \<Longrightarrow> programmable (a @ b) (c @ d) \<longleftrightarrow> programmable a c \<and> programmable b d"
  by (simp add: programmable_def list_all2_append)

lemma write_loop_to: "write_loop os fd cnt bs k = Some x \<Longrightarrow> wrote_to fd cnt bs k x"
proof -
  assume run: "write_loop os fd cnt bs k = Some x"
  have "os = os \<longrightarrow> wrote_to fd cnt bs k x"
  proof (rule write_loop.raw_induct [where P = "\<lambda>os' fd cnt bs k x. os' = os \<longrightarrow> wrote_to fd cnt bs k x", OF _ run],
      intro impI, goal_cases)
    case (1 loop os' fd cnt bs k x)
    note IH = 1(1) and run = 1(2) [unfolded 1(3)]
    obtain rtn k1 where wr: "os_write os k fd (drop (unat cnt) bs) = (rtn, k1)" by fastforce
    show ?case
    proof (cases "unat cnt < length bs")
      case False
      then show ?thesis using run by (auto simp: wrote_to_def)
    next
      case True
      show ?thesis
      proof (cases "rtn < 0")
        case neg: True
        have "x = (rtn, k1)" using run by (simp add: wr neg True)
        moreover have "mem k1 a = mem k a" if "a < pos k fd \<or> pos k fd + int (length bs - unat cnt) \<le> a" for a
          by (rule write_frame [OF wr]) (use that neg in auto)
        ultimately show ?thesis using neg by (simp add: wrote_to_def)
      next
        case False
        show ?thesis unfolding wrote_to_def
        proof (intro impI, elim conjE)
          assume l: "unat cnt \<le> length bs" "length bs < 2 ^ 32"
          let ?n = "nat rtn" and ?p = "pos k fd"
          have r: "?n \<le> length bs - unat cnt" "pos k1 fd = ?p + rtn"
            "programmable (region (mem k) ?p ?n) (take ?n (drop (unat cnt) bs)) \<longrightarrow> region (mem k1) ?p ?n = take ?n (drop (unat cnt) bs)"
            using write_data [OF wr] False by simp_all
          have fr: "mem k1 a = mem k a" if "a < ?p \<or> ?p + rtn \<le> a" for a
            by (rule write_frame [OF wr]) (use that False in auto)
          have c: "unat (cnt + word_of_int rtn) = unat cnt + ?n"
            by (rule count_up) (use False r(1) l in simp_all)
          define m where "m = length bs - (unat cnt + ?n)"
          have m: "length bs - unat cnt = ?n + m" "length bs - unat (cnt + word_of_int rtn) = m" using r(1) c by (simp_all add: m_def)
          have d: "drop (unat cnt) bs = take ?n (drop (unat cnt) bs) @ drop (unat (cnt + word_of_int rtn)) bs"
            using c by (metis append_take_drop_id drop_drop add.commute)
          have "loop os fd (cnt + word_of_int rtn) bs k1 = Some x" using run False by (simp add: wr True)
          then have "wrote_to fd (cnt + word_of_int rtn) bs k1 x" using IH by blast
          moreover have "unat (cnt + word_of_int rtn) \<le> length bs" using c r(1) l by simp
          ultimately have x: "case x of (r, k') \<Rightarrow>
              (\<forall>a. a < ?p + rtn \<or> ?p + rtn + int m \<le> a \<longrightarrow> mem k' a = mem k1 a) \<and>
              (r = 0 \<longrightarrow> programmable (region (mem k1) (?p + rtn) m) (drop (unat (cnt + word_of_int rtn)) bs) \<longrightarrow>
                region (mem k') (?p + rtn) m = drop (unat (cnt + word_of_int rtn)) bs)"
            using l m(2) r(2) by (simp add: wrote_to_def)
          have rg: "region (mem k) ?p (?n + m) = region (mem k) ?p ?n @ region (mem k) (?p + rtn) m" for k
            using False by (simp add: region_append)
          have later: "region (mem k1) (?p + rtn) m = region (mem k) (?p + rtn) m"
            by (rule region_cong) (use fr in auto)
          show "case x of (r, k') \<Rightarrow>
              (\<forall>a. a < ?p \<or> ?p + int (length bs - unat cnt) \<le> a \<longrightarrow> mem k' a = mem k a) \<and>
              (r = 0 \<longrightarrow> programmable (region (mem k) ?p (length bs - unat cnt)) (drop (unat cnt) bs) \<longrightarrow>
                region (mem k') ?p (length bs - unat cnt) = drop (unat cnt) bs)"
          proof (cases x)
            case (Pair r k')
            have f: "mem k' a = mem k a" if "a < ?p \<or> ?p + int (?n + m) \<le> a" for a
              using x fr [of a] that False unfolding Pair by auto
            have "region (mem k') ?p (?n + m) = drop (unat cnt) bs"
              if ok: "r = 0" "programmable (region (mem k) ?p (?n + m)) (drop (unat cnt) bs)"
            proof -
              have "programmable (region (mem k) ?p ?n) (take ?n (drop (unat cnt) bs)) \<and>
                  programmable (region (mem k) (?p + rtn) m) (drop (unat (cnt + word_of_int rtn)) bs)"
                using ok(2) [unfolded rg] r(1) programmable_append by (metis d length_drop length_region length_take min_absorb2)
              then have "region (mem k1) ?p ?n = take ?n (drop (unat cnt) bs)"
                "region (mem k') (?p + rtn) m = drop (unat (cnt + word_of_int rtn)) bs"
                using r(3) x ok(1) later unfolding Pair by auto
              moreover have "region (mem k') ?p ?n = region (mem k1) ?p ?n"
                by (rule region_cong) (use x False in \<open>auto simp: Pair\<close>)
              ultimately show ?thesis unfolding rg by (subst d) simp
            qed
            then show ?thesis using f unfolding Pair m(1) by simp
          qed
        qed
      qed
    qed
  qed
  then show ?thesis by simp
qed

section \<open>A read across the end\<close>

text \<open>
  On a device that does not fail and gives no more than it has left, a read that goes behind the end cannot
  finish: when the end is reached there are bytes missing, and the reads that give nothing go on.
\<close>

lemma read_loop_hangs:
  assumes good: "\<And>k n r bs k'. os_read os k fd n = (r, bs, k') \<Longrightarrow> 0 \<le> r \<and> (r = 0 \<or> pos k fd + r \<le> size)"
    and run: "read_loop os fd ptr cnt buf k = Some x"
    and behind: "unat cnt = ptr" "ptr < length buf" "length buf < 2 ^ 32" "size < pos k fd + int (length buf - ptr)"
  shows False
proof -
  have "os = os \<and> fd = fd \<and> unat cnt = ptr \<and> ptr < length buf \<and> length buf < 2 ^ 32 \<and>
      size < pos k fd + int (length buf - ptr) \<longrightarrow> False"
  proof (rule read_loop.raw_induct [where P = "\<lambda>os' fd' ptr cnt buf k x. os' = os \<and> fd' = fd \<and> unat cnt = ptr \<and>
      ptr < length buf \<and> length buf < 2 ^ 32 \<and> size < pos k fd + int (length buf - ptr) \<longrightarrow> False", OF _ run],
      intro impI, elim conjE, goal_cases)
    case (1 loop os' fd' ptr cnt buf k x)
    note IH = 1(1) and run = 1(2) [unfolded 1(3,4)] and at = 1(5-8)
    obtain r bs k1 where rd: "os_read os k fd (length buf - unat cnt) = (r, bs, k1)" by (metis prod_cases3)
    have r: "0 \<le> r" "r = 0 \<or> pos k fd + r \<le> size" using good [OF rd] by simp_all
    have d: "nat r \<le> length buf - ptr" "length bs = nat r" "pos k1 fd = pos k fd + r"
      using read_data [OF rd r(1)] at(1) by simp_all
    have lt: "nat r < length buf - ptr" using r d(1) at(2,4) by auto
    have c: "unat (cnt + word_of_int r) = ptr + nat r" unfolding at(1) [symmetric]
      by (rule count_up) (use r(1) d(1) at in linarith)+
    have "loop os fd (ptr + nat r) (cnt + word_of_int r) (overlay buf ptr bs) k1 = Some x"
      using run at(1,2) rd r(1) d(1,2) by (simp split: if_splits)
    moreover have "length (overlay buf ptr bs) = length buf" using d(1,2) at(2) by simp
    ultimately show ?case using IH c lt d(3) at(3,4) r(1) by fastforce
  qed
  then show False using behind by simp
qed

section \<open>Every access inside the device returns\<close>

lemma read_loop_returns:
  "unat cnt = ptr \<Longrightarrow> ptr \<le> length buf \<Longrightarrow> length buf < 2 ^ 32 \<Longrightarrow> pos k fd + int (length buf - ptr) \<le> size \<Longrightarrow>
   \<exists>x. read_loop os fd ptr cnt buf k = Some x"
proof (induction "length buf - ptr" arbitrary: ptr cnt buf k rule: less_induct)
  case less
  obtain rtn bs k1 where rd: "os_read os k fd (length buf - unat cnt) = (rtn, bs, k1)" by (metis prod_cases3)
  show ?case
  proof (cases "unat cnt < length buf \<and> 0 \<le> rtn")
    case False
    then show ?thesis using rd read_len [OF rd] less.prems by (subst read_loop.simps) auto
  next
    case True
    have r: "nat rtn \<le> length buf - ptr" "bs = region (mem k) (pos k fd) (nat rtn)" "pos k1 fd = pos k fd + rtn"
      using read_data [OF rd] True less.prems(1) by simp_all
    have "rtn \<noteq> 0"
    proof
      assume "rtn = 0"
      from read_end [OF rd [unfolded this]] show False using True less.prems by auto
    qed
    then have p: "0 < nat rtn" using True by simp
    have c: "unat (cnt + word_of_int rtn) = ptr + nat rtn"
      unfolding less.prems(1) [symmetric] by (rule count_up) (use True r(1) less.prems in linarith)+
    let ?b = "overlay buf ptr bs"
    have l: "ptr + length bs \<le> length buf" "length ?b = length buf" using r less.prems(2) by simp_all
    have "\<exists>x. read_loop os fd (ptr + nat rtn) (cnt + word_of_int rtn) ?b k1 = Some x"
    proof (rule less.hyps)
      show "length ?b - (ptr + nat rtn) < length buf - ptr" using l p r(1) True less.prems(1) by simp
    qed (use c l r True less.prems in auto)
    then show ?thesis using rd True l by (subst read_loop.simps) simp
  qed
qed

lemma write_loop_returns:
  "unat cnt \<le> length bs \<Longrightarrow> length bs < 2 ^ 32 \<Longrightarrow> pos k fd + int (length bs - unat cnt) \<le> size \<Longrightarrow>
   \<exists>x. write_loop os fd cnt bs k = Some x"
proof (induction "length bs - unat cnt" arbitrary: cnt k rule: less_induct)
  case less
  obtain rtn k1 where wr: "os_write os k fd (drop (unat cnt) bs) = (rtn, k1)" by fastforce
  show ?case
  proof (cases "unat cnt < length bs \<and> 0 \<le> rtn")
    case False
    then show ?thesis using wr by (subst write_loop.simps) auto
  next
    case True
    have r: "nat rtn \<le> length bs - unat cnt" "pos k1 fd = pos k fd + rtn" using write_data [OF wr] True by simp_all
    have "rtn \<noteq> 0"
    proof
      assume "rtn = 0"
      from write_end [OF wr [unfolded this]] show False using True less.prems by auto
    qed
    then have p: "0 < nat rtn" using True by simp
    have c: "unat (cnt + word_of_int rtn) = unat cnt + nat rtn"
      by (rule count_up) (use True r(1) less.prems in linarith)+
    have "\<exists>x. write_loop os fd (cnt + word_of_int rtn) bs k1 = Some x"
    proof (rule less.hyps)
      show "length bs - unat (cnt + word_of_int rtn) < length bs - unat cnt" using c p r(1) True by simp
    qed (use c r True less.prems in auto)
    then show ?thesis using wr True by (subst write_loop.simps) simp
  qed
qed

end

section \<open>The flash of the library\<close>

text \<open>
  The table with the three functions of the flash left undefined outside the device, where the
  platform passes the request on to the driver. What is proved of the library with it holds as long as the
  library stays inside the device.
\<close>

definition on_device :: "int \<Rightarrow> 'w librsu_ll_intf \<Rightarrow> 'w librsu_ll_intf" where
  "on_device n hal = hal\<lparr>
     qspi_read := (\<lambda>w off buf. if 0 \<le> off \<and> off + int (length buf) \<le> n then qspi_read hal w off buf else None),
     qspi_write := (\<lambda>w off bs. if 0 \<le> off \<and> off + int (length bs) \<le> n then qspi_write hal w off bs else None),
     qspi_erase := (\<lambda>w off len. if 0 \<le> off \<and> 0 \<le> len \<and> off + len \<le> n then qspi_erase hal w off len else None)\<rparr>"

text \<open>A device that is not open, or whose erase size is not known, has no size.\<close>

definition linux_dsize :: "int \<Rightarrow> 'k linux \<Rightarrow> int" where
  "linux_dsize n w = (if erasesize (dev_info w) = 0 then - 1 else n)"

locale linux_platform = mtd_device +
  fixes crc :: "u32 \<Rightarrow> byte list \<Rightarrow> u32" and j :: indeterminate
begin

lemma fits_32: "0 \<le> off \<Longrightarrow> off + int n \<le> size \<Longrightarrow> n < 2 ^ 32"
  using size_32 by simp

lemma get_devattr_mem:
  assumes "get_devattr os dev attr v k = Some (r, v', k')" shows "mem k' = mem k"
proof -
  obtain q k1 where m: "os_malloc os k 256 = (q, k1)" by fastforce
  show ?thesis
  proof (cases q)
    case None
    then show ?thesis using assms malloc_mem [OF m] by (simp add: get_devattr_def m)
  next
    case (Some b)
    then obtain path where p: "attr_path dev dev attr = Some path" using assms by (auto simp: get_devattr_def m bind_splits)
    obtain f k2 where o: "os_fopen os k1 path ''r'' = (f, k2)" by fastforce
    show ?thesis
    proof (cases f)
      case None
      then show ?thesis using assms Some malloc_mem [OF m] fopen_mem [OF o] by (simp add: get_devattr_def m p o)
    next
      case (Some h)
      obtain l k3 where g: "os_fgets os k2 256 h = (l, k3)" by fastforce
      obtain c k4 where cl: "os_fclose os k3 h = (c, k4)" by fastforce
      have "k' = k4" using assms \<open>q = Some b\<close> Some
        by (cases l) (auto simp: get_devattr_def m p o g cl bind_splits)
      then show ?thesis using malloc_mem [OF m] fopen_mem [OF o] fgets_mem [OF g] fclose_mem [OF cl] by simp
    qed
  qed
qed

lemma get_devattrs_mem: "get_devattrs os dev as k = Some (r, vs, k') \<Longrightarrow> mem k' = mem k"
proof (induction as arbitrary: r vs k k')
  case (Cons a as)
  obtain attr v where a: "a = (attr, v)" by fastforce
  from Cons.prems obtain r1 v1 k1 where g: "get_devattr os dev (chars attr) v k = Some (r1, v1, k1)"
    and c: "k' = k1 \<or> (\<exists>vs1. get_devattrs os dev as k1 = Some (r, vs1, k'))"
    by (auto simp: a bind_splits split: if_splits)
  show ?case using c Cons.IH [of k1] get_devattr_mem [OF g] by auto
qed simp

lemma status_kernel:
  "answered d w (plat_mbox_get_rsu_status os d w) = (r, info, w') \<Longrightarrow> mem (kernel w') = mem (kernel w) \<and> dev_info w' = dev_info w"
  by (auto simp: answered_def plat_mbox_get_rsu_status_def bind_splits simp del: get_devattrs.simps
      split: option.splits dest!: get_devattrs_mem)

lemma read_device:
  assumes "plat_qspi_read os w off buf = Some (r, buf', w')" "0 \<le> off" "off + int (length buf) \<le> size"
  shows "mem (kernel w') = mem (kernel w) \<and> length buf' = length buf \<and> r \<le> 0 \<and> dev_info w' = dev_info w \<and>
    (r = 0 \<longrightarrow> buf' = region (mem (kernel w)) off (length buf))"
proof -
  obtain p k where s: "os_lseek os (kernel w) (dev_file w) off = (p, k)" by fastforce
  show ?thesis
  proof (cases "dev_file w < 0 \<or> p \<noteq> off")
    case True
    then show ?thesis using assms(1) s lseek_mem [OF s] by (auto simp: plat_qspi_read_def split: if_splits)
  next
    case False
    then obtain k' where l: "read_loop os (dev_file w) 0 0 buf k = Some (r, buf', k')" "w' = w\<lparr>kernel := k'\<rparr>"
      using assms(1) s by (auto simp: plat_qspi_read_def bind_splits)
    have "length buf < 2 ^ 32" using fits_32 assms(2,3) by blast
    then show ?thesis using read_loop_to [OF l(1)] l(2) lseek_mem [OF s] lseek_pos [of "kernel w" "dev_file w" off k] s False assms(2)
      by (simp add: read_to_def)
  qed
qed

lemma write_device:
  assumes "plat_qspi_write os w off bs = Some (r, w')" "0 \<le> off" "off + int (length bs) \<le> size"
  shows "(\<forall>a. a < off \<or> off + int (length bs) \<le> a \<longrightarrow> mem (kernel w') a = mem (kernel w) a) \<and> dev_info w' = dev_info w \<and>
    (r = 0 \<longrightarrow> programmable (region (mem (kernel w)) off (length bs)) bs \<longrightarrow> region (mem (kernel w')) off (length bs) = bs)"
proof -
  obtain p k where s: "os_lseek os (kernel w) (dev_file w) off = (p, k)" by fastforce
  show ?thesis
  proof (cases "dev_file w < 0 \<or> p \<noteq> off")
    case True
    then show ?thesis using assms(1) s lseek_mem [OF s] by (auto simp: plat_qspi_write_def split: if_splits)
  next
    case False
    then obtain k' where l: "write_loop os (dev_file w) 0 bs k = Some (r, k')" "w' = w\<lparr>kernel := k'\<rparr>"
      using assms(1) s by (auto simp: plat_qspi_write_def bind_splits)
    have "length bs < 2 ^ 32" using fits_32 assms(2,3) by blast
    then show ?thesis using write_loop_to [OF l(1)] l(2) lseek_mem [OF s] lseek_pos [of "kernel w" "dev_file w" off k] s False assms(2)
      by (simp add: wrote_to_def)
  qed
qed

lemma erase_device:
  assumes "plat_qspi_erase os w off len = Some (r, w')" "0 \<le> off" "0 \<le> len" "off + len \<le> size"
  shows "(\<forall>a. a < off \<or> off + len \<le> a \<longrightarrow> mem (kernel w') a = mem (kernel w) a) \<and> dev_info w' = dev_info w \<and> r \<le> 0 \<and>
    (r = 0 \<longrightarrow> (\<forall>a. off \<le> a \<and> a < off + len \<longrightarrow> mem (kernel w') a = 0xFF))"
proof -
  obtain rtn k where e: "os_memerase os (kernel w) (dev_file w) (word_of_int off) (word_of_int len) = (rtn, k)" by fastforce
  have u: "uint (word_of_int off :: u32) = off" "uint (word_of_int len :: u32) = len"
    using assms(2-4) size_32 by (simp_all add: uint_word_of_int take_bit_int_eq_self)
  show ?thesis using assms(1) e erase_frame [OF e] erase_data [OF e] unfolding u
    by (auto simp: plat_qspi_erase_def split: if_splits)
qed

lemma device_returns:
  assumes "0 \<le> off"
  shows "off + int (length buf) \<le> size \<Longrightarrow> \<exists>r buf' w'. plat_qspi_read os w off buf = Some (r, buf', w')"
    "off + int (length buf) \<le> size \<Longrightarrow> \<exists>r w'. plat_qspi_write os w off buf = Some (r, w')"
    "erasesize (dev_info w) \<noteq> 0 \<Longrightarrow> \<exists>r w'. plat_qspi_erase os w off len = Some (r, w')"
proof -
  obtain p k where s: "os_lseek os (kernel w) (dev_file w) off = (p, k)" by fastforce
  have *: "\<exists>x. read_loop os (dev_file w) 0 0 buf k = Some x" "\<exists>x. write_loop os (dev_file w) 0 buf k = Some x"
    if "off + int (length buf) \<le> size" "p = off"
  proof -
    have "pos k (dev_file w) = off" using lseek_pos [of "kernel w" "dev_file w" off k] s that assms by simp
    moreover have "length buf < 2 ^ 32" using fits_32 assms that(1) by blast
    ultimately show "\<exists>x. read_loop os (dev_file w) 0 0 buf k = Some x" "\<exists>x. write_loop os (dev_file w) 0 buf k = Some x"
      using that read_loop_returns [of 0 0 buf k "dev_file w"] write_loop_returns [of 0 buf k "dev_file w"] by simp_all
  qed
  show "off + int (length buf) \<le> size \<Longrightarrow> \<exists>r buf' w'. plat_qspi_read os w off buf = Some (r, buf', w')"
    using *(1) s by (fastforce simp: plat_qspi_read_def)
  show "off + int (length buf) \<le> size \<Longrightarrow> \<exists>r w'. plat_qspi_write os w off buf = Some (r, w')"
    using *(2) s by (fastforce simp: plat_qspi_write_def)
  show "erasesize (dev_info w) \<noteq> 0 \<Longrightarrow> \<exists>r w'. plat_qspi_erase os w off len = Some (r, w')"
    by (auto simp: plat_qspi_erase_def split: prod.splits)
qed

lemma hal_flash:
  "qspi_read (on_device size (linux_hal os crc j)) w off buf = Some x \<longleftrightarrow>
    0 \<le> off \<and> off + int (length buf) \<le> size \<and> plat_qspi_read os w off buf = Some x"
  "qspi_write (on_device size (linux_hal os crc j)) w off bs = Some y \<longleftrightarrow>
    0 \<le> off \<and> off + int (length bs) \<le> size \<and> plat_qspi_write os w off bs = Some y"
  "qspi_erase (on_device size (linux_hal os crc j)) w off len = Some y \<longleftrightarrow>
    0 \<le> off \<and> 0 \<le> len \<and> off + len \<le> size \<and> plat_qspi_erase os w off len = Some y"
  by (auto simp: on_device_def linux_hal_def)

lemma hal_malloc:
  "rsu_malloc (on_device size (linux_hal os crc j)) w n = (b, w') \<Longrightarrow>
    mem (kernel w') = mem (kernel w) \<and> dev_info w' = dev_info w \<and> (\<forall>c. b = Some c \<longrightarrow> length c = n)"
  by (auto simp: on_device_def linux_hal_def on_kernel_def malloc_len dest: malloc_mem split: prod.splits)

lemma hal_status:
  "mbox_get_rsu_status (on_device size (linux_hal os crc j)) w = (r, info, w') \<Longrightarrow>
    mem (kernel w') = mem (kernel w) \<and> dev_info w' = dev_info w"
  using status_kernel by (simp add: on_device_def linux_hal_def)

end

sublocale linux_platform \<subseteq> linux: sized_flash "on_device size (linux_hal os crc j)" "\<lambda>w. mem (kernel w)" "linux_dsize size"
proof (unfold_locales, unfold hal_flash linux_dsize_def, goal_cases)
  case (1 w off buf r buf' w')
  then show ?case using read_device by blast
next
  case (2 w off buf r buf' w')
  then show ?case using read_device by blast
next
  case (3 w off buf buf' w')
  then show ?case using read_device by blast
next
  case (4 w off buf r buf' w')
  then show ?case using read_device by blast
next
  case (5 w off bs r w' a)
  then show ?case using write_device by blast
next
  case (6 w off bs w')
  then show ?case using write_device by blast
next
  case (7 w off len r w' a)
  then show ?case using erase_device by blast
next
  case (8 w off len w' a)
  then show ?case using erase_device by blast
next
  case (9 w off len r w')
  then show ?case using erase_device by blast
next
  case (10 w n p w')
  then show ?case using hal_malloc by blast
next
  case (11 w n b w')
  then show ?case using hal_malloc by blast
next
  case (12 w r info w')
  then show ?case using hal_status by blast
next
  case (13 off buf w)
  then show ?case using device_returns(1) by (auto split: if_splits)
next
  case (14 off bs w)
  then show ?case using device_returns(2) by (auto split: if_splits)
next
  case (15 off len w)
  then show ?case using device_returns(3) by (auto split: if_splits)
next
  case (16 w off buf r buf' w')
  then show ?case using read_device [of w off buf r buf' w'] by simp
next
  case (17 w off bs r w')
  then show ?case using write_device [of w off bs r w'] by simp
next
  case (18 w off len r w')
  then show ?case using erase_device [of w off len r w'] by simp
next
  case (19 w n p w')
  then show ?case using hal_malloc [of w n p w'] by simp
next
  case (20 w r info w')
  then show ?case using hal_status [of w r info w'] by simp
qed

context linux_platform
begin

lemma contract: "sized_flash (on_device size (linux_hal os crc j)) (\<lambda>w. mem (kernel w)) (linux_dsize size)"
  by (rule linux.sized_flash_axioms)

end

end
