(* ===== verification/Rsu_Linux_Lib.thy ===== *)
theory Rsu_Linux_Lib
  imports Rsu_Linux_Ok Rsu_Shape_Api
begin

text \<open>
  The library on the Linux platform: the platform's functions put together as \<^verbatim>\<open>librsu_init\<close> sets them
  up, and what the library keeps of the platform's state in every state it can reach.
\<close>

section \<open>The platform\<close>

definition plat_filesys_init_linux :: "'k linux \<Rightarrow> int \<times> 'k linux" where
  "plat_filesys_init_linux w = (0, w)"

definition plat_filesys_terminate :: "'k linux \<Rightarrow> int \<times> 'k linux" where
  "plat_filesys_terminate w = (0, w)"

definition linux_services :: "'k os \<Rightarrow> (u32 \<Rightarrow> byte list \<Rightarrow> u32) \<Rightarrow> indeterminate \<Rightarrow> 'k linux platform" where
  "linux_services os crc j =
     \<lparr>tables = linux_hal os crc j,
      RSU_logging_init = (\<lambda>w cfg. do {
        (ret, s, k) \<leftarrow> RSU_logging_init_linux os (Some cfg) (log_state w) (kernel w);
        Some (ret, w\<lparr>log_state := s, kernel := k\<rparr>)
      }),
      RSU_logging_exit = (\<lambda>w. do {
        (s, k) \<leftarrow> RSU_logging_exit_linux os (log_state w) (kernel w);
        Some (w\<lparr>log_state := s, kernel := k\<rparr>)
      }),
      plat_filesys_init = plat_filesys_init_linux,
      plat_mbox_init = (\<lambda>w cfg. plat_mbox_init_linux os (Some cfg) w),
      plat_qspi_init = (\<lambda>w cfg. plat_qspi_init_linux os (Some cfg) w),
      plat_rsu_misc_init = (\<lambda>w cfg. plat_rsu_misc_init_linux os (Some cfg) w),
      file_terminate = (\<lambda>w. snd (plat_filesys_terminate w)),
      mbox_terminate = (\<lambda>w. snd (plat_mbox_terminate w)),
      qspi_terminate = (\<lambda>w. snd (plat_qspi_terminate os w)),
      misc_terminate = (\<lambda>w. snd (misc_terminate_linux w)),
      rsu_mutex_init = (\<lambda>w. on_kernel w (rsu_mutex_init_linux os True (kernel w)))\<rparr>"

section \<open>The words of a line\<close>

text \<open>The words of a line, each with what separates it from the next, are no longer than the line.\<close>

lemma split_words_length: "(\<Sum>a \<leftarrow> split_words c n. length a + 1) \<le> length c + 1"
proof (induction c n rule: split_words.induct)
  case (1 c n)
  let ?d = "dropWhile (\<lambda>x. x \<le> 32) c"
  show ?case
  proof (cases "c = [] \<or> n = 0 \<or> ?d = []")
    case True
    then have "split_words c n = []" by (subst split_words.simps) (auto simp del: dropWhile_eq_Nil_conv)
    then show ?thesis by simp
  next
    case False
    then obtain x xs where d: "?d = x # xs" by (cases ?d) auto
    let ?r = "dropWhile (\<lambda>x. x > 32) (x # xs)"
    have IH: "(\<Sum>a \<leftarrow> split_words (drop 1 ?r) (n - 1). length a + 1) \<le> length (drop 1 ?r) + 1"
      using 1 [OF _ d] False by simp
    have t: "length (takeWhile (\<lambda>x. x > 32) (x # xs)) + length ?r = length (x # xs)"
      by (metis length_append takeWhile_dropWhile_id)
    have l: "length (x # xs) \<le> length c" by (metis d length_dropWhile_le)
    have s: "split_words c n = takeWhile (\<lambda>x. x > 32) (x # xs) # split_words (drop 1 ?r) (n - 1)"
      using False d by (subst split_words.simps) simp
    show ?thesis
    proof (cases "?r = []")
      case True
      have "split_words [] (n - 1) = []" by (subst split_words.simps) simp
      then show ?thesis using s t l True by simp
    next
      case False
      then have "length (drop 1 ?r) + 1 = length ?r" by (cases ?r) auto
      then show ?thesis using s IH t l by simp
    qed
  qed
qed

lemma two_words_length:
  assumes "split_line (line @ [0]) n = Some [a, b]" shows "length a + length b + 1 \<le> length line"
proof -
  obtain s where s: "c_str (line @ [0]) = Some s" "split_words s n = [a, b]" using assms by (auto simp: split_line_def bind_splits)
  have "length s \<le> length line" using s(1) length_takeWhile_le [of "\<lambda>c. c \<noteq> 0" line]
    by (auto simp: c_str_def takeWhile_append split: if_splits)
  then show ?thesis using split_words_length [of s n] s(2) by simp
qed

section \<open>Names of devices\<close>

text \<open>What the C library documents of the calls that give memory or fill a buffer.\<close>

locale c_library =
  fixes os :: "'k os"
  assumes malloc_len: "os_malloc os k n = (Some b, k') \<Longrightarrow> length b = n"
    and fgets_len: "os_fgets os k n h = (Some line, k') \<Longrightarrow> length line < n"
    and fread_len: "os_fread os k h n = (bs, k') \<Longrightarrow> length bs \<le> n"

text \<open>
  A line of the configuration has at most 127 characters, and a name follows the 7 of \<^verbatim>\<open>rsu-dev\<close> and a
  blank.
\<close>

abbreviation (input) MAX_NAME :: nat where "MAX_NAME \<equiv> 119"

definition names_fit :: "'k linux \<Rightarrow> bool" where
  "names_fit w \<longleftrightarrow> length (mbox_dev w) \<le> MAX_NAME \<and> length (misc_dev w) \<le> MAX_NAME"

lemma rsu_dev_word: "strncmp a (chars ''rsu-dev'') 128 = 0 \<Longrightarrow> 7 \<le> length a"
proof -
  assume "strncmp a (chars ''rsu-dev'') 128 = 0"
  then have "takeWhile (\<lambda>c. c \<noteq> 0) (take 128 a) = chars ''rsu-dev''" by (simp add: strncmp_eq_0_iff chars_def)
  then have "7 = length (takeWhile (\<lambda>c. c \<noteq> 0) (take 128 a))" by (simp add: chars_def)
  also have "\<dots> \<le> length a" by (metis length_takeWhile_le length_take min.cobounded1 order_trans)
  finally show ?thesis .
qed

lemma default_fits: "length (set_name DEFAULT_RSU_DEV) \<le> MAX_NAME"
  by (simp add: set_name_def DEFAULT_RSU_DEV_def chars_def)

lemma names_kernel [simp]: "names_fit (w\<lparr>kernel := k\<rparr>) = names_fit w" "names_fit (w\<lparr>log_state := s\<rparr>) = names_fit w"
  by (simp_all add: names_fit_def)

context c_library
begin

lemma rsu_dev_lines_fit:
  assumes "rsu_dev_lines os fl name k = Some x" shows "length name \<le> MAX_NAME \<longrightarrow> length (fst x) \<le> MAX_NAME"
proof -
  have "os = os \<longrightarrow> length name \<le> MAX_NAME \<longrightarrow> length (fst x) \<le> MAX_NAME"
  proof (rule rsu_dev_lines.raw_induct [where P = "\<lambda>os' fl name k x. os' = os \<longrightarrow> length name \<le> MAX_NAME \<longrightarrow>
      length (fst x) \<le> MAX_NAME", OF _ assms], intro impI, goal_cases)
    case (1 loop os' fl name k x)
    note IH = 1(1) and run = 1(2) [unfolded 1(3)] and name = 1(4)
    obtain g k1 where g: "os_fgets os k 128 fl = (g, k1)" by fastforce
    show ?case
    proof (cases g)
      case None
      then show ?thesis using run name by (auto simp: g)
    next
      case (Some line)
      then obtain argv where a: "split_line (line @ [0]) 16 = Some argv" using run by (auto simp: g bind_splits)
      show ?thesis
      proof (cases "length argv = 2 \<and> strncmp (argv ! 0) (chars ''rsu-dev'') 128 = 0")
        case True
        then obtain u v where uv: "argv = [u, v]" by (auto simp: numeral_2_eq_2 length_Suc_conv)
        have "length u + length v + 1 \<le> length line" by (rule two_words_length [OF a [unfolded uv]])
        moreover have "length line < 128" using fgets_len [of k 128 fl line k1] g Some by simp
        moreover have "7 \<le> length u" using rsu_dev_word [of u] True uv by simp
        ultimately have "length v \<le> MAX_NAME" by simp
        moreover have "x = (set_name v, k1)" using run Some True by (simp add: g a uv)
        ultimately show ?thesis by (simp add: set_name_def)
      next
        case False
        then have "loop os fl name k1 = Some x" using run Some by (auto simp: g a split: if_splits)
        then show ?thesis using IH name by blast
      qed
    qed
  qed
  then show ?thesis by simp
qed

lemma mbox_init_fits: "plat_mbox_init_linux os cfg w = Some (r, w') \<Longrightarrow> names_fit w \<Longrightarrow> names_fit w'"
  by (auto simp: plat_mbox_init_linux_def names_fit_def bind_splits dest!: rsu_dev_lines_fit split: option.splits prod.splits)

lemma misc_init_fits: "plat_rsu_misc_init_linux os cfg w = Some (r, w') \<Longrightarrow> names_fit w \<Longrightarrow> names_fit w'"
  by (auto simp: plat_rsu_misc_init_linux_def names_fit_def bind_splits dest!: rsu_dev_lines_fit split: option.splits prod.splits)

lemma qspi_init_fits:
  assumes "names_fit w" shows "always (\<lambda>(r, w'). names_fit w') (plat_qspi_init_linux os cfg w)"
  unfolding plat_qspi_init_linux_def Let_def
  by (intro always_option always_case2 always_case3 always_bind always_if always_Some always_any [where x = "root_lines os f n k" for f n k])
    (use assms in \<open>simp_all add: names_fit_def\<close>)

lemma read_loop_length:
  assumes "read_loop os fd ptr cnt buf k = Some x" shows "length (fst (snd x)) = length buf"
proof (rule read_loop.raw_induct [where P = "\<lambda>os fd ptr cnt buf k x. length (fst (snd x)) = length buf", OF _ assms], goal_cases)
  case (1 loop os fd ptr cnt buf k x)
  then show ?case by (auto simp: length_overlay split: if_splits prod.splits)
qed

text \<open>The functions of the table change nothing but the kernel's state.\<close>

lemma flash_linux:
  fixes I :: "'k linux \<Rightarrow> bool"
  assumes k: "\<And>w k. I (w\<lparr>kernel := k\<rparr>) = I w" shows "flash_typed I (linux_hal os crc j)"
proof -
  have r: "I w' \<and> length d = length b" if "plat_qspi_read os w a b = Some (r, d, w')" "I w" for w a b r d w'
    using that k by (auto simp: plat_qspi_read_def bind_splits dest!: read_loop_length split: if_splits prod.splits)
  have w: "I w'" if "plat_qspi_write os w a b = Some (r, w')" "I w" for w a b r w'
    using that k by (auto simp: plat_qspi_write_def bind_splits split: if_splits prod.splits)
  have e: "I w'" if "plat_qspi_erase os w a n = Some (r, w')" "I w" for w a n r w'
    using that k by (auto simp: plat_qspi_erase_def split: if_splits prod.splits)
  show ?thesis unfolding flash_typed_def always_def
    using malloc_len r w e k by (auto simp: linux_hal_def on_kernel_def split: prod.split)
qed

lemma answered_keeps:
  fixes I :: "'k linux \<Rightarrow> bool"
  assumes "\<And>r d w'. x = Some (r, d, w') \<Longrightarrow> I w'" "I w" shows "case answered d w x of (r, d, w') \<Rightarrow> I w'"
  using assms by (auto simp: answered_def split: option.split prod.split)

lemma sent_keeps: "(\<And>r w'. x = Some (r, w') \<Longrightarrow> I w') \<Longrightarrow> I w \<Longrightarrow> I (snd (sent w x))"
  by (auto simp: sent_def split: option.split)

lemma queries_kernel:
  "plat_mbox_get_rsu_status os d w = Some (r, x, w') \<Longrightarrow> \<exists>k. w' = w\<lparr>kernel := k\<rparr>"
  "plat_mbox_get_spt_addresses os a w = Some (r, y, w') \<Longrightarrow> \<exists>k. w' = w\<lparr>kernel := k\<rparr>"
  "rsu_get_dcmf_status_linux os u s w = Some (r, s', w') \<Longrightarrow> \<exists>k. w' = w\<lparr>kernel := k\<rparr>"
  "rsu_get_dcmf_version_linux os u v w = Some (r, v', w') \<Longrightarrow> \<exists>k. w' = w\<lparr>kernel := k\<rparr>"
  "rsu_get_max_retry_count_linux os u b w = Some (r, b', w') \<Longrightarrow> \<exists>k. w' = w\<lparr>kernel := k\<rparr>"
  "plat_mbox_send_rsu_update os addr w = Some (r, w') \<Longrightarrow> \<exists>k. w' = w\<lparr>kernel := k\<rparr>"
  "plat_mbox_rsu_notify os n w = Some (r, w') \<Longrightarrow> \<exists>k. w' = w\<lparr>kernel := k\<rparr>"
  unfolding plat_mbox_get_rsu_status_def plat_mbox_get_spt_addresses_def plat_mbox_send_rsu_update_def plat_mbox_rsu_notify_def
    rsu_get_dcmf_status_linux_def rsu_get_dcmf_version_linux_def rsu_get_max_retry_count_linux_def bind_splits Let_def
  by (auto simp: bind_splits simp del: get_devattrs.simps dcmf_attrs.simps split: if_splits)

lemma firmware_linux:
  fixes I :: "'k linux \<Rightarrow> bool"
  assumes k: "\<And>w k. I (w\<lparr>kernel := k\<rparr>) = I w" shows "firmware_typed I (linux_hal os crc j)"
proof -
  have I: "I w'" if "\<exists>k. w' = w\<lparr>kernel := k\<rparr>" "I w" for w w' using that k by auto
  show ?thesis unfolding firmware_typed_def keeps_def linux_hal_def librsu_ll_intf.select_convs
    by (intro conjI allI impI answered_keeps [where I = I] sent_keeps [where I = I]; (erule I [OF queries_kernel(1)] I [OF queries_kernel(2)]
        I [OF queries_kernel(3)] I [OF queries_kernel(4)] I [OF queries_kernel(5)] I [OF queries_kernel(6)] I [OF queries_kernel(7)])?; assumption)
qed

lemma file_read_length: "plat_filesys_read os (Some buf) h k = (r, b, k') \<Longrightarrow> \<exists>c. b = Some c \<and> length c = length buf"
  using fread_len [of k] by (cases h) (auto simp: plat_filesys_read_def length_overlay split: if_splits prod.splits)

lemma files_linux:
  fixes I :: "'k linux \<Rightarrow> bool"
  assumes k: "\<And>w k. I (w\<lparr>kernel := k\<rparr>) = I w" shows "files_typed I (linux_hal os crc j)"
  unfolding files_typed_def keeps_def linux_hal_def librsu_ll_intf.select_convs
  by (auto simp: k on_kernel_def into_buffer_def dest!: file_read_length split: prod.split)

lemma services_typed:
  fixes I :: "'k linux \<Rightarrow> bool"
  assumes "\<And>w k. I (w\<lparr>kernel := k\<rparr>) = I w"
    "\<And>n s k r s' k' w. RSU_logging_init_linux os n s k = Some (r, s', k') \<Longrightarrow> I w \<Longrightarrow> log_state w = s \<Longrightarrow> I (w\<lparr>log_state := s'\<rparr>)"
    "\<And>s k s' k' w. RSU_logging_exit_linux os s k = Some (s', k') \<Longrightarrow> I w \<Longrightarrow> log_state w = s \<Longrightarrow> I (w\<lparr>log_state := s'\<rparr>)"
    "\<And>w w' cfg r. plat_mbox_init_linux os cfg w = Some (r, w') \<Longrightarrow> I w \<Longrightarrow> I w'"
    "\<And>w w' cfg r. plat_qspi_init_linux os cfg w = Some (r, w') \<Longrightarrow> I w \<Longrightarrow> I w'"
    "\<And>w w' cfg r. plat_rsu_misc_init_linux os cfg w = Some (r, w') \<Longrightarrow> I w \<Longrightarrow> I w'"
    "\<And>w. I w \<Longrightarrow> I (w\<lparr>mbox_dev := set_name DEFAULT_RSU_DEV\<rparr>)" "\<And>w. I w \<Longrightarrow> I (w\<lparr>misc_dev := set_name DEFAULT_RSU_DEV\<rparr>)"
    "\<And>w. I w \<Longrightarrow> I (w\<lparr>dev_file := - 1\<rparr>)"
  shows "platform_typed I (linux_services os crc j)"
proof -
  have "w\<lparr>kernel := k, dev_file := n\<rparr> = w\<lparr>dev_file := n, kernel := k\<rparr>" for w :: "'k linux" and k n by (cases w) simp
  then have k: "I (w\<lparr>log_state := s, kernel := k\<rparr>) = I (w\<lparr>log_state := s\<rparr>)" "I (w\<lparr>kernel := k, dev_file := n\<rparr>) = I (w\<lparr>dev_file := n\<rparr>)"
    for w k s n by (simp_all only: assms(1))
  show ?thesis unfolding platform_typed_def hal_typed_def keeps_def always_def
    using flash_linux [OF assms(1)] firmware_linux [OF assms(1)] files_linux [OF assms(1)] assms
    by (auto simp: linux_services_def k bind_splits on_kernel_def plat_filesys_init_linux_def plat_filesys_terminate_def
        plat_mbox_terminate_def plat_qspi_terminate_def misc_terminate_linux_def split: prod.split)
qed

lemma services_keep_names: "platform_typed names_fit (linux_services os crc j)"
proof (rule services_typed, goal_cases)
  case (4 w w' cfg r)
  then show ?case by (rule mbox_init_fits)
next
  case (5 w w' cfg r)
  then show ?case using qspi_init_fits [OF 5(2), of cfg] by (simp add: always_def)
next
  case (6 w w' cfg r)
  then show ?case by (rule misc_init_fits)
qed (use default_fits in \<open>simp_all add: names_fit_def\<close>)

end

section \<open>Requests and queries\<close>

lemma attr_path_fits:
  "length dev \<le> MAX_NAME \<Longrightarrow> length attr \<le> 100 \<Longrightarrow> attr_path dev dev attr = Some (dev @ [47] @ attr)"
  by (auto simp: attr_path_def Let_def)

lemma get_devattr_defined:
  assumes "length dev \<le> MAX_NAME" "length attr \<le> 100" shows "\<exists>y. get_devattr os dev attr v k = Some y"
  by (auto simp: get_devattr_def attr_path_fits [OF assms] c_str_def split: prod.split option.split)

lemma get_devattrs_defined:
  assumes "length dev \<le> MAX_NAME" "\<forall>(a, v) \<in> set as. length a \<le> 100" shows "\<exists>y. get_devattrs os dev as k = Some y"
  using assms(2)
proof (induction as arbitrary: k)
  case (Cons x as)
  obtain a v where x: "x = (a, v)" by fastforce
  then obtain r u k1 where g: "get_devattr os dev (chars a) v k = Some (r, u, k1)"
    using get_devattr_defined [OF assms(1), of "chars a" os v k] Cons.prems by (auto simp: chars_def)
  obtain r2 us k2 where "get_devattrs os dev as k1 = Some (r2, us, k2)" using Cons by fastforce
  then show ?case using g by (simp add: x)
qed simp

lemma dcmf_attrs_defined:
  assumes "length dev \<le> MAX_NAME" "\<forall>(i, a) \<in> set as. length a \<le> 100" shows "\<exists>y. dcmf_attrs os dev as cast v d k = Some y"
  using assms(2)
proof (induction as arbitrary: v d k)
  case (Cons x as)
  obtain i a where x: "x = (i, a)" by fastforce
  then obtain r u k1 where g: "get_devattr os dev (chars a) v k = Some (r, u, k1)"
    using get_devattr_defined [OF assms(1), of "chars a" os v k] Cons.prems by (auto simp: chars_def)
  obtain y where "dcmf_attrs os dev as cast u (d[i := cast u]) k1 = Some y" using Cons by fastforce
  then show ?case using g by (cases y) (simp add: x)
qed simp

lemma queries_defined:
  assumes "names_fit w"
  shows "plat_mbox_get_rsu_status os d w \<noteq> None" "plat_mbox_get_spt_addresses os a w \<noteq> None"
    "rsu_get_dcmf_status_linux os u s w \<noteq> None" "rsu_get_dcmf_version_linux os u vs w \<noteq> None"
    "rsu_get_max_retry_count_linux os u b w \<noteq> None"
proof -
  have n: "length (mbox_dev w) \<le> MAX_NAME" "length (misc_dev w) \<le> MAX_NAME" using assms by (simp_all add: names_fit_def)
  show "plat_mbox_get_rsu_status os d w \<noteq> None"
    using get_devattrs_defined [OF n(1), of "[(''version'', st_version d), (''state'', st_state d), (''current_image'', st_current_image d),
        (''fail_image'', st_fail_image d), (''error_location'', st_error_location d),
        (''error_details'', st_error_details d), (''retry_counter'', st_retry_counter d)]" os "kernel w"]
    by (auto simp: plat_mbox_get_rsu_status_def simp del: get_devattrs.simps)
  show "plat_mbox_get_spt_addresses os a w \<noteq> None"
    using get_devattrs_defined [OF n(1), of "[(''spt0_address'', spt0_address a), (''spt1_address'', spt1_address a)]" os "kernel w"]
    by (auto simp: plat_mbox_get_spt_addresses_def Let_def simp del: get_devattrs.simps)
  show "rsu_get_dcmf_status_linux os u s w \<noteq> None"
    using dcmf_attrs_defined [OF n(2), of "[(0, ''dcmf0_status''), (1, ''dcmf1_status''), (2, ''dcmf2_status''), (3, ''dcmf3_status'')]"
        os ucast u s "kernel w"]
    by (auto simp: rsu_get_dcmf_status_linux_def simp del: dcmf_attrs.simps)
  show "rsu_get_dcmf_version_linux os u vs w \<noteq> None"
    using dcmf_attrs_defined [OF n(2), of "[(0, ''dcmf0''), (1, ''dcmf1''), (2, ''dcmf2''), (3, ''dcmf3'')]"
        os "\<lambda>v. sint (ucast v :: u32)" u vs "kernel w"]
    by (auto simp: rsu_get_dcmf_version_linux_def simp del: dcmf_attrs.simps)
  show "rsu_get_max_retry_count_linux os u b w \<noteq> None"
    using get_devattr_defined [OF n(2), of "chars ''max_retry''" os u "kernel w"]
    by (auto simp: rsu_get_max_retry_count_linux_def Let_def chars_def)
qed

section \<open>Logging\<close>

text \<open>Logging to a file that has been closed.\<close>

definition log_gone :: "'k linux \<Rightarrow> bool" where
  "log_gone w \<longleftrightarrow> rsu_log_type (log_state w) = RSU_FILE \<and> RSU_log_file (log_state w) = None"

lemma exit_log_gone:
  assumes "librsu_exit (linux_services os crc j) l = Some l1" "ctx_state l = initialized"
    "rsu_log_type (log_state (lib_world l)) = RSU_FILE"
  shows "log_gone (lib_world l1) \<and> lib_start l1"
proof -
  obtain p m where p: "rsu_qspi_close (plat_database l) = Some p"
    and m: "librsu_cfg_reset (linux_services os crc j) (l\<lparr>ctx_state := in_progress, ctx_mutex := MUTEX_NONE, plat_database := p, hl_set := False\<rparr>) = Some m"
    and l1: "l1 = m\<lparr>ctx_state := un_initialized\<rparr>"
    using assms(1,2) by (auto simp: librsu_exit_def Let_def bind_splits split: if_splits)
  have "p = DB_NULL" using p by (auto simp: rsu_qspi_close_def split: db_ptr.splits)
  then show ?thesis using m assms(3)
    by (auto simp: l1 librsu_cfg_reset_def linux_services_def log_gone_def lib_start_def RSU_logging_exit_linux_def bind_splits
        plat_filesys_terminate_def plat_mbox_terminate_def plat_qspi_terminate_def misc_terminate_linux_def split: option.splits)
qed

lemma log_gone_exit:
  assumes "log_gone (lib_world l)" "ctx_state l = initialized" shows "librsu_exit (linux_services os crc j) l = None"
proof -
  have "librsu_cfg_reset (linux_services os crc j) t = None" if "lib_world t = lib_world l" for t
    using that assms(1)
    by (auto simp: librsu_cfg_reset_def linux_services_def log_gone_def RSU_logging_exit_linux_def
        plat_filesys_terminate_def plat_mbox_terminate_def plat_qspi_terminate_def misc_terminate_linux_def split: option.splits)
  then show ?thesis using assms(2) by (auto simp: librsu_exit_def Let_def Option.bind_eq_None_conv)
qed

end
