(* ===== verification/Rsu_Linux_Example.thy ===== *)
theory Rsu_Linux_Example
  imports Rsu_Linux_Lib
begin

text \<open>
  A Linux system that behaves as its documentation says, on which the properties of the platform are
  applied: its device holds its content in memory and reads and writes at most 1024 bytes at a time, its
  files are lists of lines. The library starts on it.
\<close>

section \<open>A device in memory\<close>

record sim =
  s_mem :: "int \<Rightarrow> byte"
  s_pos :: int
  s_files :: "byte list \<Rightarrow> byte list list"
  s_path :: "byte list"
  s_lines :: "byte list list"

abbreviation (input) SIM_SIZE :: int where "SIM_SIZE \<equiv> 102400"

definition sim_chunk :: "sim \<Rightarrow> nat \<Rightarrow> nat" where
  "sim_chunk k n = min (min n 1024) (nat (SIM_SIZE - s_pos k))"

definition sim_os :: "sim os" where
  "sim_os = \<lparr>os_malloc = (\<lambda>k n. (Some (replicate n 0), k)), os_open = (\<lambda>k f. (3, k)), os_close = (\<lambda>k fd. k),
     os_lseek = (\<lambda>k fd off. if 0 \<le> off then (off, k\<lparr>s_pos := off\<rparr>) else (- 1, k)),
     os_read = (\<lambda>k fd n. let c = sim_chunk k n in (int c, region (s_mem k) (s_pos k) c, k\<lparr>s_pos := s_pos k + int c\<rparr>)),
     os_write = (\<lambda>k fd bs. let c = sim_chunk k (length bs); p = s_pos k in (int c,
       k\<lparr>s_mem := (\<lambda>a. if p \<le> a \<and> a < p + int c then s_mem k a AND bs ! nat (a - p) else s_mem k a), s_pos := p + int c\<rparr>)),
     os_memerase = (\<lambda>k fd s l. (0, k\<lparr>s_mem := (\<lambda>a. if uint s \<le> a \<and> a < uint s + uint l then 0xFF else s_mem k a)\<rparr>)),
     os_memgetinfo = (\<lambda>k fd. (0, \<lparr>erasesize = 4096\<rparr>, k)), os_fopen = (\<lambda>k f m. (Some 0, k\<lparr>s_path := f, s_lines := if m = ''r'' then s_files k f else []\<rparr>)),
     os_fgets = (\<lambda>k n h. case s_lines k of [] \<Rightarrow> (None, k)
       | l # ls \<Rightarrow> if n = 0 then (None, k) else (Some (take (n - 1) l), k\<lparr>s_lines := ls\<rparr>)),
     os_fputs = (\<lambda>k s h. (1, k\<lparr>s_files := (s_files k)(s_path k := [s])\<rparr>)),
     os_fread = (\<lambda>k n h. ([], k)), os_fwrite = (\<lambda>k bs h. (0, k)), os_fseek = (\<lambda>k h off v. (0, k)),
     os_ftruncate = (\<lambda>k h n. (0, k)), os_fclose = (\<lambda>k h. (0, k)), os_errno = (\<lambda>k. 0), os_set_errno = (\<lambda>k e. k),
     os_mutex_init = (\<lambda>k. (0, k)), os_mutex_lock = (\<lambda>k. (0, k)), os_mutex_trylock = (\<lambda>k. (0, k)),
     os_mutex_timedlock = (\<lambda>k t. (0, k)), os_mutex_unlock = (\<lambda>k. (0, k)), os_mutex_destroy = (\<lambda>k. (0, k))\<rparr>"

lemma sim_chunk_end: "sim_chunk k n = 0 \<Longrightarrow> n = 0 \<or> SIM_SIZE \<le> s_pos k"
  by (auto simp: sim_chunk_def min_def split: if_splits)

lemma sim_program:
  assumes "c \<le> length bs" "programmable (region m p c) (take c bs)"
  shows "region (\<lambda>a. if p \<le> a \<and> a < p + int c then m a AND bs ! nat (a - p) else m a) p c = take c bs"
  using assms by (intro nth_equalityI) (auto simp: programmable_def list_all2_conv_all_nth)

interpretation sim: linux_platform sim_os s_mem "\<lambda>k fd. s_pos k" SIM_SIZE crc j for crc j
proof (unfold_locales, goal_cases)
  case (7 k fd n bs k')
  then show ?case using sim_chunk_end [of k n] by (auto simp: sim_os_def Let_def)
next
  case (9 k fd bs r k')
  have c: "sim_chunk k (length bs) \<le> length bs" by (simp add: sim_chunk_def)
  show ?case using 9 c sim_program [OF c] by (auto simp: sim_os_def Let_def)
next
  case (10 k fd bs k')
  then show ?case using sim_chunk_end [of k "length bs"] by (cases bs) (auto simp: sim_os_def Let_def)
qed (auto simp: sim_os_def Let_def sim_chunk_def split: if_splits list.splits)

interpretation sim_lib: c_library sim_os
  by unfold_locales (auto simp: sim_os_def split: if_splits list.splits)

definition sim_start :: "sim linux" where
  "sim_start = \<lparr>dev_file = 3, dev_info = \<lparr>erasesize = 4096\<rparr>, qspi_file = DEVICE, mbox_dev = DEFAULT_RSU_DEV,
     misc_dev = DEFAULT_RSU_DEV,
     log_state = \<lparr>rsu_curr_loglevel = L_LOG_OFF, rsu_log_type = RSU_STDERR, RSU_log_file = None\<rparr>, kernel = \<lparr>s_mem = (\<lambda>a. 0xFF), s_pos = 0,
       s_files = (\<lambda>f. if f = DEFAULT_RSU_DEV @ [47] @ chars ''spt0_address'' then [decimal_digits 0]
         else if f = DEFAULT_RSU_DEV @ [47] @ chars ''spt1_address'' then [decimal_digits 32768 @ [10]] else []),
       s_path = [], s_lines = []\<rparr>\<rparr>"

section \<open>Starting the library\<close>

lemma c_str_print: "nl = [] \<or> nl = [10] \<Longrightarrow> c_str ((decimal_digits n @ nl) @ [0]) = Some (decimal_digits n @ nl)"
proof -
  assume nl: "nl = [] \<or> nl = [10]"
  have "0 \<notin> set (decimal_digits n @ nl)"
  proof
    assume "0 \<in> set (decimal_digits n @ nl)"
    then obtain d where "d < 10" "(0 :: byte) = of_nat (48 + d)" using nl decimal_digits_all [of 0 n] by fastforce
    then show False using digit_value_print [of d] by (simp add: digit_value_def)
  qed
  then show ?thesis by (auto simp: c_str_def takeWhile_eq_all_conv intro!: takeWhile_append2 [THEN trans])
qed

text \<open>An empty configuration, erased flash, and the attribute files of the start.\<close>

definition sim_good :: "sim linux \<Rightarrow> bool" where
  "sim_good w \<longleftrightarrow> mbox_dev w = DEFAULT_RSU_DEV \<and> s_files (kernel w) = s_files (kernel sim_start) \<and> s_mem (kernel w) = (\<lambda>a. 0xFF)"

lemma sim_config: "s_files (kernel sim_start) DEFAULT_CFG_FILENAME = []"
  by (simp add: sim_start_def DEFAULT_CFG_FILENAME_def DEFAULT_RSU_DEV_def chars_def)

lemma sim_files:
  "os_fopen sim_os k f ''r'' = (Some 0, k\<lparr>s_path := f, s_lines := s_files k f\<rparr>)"
  "s_lines k = [] \<Longrightarrow> os_fgets sim_os k n h = (None, k)" "os_fclose sim_os k h = (0, k)"
  "os_malloc sim_os k n = (Some (replicate n 0), k)" "os_errno sim_os k = 0" "os_set_errno sim_os k e = k"
  "os_open sim_os k f = (3, k)" "os_memgetinfo sim_os k fd = (0, \<lparr>erasesize = 4096\<rparr>, k)" "os_mutex_init sim_os k = (0, k)"
  by (simp_all add: sim_os_def)

lemma sim_read:
  assumes "s_mem (kernel w) = (\<lambda>a. 0xFF)" "dev_file w = 3" "0 \<le> off" "off + int (length buf) \<le> SIM_SIZE"
  shows "\<exists>k. plat_qspi_read sim_os w off buf = Some (0, replicate (length buf) 0xFF, w\<lparr>kernel := k\<rparr>) \<and> s_mem k = (\<lambda>a. 0xFF)"
proof -
  let ?k = "(kernel w)\<lparr>s_pos := off\<rparr>"
  have s: "os_lseek sim_os (kernel w) 3 off = (off, ?k)" using assms(3) by (simp add: sim_os_def)
  have l: "length buf < 2 ^ 32" "0 \<le> length buf" "off + int (length buf - 0) \<le> SIM_SIZE" using assms(3,4) by simp_all
  obtain x where x: "read_loop sim_os 3 0 0 buf ?k = Some x"
    using sim.read_loop_returns [of 0 0 buf ?k 3] l by (auto simp del: One_nat_def)
  have "sim_os = sim_os \<longrightarrow> fst x = 0"
    by (rule read_loop.raw_induct [where P = "\<lambda>os fd ptr cnt buf k x. os = sim_os \<longrightarrow> fst x = 0", OF _ x])
      (auto simp: sim_os_def Let_def split: if_splits)
  then obtain b k where xk: "x = (0, b, k)" by (cases x) auto
  have "s_mem k = (\<lambda>a. 0xFF)" "b = region (\<lambda>a. 0xFF) off (length buf)"
    using sim.read_loop_to [OF x] assms(1) l by (auto simp: sim.read_to_def xk)
  moreover have "region (\<lambda>a. 0xFF) off n = replicate n (0xFF :: byte)" for n by (rule nth_equalityI) simp_all
  ultimately show ?thesis using x s assms(2) by (intro exI [of _ k]) (simp add: plat_qspi_read_def xk)
qed

lemma sim_attr:
  assumes "length dev \<le> 119" "length attr \<le> 100" "s_files k (dev @ [47] @ attr) = [decimal_digits n @ nl]" "nl = [] \<or> nl = [10]"
    "length (decimal_digits n) \<le> 10"
  shows "\<exists>p l. get_devattr sim_os dev attr v k = Some (0, word_of_int (clamp (int n)), k\<lparr>s_path := p, s_lines := l\<rparr>)"
proof -
  have "strtol0 (decimal_digits n @ nl) = (clamp (int n), nl)" by (rule strtol0_print) (use assms(4) in auto)
  moreover have "os_fgets sim_os (k\<lparr>s_path := p, s_lines := [decimal_digits n @ nl]\<rparr>) 256 h =
      (Some (decimal_digits n @ nl), k\<lparr>s_path := p, s_lines := []\<rparr>)" for p h
    using assms(4,5) by (auto simp: sim_os_def)
  ultimately show ?thesis
    using assms(3) c_str_print [OF assms(4), of n] by (simp add: get_devattr_def attr_path_fits [OF assms(1,2)] sim_files) blast
qed

lemma sim_addresses:
  assumes "sim_good w"
  shows "\<exists>p l. plat_mbox_get_spt_addresses sim_os a w =
    Some (0, \<lparr>spt0_address = 0, spt1_address = 32768\<rparr>, w\<lparr>kernel := (kernel w)\<lparr>s_path := p, s_lines := l\<rparr>\<rparr>)"
proof -
  have d: "length DEFAULT_RSU_DEV \<le> 119" by (simp add: DEFAULT_RSU_DEV_def chars_def)
  have n: "length (decimal_digits 0) \<le> 10" "length (decimal_digits 32768) \<le> 10" by (simp_all add: decimal_digits.simps)
  have f: "s_files (kernel w) (DEFAULT_RSU_DEV @ [47] @ chars ''spt0_address'') = [decimal_digits 0 @ []]"
    "s_files (kernel w) (DEFAULT_RSU_DEV @ [47] @ chars ''spt1_address'') = [decimal_digits 32768 @ [10]]"
    using assms by (simp_all add: sim_good_def sim_start_def chars_def)
  obtain p l where g0: "get_devattr sim_os DEFAULT_RSU_DEV (chars ''spt0_address'') (spt0_address a) (kernel w) =
      Some (0, word_of_int (clamp (int 0)), (kernel w)\<lparr>s_path := p, s_lines := l\<rparr>)"
    using sim_attr [OF d _ f(1) _ n(1), of "spt0_address a"] by (auto simp: chars_def)
  obtain p' l' where g1: "get_devattr sim_os DEFAULT_RSU_DEV (chars ''spt1_address'') (spt1_address a) ((kernel w)\<lparr>s_path := p, s_lines := l\<rparr>) =
      Some (0, word_of_int (clamp (int 32768)), (kernel w)\<lparr>s_path := p', s_lines := l'\<rparr>)"
    using sim_attr [OF d _ _ _ n(2), of "chars ''spt1_address''" "(kernel w)\<lparr>s_path := p, s_lines := l\<rparr>" "[10]" "spt1_address a"] f(2)
    by (auto simp: chars_def)
  have "mbox_dev w = DEFAULT_RSU_DEV" using assms by (simp add: sim_good_def)
  then show ?thesis using g0 g1 by (auto simp: plat_mbox_get_spt_addresses_def clamp_def)
qed

lemma sim_read_spt:
  assumes "s_mem (kernel (world s)) = (\<lambda>a. 0xFF)" "dev_file (world s) = 3" "wf_spt (spt s)" "a = 0 \<or> a = 32768"
  shows "\<exists>k. read_spt (linux_hal sim_os crc j) a s =
      Some (0, s\<lparr>world := (world s)\<lparr>kernel := k\<rparr>, spt := spt_of_bytes (replicate 4096 0xFF)\<rparr>) \<and> s_mem k = (\<lambda>a. 0xFF)"
proof -
  have l: "length (spt_bytes (spt s)) = 4096" by (rule length_spt_bytes [OF assms(3)])
  have a: "0 \<le> sint a" "sint a + 4096 \<le> SIM_SIZE" using assms(4) by auto
  obtain k where "plat_qspi_read sim_os (world s) (sint a) (spt_bytes (spt s)) =
      Some (0, replicate 4096 0xFF, (world s)\<lparr>kernel := k\<rparr>)" "s_mem k = (\<lambda>a. 0xFF)"
    using sim_read [OF assms(1,2) a(1), of "spt_bytes (spt s)"] a(2) l by auto
  then show ?thesis using l by (intro exI [of _ k]) (simp add: read_spt_def read_dev_def size_of_int_def linux_hal_def)
qed

lemma erased_magic: "magic_number (spt_of_bytes (replicate 4096 0xFF)) = 0xFFFFFFFF"
proof -
  have "replicate 4 (0xFF :: byte) = [0xFF, 0xFF, 0xFF, 0xFF]" by (simp add: eval_nat_numeral)
  then show ?thesis by (simp add: spt_of_bytes_def u32_at_def chunk_def)
qed

text \<open>Both copies of the SPT are erased: the library starts, and says that the SPT is corrupted.\<close>

lemma sim_opens:
  assumes "sim_good (world s)" "dev_file (world s) = 3" "h = Some ((linux_hal sim_os crc j)\<lparr>spt_checksum_enabled := c\<rparr>)"
  shows "\<exists>t k. rsu_qspi_open h True DB_NULL s = Some (0, DB_LIVE, t) \<and> world t = (world s)\<lparr>kernel := k\<rparr> \<and> spt_corrupted t"
proof -
  let ?hal = "linux_hal sim_os crc j"
  have hal: "read_spt (?hal\<lparr>spt_checksum_enabled := c\<rparr>) = read_spt ?hal"
    by (intro ext) (simp add: read_spt_def read_dev_def)
  obtain p l where a: "plat_mbox_get_spt_addresses sim_os (j_addresses j) (world s) =
      Some (0, \<lparr>spt0_address = 0, spt1_address = 32768\<rparr>, (world s)\<lparr>kernel := (kernel (world s))\<lparr>s_path := p, s_lines := l\<rparr>\<rparr>)"
    using sim_addresses [OF assms(1)] by blast
  let ?w = "(world s)\<lparr>kernel := (kernel (world s))\<lparr>s_path := p, s_lines := l\<rparr>\<rparr>"
  let ?e = "spt_of_bytes (replicate 4096 0xFF)"
  have e: "wf_spt ?e" "magic_number ?e = 0xFFFFFFFF" using erased_magic by (simp_all add: wf_spt_of_bytes)
  have w: "s_mem (kernel ?w) = (\<lambda>a. 0xFF)" "dev_file ?w = 3" using assms(1,2) by (simp_all add: sim_good_def)
  define d where "d = fresh_database \<lparr>spt0_address = 0, spt1_address = 32768\<rparr> (replicate 4096 0) (replicate 4096 0) ?w"
  have d: "s_mem (kernel (world d)) = (\<lambda>a. 0xFF)" "dev_file (world d) = 3" "wf_spt (spt d)"
    using w by (simp_all add: d_def wf_spt_of_bytes)
  obtain k1 where r1: "read_spt ?hal 32768 d = Some (0, d\<lparr>world := ?w\<lparr>kernel := k1\<rparr>, spt := ?e\<rparr>)" "s_mem k1 = (\<lambda>a. 0xFF)"
    using sim_read_spt [OF d, of 32768 crc j] by (auto simp: d_def)
  define d1 where "d1 = d\<lparr>world := ?w\<lparr>kernel := k1\<rparr>, spt := ?e\<rparr>"
  have d1: "s_mem (kernel (world d1)) = (\<lambda>a. 0xFF)" "dev_file (world d1) = 3" "wf_spt (spt d1)"
    using w r1(2) e(1) by (simp_all add: d1_def)
  obtain k2 where r2: "read_spt ?hal 0 d1 = Some (0, d1\<lparr>world := (world d1)\<lparr>kernel := k2\<rparr>, spt := ?e\<rparr>)"
    using sim_read_spt [OF d1, of 0 crc j] by auto
  have s1: "spt d1 = ?e" by (simp add: d1_def)
  have "spt_addr d = \<lparr>spt0_address = 0, spt1_address = 32768\<rparr>" "spt_addr d1 = spt_addr d" by (simp_all add: d_def d1_def)
  then have "load_spt (?hal\<lparr>spt_checksum_enabled := c\<rparr>) d =
      Some (- EFAULT, d1\<lparr>world := (world d1)\<lparr>kernel := k2\<rparr>, spt := ?e, spt_corrupted := True\<rparr>)"
    using e(2) s1 by (simp add: load_spt_def hal r1(1) [folded d1_def] r2 spt_good_def)
  then have "open_tables (?hal\<lparr>spt_checksum_enabled := c\<rparr>) d = Some (0, DB_LIVE,
      d1\<lparr>world := (world d1)\<lparr>kernel := k2\<rparr>, spt := ?e, spt_corrupted := True, cpb_corrupted := True\<rparr>)"
    by (simp add: open_tables_def)
  moreover have "rsu_qspi_open h True DB_NULL s = open_tables (?hal\<lparr>spt_checksum_enabled := c\<rparr>) d"
    by (simp add: rsu_qspi_open_def assms(3) ops_malloc_def linux_hal_def on_kernel_def sim_files answered_def a d_def)
  ultimately show ?thesis by (auto simp: d1_def)
qed

definition sim_lib_off :: "sim linux lib" where
  "sim_lib_off = \<lparr>ctx_state = un_initialized, ctx_mutex = MUTEX_NONE, hl_set = False, ll_intf = None, plat_database = DB_NULL,
     core = \<lparr>cb_datafile = None, cb_buffer = None, cb_buffer_togo = 0,
       db = fresh_database \<lparr>spt0_address = 0, spt1_address = 0\<rparr> [] [] sim_start\<rparr>\<rparr>"

lemma sim_starts:
  assumes "lib_start l" "sim_good (lib_world l)"
  shows "\<exists>l'. librsu_init (linux_services sim_os crc j) junk None l = Some (0, l') \<and>
    log_state (lib_world l') = log_state (lib_world l) \<and> ctx_state l' = initialized"
proof -
  let ?pl = "linux_services sim_os crc j" and ?c = DEFAULT_CFG_FILENAME
  have st: "ctx_state l = un_initialized" "plat_database l = DB_NULL" "\<not> hl_set l" "ll_intf l = None"
    using assms(1) by (simp_all add: lib_start_def)
  have f: "s_files (kernel (lib_world l)) ?c = []" using assms(2) sim_config by (simp add: sim_good_def)
  define w where "w = (lib_world l)\<lparr>dev_file := 3, dev_info := \<lparr>erasesize = 4096\<rparr>,
    kernel := (kernel (lib_world l))\<lparr>s_path := ?c, s_lines := []\<rparr>\<rparr>"
  have w: "sim_good w" "dev_file w = 3" "log_state w = log_state (lib_world l)" using assms(2) by (simp_all add: w_def sim_good_def)
  have log: "RSU_logging_init ?pl (lib_world l) ?c = Some (0, (lib_world l)\<lparr>kernel := (kernel (lib_world l))\<lparr>s_path := ?c, s_lines := []\<rparr>\<rparr>)"
    using f by (simp add: linux_services_def RSU_logging_init_linux_def sim_files log_lines.simps)
  have set_up: "platform_setup ?pl ?c (lib_world l) = Some (0, w)"
    using f by (simp add: platform_setup_def log) (simp add: linux_services_def plat_filesys_init_linux_def plat_mbox_init_linux_def
        plat_qspi_init_linux_def plat_rsu_misc_init_linux_def sim_files rsu_dev_lines.simps root_lines.simps w_def Let_def)
  let ?h = "(linux_hal sim_os crc j)\<lparr>spt_checksum_enabled := 1\<rparr>"
  have h: "(linux_hal sim_os crc j)\<lparr>writeprotect := 0, spt_checksum_enabled := 1\<rparr> = ?h" by (simp add: linux_hal_def)
  define v where "v = w\<lparr>kernel := (kernel w)\<lparr>s_path := ?c, s_lines := []\<rparr>\<rparr>"
  have v: "sim_good v" "dev_file v = 3" "log_state v = log_state (lib_world l)" using w by (simp_all add: v_def sim_good_def)
  have fw: "s_files (kernel w) ?c = []" using f by (simp add: w_def)
  have open_c: "file_open (linux_hal sim_os crc j) w ?c RSU_FILE_READ = (Some 0, v)"
    using fw by (simp add: linux_hal_def on_kernel_def plat_filesys_open_def sim_files v_def)
  obtain r b where gets: "file_fgets (linux_hal sim_os crc j) v junk 0 = (r, b, v)" "r \<noteq> 0"
    by (cases "junk = []") (simp_all add: linux_hal_def into_buffer_def plat_filesys_fgets_def sim_files v_def)
  have close_c: "file_close (linux_hal sim_os crc j) v 0 = (0, v)" by (simp add: linux_hal_def on_kernel_def plat_filesys_close_def sim_files v_def)
  have cfg: "librsu_common_cfg_parse junk (Some ?c) (Some ((linux_hal sim_os crc j)\<lparr>writeprotect := 0, spt_checksum_enabled := 0\<rparr>)) w =
      Some (0, Some ?h, v)"
    using gets(2) by (simp add: librsu_common_cfg_parse_def h open_c cfg_lines.simps [of _ 0 junk] close_c gets(1) Let_def)
  obtain t k where o: "rsu_qspi_open (Some ?h) True DB_NULL (db (set_world (core l) v)) = Some (0, DB_LIVE, t)"
    "world t = v\<lparr>kernel := k\<rparr>"
    using sim_opens [of "db (set_world (core l) v)" "Some ?h" 1 crc j] v by auto
  have m: "rsu_mutex_init ?pl (lib_world l) = (0, lib_world l)" "rsu_malloc (linux_hal sim_os crc j) (lib_world l) n = (Some (replicate n 0), lib_world l)" for n
    by (simp_all add: linux_services_def linux_hal_def on_kernel_def rsu_mutex_init_linux_def sim_files)
  have t: "tables ?pl = linux_hal sim_os crc j" by (simp add: linux_services_def)
  show ?thesis using o v by (simp add: librsu_init_def librsu_cfg_parse_def st m set_up t cfg Let_def)
qed

text \<open>The library on the system in memory, as it logs to a file.\<close>

definition sim_lib_on :: "sim linux lib" where
  "sim_lib_on = sim_lib_off\<lparr>ctx_state := initialized, ctx_mutex := MUTEX_FREE, hl_set := True,
     ll_intf := Some (linux_hal sim_os (\<lambda>c b. 0) undefined), plat_database := DB_LIVE,
     core := set_world (core sim_lib_off) (sim_start\<lparr>log_state := \<lparr>rsu_curr_loglevel = L_LOG_ERR, rsu_log_type = RSU_FILE,
       RSU_log_file = Some 0\<rparr>\<rparr>)\<rparr>"

lemma sim_stops:
  obtains l where "librsu_exit (linux_services sim_os (\<lambda>c b. 0) undefined) sim_lib_on = Some l" "lib_start l" "sim_good (lib_world l)"
proof -
  have name: "set_name DEFAULT_RSU_DEV = DEFAULT_RSU_DEV" by (simp add: set_name_def DEFAULT_RSU_DEV_def chars_def)
  have "\<exists>l. librsu_exit (linux_services sim_os (\<lambda>c b. 0) undefined) sim_lib_on = Some l \<and> lib_start l \<and> sim_good (lib_world l)"
    by (simp add: librsu_exit_def librsu_cfg_reset_def rsu_qspi_close_def linux_services_def sim_lib_on_def RSU_logging_exit_linux_def
        plat_filesys_terminate_def plat_mbox_terminate_def plat_qspi_terminate_def misc_terminate_linux_def lib_start_def
        name sim_good_def sim_start_def sim_files sim_os_def Let_def sim_lib_off_def fresh_database_def)
  then show ?thesis using that by blast
qed

end
