(* ===== verification/Rsu_Linux_Props.thy ===== *)
theory Rsu_Linux_Props
  imports Rsu_Linux_Example
begin

text \<open>
  The properties of the Linux platform: its flash, the attribute files of the firmware's driver, and the
  library on it.
\<close>

section \<open>The flash contract\<close>

text \<open>C24: On a device that behaves as the MTD driver documents, where a read or write may be short, the
  Linux platform keeps the contract that every property of the tables and slots rests on: inside the
  device its three functions return, transfer what they were asked for and leave the rest of the
  device alone.\<close>

theorem linux_flash_contract:
  assumes "mtd_device os mem pos dsize"
  shows "sized_flash (on_device dsize (linux_hal os crc j)) (\<lambda>w. mem (kernel w)) (linux_dsize dsize)"
  by (rule linux_platform.contract [OF linux_platform.intro [OF assms]])

lemma sim_reads: "\<exists>b w. plat_qspi_read sim_os sim_start 96 (replicate 16 0) = Some (0, b, w)"
  by (simp add: plat_qspi_read_def sim_start_def sim_os_def Let_def sim_chunk_def read_loop.simps)

theorem linux_flash_contract_witness:
  "\<exists>w. plat_qspi_read sim_os sim_start 96 (replicate 16 0) = Some (0, replicate 16 0xFF, w)"
proof -
  obtain b w where r: "plat_qspi_read sim_os sim_start 96 (replicate 16 0) = Some (0, b, w)" using sim_reads by blast
  note s = linux_flash_contract [OF sim.mtd_device_axioms, of "\<lambda>c b. 0" undefined]
  have "qspi_read (on_device SIM_SIZE (linux_hal sim_os (\<lambda>c b. 0) undefined)) sim_start 96 (replicate 16 0) = Some (0, b, w)"
    using r by (simp add: on_device_def linux_hal_def)
  then have "b = region (s_mem (kernel sim_start)) 96 16"
    using nor_flash.read_data [OF sized_flash.axioms(1) [OF s]] by fastforce
  moreover have "region (s_mem (kernel sim_start)) 96 16 = replicate 16 0xFF"
    by (rule nth_equalityI) (simp_all add: sim_start_def)
  ultimately show ?thesis using r by auto
qed

text \<open>C28: A read that crosses the end of the device never returns, wherever it starts: on a device that
  behaves as the MTD driver documents, whose reads do not fail, give no more bytes than are left before the
  end and nothing at the end, the loop takes the 0 bytes for progress and goes on. Inside the device every
  read returns. (The driver stores no more bytes than it was asked for, so nothing else is undefined here.)\<close>

theorem linux_read_hangs:
  assumes "mtd_device os mem pos dsize"
    "\<And>k n r bs k'. os_read os k fd n = (r, bs, k') \<Longrightarrow> 0 \<le> r \<and> (r = 0 \<or> pos k fd + r \<le> dsize)"
    "os_lseek os (kernel w) fd off = (off, k)" "dev_file w = fd" "0 \<le> fd" "0 \<le> off" "length buf < 2 ^ 32"
  shows "(dsize < off + int (length buf) \<and> buf \<noteq> [] \<longrightarrow> plat_qspi_read os w off buf = None) \<and>
    (off + int (length buf) \<le> dsize \<longrightarrow> plat_qspi_read os w off buf \<noteq> None)"
proof -
  have p: "pos k fd = off" by (rule mtd_device.lseek_pos [OF assms(1,3,6)])
  have "plat_qspi_read os w off buf = None" if "dsize < off + int (length buf)" "buf \<noteq> []"
  proof -
    have "False" if "read_loop os fd 0 0 buf k = Some x" for x
      by (rule mtd_device.read_loop_hangs [OF assms(1,2) that])
        (use p \<open>dsize < off + int (length buf)\<close> \<open>buf \<noteq> []\<close> assms(7) in simp_all)
    then have "read_loop os fd 0 0 buf k = None" by (cases "read_loop os fd 0 0 buf k") auto
    then show ?thesis using assms(3-5) by (simp add: plat_qspi_read_def)
  qed
  moreover have "plat_qspi_read os w off buf \<noteq> None" if "off + int (length buf) \<le> dsize"
    using mtd_device.read_loop_returns [OF assms(1), of 0 0 buf k fd] p that assms(3-5,7)
    by (auto simp: plat_qspi_read_def simp del: One_nat_def)
  ultimately show ?thesis by blast
qed

theorem linux_read_hangs_witness:
  "plat_qspi_read sim_os sim_start 102000 (replicate 500 0) = None \<and> plat_qspi_read sim_os sim_start 101900 (replicate 500 0) \<noteq> None"
proof -
  have g: "0 \<le> r \<and> (r = 0 \<or> s_pos k + r \<le> SIM_SIZE)" if "os_read sim_os k 3 n = (r, bs, k')" for k n r bs k'
    using that by (auto simp: sim_os_def sim_chunk_def Let_def)
  have s: "os_lseek sim_os (kernel sim_start) 3 off = (off, (kernel sim_start)\<lparr>s_pos := off\<rparr>)" if "0 \<le> off" for off
    using that by (simp add: sim_os_def)
  have d: "dev_file sim_start = 3" by (simp add: sim_start_def)
  from linux_read_hangs [OF sim.mtd_device_axioms g s [of 102000] d, where buf = "replicate 500 0"]
    linux_read_hangs [OF sim.mtd_device_axioms g s [of 101900] d, where buf = "replicate 500 0"]
  show ?thesis by simp
qed

section \<open>Attributes\<close>

text \<open>C32: Reading an attribute file that holds what \<^verbatim>\<open>put_devattr\<close> prints for a number gives the number
  back below 2^63, and 2^63 - 1 from there on, where \<^verbatim>\<open>strtol\<close> saturates.\<close>

theorem attribute_roundtrip:
  assumes "os_malloc os k 256 = (Some b, k1)" "attr_path dev dev attr = Some path" "os_fopen os k1 path ''r'' = (Some f, k2)"
    "os_fgets os k2 256 f = (Some (decimal_digits (unat v) @ nl), k3)" "nl = [] \<or> nl = [10]"
  shows "get_devattr os dev attr old k = Some (0, if v < 2 ^ 63 then v else 2 ^ 63 - 1, snd (os_fclose os k3 f))"
proof -
  let ?s = "decimal_digits (unat v) @ nl"
  have c: "c_str (?s @ [0]) = Some ?s" by (rule c_str_print [OF assms(5)])
  have "fst (strtol0 ?s) = clamp (int (unat v))" using strtol0_print [of nl] assms(5) by auto
  moreover have "word_of_int (clamp (int (unat v))) = (if v < 2 ^ 63 then v else 2 ^ 63 - 1)"
  proof (cases "v < 2 ^ 63")
    case True
    then have "uint v < 2 ^ 63" by (simp add: word_less_def)
    moreover have "- (2 ^ 63) \<le> uint v" by (rule order_trans [OF _ uint_ge_0]) simp
    ultimately have "clamp (int (unat v)) = uint v" by (simp add: clamp_def)
    then show ?thesis using True by simp
  next
    case False
    then have "2 ^ 63 \<le> uint v" by (simp add: word_less_def)
    then have "clamp (int (unat v)) = 2 ^ 63 - 1" by (simp add: clamp_def)
    then show ?thesis using False by simp
  qed
  ultimately show ?thesis using assms c by (simp add: get_devattr_def)
qed

theorem attribute_roundtrip_witness:
  "\<exists>k. get_devattr sim_os DEFAULT_RSU_DEV (chars ''spt1_address'') 0 (kernel sim_start) = Some (0, 32768, k)"
proof -
  let ?k = "kernel sim_start" and ?f = "DEFAULT_RSU_DEV @ [47] @ chars ''spt1_address''"
  let ?o = "?k\<lparr>s_path := ?f, s_lines := [decimal_digits 32768 @ [10]]\<rparr>"
  have "attr_path DEFAULT_RSU_DEV DEFAULT_RSU_DEV (chars ''spt1_address'') = Some ?f"
    by (simp add: attr_path_def DEFAULT_RSU_DEV_def chars_def)
  moreover have "os_fopen sim_os ?k ?f ''r'' = (Some 0, ?o)" by (simp add: sim_os_def sim_start_def chars_def)
  moreover have "length (decimal_digits 32768) \<le> 10" by (simp add: decimal_digits.simps)
  then have "os_fgets sim_os ?o 256 0 = (Some (decimal_digits (unat (32768 :: u64)) @ [10]), ?o\<lparr>s_lines := []\<rparr>)"
    by (simp add: sim_os_def)
  ultimately have "get_devattr sim_os DEFAULT_RSU_DEV (chars ''spt1_address'') 0 ?k =
      Some (0, if (32768 :: u64) < 2 ^ 63 then 32768 else 2 ^ 63 - 1, snd (os_fclose sim_os (?o\<lparr>s_lines := []\<rparr>) 0))"
    by (intro attribute_roundtrip [of sim_os ?k "replicate 256 0" ?k _ _ _ 0 ?o 32768 "[10]"]) (simp_all add: sim_os_def)
  then show ?thesis by simp
qed

lemma attr_path_default:
  "length dev \<le> 119 \<Longrightarrow> length attr \<le> 100 \<Longrightarrow>
    attr_path DEFAULT_RSU_DEV dev attr = Some (DEFAULT_RSU_DEV @ [47] @ attr)"
  by (auto simp: attr_path_def DEFAULT_RSU_DEV_def chars_def Let_def)

lemma put_devattr_default:
  assumes "length dev \<le> 119" "length attr \<le> 100"
  shows "\<exists>r k'. put_devattr os DEFAULT_RSU_DEV attr v k = Some (r, k') \<and> put_devattr os dev attr v k = Some (r, k')"
proof -
  have d: "length DEFAULT_RSU_DEV \<le> 119" by (simp add: DEFAULT_RSU_DEV_def chars_def)
  have "put_devattr os dev attr v k = put_devattr os DEFAULT_RSU_DEV attr v k"
    by (simp add: put_devattr_def attr_path_default [OF assms] attr_path_default [OF d assms(2)] split: prod.split option.split)
  moreover have "put_devattr os DEFAULT_RSU_DEV attr v k \<noteq> None"
    by (auto simp: put_devattr_def attr_path_default [OF d assms(2)] split: prod.splits option.splits)
  ultimately show ?thesis by auto
qed

text \<open>C34: A request to the firmware goes to the default device, whatever device the configuration names:
  \<^verbatim>\<open>put_devattr\<close> does not use its parameter, while the queries read from the device configured.\<close>

theorem requests_go_to_default_device:
  assumes "length (mbox_dev w) \<le> 119" "d = w\<lparr>mbox_dev := DEFAULT_RSU_DEV\<rparr>"
  shows "(\<exists>r k. plat_mbox_send_rsu_update os addr w = Some (r, w\<lparr>kernel := k\<rparr>) \<and>
      plat_mbox_send_rsu_update os addr d = Some (r, d\<lparr>kernel := k\<rparr>)) \<and>
    (\<exists>r k. plat_mbox_rsu_notify os v w = Some (r, w\<lparr>kernel := k\<rparr>) \<and>
      plat_mbox_rsu_notify os v d = Some (r, d\<lparr>kernel := k\<rparr>))"
proof -
  have a: "length (chars ''reboot_image'') \<le> 100" "length (chars ''notify'') \<le> 100" by (simp_all add: chars_def)
  show ?thesis
    using put_devattr_default [OF assms(1) a(1), of os addr "kernel w"] put_devattr_default [OF assms(1) a(2), of os "ucast v" "kernel w"]
    by (auto simp: plat_mbox_send_rsu_update_def plat_mbox_rsu_notify_def assms(2))
qed

theorem requests_go_to_default_device_witness:
  "\<exists>k. plat_mbox_send_rsu_update sim_os 4096 (sim_start\<lparr>mbox_dev := chars ''/sys/rsu''\<rparr>) =
      Some (0, sim_start\<lparr>mbox_dev := chars ''/sys/rsu'', kernel := k\<rparr>) \<and>
    plat_mbox_send_rsu_update sim_os 4096 sim_start = Some (0, sim_start\<lparr>kernel := k\<rparr>)"
proof -
  let ?w = "sim_start\<lparr>mbox_dev := chars ''/sys/rsu''\<rparr>"
  have d: "sim_start = ?w\<lparr>mbox_dev := DEFAULT_RSU_DEV\<rparr>" by (simp add: sim_start_def)
  have "length (mbox_dev ?w) \<le> 119" by (simp add: chars_def)
  from requests_go_to_default_device [OF this d, of sim_os 4096] obtain r k where
    r: "plat_mbox_send_rsu_update sim_os 4096 ?w = Some (r, ?w\<lparr>kernel := k\<rparr>)"
      "plat_mbox_send_rsu_update sim_os 4096 sim_start = Some (r, sim_start\<lparr>kernel := k\<rparr>)" by blast
  have l: "length (mbox_dev sim_start) \<le> 119" "length (chars ''reboot_image'') \<le> 100"
    by (simp_all add: sim_start_def DEFAULT_RSU_DEV_def chars_def)
  have "r = 0" using r(2)
    by (simp add: plat_mbox_send_rsu_update_def put_devattr_def attr_path_default [OF l] bind_splits sim_os_def)
  then show ?thesis using r by auto
qed

section \<open>The library on Linux\<close>

lemma sim_off: "lib_start sim_lib_off" "sim_good (lib_world sim_lib_off)" "lib_world sim_lib_off = sim_start"
  by (simp_all add: lib_start_def sim_lib_off_def sim_good_def sim_start_def fresh_database_def)

text \<open>C30: In every state a client can bring the library into, on any platform, it is initialized or not, never
  in between; initialized, it has a platform and a database and its mutex is free; not initialized, it has
  neither the platform's tables nor a database; and stopping it, which leaves it not initialized, returns exactly
  when it was not initialized or the platform's log can be closed. A mutex can be created or the error is
  negative. The theorem is applied to the Linux platform.\<close>

theorem lib_state_invariant:
  assumes "lib_reachable pl l" "\<And>w r w'. rsu_mutex_init pl w = (r, w') \<Longrightarrow> r \<le> 0"
  shows "ctx_state l \<noteq> in_progress \<and>
    (ctx_state l = initialized \<longrightarrow> hl_set l \<and> plat_database l = DB_LIVE \<and> ll_intf l \<noteq> None \<and> ctx_mutex l = MUTEX_FREE) \<and>
    (ctx_state l = un_initialized \<longrightarrow> \<not> hl_set l \<and> plat_database l \<noteq> DB_LIVE \<and> ll_intf l = None) \<and>
    (librsu_exit pl l = None \<longleftrightarrow> ctx_state l = initialized \<and>
      RSU_logging_exit pl (misc_terminate pl (file_terminate pl (qspi_terminate pl (mbox_terminate pl (lib_world l))))) = None) \<and>
    (\<forall>l'. librsu_exit pl l = Some l' \<longrightarrow> ctx_state l' = un_initialized)"
proof -
  have i: "lib_inv l" using reachable_inv assms by blast
  then show ?thesis using librsu_exit_defined [OF i, of pl] librsu_exit_inv [of pl l]
    by (auto simp: lib_inv_def ready_def split: rsu_state.splits)
qed

theorem lib_state_invariant_witness:
  "\<exists>l l'. lib_reachable (linux_services sim_os (\<lambda>c b. 0) undefined) l \<and> ctx_state l = initialized \<and> plat_database l = DB_LIVE \<and>
    librsu_exit (linux_services sim_os (\<lambda>c b. 0) undefined) l = Some l' \<and> ctx_state l' = un_initialized"
proof -
  let ?pl = "linux_services sim_os (\<lambda>c b. 0) undefined"
  obtain l where l: "librsu_init ?pl [] None sim_lib_off = Some (0, l)" "ctx_state l = initialized"
    "log_state (lib_world l) = log_state sim_start"
    using sim_starts [OF sim_off(1,2)] unfolding sim_off(3) by blast
  have r: "lib_reachable ?pl l" by (rule reach_step [OF reach_start [OF sim_off(1)] step_init [OF l(1)]])
  have m: "q \<le> 0" if "rsu_mutex_init ?pl w = (q, w')" for w q w'
    using that by (simp add: linux_services_def on_kernel_def rsu_mutex_init_linux_def sim_files)
  have log: "RSU_logging_exit ?pl (misc_terminate ?pl (file_terminate ?pl (qspi_terminate ?pl (mbox_terminate ?pl (lib_world l))))) \<noteq> None"
    using l(3) by (simp add: linux_services_def RSU_logging_exit_linux_def sim_start_def plat_filesys_terminate_def
        plat_mbox_terminate_def plat_qspi_terminate_def misc_terminate_linux_def)
  have "plat_database l = DB_LIVE \<and> librsu_exit ?pl l \<noteq> None \<and> (\<forall>l'. librsu_exit ?pl l = Some l' \<longrightarrow> ctx_state l' = un_initialized)"
    using lib_state_invariant [OF r] m l(2) log by blast
  then show ?thesis using r l(2) by blast
qed

text \<open>C5: Whatever the configuration says and whatever the client calls, the names of the firmware's devices
  stay short enough: in every state the library can reach on Linux each query of the firmware is
  defined, its path fits the buffer of 256 characters.\<close>

theorem linux_queries_defined:
  assumes "c_library os" "typed_reachable names_fit (linux_services os crc j) l" "w = lib_world l"
  shows "length (mbox_dev w) \<le> 119 \<and> length (misc_dev w) \<le> 119 \<and>
    plat_mbox_get_rsu_status os d w \<noteq> None \<and> plat_mbox_get_spt_addresses os a w \<noteq> None \<and>
    rsu_get_dcmf_status_linux os u s w \<noteq> None \<and> rsu_get_dcmf_version_linux os u vs w \<noteq> None \<and>
    rsu_get_max_retry_count_linux os u b w \<noteq> None"
proof -
  have "lib_shaped names_fit l"
    by (rule typed_reachable_shaped [OF assms(2) c_library.services_keep_names [OF assms(1)]])
  then have n: "names_fit w" by (simp add: assms(3) lib_shaped_def)
  show ?thesis using n queries_defined [OF n] by (simp add: names_fit_def)
qed

theorem linux_queries_defined_witness:
  "\<exists>l. librsu_init (linux_services sim_os (\<lambda>c b. 0) undefined) [] None sim_lib_off = Some (0, l) \<and>
    plat_mbox_get_spt_addresses sim_os \<lparr>spt0_address = 0, spt1_address = 0\<rparr> (lib_world l) \<noteq> None"
proof -
  obtain l where l: "librsu_init (linux_services sim_os (\<lambda>c b. 0) undefined) [] None sim_lib_off = Some (0, l)"
    using sim_starts [OF sim_off(1,2)] by blast
  have "names_fit (lib_world sim_lib_off)"
    by (simp add: sim_off(3) names_fit_def sim_start_def DEFAULT_RSU_DEV_def chars_def)
  then have "typed_reachable names_fit (linux_services sim_os (\<lambda>c b. 0) undefined) l"
    by (rule typed_init [OF typed_start [OF sim_off(1)] l])
  from linux_queries_defined [OF sim_lib.c_library_axioms this refl] l show ?thesis by blast
qed

text \<open>C15: When the library stops while it logs to a file, it closes the file but goes on logging to files.
  Started again with a configuration that leaves the log as it is, it cannot be stopped: \<^verbatim>\<open>RSU_logging_exit\<close>
  then closes a NULL file.\<close>

theorem linux_restart_undefined:
  assumes "librsu_exit (linux_services os crc j) l = Some l1" "ctx_state l = initialized"
    "rsu_log_type (log_state (lib_world l)) = RSU_FILE"
    "librsu_init (linux_services os crc j) junk f l1 = Some (0, l2)" "log_state (lib_world l2) = log_state (lib_world l1)"
  shows "librsu_exit (linux_services os crc j) l2 = None"
proof -
  have "log_gone (lib_world l2)" using exit_log_gone [OF assms(1-3)] assms(5) by (simp add: log_gone_def)
  moreover have "ctx_state l2 = initialized"
    using assms(4) by (auto simp: librsu_init_def bind_splits Let_def split: if_splits prod.splits)
  ultimately show ?thesis by (rule log_gone_exit)
qed

theorem linux_restart_undefined_witness:
  "\<exists>l1 l2. librsu_exit (linux_services sim_os (\<lambda>c b. 0) undefined) sim_lib_on = Some l1 \<and>
    librsu_init (linux_services sim_os (\<lambda>c b. 0) undefined) [] None l1 = Some (0, l2) \<and>
    librsu_exit (linux_services sim_os (\<lambda>c b. 0) undefined) l2 = None"
proof -
  obtain l1 where l1: "librsu_exit (linux_services sim_os (\<lambda>c b. 0) undefined) sim_lib_on = Some l1" "lib_start l1"
    "sim_good (lib_world l1)" by (rule sim_stops)
  obtain l2 where l2: "librsu_init (linux_services sim_os (\<lambda>c b. 0) undefined) [] None l1 = Some (0, l2)"
    "log_state (lib_world l2) = log_state (lib_world l1)" using sim_starts [OF l1(2,3)] by blast
  have "ctx_state sim_lib_on = initialized" "rsu_log_type (log_state (lib_world sim_lib_on)) = RSU_FILE"
    by (simp_all add: sim_lib_on_def)
  from linux_restart_undefined [OF l1(1) this l2] l1(1) l2(1) show ?thesis by blast
qed

end
