(* ===== verification/Rsu_Client.thy ===== *)
theory Rsu_Client
  imports Rsu_Api_Ok Rsu_Text
begin

text \<open>
  The command line client \<^verbatim>\<open>linux-example/rsu_client.c\<close>: reading the options and calling the library
  for the one command among them. The input is what \<^verbatim>\<open>getopt_long\<close> returns, option by option; what
  the client prints is left out, except for the messages of \<^verbatim>\<open>error_exit\<close>.
\<close>

section \<open>Options\<close>

datatype rsu_clinet_command_code =
    COMMAND_NONE | COMMAND_SLOT_COUNT | COMMAND_SLOT_ATTR | COMMAND_SLOT_SIZE | COMMAND_SLOT_PRIORITY
  | COMMAND_SLOT_ENABLE | COMMAND_SLOT_DISABLE | COMMAND_SLOT_LOAD | COMMAND_FACTORY_LOAD | COMMAND_SLOT_ERASE
  | COMMAND_ADD_IMAGE | COMMAND_ADD_FACTORY_UPDATE_IMAGE | COMMAND_ADD_RAW_IMAGE | COMMAND_VERIFY_IMAGE
  | COMMAND_VERIFY_RAW_IMAGE | COMMAND_COPY_TO_FILE | COMMAND_STATUS_LOG | COMMAND_NOTIFY
  | COMMAND_CLEAR_ERROR_STATUS | COMMAND_RESET_RETRY_COUNTER | COMMAND_DISPLAY_DCMF_VERSION
  | COMMAND_DISPLAY_DCMF_STATUS | COMMAND_DISPLAY_MAX_RETRY | COMMAND_SLOT_CREATE | COMMAND_SLOT_DELETE
  | COMMAND_RESTORE_SPT | COMMAND_SAVE_SPT | COMMAND_CREATE_EMPTY_CPB | COMMAND_RESTORE_CPB | COMMAND_SAVE_CPB
  | COMMAND_CHECK_RUNNING_FACTORY

text \<open>The local variables of \<^verbatim>\<open>main\<close> that the options set.\<close>

record client_options =
  slot_num :: int
  slot_address :: int
  slot_size :: int
  slot_name :: "byte list"
  notify_value :: int
  command :: rsu_clinet_command_code
  filename :: "byte list option"

abbreviation (input) MAX_SLOT_NAME :: nat where "MAX_SLOT_NAME \<equiv> 15"

definition no_options :: client_options where
  "no_options = \<lparr>slot_num = - 1, slot_address = - 1, slot_size = - 1, slot_name = replicate (MAX_SLOT_NAME + 1) 0,
     notify_value = - 1, command = COMMAND_NONE, filename = None\<rparr>"

text \<open>How the client ends before it calls the library: with a message and status 1, or with its usage and 0.\<close>

datatype client_end = Error_exit string | Usage_exit

text \<open>A \<^verbatim>\<open>long\<close> stored in an \<^verbatim>\<open>int\<close>.\<close>

definition long_to_int :: "int \<Rightarrow> int" where
  "long_to_int v = sint (word_of_int v :: u32)"

text \<open>The three forms most options have.\<close>

definition one_command :: "rsu_clinet_command_code \<Rightarrow> client_options \<Rightarrow> client_end + client_options" where
  "one_command cmd opt =
     (if command opt \<noteq> COMMAND_NONE then Inl (Error_exit ''Only one command allowed'') else Inr (opt\<lparr>command := cmd\<rparr>))"

definition slot_command :: "rsu_clinet_command_code \<Rightarrow> byte list \<Rightarrow> client_options \<Rightarrow> client_end + client_options" where
  "slot_command cmd arg opt =
     (if command opt \<noteq> COMMAND_NONE then Inl (Error_exit ''Only one command allowed'')
      else if slot_num opt \<ge> 0 then Inl (Error_exit ''Slot number already set'')
      else Inr (opt\<lparr>command := cmd, slot_num := atoi arg\<rparr>))"

definition file_command :: "rsu_clinet_command_code \<Rightarrow> byte list \<Rightarrow> client_options \<Rightarrow> client_end + client_options" where
  "file_command cmd arg opt =
     (if command opt \<noteq> COMMAND_NONE then Inl (Error_exit ''Only one command allowed'')
      else Inr (opt\<lparr>command := cmd, filename := Some arg\<rparr>))"

text \<open>One round of the loop over the options, in two parts.\<close>

definition client_option_more :: "char \<Rightarrow> byte list \<Rightarrow> client_options \<Rightarrow> client_end + client_options" where
  "client_option_more c arg opt =
     (if c = CHR ''g'' then one_command COMMAND_STATUS_LOG opt
      else if c = CHR ''n'' then
        (if command opt \<noteq> COMMAND_NONE then Inl (Error_exit ''Only one command allowed'')
         else Inr (opt\<lparr>command := COMMAND_NOTIFY, notify_value := long_to_int (fst (strtol0 arg))\<rparr>))
      else if c = CHR ''C'' then one_command COMMAND_CLEAR_ERROR_STATUS opt
      else if c = CHR ''Z'' then one_command COMMAND_RESET_RETRY_COUNTER opt
      else if c = CHR ''m'' then one_command COMMAND_DISPLAY_DCMF_VERSION opt
      else if c = CHR ''y'' then one_command COMMAND_DISPLAY_DCMF_STATUS opt
      else if c = CHR ''x'' then one_command COMMAND_DISPLAY_MAX_RETRY opt
      else if c = CHR ''t'' then
        (if command opt \<noteq> COMMAND_NONE then Inl (Error_exit ''Only one command allowed'')
         else Inr (opt\<lparr>command := COMMAND_SLOT_CREATE,
           slot_name := take MAX_SLOT_NAME arg @ replicate (MAX_SLOT_NAME + 1 - min MAX_SLOT_NAME (length arg)) 0\<rparr>))
      else if c = CHR ''d'' then
        (if command opt \<noteq> COMMAND_NONE then Inl (Error_exit ''Only one command allowed'')
         else if slot_num opt \<ge> 0 then Inl (Error_exit ''Slot number already set'')
         else if snd (strtol0 arg) \<noteq> [] then Inl (Error_exit ''Invalid slot number'')
         else Inr (opt\<lparr>command := COMMAND_SLOT_DELETE, slot_num := long_to_int (fst (strtol0 arg))\<rparr>))
      else if c = CHR ''S'' then
        (if slot_address opt \<ge> 0 then Inl (Error_exit ''Slot address already set'')
         else if snd (strtol0 arg) \<noteq> [] then Inl (Error_exit ''Invalid slot address'')
         else Inr (opt\<lparr>slot_address := long_to_int (fst (strtol0 arg))\<rparr>))
      else if c = CHR ''L'' then
        (if slot_size opt \<ge> 0 then Inl (Error_exit ''Slot size already set'')
         else if snd (strtol0 arg) \<noteq> [] then Inl (Error_exit ''Invalid slot size'')
         else Inr (opt\<lparr>slot_size := long_to_int (fst (strtol0 arg))\<rparr>))
      else if c = CHR ''W'' then file_command COMMAND_RESTORE_SPT arg opt
      else if c = CHR ''X'' then file_command COMMAND_SAVE_SPT arg opt
      else if c = CHR ''b'' then one_command COMMAND_CREATE_EMPTY_CPB opt
      else if c = CHR ''B'' then file_command COMMAND_RESTORE_CPB arg opt
      else if c = CHR ''P'' then file_command COMMAND_SAVE_CPB arg opt
      else if c = CHR ''k'' then one_command COMMAND_CHECK_RUNNING_FACTORY opt
      else if c = CHR ''h'' then Inl Usage_exit
      else Inl (Error_exit ''Invalid argument: try -h for help''))"

definition client_option :: "char \<Rightarrow> byte list \<Rightarrow> client_options \<Rightarrow> client_end + client_options" where
  "client_option c arg opt =
     (if c = CHR ''c'' then one_command COMMAND_SLOT_COUNT opt
      else if c = CHR ''l'' then slot_command COMMAND_SLOT_ATTR arg opt
      else if c = CHR ''z'' then slot_command COMMAND_SLOT_SIZE arg opt
      else if c = CHR ''p'' then slot_command COMMAND_SLOT_PRIORITY arg opt
      else if c = CHR ''E'' then slot_command COMMAND_SLOT_ENABLE arg opt
      else if c = CHR ''D'' then slot_command COMMAND_SLOT_DISABLE arg opt
      else if c = CHR ''r'' then slot_command COMMAND_SLOT_LOAD arg opt
      else if c = CHR ''R'' then one_command COMMAND_FACTORY_LOAD opt
      else if c = CHR ''e'' then slot_command COMMAND_SLOT_ERASE arg opt
      else if c = CHR ''s'' then
        (if slot_num opt \<ge> 0 then Inl (Error_exit ''Slot number already set'') else Inr (opt\<lparr>slot_num := atoi arg\<rparr>))
      else if c = CHR ''a'' then file_command COMMAND_ADD_IMAGE arg opt
      else if c = CHR ''u'' then file_command COMMAND_ADD_FACTORY_UPDATE_IMAGE arg opt
      else if c = CHR ''A'' then file_command COMMAND_ADD_RAW_IMAGE arg opt
      else if c = CHR ''v'' then file_command COMMAND_VERIFY_IMAGE arg opt
      else if c = CHR ''V'' then file_command COMMAND_VERIFY_RAW_IMAGE arg opt
      else if c = CHR ''f'' then file_command COMMAND_COPY_TO_FILE arg opt
      else client_option_more c arg opt)"

fun client_options_loop :: "(char \<times> byte list) list \<Rightarrow> client_options \<Rightarrow> client_end + client_options" where
  "client_options_loop [] opt = Inr opt"
| "client_options_loop ((c, arg) # args) opt =
     (case client_option c arg opt of Inl e \<Rightarrow> Inl e | Inr opt \<Rightarrow> client_options_loop args opt)"

section \<open>Commands\<close>

text \<open>
  What a command does: it is refused, or one call of the library is made and its result tested.
  \<open>local_vars\<close> is what the memory holds that the client and the library hand over to be filled in, and
  whether \<^verbatim>\<open>malloc\<close> gives some.
\<close>

record local_vars =
  v_status :: mbox_status_info
  v_image :: rsu_image_state
  v_offset :: u64
  v_table :: "byte list"
  v_slot_info :: "rsu_slot_info option"
  v_status_log :: "mbox_status_info option"
  v_versions :: "u32 list"
  v_dcmf :: "int list"
  v_retry :: byte
  v_factory :: int

datatype 'w client_step = Refuse string | Call "'w api_call" "int \<Rightarrow> bool" string

definition need_slot :: "client_options \<Rightarrow> 'w client_step \<Rightarrow> 'w client_step" where
  "need_slot opt step = (if slot_num opt < 0 then Refuse ''Slot number must be set'' else step)"

definition need_no_slot :: "client_options \<Rightarrow> 'w client_step \<Rightarrow> 'w client_step" where
  "need_no_slot opt step = (if slot_num opt \<ge> 0 then Refuse ''Slot number should not be set'' else step)"

definition rsu_client_list_slot_attribute :: "local_vars \<Rightarrow> int \<Rightarrow> string \<Rightarrow> 'w client_step" where
  "rsu_client_list_slot_attribute v slot msg =
     (case v_slot_info v of None \<Rightarrow> Refuse msg | Some info \<Rightarrow> Call (Slot_get_info slot (Some info)) (\<lambda>r. r \<noteq> 0) msg)"

definition rsu_client_copy_status_log :: "local_vars \<Rightarrow> string \<Rightarrow> 'w client_step" where
  "rsu_client_copy_status_log v msg =
     (case v_status_log v of None \<Rightarrow> Refuse msg | Some info \<Rightarrow> Call (Status_log (Some info)) (\<lambda>r. r \<noteq> 0) msg)"

definition rsu_client_add_app_image :: "local_vars \<Rightarrow> byte list option \<Rightarrow> int \<Rightarrow> bool \<Rightarrow> 'w api_call" where
  "rsu_client_add_app_image v name slot raw =
     (if raw then Slot_program_file_raw (v_image v) slot name else Slot_program_file (v_image v) slot name)"

definition rsu_client_verify_data :: "local_vars \<Rightarrow> byte list option \<Rightarrow> int \<Rightarrow> bool \<Rightarrow> 'w api_call" where
  "rsu_client_verify_data v name slot raw =
     (if raw then Slot_verify_file_raw (v_image v) slot name else Slot_verify_file (v_image v) slot name)"

text \<open>The array \<open>slot_name\<close> ends with a NUL; the library reads the string before the first.\<close>

definition name_string :: "client_options \<Rightarrow> byte list" where
  "name_string opt = takeWhile (\<lambda>c. c \<noteq> 0) (slot_name opt)"

definition client_command_more :: "local_vars \<Rightarrow> client_options \<Rightarrow> 'w client_step" where
  "client_command_more v opt =
     (let slot = slot_num opt; file = filename opt; negative = (\<lambda>r. r < 0); failed = (\<lambda>r. r \<noteq> 0)
      in case command opt of
        COMMAND_STATUS_LOG \<Rightarrow> need_no_slot opt (rsu_client_copy_status_log v ''Failed to read status log'')
      | COMMAND_NOTIFY \<Rightarrow>
          (if notify_value opt < 0 then Refuse ''Notify value must be set''
           else Call (Notify (notify_value opt)) negative ''Failed to notify'')
      | COMMAND_CLEAR_ERROR_STATUS \<Rightarrow> Call (Clear_error_status (v_status v)) failed ''Failed to clear the error status''
      | COMMAND_RESET_RETRY_COUNTER \<Rightarrow> Call (Reset_retry_counter (v_status v)) failed ''Failed to reset the retry counter''
      | COMMAND_DISPLAY_DCMF_VERSION \<Rightarrow> Call (Dcmf_version (Some (v_versions v))) failed ''Failed to display the dcmf version''
      | COMMAND_DISPLAY_DCMF_STATUS \<Rightarrow> Call (Dcmf_status (Some (v_dcmf v))) failed ''Failed to display the dcmf status''
      | COMMAND_DISPLAY_MAX_RETRY \<Rightarrow> Call (Max_retry (Some (v_retry v))) failed ''Failed to display the max_retry parameter''
      | COMMAND_SLOT_CREATE \<Rightarrow>
          (if slot_address opt < 0 then Refuse ''Slot address value must be set''
           else if slot_size opt < 0 then Refuse ''Slot size value must be set''
           else Call (Slot_create (Some (name_string opt)) (word_of_int (slot_address opt)) (word_of_int (slot_size opt))) failed
             ''Failed to create the slot'')
      | COMMAND_SLOT_DELETE \<Rightarrow> Call (Slot_delete slot) failed ''Failed to delete the slot''
      | COMMAND_RESTORE_SPT \<Rightarrow> Call (Restore_spt (v_table v) file) failed ''Failed to restore spt from a file''
      | COMMAND_SAVE_SPT \<Rightarrow> Call (Save_spt file) failed ''Failed to save spt to a file''
      | COMMAND_CREATE_EMPTY_CPB \<Rightarrow> Call Create_empty_cpb failed ''Failed to create a empty cpb''
      | COMMAND_RESTORE_CPB \<Rightarrow> Call (Restore_cpb (v_table v) file) failed ''Failed to restore cpb''
      | COMMAND_SAVE_CPB \<Rightarrow> Call (Save_cpb file) failed ''Failed to save cpb''
      | COMMAND_CHECK_RUNNING_FACTORY \<Rightarrow>
          Call (Running_factory (v_offset v) (Some (v_factory v))) failed ''Failed to check if running factory image''
      | _ \<Rightarrow> Refuse ''No command: try -h for help'')"

definition client_command :: "local_vars \<Rightarrow> client_options \<Rightarrow> 'w client_step" where
  "client_command v opt =
     (let slot = slot_num opt; file = filename opt; negative = (\<lambda>r. r < 0); failed = (\<lambda>r. r \<noteq> 0)
      in case command opt of
        COMMAND_SLOT_COUNT \<Rightarrow> need_no_slot opt (Call Slot_count negative ''Failed to get number of slots'')
      | COMMAND_SLOT_ATTR \<Rightarrow> rsu_client_list_slot_attribute v slot ''Failed to get slot attributes''
      | COMMAND_SLOT_SIZE \<Rightarrow> Call (Slot_size slot) negative ''Failed to get slot size''
      | COMMAND_SLOT_PRIORITY \<Rightarrow> Call (Slot_priority slot) negative ''Failed to get slot priority''
      | COMMAND_SLOT_ENABLE \<Rightarrow> Call (Slot_enable slot) failed ''Failed to enable slot''
      | COMMAND_SLOT_DISABLE \<Rightarrow> Call (Slot_disable slot) failed ''Failed to disable slot''
      | COMMAND_SLOT_LOAD \<Rightarrow> Call (Slot_load_after_reboot (v_offset v) slot) failed ''Failed to request slot loaded''
      | COMMAND_FACTORY_LOAD \<Rightarrow>
          need_no_slot opt (Call (Slot_load_factory_after_reboot (v_offset v)) failed ''Failed to request factory image load'')
      | COMMAND_SLOT_ERASE \<Rightarrow> Call (Slot_erase slot) failed ''Failed to erase slot''
      | COMMAND_ADD_IMAGE \<Rightarrow> need_slot opt (Call (rsu_client_add_app_image v file slot False) negative ''Failed to add application image'')
      | COMMAND_ADD_FACTORY_UPDATE_IMAGE \<Rightarrow>
          need_slot opt (Call (Slot_program_factory_update_file (v_image v) slot file) negative ''Failed to add factory update image'')
      | COMMAND_ADD_RAW_IMAGE \<Rightarrow> need_slot opt (Call (rsu_client_add_app_image v file slot True) negative ''Failed to add application image'')
      | COMMAND_VERIFY_IMAGE \<Rightarrow> need_slot opt (Call (rsu_client_verify_data v file slot False) negative ''Failed to verify application image'')
      | COMMAND_VERIFY_RAW_IMAGE \<Rightarrow> need_slot opt (Call (rsu_client_verify_data v file slot True) negative ''Failed to verify application image'')
      | COMMAND_COPY_TO_FILE \<Rightarrow> need_slot opt (Call (Slot_copy_to_file slot file) negative ''Failed to copy app image to file'')
      | _ \<Rightarrow> client_command_more v opt)"

section \<open>The program\<close>

text \<open>Its exit status and the message of \<^verbatim>\<open>error_exit\<close>, with the library as the process leaves it.\<close>

definition error_exit :: "'w platform \<Rightarrow> string \<Rightarrow> 'w lib \<Rightarrow> (int \<times> string option \<times> 'w lib) option" where
  "error_exit pl msg l = do { l \<leftarrow> librsu_exit pl l; Some (1, Some msg, l) }"

definition client_main ::
    "'w platform \<Rightarrow> byte list \<Rightarrow> local_vars \<Rightarrow> nat \<Rightarrow> (char \<times> byte list) list \<Rightarrow> 'w lib \<Rightarrow> (int \<times> string option \<times> 'w lib) option" where
  "client_main pl junk v argc args l =
     (if argc = 1 then Some (1, None, l)
      else do {
        (ret, l) \<leftarrow> librsu_init pl junk (Some []) l;
        if ret \<noteq> 0 then Some (ret, None, l)
        else (case client_options_loop args no_options of
            Inl (Error_exit msg) \<Rightarrow> error_exit pl msg l
          | Inl Usage_exit \<Rightarrow> do { l \<leftarrow> librsu_exit pl l; Some (0, None, l) }
          | Inr opt \<Rightarrow>
              (case client_command v opt of
                 Refuse msg \<Rightarrow> error_exit pl msg l
               | Call c failed msg \<Rightarrow> do {
                   (ret, l) \<leftarrow> run_call c l;
                   if failed ret then error_exit pl msg l
                   else do { l \<leftarrow> librsu_exit pl l; Some (0, None, l) }
                 }))
      })"

end
