(* ===== verification/Rsu_Client_Props.thy ===== *)
theory Rsu_Client_Props
  imports Rsu_Client Rsu_Api_Example
begin

text \<open>
  The properties of the client: at most one command reaches the library, and the library is stopped
  when the client ends.
\<close>

section \<open>Options\<close>

text \<open>Every option but the slot, the address and the length is a command, ends the client, or is no option.\<close>

definition is_command :: "char \<Rightarrow> bool" where
  "is_command c \<longleftrightarrow> c \<notin> {CHR ''s'', CHR ''S'', CHR ''L''}"

lemma client_option_command:
  assumes "client_option c arg opt = Inr opt'"
  shows "if is_command c then command opt = COMMAND_NONE \<and> command opt' \<noteq> COMMAND_NONE else command opt' = command opt"
  using assms unfolding client_option_def client_option_more_def one_command_def slot_command_def file_command_def is_command_def
  by (simp split: if_splits) (auto simp: sum.inject)

lemma client_options_commands:
  "client_options_loop args opt = Inr opt' \<Longrightarrow>
    length (filter (\<lambda>(c, _). is_command c) args) \<le> (if command opt = COMMAND_NONE then 1 else 0)"
proof (induction args arbitrary: opt)
  case (Cons a args)
  obtain c arg where a: "a = (c, arg)" by fastforce
  obtain opt1 where s: "client_option c arg opt = Inr opt1" "client_options_loop args opt1 = Inr opt'"
    using Cons.prems by (auto simp: a split: sum.splits)
  show ?case using client_option_command [OF s(1)] Cons.IH [OF s(2)] by (auto simp: a split: if_splits)
qed simp

section \<open>The program\<close>

lemma init_failed:
  assumes "librsu_init pl junk fname l = Some (r, l')" "ctx_state l = un_initialized" "r \<noteq> 0"
  shows "ctx_state l' = un_initialized"
  using assms by (auto simp: librsu_init_def Let_def bind_splits split: prod.splits if_splits)

lemma client_main_init:
  fixes l :: "'w lib"
  assumes "client_main pl junk v argc args l = Some (s, msg, l')" "argc \<noteq> 1"
  obtains (failed) "librsu_init pl junk (Some []) l = Some (s, l')" "s \<noteq> 0"
    | (ended) l1 e where "librsu_init pl junk (Some []) l = Some (0, l1)" "client_options_loop args no_options = Inl e"
      "librsu_exit pl l1 = Some l'" "s = (case e of Error_exit m \<Rightarrow> 1 | Usage_exit \<Rightarrow> 0)"
    | (refused) l1 opt m where "librsu_init pl junk (Some []) l = Some (0, l1)" "client_options_loop args no_options = Inr opt"
      "client_command v opt = (Refuse m :: 'w client_step)" "librsu_exit pl l1 = Some l'" "s = 1"
    | (called) l1 opt c failed m r l2 where "librsu_init pl junk (Some []) l = Some (0, l1)"
      "client_options_loop args no_options = Inr opt" "client_command v opt = Call c failed m"
      "run_call c l1 = Some (r, l2)" "librsu_exit pl l2 = Some l'" "s = (if failed r then 1 else 0)"
proof -
  obtain r1 l1 where i: "librsu_init pl junk (Some []) l = Some (r1, l1)" using assms by (auto simp: client_main_def bind_splits)
  show thesis
  proof (cases "r1 = 0")
    case False
    then show thesis using assms i failed by (simp add: client_main_def)
  next
    case True
    note i = i [unfolded True]
    show thesis
    proof (cases "client_options_loop args no_options")
      case (Inl e)
      then show thesis using assms i ended [OF i Inl]
        by (cases e) (auto simp: client_main_def error_exit_def bind_splits)
    next
      case (Inr opt)
      show thesis
      proof (cases "client_command v opt :: 'w client_step")
        case (Refuse m)
        then show thesis using assms i Inr refused [OF i Inr Refuse] by (auto simp: client_main_def error_exit_def bind_splits)
      next
        case (Call c failed m)
        then obtain r l2 where "run_call c l1 = Some (r, l2)" using assms i Inr by (auto simp: client_main_def bind_splits)
        then show thesis using assms i Inr Call called [OF i Inr Call, of r l2]
          by (auto simp: client_main_def error_exit_def bind_splits split: if_splits)
      qed
    qed
  qed
qed

lemma ex_client_lib:
  "\<exists>l1 l'. librsu_init ex_platform [] (Some []) ex_lib_off = Some (0, l1) \<and> librsu_exit ex_platform l1 = Some l'"
proof -
  obtain l1 where i: "librsu_init ex_platform [] None ex_lib_off = Some (0, l1)" using ex_lib_starts by blast
  have "lib_reachable ex_platform ex_lib_off" by (rule reach_start) (simp add: lib_start_def ex_lib_off_def)
  then have "lib_reachable ex_platform l1" using step_init [OF i] by (rule reach_step)
  then have "lib_inv l1" by (rule reachable_inv) (simp add: ex_platform_def)
  moreover have "librsu_init ex_platform [] (Some []) ex_lib_off = librsu_init ex_platform [] None ex_lib_off"
    by (simp add: librsu_init_def)
  ultimately show ?thesis using librsu_exit_returns [of l1 ex_platform] i by (auto simp: ex_platform_def)
qed

text \<open>C12: With two commands on the command line the client calls nothing of the library but its start and its
  end: it fails, or shows its usage, and the tables and slots are as the start of the library left them.\<close>

theorem client_two_commands:
  assumes "client_main pl junk v argc args l = Some (s, msg, l')" "argc \<noteq> 1"
    "2 \<le> length (filter (\<lambda>(c, _). is_command c) args)"
  shows "\<exists>r l1. librsu_init pl junk (Some []) l = Some (r, l1) \<and> (if r = 0 then librsu_exit pl l1 = Some l' else l' = l1 \<and> s = r)"
  using assms(1,2)
proof (cases rule: client_main_init)
  case (refused l1 opt m)
  then show ?thesis by auto
next
  case (called l1 opt c failed m r l2)
  then show ?thesis using client_options_commands [of args no_options opt] assms(3) by (simp add: no_options_def)
qed auto

theorem client_two_commands_witness:
  "\<exists>l1 l'. client_main ex_platform [] (undefined :: local_vars) 3 [(CHR ''e'', [48]), (CHR ''c'', [])] ex_lib_off =
      Some (1, Some ''Only one command allowed'', l') \<and>
    librsu_init ex_platform [] (Some []) ex_lib_off = Some (0, l1) \<and> librsu_exit ex_platform l1 = Some l'"
proof -
  let ?args = "[(CHR ''e'', [48]), (CHR ''c'', [])] :: (char \<times> byte list) list"
  obtain l1 l' where i: "librsu_init ex_platform [] (Some []) ex_lib_off = Some (0, l1)" "librsu_exit ex_platform l1 = Some l'"
    using ex_client_lib by blast
  have o: "client_options_loop ?args no_options = Inl (Error_exit ''Only one command allowed'')"
    by (simp add: client_option_def client_option_more_def slot_command_def one_command_def no_options_def)
  have m: "client_main ex_platform [] (undefined :: local_vars) 3 ?args ex_lib_off = Some (1, Some ''Only one command allowed'', l')"
    by (simp add: client_main_def i o error_exit_def del: client_options_loop.simps)
  have "2 \<le> length (filter (\<lambda>(c, _). is_command c) ?args)" by (simp add: is_command_def)
  from client_two_commands [OF m _ this] m i show ?thesis by auto
qed

text \<open>C29: Started with the library not initialized, the client stops it whatever the options and whatever
  happens, and its status is 0 only if the library started and the call, if one was made, did not fail.\<close>

theorem client_stops_library:
  fixes l :: "'w lib"
  assumes "client_main pl junk v argc args l = Some (s, msg, l')" "lib_reachable pl l" "ctx_state l = un_initialized"
    "\<And>w r w'. rsu_mutex_init pl w = (r, w') \<Longrightarrow> r \<le> 0"
  shows "ctx_state l' = un_initialized \<and> lib_reachable pl l' \<and>
    (s = 0 \<longrightarrow> (\<exists>l1. librsu_init pl junk (Some []) l = Some (0, l1) \<and>
      (client_options_loop args no_options = Inl Usage_exit \<or>
       (\<exists>opt c failed m r l2. client_options_loop args no_options = Inr opt \<and> client_command v opt = (Call c failed m :: 'w client_step) \<and>
         run_call c l1 = Some (r, l2) \<and> \<not> failed r))))"
proof (cases "argc = 1")
  case True
  then show ?thesis using assms by (simp add: client_main_def)
next
  case False
  have start: "lib_reachable pl l1" if "librsu_init pl junk (Some []) l = Some (r, l1)" for r l1
    using reach_step [OF assms(2) step_init [OF that]] .
  have stop: "ctx_state l' = un_initialized \<and> lib_reachable pl l'" if "librsu_exit pl l2 = Some l'" "lib_reachable pl l2" for l2
  proof -
    have "lib_inv l2" using reachable_inv that(2) assms(4) by blast
    then show ?thesis using librsu_exit_inv [OF that(1)] reach_step [OF that(2) step_exit [OF that(1)]] by blast
  qed
  from assms(1) False show ?thesis
  proof (cases rule: client_main_init)
    case failed
    then show ?thesis using start init_failed assms(3) by blast
  next
    case (ended l1 e)
    then show ?thesis using start [OF ended(1)] stop by (auto split: client_end.splits)
  next
    case (refused l1 opt m)
    then show ?thesis using start [OF refused(1)] stop by auto
  next
    case (called l1 opt c failed m r l2)
    have "lib_reachable pl l2" by (rule reach_step [OF start [OF called(1)] step_call [OF called(4)]])
    then show ?thesis using stop [OF called(5)] called by (auto split: if_splits)
  qed
qed

theorem client_stops_library_witness:
  "\<exists>l'. client_main ex_platform [] (undefined :: local_vars) 2 [(CHR ''h'', [])] ex_lib_off = Some (0, None, l') \<and> ctx_state l' = un_initialized"
proof -
  obtain l1 l' where i: "librsu_init ex_platform [] (Some []) ex_lib_off = Some (0, l1)" "librsu_exit ex_platform l1 = Some l'"
    using ex_client_lib by blast
  have "client_options_loop [(CHR ''h'', [])] no_options = Inl Usage_exit" by (simp add: client_option_def client_option_more_def)
  then have m: "client_main ex_platform [] (undefined :: local_vars) 2 [(CHR ''h'', [])] ex_lib_off = Some (0, None, l')"
    by (simp add: client_main_def i del: client_options_loop.simps)
  have "lib_reachable ex_platform ex_lib_off" "ctx_state ex_lib_off = un_initialized"
    by (auto intro: reach_start simp: lib_start_def ex_lib_off_def)
  from client_stops_library [OF m this] m show ?thesis by (simp add: ex_platform_def)
qed

section \<open>Names\<close>

text \<open>
  The library gets the first 15 characters of the name that is given, so a create with a reserved name is
  refused, also when it is only reserved once it is cut.
\<close>

theorem client_create_name:
  assumes "client_options_loop [(CHR ''t'', nm), (CHR ''S'', decimal_digits n), (CHR ''L'', decimal_digits z)] no_options = Inr opt"
    "0 \<notin> set nm" "0 \<le> slot_address opt" "0 \<le> slot_size opt"
  shows "\<exists>a s. client_command v opt = Call (Slot_create (Some (take MAX_SLOT_NAME nm)) a s) (\<lambda>r. r \<noteq> 0) ''Failed to create the slot''"
proof -
  have z: "\<forall>c \<in> set (take MAX_SLOT_NAME nm). c \<noteq> 0" using assms(2) by (auto dest: in_set_takeD)
  have "takeWhile (\<lambda>c. c \<noteq> 0) (take MAX_SLOT_NAME nm @ replicate m 0) = take MAX_SLOT_NAME nm" for m
    using z by (simp add: takeWhile_append2)
  moreover have "slot_name opt = take MAX_SLOT_NAME nm @ replicate (MAX_SLOT_NAME + 1 - min MAX_SLOT_NAME (length nm)) 0 \<and>
      command opt = COMMAND_SLOT_CREATE"
    using assms(1) by (auto simp: client_option_def client_option_more_def no_options_def split: if_splits)
  ultimately have "name_string opt = take MAX_SLOT_NAME nm" "command opt = COMMAND_SLOT_CREATE" by (simp_all add: name_string_def)
  then show ?thesis using assms(3,4) by (simp add: client_command_def client_command_more_def)
qed

theorem reserved_name_refused:
  assumes "ctx_state l = initialized" "ready l hal" "\<not> spt_corrupted (lib_db l)" "librsu_misc_is_rsvd_name nm"
  shows "run_call (Slot_create (Some nm) a s) l = Some (- ENAME, l)"
  using assms by (simp add: rsu_slot_create_def if_initialized_def need_args_def locked_ready need_spt_def corrupted_spt_def)

section \<open>Addresses\<close>

text \<open>
  The address of a new slot is read with \<^verbatim>\<open>strtol\<close> into an \<^verbatim>\<open>int\<close>: only its low 32 bits are kept, as a signed
  number. An address from 2^31 to 2^32 - 1 is refused as if there was none, and one above is cut.
\<close>

theorem client_address_truncated:
  assumes "n < 2 ^ 63" "client_options_loop [(CHR ''t'', nm), (CHR ''S'', decimal_digits n), (CHR ''L'', decimal_digits z)] no_options = Inr opt"
  shows "slot_address opt = sint (of_nat n :: u32)"
proof -
  have s: "strtol0 (decimal_digits m) = (clamp (int m), [])" for m using strtol0_print [of "[]" m] by simp
  have "clamp (int n) = int n" using assms(1) by (simp add: clamp_def)
  then show ?thesis using assms(2)
    by (auto simp: client_option_def client_option_more_def no_options_def s long_to_int_def split: if_splits)
qed

end
