(* ===== verification/Spec2Isabelle.thy ===== *)
theory Spec2Isabelle
  imports Rsu_Backup_Props Rsu_Slot_Props Rsu_Api_Props Rsu_Call_Props Rsu_Shape_Props Rsu_Linux_Props Rsu_Client_Props
begin

text \<open>
  librsu, the Remote System Update library of Intel SoC FPGAs (\<^verbatim>\<open>altera-opensource/librsu\<close>).

  The flash of the device holds a table of partitions, the SPT, and a block of pointers to the images
  to boot, the CPB, each in two copies. The library reads, checks, repairs and changes the two tables;
  it programs images into the partitions that are slots, moves the pointers inside an image to the place
  of the slot, verifies slots and copies them; and it passes requests on to the firmware. A platform
  gives it flash, files, firmware and locks through tables of functions.

  \<^bold>\<open>Parts and theories\<close>, bottom up.

  \<^item> \<^verbatim>\<open>Rsu_Prelude\<close>: C types, error codes, buffers, little-endian integers, C strings, and the lemmas that
    all parts share. \<^verbatim>\<open>Rsu_Misc\<close>: \<^verbatim>\<open>src/libRSU_misc.c\<close> (bits, names, slot numbers).
  \<^item> \<^verbatim>\<open>Rsu_Platform\<close>: \<^verbatim>\<open>struct librsu_ll_intf\<close> of \<^verbatim>\<open>libRSU_ll_intf.h\<close> and the contracts of the flash as
    locales: \<open>nor_flash\<close> (what a read, write or erase that returns has done), \<open>sized_flash\<close> (inside the device
    they return) and \<open>reliable_flash\<close> (they do not fail).
  \<^item> \<^verbatim>\<open>Rsu_Mock_Qspi\<close>: the platform of the unit tests in \<^verbatim>\<open>unit-test/test1/dependency\<close>; all three locales are
    interpreted on it.
  \<^item> \<^verbatim>\<open>Rsu_Tables\<close>: the SPT, its bytes and the library's \<^verbatim>\<open>struct database\<close> (record \<open>ops\<close>; the CPB is kept as
    the 4096 bytes the C union is). \<^verbatim>\<open>Rsu_Dev\<close>, \<^verbatim>\<open>Rsu_Spt\<close>, \<^verbatim>\<open>Rsu_Cpb\<close>, \<^verbatim>\<open>Rsu_Partition\<close>, \<^verbatim>\<open>Rsu_Backup\<close>,
    \<^verbatim>\<open>Rsu_Open\<close>: the operations of \<^verbatim>\<open>src/libRSU_ops.c\<close>, a definition for each function and for each loop.
  \<^item> \<^verbatim>\<open>Rsu_Image\<close>, \<^verbatim>\<open>Rsu_Cb\<close>, \<^verbatim>\<open>Rsu_Cfg\<close>, \<^verbatim>\<open>Rsu_Lib\<close>: \<^verbatim>\<open>libRSU_image.c\<close>, \<^verbatim>\<open>libRSU_cb.c\<close>, \<^verbatim>\<open>libRSU_cfg.c\<close> with
    \<^verbatim>\<open>libRSU_utils.c\<close>, and the state of the library with \<^verbatim>\<open>librsu_init\<close> and \<^verbatim>\<open>librsu_exit\<close>.
    \<^verbatim>\<open>Rsu_Api\<close>, \<^verbatim>\<open>Rsu_Api_Data\<close>: every function of \<^verbatim>\<open>libRSU.c\<close>.
  \<^item> \<^verbatim>\<open>Rsu_Text\<close>, \<^verbatim>\<open>Rsu_Os\<close>, \<^verbatim>\<open>Rsu_Log\<close>, \<^verbatim>\<open>Rsu_Linux\<close>: numbers as text, and the platform of
    \<^verbatim>\<open>platform/linux-aarch64/dependency\<close> over a record of system calls (\<open>os\<close>): the mutex, the log, flash, files and
    the attribute files of the firmware's driver. \<^verbatim>\<open>Rsu_Linux_Lib\<close> puts them together (\<open>linux_services\<close>), as
    \<^verbatim>\<open>librsu_cfg_parse\<close> does. Two locales say what is asked of the system: \<open>mtd_device\<close>, from which
    \<^verbatim>\<open>Rsu_Linux_Ok\<close> shows by a \<open>sublocale\<close> that the platform is a \<open>sized_flash\<close>, and \<open>c_library\<close> (the lengths
    that \<^verbatim>\<open>fgets\<close>, \<^verbatim>\<open>fread\<close> and \<^verbatim>\<open>malloc\<close> promise). \<^verbatim>\<open>Rsu_Linux_Example\<close> interprets both on a system in
    memory and starts the library on it.
  \<^item> \<^verbatim>\<open>Rsu_Client\<close>: the command line client \<^verbatim>\<open>linux-example/rsu_client.c\<close>.

  \<^bold>\<open>Calls.\<close> The client and the configuration call the library (\<^verbatim>\<open>Rsu_Client\<close> runs \<open>run_call\<close>, one
  constructor of \<open>api_call\<close> for each function of the header); the library calls the operations on the database
  and these the functions of the platform. The state goes the same way: \<open>'w lib\<close> holds the statics of the
  library and the database \<open>'w ops\<close>, and in it the \<open>world\<close> of the platform. Where the C code reaches the
  operations through \<^verbatim>\<open>struct librsu_hl_intf\<close> the model calls them.

  \<^bold>\<open>Conventions.\<close> A function that may be undefined or not return is option-valued, and \<^const>\<open>None\<close> is
  that; an error is a value, as in C. A loop that counts is a recursion; one that ends with a file, a source
  of data or a device is a \<open>partial_function (option)\<close>, and that it returns is a theorem where the
  platform allows it (\<open>sized_flash\<close>, \<open>reliable_flash\<close>). There is no fuel. A local variable that C leaves
  indeterminate is a parameter (\<open>junk\<close>, \<open>st0\<close>). Sizes are those of a 64-bit target and \<^verbatim>\<open>char\<close> is unsigned.

  \<^bold>\<open>What is shown.\<close>
  \<^item> \<^verbatim>\<open>Rsu_Spt_Check\<close>, \<^verbatim>\<open>Rsu_Spt_Load\<close>, \<^verbatim>\<open>Rsu_Spt_Total\<close>, \<^verbatim>\<open>Rsu_Spt_Write\<close>, \<^verbatim>\<open>Rsu_Spt_Commit\<close>: the check of the SPT is
    a predicate on tables; a load repairs one copy from the other and touches nothing else; a change is written
    so that one copy is good at every moment.
  \<^item> \<^verbatim>\<open>Rsu_Cpb_Load\<close>, \<^verbatim>\<open>Rsu_Cpb_Write\<close>, \<^verbatim>\<open>Rsu_Cpb_Total\<close>, \<^verbatim>\<open>Rsu_Cpb_Frame\<close>, \<^verbatim>\<open>Rsu_Cpb_Mark\<close>: the same for the
    CPB. \<^verbatim>\<open>Rsu_Priority\<close>: the slots of the CPB implement a list, the operations on priorities its
    \<open>remove1\<close> and its append.
  \<^item> \<^verbatim>\<open>Rsu_Backup_Ok\<close>: what is saved can be restored. \<^verbatim>\<open>Rsu_Image_Ok\<close>, \<^verbatim>\<open>Rsu_Cb_Ok\<close>, \<^verbatim>\<open>Rsu_Cb_Loops\<close>,
    \<^verbatim>\<open>Rsu_Cb_Total\<close>, \<^verbatim>\<open>Rsu_Slot_Image\<close>, \<^verbatim>\<open>Rsu_Slot_Total\<close>: a slot that was programmed holds the image at its
    place and verifies, when the image has whole blocks. \<^verbatim>\<open>Rsu_Spt_Area\<close>: the flash that a change of the SPT touches.
  \<^item> \<^verbatim>\<open>Rsu_Open_Ok\<close>, \<^verbatim>\<open>Rsu_Api_Ok\<close>, \<^verbatim>\<open>Rsu_Calls\<close>, \<^verbatim>\<open>Rsu_Slot_Calls\<close>: the state machine of the library and its
    lock, and what the calls on slots do. \<^verbatim>\<open>Rsu_Shape\<close>, \<^verbatim>\<open>Rsu_Shape_Api\<close>: the arrays keep their
    sizes under every operation, and so does what the platform's functions keep of their own state, by an
    induction over what clients call; \<^verbatim>\<open>Rsu_Linux_Lib\<close> uses it for the names of the devices on Linux.
  \<^item> The properties are in \<^verbatim>\<open>Rsu_Flash_Props\<close>, \<^verbatim>\<open>Rsu_Backup_Props\<close>, \<^verbatim>\<open>Rsu_Slot_Props\<close>, \<^verbatim>\<open>Rsu_Api_Props\<close>,
    \<^verbatim>\<open>Rsu_Call_Props\<close>, \<^verbatim>\<open>Rsu_Shape_Props\<close>, \<^verbatim>\<open>Rsu_Linux_Props\<close> and \<^verbatim>\<open>Rsu_Client_Props\<close>; \<^verbatim>\<open>Rsu_Example\<close>,
    \<^verbatim>\<open>Rsu_Slot_Example\<close>, \<^verbatim>\<open>Rsu_Api_Example\<close> and \<^verbatim>\<open>Rsu_Linux_Example\<close> hold the systems they are applied to.

  \<^bold>\<open>Not modelled.\<close> The text of messages and what the client prints. Freeing memory, except where a freed
  pointer is used again (\<^verbatim>\<open>plat_database\<close>). The one-line wrappers of \<^verbatim>\<open>libRSU_OSAL.h\<close>; \<^verbatim>\<open>malloc\<close> and the
  \<^verbatim>\<open>crc32\<close> of zlib are parameters, and so are the system calls of Linux, the mutexes of pthread, the MTD
  driver and \<^verbatim>\<open>getopt_long\<close>. Threads: every call holds the one lock, so calls are a sequence. The Zephyr
  platform, whose code is not in the repository, and the test programs with the further mock platforms.
\<close>

end
